(* ===== verification/Prelude.thy ===== *)
theory Prelude
  imports Main "HOL-Library.Word" "HOL-Library.AList"
begin

section \<open>Prelude: machine types, the string library, result lists\<close>

text \<open>
  What the components share. The integer types of the source are words of the same width; sizes and
  lengths (\<open>usize\<close>) that the source only compares and increments are naturals. A Rust \<open>String\<close> or
  \<open>Path\<close> is the list of its bytes. A fallible function returns \<open>'e + 'a\<close>, the error on the left. A
  \<open>HashMap\<close> is an association list with distinct keys; its order is one of the iteration orders the
  hash map may take, and no theorem depends on which.

  The section on strings models the operations of the Rust standard library that the source calls on
  strings and paths, with the lemmas the components use.
\<close>

subsection \<open>Machine types\<close>

type_synonym u8 = "8 word"
type_synonym u16 = "16 word"
type_synonym u32 = "32 word"
type_synonym u64 = "64 word"
type_synonym i32 = "32 word"
type_synonym i64 = "64 word"

text \<open>The error numbers the daemons tell apart.\<close>

datatype errno = EAGAIN | ENOSPC | EINVAL | Errno nat

text \<open>A panic of the source (an index out of range, an \<open>unwrap\<close> of a failure) is a value too.\<close>

datatype 'a outcome = Returned 'a | Panicked

text \<open>
  The facts a component hands to its clients: \<open>frame\<close> for the fields an operation leaves alone,
  \<open>metrics_defs\<close> for the counter operations.
\<close>

named_theorems frame
named_theorems metrics_defs

subsection \<open>Lists of results\<close>

text \<open>\<open>iter().map(f).collect::<Result<Vec<_>, _>>()\<close>: the first error, or all the results.\<close>

fun collect_results :: "('a \<Rightarrow> 'e + 'b) \<Rightarrow> 'a list \<Rightarrow> 'e + 'b list" where
  "collect_results f [] = Inr []"
| "collect_results f (x # xs) =
     (case f x of Inl e \<Rightarrow> Inl e
      | Inr y \<Rightarrow> (case collect_results f xs of Inl e \<Rightarrow> Inl e | Inr ys \<Rightarrow> Inr (y # ys)))"

lemma collect_results_Inr_iff:
  "collect_results f xs = Inr ys \<longleftrightarrow> list_all2 (\<lambda>x y. f x = Inr y) xs ys"
proof (induction xs arbitrary: ys)
  case Nil
  then show ?case by auto
next
  case (Cons x xs)
  show ?case
  proof (cases "f x")
    case (Inl e)
    then show ?thesis by (auto simp: list_all2_Cons1)
  next
    case (Inr y)
    have "(\<exists>zs. collect_results f xs = Inr zs \<and> ys = y # zs) \<longleftrightarrow>
          collect_results f (x # xs) = Inr ys"
      using Inr by (auto split: sum.splits)
    with Inr Cons.IH show ?thesis by (auto simp: list_all2_Cons1)
  qed
qed

lemma collect_results_Inl_iff:
  "collect_results f xs = Inl e \<longleftrightarrow>
     (\<exists>pre x post. xs = pre @ x # post \<and> f x = Inl e \<and> (\<forall>y\<in>set pre. \<exists>z. f y = Inr z))"
proof (induction xs)
  case Nil
  then show ?case by simp
next
  case (Cons x xs)
  show ?case
  proof (cases "f x")
    case (Inl d)
    show ?thesis
    proof
      assume "collect_results f (x # xs) = Inl e"
      with Inl have "x # xs = [] @ x # xs \<and> f x = Inl e \<and> (\<forall>y\<in>set []. \<exists>z. f y = Inr z)"
        by simp
      then show "\<exists>pre y post. x # xs = pre @ y # post \<and> f y = Inl e
                   \<and> (\<forall>y\<in>set pre. \<exists>z. f y = Inr z)"
        by blast
    qed (use Inl in \<open>auto simp: Cons_eq_append_conv\<close>)
  next
    case (Inr z)
    then have "collect_results f (x # xs) = Inl e \<longleftrightarrow> collect_results f xs = Inl e"
      by (auto split: sum.splits)
    also have "\<dots> \<longleftrightarrow> (\<exists>pre y post. x # xs = pre @ y # post \<and> f y = Inl e
                       \<and> (\<forall>y\<in>set pre. \<exists>z. f y = Inr z))" (is "_ \<longleftrightarrow> ?R")
    proof
      assume "collect_results f xs = Inl e"
      then obtain pre y post where "xs = pre @ y # post" "f y = Inl e"
          "\<forall>y\<in>set pre. \<exists>z. f y = Inr z"
        unfolding Cons.IH by blast
      with Inr have "x # xs = (x # pre) @ y # post \<and> f y = Inl e
          \<and> (\<forall>y\<in>set (x # pre). \<exists>z. f y = Inr z)"
        by simp
      then show ?R by blast
    next
      assume ?R
      then obtain pre y post where *: "x # xs = pre @ y # post" "f y = Inl e"
          "\<forall>y\<in>set pre. \<exists>z. f y = Inr z"
        by blast
      with Inr obtain pre' where "pre = x # pre'" "xs = pre' @ y # post"
        by (cases pre) auto
      with * show "collect_results f xs = Inl e"
        unfolding Cons.IH by auto
    qed
    finally show ?thesis .
  qed
qed

lemma collect_results_length:
  "collect_results f xs = Inr ys \<Longrightarrow> length ys = length xs"
  unfolding collect_results_Inr_iff by (simp add: list_all2_lengthD)

lemma collect_results_set:
  "collect_results f xs = Inr ys \<Longrightarrow> y \<in> set ys \<Longrightarrow> \<exists>x\<in>set xs. f x = Inr y"
  by (induction xs arbitrary: ys) (fastforce split: sum.splits)+

lemma collect_results_append:
  "collect_results f (xs @ ys) =
     (case collect_results f xs of Inl e \<Rightarrow> Inl e
      | Inr as \<Rightarrow> (case collect_results f ys of Inl e \<Rightarrow> Inl e | Inr bs \<Rightarrow> Inr (as @ bs)))"
  by (induction xs) (auto split: sum.splits)

lemma in_set_tlD: "x \<in> set (tl xs) \<Longrightarrow> x \<in> set xs"
  by (cases xs) auto

subsection \<open>Strings\<close>

definition starts_with :: "string \<Rightarrow> string \<Rightarrow> bool" where
  "starts_with s p \<longleftrightarrow> take (length p) s = p"

definition strip_prefix :: "string \<Rightarrow> string \<Rightarrow> string option" where
  "strip_prefix s p = (if starts_with s p then Some (drop (length p) s) else None)"

definition ascii_lower :: "char \<Rightarrow> char" where
  "ascii_lower c = (let n = of_char c :: nat in if 65 \<le> n \<and> n \<le> 90 then char_of (n + 32) else c)"

text \<open>
  \<open>str::to_lowercase\<close> on bytes. The only character outside ASCII whose lower case is ASCII is the Kelvin
  sign (lower case k); the source only compares lower-cased strings with names that hold no k, so the
  comparison has the same outcome for every input.
\<close>

definition to_lowercase :: "string \<Rightarrow> string" where
  "to_lowercase s = map ascii_lower s"

definition is_ascii_digit :: "char \<Rightarrow> bool" where
  "is_ascii_digit c = (let n = of_char c :: nat in 48 \<le> n \<and> n \<le> 57)"

definition is_ascii_alphanumeric :: "char \<Rightarrow> bool" where
  "is_ascii_alphanumeric c = (let n = of_char c :: nat in
     (48 \<le> n \<and> n \<le> 57) \<or> (65 \<le> n \<and> n \<le> 90) \<or> (97 \<le> n \<and> n \<le> 122))"

text \<open>\<open>str::find\<close> and \<open>str::rfind\<close> with a character: the byte index of its first and last occurrence.\<close>

fun find_char :: "char \<Rightarrow> string \<Rightarrow> nat option" where
  "find_char c [] = None"
| "find_char c (x # xs) = (if x = c then Some 0 else map_option Suc (find_char c xs))"

fun rfind_char :: "char \<Rightarrow> string \<Rightarrow> nat option" where
  "rfind_char c [] = None"
| "rfind_char c (x # xs) =
     (case rfind_char c xs of Some i \<Rightarrow> Some (Suc i) | None \<Rightarrow> if x = c then Some 0 else None)"

lemma starts_with_append [simp]: "starts_with (p @ s) p"
  by (simp add: starts_with_def)

lemma starts_withE:
  assumes "starts_with s p"
  obtains t where "s = p @ t"
  using assms append_take_drop_id [of "length p" s] unfolding starts_with_def by metis

lemma strip_prefix_Some_iff: "strip_prefix s p = Some t \<longleftrightarrow> s = p @ t"
  by (auto simp: strip_prefix_def elim: starts_withE)

lemma find_char_None_iff: "find_char c s = None \<longleftrightarrow> c \<notin> set s"
  by (induction s) auto

lemma find_char_Some_iff:
  "find_char c s = Some i \<longleftrightarrow> i < length s \<and> s ! i = c \<and> c \<notin> set (take i s)"
proof (induction s arbitrary: i)
  case Nil
  then show ?case by simp
next
  case (Cons x xs)
  then show ?case by (cases i) auto
qed

lemma find_char_append [simp]:
  "c \<notin> set s \<Longrightarrow> find_char c (s @ c # t) = Some (length s)"
  by (induction s) auto

lemma rfind_char_None_iff: "rfind_char c s = None \<longleftrightarrow> c \<notin> set s"
  by (induction s) (auto split: option.splits)

lemma rfind_char_append [simp]:
  "c \<notin> set t \<Longrightarrow> rfind_char c (s @ c # t) = Some (length s)"
proof (induction s)
  case Nil
  then have "rfind_char c t = None" by (simp add: rfind_char_None_iff)
  then show ?case by simp
next
  case (Cons x s)
  then show ?case by simp
qed

lemma rfind_char_Some_nth: "rfind_char c s = Some i \<Longrightarrow> i < length s \<and> s ! i = c"
  by (induction s arbitrary: i) (auto split: option.splits if_splits)

subsection \<open>Decimal numbers\<close>

text \<open>The \<open>Display\<close> form of an unsigned integer and \<open>str::parse::<u32>\<close>, which takes one leading plus.\<close>

definition digit_char :: "nat \<Rightarrow> char" where
  "digit_char d = char_of (48 + d)"

lemma digit_char_simps [simp]:
  "digit_char 0 = CHR ''0''" "digit_char (Suc 0) = CHR ''1''" "digit_char 1 = CHR ''1''"
  "digit_char 2 = CHR ''2''" "digit_char 3 = CHR ''3''" "digit_char 4 = CHR ''4''"
  "digit_char 5 = CHR ''5''" "digit_char 6 = CHR ''6''" "digit_char 7 = CHR ''7''"
  "digit_char 8 = CHR ''8''" "digit_char 9 = CHR ''9''"
  by code_simp+

definition digit_val :: "char \<Rightarrow> nat" where
  "digit_val c = of_char c - 48"

fun show_nat :: "nat \<Rightarrow> string" where
  "show_nat n = (if n < 10 then [digit_char n] else show_nat (n div 10) @ [digit_char (n mod 10)])"

declare show_nat.simps [simp del]

definition show_u32 :: "u32 \<Rightarrow> string" where
  "show_u32 w = show_nat (unat w)"

text \<open>The \<open>Display\<close> form of an \<open>i32\<close>: a minus sign for a negative value.\<close>

definition show_i32 :: "i32 \<Rightarrow> string" where
  "show_i32 w = (if sint w < 0 then CHR ''-'' # show_nat (nat (- sint w)) else show_nat (nat (sint w)))"

definition digits_val :: "string \<Rightarrow> nat" where
  "digits_val s = foldl (\<lambda>acc c. acc * 10 + digit_val c) 0 s"

definition parse_unsigned :: "nat \<Rightarrow> string \<Rightarrow> nat option" where
  "parse_unsigned bound s =
     (let ds = (case s of c # cs \<Rightarrow> if c = CHR ''+'' then cs else s | [] \<Rightarrow> [])
      in if ds \<noteq> [] \<and> list_all is_ascii_digit ds \<and> digits_val ds < bound
         then Some (digits_val ds) else None)"

definition parse_u32 :: "string \<Rightarrow> u32 option" where
  "parse_u32 s = map_option of_nat (parse_unsigned (2 ^ 32) s)"

definition parse_u64 :: "string \<Rightarrow> u64 option" where
  "parse_u64 s = map_option of_nat (parse_unsigned (2 ^ 64) s)"

lemma of_char_digit_char [simp]: "d < 10 \<Longrightarrow> (of_char (digit_char d) :: nat) = 48 + d"
  by (simp add: digit_char_def of_char_of)

lemma is_ascii_digit_digit_char [simp]: "d < 10 \<Longrightarrow> is_ascii_digit (digit_char d)"
  by (simp add: is_ascii_digit_def)

lemma digit_val_digit_char [simp]: "d < 10 \<Longrightarrow> digit_val (digit_char d) = d"
  by (simp add: digit_val_def)

lemma show_nat_not_Nil [simp]: "show_nat n \<noteq> []"
  by (subst show_nat.simps) simp

lemma show_nat_digits: "list_all is_ascii_digit (show_nat n)"
proof (induction n rule: show_nat.induct)
  case (1 n)
  then show ?case by (cases "n < 10") (simp_all add: show_nat.simps [of n])
qed

lemma digits_val_show_nat [simp]: "digits_val (show_nat n) = n"
proof (induction n rule: show_nat.induct)
  case (1 n)
  then show ?case
    by (cases "n < 10") (simp_all add: show_nat.simps [of n] digits_val_def)
qed

lemma show_nat_inject [simp]: "show_nat m = show_nat n \<longleftrightarrow> m = n"
  using digits_val_show_nat by metis

lemma digit_no_sign: "is_ascii_digit c \<Longrightarrow> c \<noteq> CHR ''+''" "is_ascii_digit c \<Longrightarrow> c \<noteq> CHR ''/''"
  by (auto simp: is_ascii_digit_def)

lemma show_nat_no_slash: "CHR ''/'' \<notin> set (show_nat n)"
  using show_nat_digits [of n] digit_no_sign(2) by (auto simp: list_all_iff)

lemma parse_unsigned_show_nat: "n < b \<Longrightarrow> parse_unsigned b (show_nat n) = Some n"
proof -
  assume n: "n < b"
  obtain c cs where s: "show_nat n = c # cs"
    by (cases "show_nat n") auto
  with show_nat_digits [of n] have "c \<noteq> CHR ''+''"
    by (auto dest: digit_no_sign)
  then show ?thesis
    using n show_nat_digits [of n] digits_val_show_nat [of n]
    by (simp add: parse_unsigned_def s Let_def)
qed

lemma parse_show_u32 [simp]: "parse_u32 (show_u32 w) = Some w"
proof -
  have "unat w < 2 ^ 32" using unsigned_less [of w] by simp
  then show ?thesis by (simp add: parse_u32_def show_u32_def parse_unsigned_show_nat)
qed

lemma parse_unsigned_bound: "parse_unsigned b s = Some n \<Longrightarrow> n < b"
  by (auto simp: parse_unsigned_def Let_def split: if_splits)

subsection \<open>Paths\<close>

text \<open>
  \<open>Path::components\<close> on Unix. A leading slash is the root component; repeated slashes and trailing
  slashes vanish; a \<open>.\<close> component vanishes except at the start of a relative path. Two paths are equal
  (\<open>==\<close>) when their components are.
\<close>

fun split_on :: "char \<Rightarrow> string \<Rightarrow> string list" where
  "split_on c [] = [[]]"
| "split_on c (x # xs) =
     (if x = c then [] # split_on c xs
      else (case split_on c xs of [] \<Rightarrow> [[x]] | y # ys \<Rightarrow> (x # y) # ys))"

definition path_has_root :: "string \<Rightarrow> bool" where
  "path_has_root p = starts_with p ''/''"

definition path_components :: "string \<Rightarrow> string list" where
  "path_components p =
     (let parts = split_on (CHR ''/'') p;
          body = filter (\<lambda>s. s \<noteq> [] \<and> s \<noteq> ''.'')
      in if path_has_root p then ''/'' # body parts
         else (case parts of s # ss \<Rightarrow> (if s = ''.'' then [s] else body [s]) @ body ss | [] \<Rightarrow> []))"

definition path_eq :: "string \<Rightarrow> string \<Rightarrow> bool" where
  "path_eq p q \<longleftrightarrow> path_components p = path_components q"

lemma path_eq_refl [simp]: "path_eq p p"
  by (simp add: path_eq_def)

lemma path_eq_sym: "path_eq p q \<longleftrightarrow> path_eq q p"
  by (auto simp: path_eq_def)

lemma path_eq_trans: "path_eq p q \<Longrightarrow> path_eq q r \<Longrightarrow> path_eq p r"
  by (simp add: path_eq_def)

subsection \<open>Association lists as hash maps\<close>

text \<open>
  \<open>HashMap::insert\<close> is \<^const>\<open>AList.update\<close>, \<open>HashMap::remove\<close> is \<^const>\<open>AList.delete\<close> and
  \<open>HashMap::get\<close> is \<^const>\<open>map_of\<close>; the keys stay distinct.
\<close>

definition alist_wf :: "('k \<times> 'v) list \<Rightarrow> bool" where
  "alist_wf m \<longleftrightarrow> distinct (map fst m)"

lemma alist_wf_Nil [simp]: "alist_wf []"
  by (simp add: alist_wf_def)

lemma alist_wf_update [simp]: "alist_wf m \<Longrightarrow> alist_wf (AList.update k v m)"
  by (simp add: alist_wf_def distinct_update)

lemma alist_wf_delete [simp]: "alist_wf m \<Longrightarrow> alist_wf (AList.delete k m)"
  by (simp add: alist_wf_def distinct_delete)

lemma alist_size_dom: "alist_wf m \<Longrightarrow> length m = card (dom (map_of m))"
  by (metis alist_wf_def distinct_card dom_map_of_conv_image_fst image_set length_map)

lemma alist_length_update:
  "length (AList.update k v m) = (if k \<in> dom (map_of m) then length m else Suc (length m))"
  by (induction m) (auto split: if_splits)

lemma alist_length_delete_le [simp]: "length (AList.delete k m) \<le> length m"
  by (induction m) auto

lemma alist_in_set_lookup: "alist_wf m \<Longrightarrow> (k, v) \<in> set m \<longleftrightarrow> map_of m k = Some v"
  by (simp add: alist_wf_def)

lemma ucast_of_nat_32: "(ucast (of_nat n :: 64 word) :: 32 word) = of_nat n"
  by transfer simp

subsection \<open>Checked arithmetic\<close>

text \<open>
  Both daemons are built with \<open>overflow-checks\<close>: an addition of machine integers that does not fit panics.
  The sums of the metrics handlers are written with these two functions; the operations on atomics wrap.
\<close>

fun checked_sum :: "u64 \<Rightarrow> u64 list \<Rightarrow> u64 outcome" where
  "checked_sum acc [] = Returned acc"
| "checked_sum acc (x # xs) = (if unat acc + unat x < 2 ^ 64 then checked_sum (acc + x) xs else Panicked)"

fun checked_sum_signed :: "i32 \<Rightarrow> i32 list \<Rightarrow> i32 outcome" where
  "checked_sum_signed acc [] = Returned acc"
| "checked_sum_signed acc (x # xs) =
     (if - (2 ^ 31) \<le> sint acc + sint x \<and> sint acc + sint x < 2 ^ 31 then checked_sum_signed (acc + x) xs
      else Panicked)"

lemma checked_sum_eq:
  "checked_sum acc xs =
     (if unat acc + sum_list (map unat xs) < 2 ^ 64 then Returned (acc + sum_list xs) else Panicked)"
proof (induction xs arbitrary: acc)
  case Nil
  have "unat acc < 2 ^ 64" using unsigned_less [of acc] by simp
  then show ?case by simp
next
  case (Cons x xs)
  show ?case
  proof (cases "unat acc + unat x < 2 ^ 64")
    case True
    then have "unat (acc + x) = unat acc + unat x" by (simp add: unat_word_ariths)
    with True Cons.IH [of "acc + x"] show ?thesis by (simp add: add.assoc)
  qed simp
qed

lemma unat_sum_list: "sum_list (map unat xs) < 2 ^ 64 \<Longrightarrow> unat (sum_list xs :: u64) = sum_list (map unat xs)"
proof (induction xs)
  case (Cons x xs)
  then show ?case by (simp add: unat_word_ariths)
qed simp

subsection \<open>Lists updated at an index\<close>

lemma nth_list_update_if: "a < length xs \<Longrightarrow> xs[b := x] ! a = (if b = a then x else xs ! a)"
  by simp

lemma sum_list_map_update:
  "i < length xs \<Longrightarrow> sum_list (map f (xs[i := x])) + f (xs ! i) = sum_list (map f xs) + (f x :: nat)"
  by (induction xs arbitrary: i) (auto split: nat.splits)

end
