(* ===== verification/Policy.thy ===== *)
theory Policy
  imports Prelude
begin

section \<open>The policy engine of janusd\<close>

text \<open>
  \<open>janusd/src/policy.rs\<close>, with \<open>AccessResponse\<close> from \<open>janusd/src/audit.rs\<close>. The evaluator holds the
  compiled deny and allow patterns, the owner rule, the default response and a decision cache.

  Two packages are parameters. \<^emph>\<open>glob\<close>: \<open>glob_new\<close> compiles a pattern or gives the text of its error,
  \<open>glob_matches\<close> is \<open>Pattern::matches_path\<close>. \<^emph>\<open>lru\<close>: the operations of \<open>LruCache\<close>; what the evaluator
  relies on is the locale \<open>lru_contract\<close>, the documented behaviour of the package, discharged
  below for a reference cache that follows the documentation. Every caller builds its \<open>Path\<close> from a
  \<open>String\<close>, so \<open>to_string_lossy\<close> is the identity here. The \<open>RwLock\<close> around the cache is poisoned or
  not; a poisoned lock makes the evaluator skip the cache.
\<close>

subsection \<open>Data\<close>

datatype access_response = Allow | Deny | AuditResp

datatype policy_error = InvalidPattern string string

record 'p glob_api =
  glob_new :: "string \<Rightarrow> string + 'p"
  glob_matches :: "'p \<Rightarrow> string \<Rightarrow> bool"

record 'p compiled_pattern =
  original :: string
  pattern :: 'p

record cache_key =
  ck_path :: string
  ck_pid :: "i32 option"

record 'c lru_api =
  lru_new :: "nat \<Rightarrow> 'c"
  lru_peek :: "'c \<Rightarrow> cache_key \<Rightarrow> access_response option"
  lru_put :: "cache_key \<Rightarrow> access_response \<Rightarrow> 'c \<Rightarrow> 'c"
  lru_clear :: "'c \<Rightarrow> 'c"
  lru_len :: "'c \<Rightarrow> nat"

record 'c rw_lock =
  poisoned :: bool
  guarded :: 'c

record ('p, 'c) policy_evaluator =
  deny_patterns :: "'p compiled_pattern list"
  allow_patterns :: "'p compiled_pattern list"
  auto_allow_owner :: bool
  owner_pid :: "i32 option"
  default_response :: access_response
  cache :: "'c rw_lock option"

definition DEFAULT_CACHE_SIZE :: nat where
  "DEFAULT_CACHE_SIZE = 1024"

subsection \<open>Operations\<close>

definition compiled_pattern_new :: "'p glob_api \<Rightarrow> string \<Rightarrow> policy_error + 'p compiled_pattern" where
  "compiled_pattern_new G p =
     (case glob_new G p of
        Inr c \<Rightarrow> Inr \<lparr>original = p, pattern = c\<rparr>
      | Inl reason \<Rightarrow> Inl (InvalidPattern p reason))"

definition compiled_pattern_matches :: "'p glob_api \<Rightarrow> 'p compiled_pattern \<Rightarrow> string \<Rightarrow> bool" where
  "compiled_pattern_matches G cp path = glob_matches G (pattern cp) path"

definition cache_key_new :: "string \<Rightarrow> i32 option \<Rightarrow> cache_key" where
  "cache_key_new path pid = \<lparr>ck_path = path, ck_pid = pid\<rparr>"

definition rw_lock_new :: "'c \<Rightarrow> 'c rw_lock" where
  "rw_lock_new c = \<lparr>poisoned = False, guarded = c\<rparr>"

definition policy_evaluator_new :: "'c lru_api \<Rightarrow> ('p, 'c) policy_evaluator" where
  "policy_evaluator_new L =
     \<lparr>deny_patterns = [], allow_patterns = [], auto_allow_owner = False, owner_pid = None,
      default_response = Allow, cache = Some (rw_lock_new (lru_new L DEFAULT_CACHE_SIZE))\<rparr>"

definition with_config ::
  "'p glob_api \<Rightarrow> 'c lru_api \<Rightarrow> string list \<Rightarrow> string list \<Rightarrow> bool \<Rightarrow> i32 option \<Rightarrow> access_response
   \<Rightarrow> nat option \<Rightarrow> policy_error + ('p, 'c) policy_evaluator" where
  "with_config G L denies allows auto owner dflt cache_sz =
     (case collect_results (compiled_pattern_new G) denies of
        Inl e \<Rightarrow> Inl e
      | Inr deny \<Rightarrow>
          (case collect_results (compiled_pattern_new G) allows of
             Inl e \<Rightarrow> Inl e
           | Inr allow \<Rightarrow>
               Inr \<lparr>deny_patterns = deny, allow_patterns = allow, auto_allow_owner = auto,
                    owner_pid = owner, default_response = dflt,
                    cache = map_option (\<lambda>n. rw_lock_new (lru_new L (max n 1))) cache_sz\<rparr>))"

definition owner_allowed :: "('p, 'c) policy_evaluator \<Rightarrow> i32 option \<Rightarrow> bool" where
  "owner_allowed ev pid \<longleftrightarrow> auto_allow_owner ev \<and>
     (case (pid, owner_pid ev) of (Some a, Some b) \<Rightarrow> a = b | _ \<Rightarrow> False)"

definition evaluate_uncached ::
  "'p glob_api \<Rightarrow> ('p, 'c) policy_evaluator \<Rightarrow> string \<Rightarrow> i32 option \<Rightarrow> access_response" where
  "evaluate_uncached G ev path pid =
     (if list_ex (\<lambda>cp. compiled_pattern_matches G cp path) (deny_patterns ev) then Deny
      else if list_ex (\<lambda>cp. compiled_pattern_matches G cp path) (allow_patterns ev) then Allow
      else if owner_allowed ev pid then Allow
      else default_response ev)"

definition cache_lookup :: "'c lru_api \<Rightarrow> ('p, 'c) policy_evaluator \<Rightarrow> cache_key \<Rightarrow> access_response option" where
  "cache_lookup L ev k =
     (case cache ev of
        Some l \<Rightarrow> if poisoned l then None else lru_peek L (guarded l) k
      | None \<Rightarrow> None)"

definition cache_store ::
  "'c lru_api \<Rightarrow> cache_key \<Rightarrow> access_response \<Rightarrow> ('p, 'c) policy_evaluator \<Rightarrow> ('p, 'c) policy_evaluator" where
  "cache_store L k v ev =
     (case cache ev of
        Some l \<Rightarrow> if poisoned l then ev
                  else ev\<lparr>cache := Some (l\<lparr>guarded := lru_put L k v (guarded l)\<rparr>)\<rparr>
      | None \<Rightarrow> ev)"

definition evaluate ::
  "'p glob_api \<Rightarrow> 'c lru_api \<Rightarrow> ('p, 'c) policy_evaluator \<Rightarrow> string \<Rightarrow> i32 option
   \<Rightarrow> access_response \<times> ('p, 'c) policy_evaluator" where
  "evaluate G L ev path pid =
     (let k = cache_key_new path pid in
      case cache_lookup L ev k of
        Some cached \<Rightarrow> (cached, ev)
      | None \<Rightarrow> (let decision = evaluate_uncached G ev path pid
                 in (decision, cache_store L k decision ev)))"

definition clear_cache :: "'c lru_api \<Rightarrow> ('p, 'c) policy_evaluator \<Rightarrow> ('p, 'c) policy_evaluator" where
  "clear_cache L ev =
     (case cache ev of
        Some l \<Rightarrow> if poisoned l then ev else ev\<lparr>cache := Some (l\<lparr>guarded := lru_clear L (guarded l)\<rparr>)\<rparr>
      | None \<Rightarrow> ev)"

text \<open>
  \<open>update\<close> assigns field by field and returns at the first pattern that does not compile: the second
  component is the evaluator it leaves behind, on the error path too.
\<close>

definition update_deny ::
  "'p glob_api \<Rightarrow> string list option \<Rightarrow> ('p, 'c) policy_evaluator \<Rightarrow> policy_error + ('p, 'c) policy_evaluator" where
  "update_deny G denies ev =
     (case denies of
        None \<Rightarrow> Inr ev
      | Some d \<Rightarrow> (case collect_results (compiled_pattern_new G) d of
                     Inl e \<Rightarrow> Inl e
                   | Inr cps \<Rightarrow> Inr (ev\<lparr>deny_patterns := cps\<rparr>)))"

definition update_allow ::
  "'p glob_api \<Rightarrow> string list option \<Rightarrow> ('p, 'c) policy_evaluator \<Rightarrow> policy_error + ('p, 'c) policy_evaluator" where
  "update_allow G allows ev =
     (case allows of
        None \<Rightarrow> Inr ev
      | Some a \<Rightarrow> (case collect_results (compiled_pattern_new G) a of
                     Inl e \<Rightarrow> Inl e
                   | Inr cps \<Rightarrow> Inr (ev\<lparr>allow_patterns := cps\<rparr>)))"

definition update_rest ::
  "bool option \<Rightarrow> i32 option \<Rightarrow> access_response option \<Rightarrow> ('p, 'c) policy_evaluator
   \<Rightarrow> ('p, 'c) policy_evaluator" where
  "update_rest auto owner dflt ev =
     (let ev1 = (case auto of Some b \<Rightarrow> ev\<lparr>auto_allow_owner := b\<rparr> | None \<Rightarrow> ev);
          ev2 = (if owner \<noteq> None then ev1\<lparr>owner_pid := owner\<rparr> else ev1)
      in (case dflt of Some r \<Rightarrow> ev2\<lparr>default_response := r\<rparr> | None \<Rightarrow> ev2))"

definition policy_update ::
  "'p glob_api \<Rightarrow> 'c lru_api \<Rightarrow> string list option \<Rightarrow> string list option \<Rightarrow> bool option \<Rightarrow> i32 option
   \<Rightarrow> access_response option \<Rightarrow> ('p, 'c) policy_evaluator
   \<Rightarrow> (policy_error + unit) \<times> ('p, 'c) policy_evaluator" where
  "policy_update G L denies allows auto owner dflt ev =
     (case update_deny G denies ev of
        Inl e \<Rightarrow> (Inl e, ev)
      | Inr ev1 \<Rightarrow>
          (case update_allow G allows ev1 of
             Inl e \<Rightarrow> (Inl e, ev1)
           | Inr ev2 \<Rightarrow> (Inr (), clear_cache L (update_rest auto owner dflt ev2))))"

definition deny_pattern_count :: "('p, 'c) policy_evaluator \<Rightarrow> nat" where
  "deny_pattern_count ev = length (deny_patterns ev)"

definition allow_pattern_count :: "('p, 'c) policy_evaluator \<Rightarrow> nat" where
  "allow_pattern_count ev = length (allow_patterns ev)"

definition cache_size :: "'c lru_api \<Rightarrow> ('p, 'c) policy_evaluator \<Rightarrow> nat" where
  "cache_size L ev =
     (case cache ev of
        Some l \<Rightarrow> if poisoned l then 0 else lru_len L (guarded l)
      | None \<Rightarrow> 0)"

definition matches_any_pattern :: "'p glob_api \<Rightarrow> ('p, 'c) policy_evaluator \<Rightarrow> string \<Rightarrow> bool" where
  "matches_any_pattern G ev path \<longleftrightarrow>
     list_ex (\<lambda>cp. compiled_pattern_matches G cp path) (deny_patterns ev) \<or>
     list_ex (\<lambda>cp. compiled_pattern_matches G cp path) (allow_patterns ev)"


subsection \<open>The interface to the cache\<close>

text \<open>
  What the documentation of \<open>LruCache\<close> promises and the evaluator relies on: a new or cleared cache is
  empty, \<open>put\<close> makes its own key readable and never changes what another key reads (it may evict it),
  and a cache of capacity \<open>n\<close> (\<open>ok n c\<close>) holds at most \<open>n\<close> entries.
\<close>

locale lru_contract =
  fixes L :: "'c lru_api"
    and ok :: "nat \<Rightarrow> 'c \<Rightarrow> bool"
  assumes ok_new: "0 < n \<Longrightarrow> ok n (lru_new L n)"
    and peek_new: "0 < n \<Longrightarrow> lru_peek L (lru_new L n) k = None"
    and ok_put: "ok n c \<Longrightarrow> ok n (lru_put L k v c)"
    and peek_put: "ok n c \<Longrightarrow> lru_peek L (lru_put L k v c) k = Some v"
    and peek_put_other: "ok n c \<Longrightarrow> k' \<noteq> k \<Longrightarrow> lru_peek L (lru_put L k v c) k' = Some w
                          \<Longrightarrow> lru_peek L c k' = Some w"
    and ok_clear: "ok n c \<Longrightarrow> ok n (lru_clear L c)"
    and peek_clear: "ok n c \<Longrightarrow> lru_peek L (lru_clear L c) k = None"
    and len_clear: "ok n c \<Longrightarrow> lru_len L (lru_clear L c) = 0"
    and len_le: "ok n c \<Longrightarrow> lru_len L c \<le> n"

text \<open>
  A reference cache, as the documentation describes the package: the entries from the most to the
  least recently put, cut at the capacity.
\<close>

type_synonym ref_lru = "nat \<times> (cache_key \<times> access_response) list"

definition ref_lru :: "ref_lru lru_api" where
  "ref_lru =
     \<lparr>lru_new = (\<lambda>n. (n, [])),
      lru_peek = (\<lambda>c k. map_of (snd c) k),
      lru_put = (\<lambda>k v c. (fst c, take (fst c) ((k, v) # filter (\<lambda>p. fst p \<noteq> k) (snd c)))),
      lru_clear = (\<lambda>c. (fst c, [])),
      lru_len = (\<lambda>c. length (snd c))\<rparr>"

definition ref_lru_ok :: "nat \<Rightarrow> ref_lru \<Rightarrow> bool" where
  "ref_lru_ok n c \<longleftrightarrow> fst c = n \<and> 0 < n \<and> length (snd c) \<le> n \<and> distinct (map fst (snd c))"

lemma map_of_take_filter:
  assumes "distinct (map fst xs)" and "map_of (take n (filter (\<lambda>p. fst p \<noteq> k) xs)) k' = Some w"
  shows "map_of xs k' = Some w"
proof -
  have "(k', w) \<in> set xs"
    using map_of_SomeD [OF assms(2)] set_take_subset [of n "filter (\<lambda>p. fst p \<noteq> k) xs"] by auto
  with assms(1) show ?thesis by simp
qed

lemma distinct_fst_take_filter:
  "distinct (map fst xs) \<Longrightarrow> distinct (map fst (take n (filter P xs)))"
  by (simp add: take_map [symmetric] distinct_map_filter)

lemma key_not_in_take_filter: "k \<notin> fst ` set (take n (filter (\<lambda>p. fst p \<noteq> k) xs))"
  using set_take_subset [of n "filter (\<lambda>p. fst p \<noteq> k) xs"] by auto

interpretation ref_lru: lru_contract ref_lru ref_lru_ok
proof
  fix n c k v
  assume ok: "ref_lru_ok n c"
  then obtain m where m: "n = Suc m" by (auto simp: ref_lru_ok_def gr0_conv_Suc)
  show "ref_lru_ok n (lru_put ref_lru k v c)"
    using ok key_not_in_take_filter [of k m "snd c"]
    by (simp add: ref_lru_ok_def ref_lru_def m distinct_fst_take_filter image_iff)
  show "lru_peek ref_lru (lru_put ref_lru k v c) k = Some v"
    using ok by (simp add: ref_lru_ok_def ref_lru_def m)
next
  fix n c k k' v w
  assume "ref_lru_ok n c" "k' \<noteq> k" "lru_peek ref_lru (lru_put ref_lru k v c) k' = Some w"
  then show "lru_peek ref_lru c k' = Some w"
    using map_of_take_filter [of "snd c" "n - 1" k k' w]
    by (cases n) (auto simp: ref_lru_ok_def ref_lru_def)
qed (auto simp: ref_lru_ok_def ref_lru_def)

subsection \<open>Compilation\<close>

lemma compiled_pattern_new_Inl_iff:
  "compiled_pattern_new G p = Inl e \<longleftrightarrow> (\<exists>reason. glob_new G p = Inl reason \<and> e = InvalidPattern p reason)"
  by (auto simp: compiled_pattern_new_def split: sum.splits)

lemma compiled_pattern_new_Inr_iff:
  "(\<exists>z. compiled_pattern_new G p = Inr z) \<longleftrightarrow> (\<exists>c. glob_new G p = Inr c)"
  by (auto simp: compiled_pattern_new_def split: sum.splits)

subsection \<open>Coherence of the cache\<close>

definition cache_coherent ::
  "'p glob_api \<Rightarrow> 'c lru_api \<Rightarrow> (nat \<Rightarrow> 'c \<Rightarrow> bool) \<Rightarrow> ('p, 'c) policy_evaluator \<Rightarrow> bool" where
  "cache_coherent G L ok ev \<longleftrightarrow>
     (case cache ev of
        None \<Rightarrow> True
      | Some l \<Rightarrow> poisoned l \<or>
          ((\<exists>n. ok n (guarded l)) \<and>
           (\<forall>k v. lru_peek L (guarded l) k = Some v \<longrightarrow>
                  v = evaluate_uncached G ev (ck_path k) (ck_pid k))))"

lemma evaluate_uncached_cache [simp]:
  "evaluate_uncached G (ev\<lparr>cache := c\<rparr>) = evaluate_uncached G ev"
  by (simp add: evaluate_uncached_def owner_allowed_def fun_eq_iff)

lemma cache_key_fields [simp]:
  "ck_path (cache_key_new p q) = p" "ck_pid (cache_key_new p q) = q"
  by (simp_all add: cache_key_new_def)

lemma cache_key_new_eq_iff [simp]:
  "cache_key_new p q = cache_key_new p' q' \<longleftrightarrow> p = p' \<and> q = q'"
  by (auto simp: cache_key_new_def)

lemma cache_store_frame [frame, simp]:
  "deny_patterns (cache_store L k v ev) = deny_patterns ev"
  "allow_patterns (cache_store L k v ev) = allow_patterns ev"
  "evaluate_uncached G (cache_store L k v ev) = evaluate_uncached G ev"
  by (simp_all add: cache_store_def split: option.splits)

lemma clear_cache_frame [frame, simp]:
  "deny_patterns (clear_cache L ev) = deny_patterns ev"
  "allow_patterns (clear_cache L ev) = allow_patterns ev"
  "evaluate_uncached G (clear_cache L ev) = evaluate_uncached G ev"
  by (simp_all add: clear_cache_def split: option.splits)

lemma evaluate_frame [frame, simp]:
  "deny_patterns (snd (evaluate G L ev p q)) = deny_patterns ev"
  "allow_patterns (snd (evaluate G L ev p q)) = allow_patterns ev"
  "evaluate_uncached G (snd (evaluate G L ev p q)) = evaluate_uncached G ev"
  by (simp_all add: evaluate_def Let_def split: option.splits)

lemma update_deny_cache: "update_deny G ds ev = Inr ev' \<Longrightarrow> cache ev' = cache ev"
  by (auto simp: update_deny_def split: option.splits sum.splits)

lemma update_allow_cache: "update_allow G as ev = Inr ev' \<Longrightarrow> cache ev' = cache ev"
  by (auto simp: update_allow_def split: option.splits sum.splits)

lemma update_rest_cache [frame, simp]: "cache (update_rest auto owner dflt ev) = cache ev"
  by (simp add: update_rest_def Let_def split: option.splits)

context lru_contract
begin

lemma coherent_lookup:
  assumes "cache_coherent G L ok ev" and "cache_lookup L ev k = Some v"
  shows "v = evaluate_uncached G ev (ck_path k) (ck_pid k)"
  using assms by (auto simp: cache_coherent_def cache_lookup_def split: option.splits if_splits)

lemma evaluate_coherent_result:
  assumes "cache_coherent G L ok ev"
  shows "fst (evaluate G L ev p q) = evaluate_uncached G ev p q"
  using coherent_lookup [OF assms, of "cache_key_new p q"]
  by (auto simp: evaluate_def Let_def split: option.splits)

lemma coherent_cache_store:
  assumes coh: "cache_coherent G L ok ev"
    and v: "v = evaluate_uncached G ev (ck_path k) (ck_pid k)"
  shows "cache_coherent G L ok (cache_store L k v ev)"
proof (cases "cache ev")
  case None
  with coh show ?thesis by (simp add: cache_store_def)
next
  case (Some l)
  show ?thesis
  proof (cases "poisoned l")
    case True
    with Some coh show ?thesis by (simp add: cache_store_def)
  next
    case False
    with coh Some obtain n where n: "ok n (guarded l)"
      and c: "\<And>k v. lru_peek L (guarded l) k = Some v \<Longrightarrow> v = evaluate_uncached G ev (ck_path k) (ck_pid k)"
      by (auto simp: cache_coherent_def)
    have "w = evaluate_uncached G ev (ck_path k') (ck_pid k')"
      if "lru_peek L (lru_put L k v (guarded l)) k' = Some w" for k' w
      using that c peek_put_other [OF n, of k' k v w] peek_put [OF n, of k v] v
      by (cases "k' = k") auto
    with n False Some show ?thesis
      by (auto simp: cache_coherent_def cache_store_def intro: ok_put)
  qed
qed

lemma coherent_evaluate:
  "cache_coherent G L ok ev \<Longrightarrow> cache_coherent G L ok (snd (evaluate G L ev p q))"
  by (auto simp: evaluate_def Let_def intro!: coherent_cache_store split: option.splits)

lemma coherent_clear_cache:
  assumes "\<And>l. cache ev = Some l \<Longrightarrow> poisoned l \<or> (\<exists>n. ok n (guarded l))"
  shows "cache_coherent G L ok (clear_cache L ev)"
  using assms peek_clear ok_clear
  by (fastforce simp: cache_coherent_def clear_cache_def split: option.splits)

lemma coherent_new: "cache_coherent G L ok (policy_evaluator_new L)"
  by (auto simp: cache_coherent_def policy_evaluator_new_def rw_lock_new_def DEFAULT_CACHE_SIZE_def
      peek_new intro!: exI ok_new)

lemma coherent_with_config:
  assumes "with_config G L ds as auto owner dflt n = Inr ev"
  shows "cache_coherent G L ok ev"
proof -
  have "0 < max k (Suc 0)" for k by simp
  then have "\<exists>m. ok m (lru_new L (max k (Suc 0)))" "lru_peek L (lru_new L (max k (Suc 0))) key = None" for k key
    using ok_new peek_new by blast+
  with assms show ?thesis
    by (auto simp: with_config_def cache_coherent_def rw_lock_new_def split: sum.splits option.splits)
qed

lemma policy_update_Inr_cache:
  assumes "policy_update G L ds as auto owner dflt ev = (Inr u, ev')"
  shows "\<exists>ev2. cache ev2 = cache ev \<and> ev' = clear_cache L ev2"
proof -
  obtain ev1 ev2 where "update_deny G ds ev = Inr ev1" "update_allow G as ev1 = Inr ev2"
      "ev' = clear_cache L (update_rest auto owner dflt ev2)"
    using assms by (auto simp: policy_update_def split: sum.splits)
  moreover from this have "cache (update_rest auto owner dflt ev2) = cache ev"
    by (simp add: update_deny_cache update_allow_cache)
  ultimately show ?thesis by blast
qed

lemma coherent_policy_update:
  assumes "cache_coherent G L ok ev" and "policy_update G L ds as auto owner dflt ev = (Inr u, ev')"
  shows "cache_coherent G L ok ev'"
proof -
  obtain ev2 where ev2: "cache ev2 = cache ev" "ev' = clear_cache L ev2"
    using policy_update_Inr_cache [OF assms(2)] by blast
  have "poisoned l \<or> (\<exists>n. ok n (guarded l))" if "cache ev2 = Some l" for l
    using that ev2(1) assms(1) by (auto simp: cache_coherent_def)
  then show ?thesis unfolding ev2(2) by (rule coherent_clear_cache)
qed

lemma cache_size_le:
  assumes "cache ev = Some l" and "ok n (guarded l)"
  shows "cache_size L ev \<le> n"
  using assms len_le by (simp add: cache_size_def)

end

subsection \<open>The life of an evaluator\<close>

text \<open>
  The evaluators the daemon can hold: a fresh or configured one, after any number of evaluations,
  successful updates and cache resets.
\<close>

inductive policy_reach :: "'p glob_api \<Rightarrow> 'c lru_api \<Rightarrow> ('p, 'c) policy_evaluator \<Rightarrow> bool"
  for G :: "'p glob_api" and L :: "'c lru_api" where
  fresh: "policy_reach G L (policy_evaluator_new L)"
| configured: "with_config G L ds as auto owner dflt n = Inr ev \<Longrightarrow> policy_reach G L ev"
| evaluated: "policy_reach G L ev \<Longrightarrow> policy_reach G L (snd (evaluate G L ev p q))"
| updated: "policy_reach G L ev \<Longrightarrow> policy_update G L ds as auto owner dflt ev = (Inr (), ev')
            \<Longrightarrow> policy_reach G L ev'"
| cleared: "policy_reach G L ev \<Longrightarrow> policy_reach G L (clear_cache L ev)"
| recovered: "policy_reach G L ev \<Longrightarrow> policy_update G L ds as auto owner dflt ev = (Inl e, ev') \<Longrightarrow> policy_reach G L (clear_cache L ev')"

lemma failed_update_cache: "policy_update G L ds as auto owner dflt ev = (Inl e, ev') \<Longrightarrow> cache ev' = cache ev"
  by (auto simp: policy_update_def update_deny_cache update_allow_cache Let_def split: sum.splits prod.splits)

context lru_contract
begin

lemma reach_coherent: "policy_reach G L ev \<Longrightarrow> cache_coherent G L ok ev"
proof (induction rule: policy_reach.induct)
  case (cleared ev)
  then have "poisoned l \<or> (\<exists>n. ok n (guarded l))" if "cache ev = Some l" for l
    using that by (auto simp: cache_coherent_def)
  then show ?case by (rule coherent_clear_cache)
next
  case (recovered ev ds as auto owner dflt e ev')
  then have "poisoned l \<or> (\<exists>n. ok n (guarded l))" if "cache ev' = Some l" for l
    using that failed_update_cache [OF recovered(2)] by (auto simp: cache_coherent_def)
  then show ?case by (rule coherent_clear_cache)
qed (auto intro: coherent_new coherent_with_config coherent_evaluate coherent_policy_update)

end

subsection \<open>Specification: the first matching rule decides\<close>

text \<open>
  What the module promises: an ordered list of rules, each a condition and a response, and a default.
\<close>

type_synonym policy_rule = "(string \<Rightarrow> i32 option \<Rightarrow> bool) \<times> access_response"

fun first_match :: "policy_rule list \<Rightarrow> access_response \<Rightarrow> string \<Rightarrow> i32 option \<Rightarrow> access_response" where
  "first_match [] dflt path pid = dflt"
| "first_match ((cond, r) # rules) dflt path pid =
     (if cond path pid then r else first_match rules dflt path pid)"

definition policy_rules :: "'p glob_api \<Rightarrow> ('p, 'c) policy_evaluator \<Rightarrow> policy_rule list" where
  "policy_rules G ev =
     map (\<lambda>cp. (\<lambda>path _. compiled_pattern_matches G cp path, Deny)) (deny_patterns ev) @
     map (\<lambda>cp. (\<lambda>path _. compiled_pattern_matches G cp path, Allow)) (allow_patterns ev) @
     [(\<lambda>_ pid. owner_allowed ev pid, Allow)]"

lemma first_match_const:
  "first_match (map (\<lambda>x. (c x, r)) xs @ rules) dflt path pid =
     (if list_ex (\<lambda>x. c x path pid) xs then r else first_match rules dflt path pid)"
  by (induction xs) auto

lemma cache_store_rules [frame, simp]:
  "default_response (cache_store L k v ev) = default_response ev"
  "policy_rules G (cache_store L k v ev) = policy_rules G ev"
  by (simp_all add: cache_store_def policy_rules_def owner_allowed_def split: option.splits)

lemma evaluate_rules [frame, simp]:
  "default_response (snd (evaluate G L ev p q)) = default_response ev"
  "policy_rules G (snd (evaluate G L ev p q)) = policy_rules G ev"
  by (simp_all add: evaluate_def Let_def split: option.splits)

lemma evaluate_uncached_first_match:
  "evaluate_uncached G ev path pid = first_match (policy_rules G ev) (default_response ev) path pid"
  by (simp add: evaluate_uncached_def policy_rules_def first_match_const)

subsection \<open>Properties\<close>

text \<open>A glob package for the witnesses: literal patterns, an unclosed bracket is an error.\<close>

definition literal_glob :: "string glob_api" where
  "literal_glob =
     \<lparr>glob_new = (\<lambda>p. if CHR ''['' \<in> set p then Inl ''unclosed'' else Inr p),
      glob_matches = (\<lambda>p path. p = path)\<rparr>"

definition example_evaluator :: "(string, ref_lru) policy_evaluator" where
  "example_evaluator =
     \<lparr>deny_patterns = [\<lparr>original = ''/s'', pattern = ''/s''\<rparr>],
      allow_patterns = [\<lparr>original = ''/a'', pattern = ''/a''\<rparr>],
      auto_allow_owner = True, owner_pid = Some 7, default_response = AuditResp,
      cache = Some (rw_lock_new (8, []))\<rparr>"

lemma example_evaluator_config:
  "with_config literal_glob ref_lru [''/s''] [''/a''] True (Some 7) AuditResp (Some 8)
     = Inr example_evaluator"
  by (simp add: with_config_def compiled_pattern_new_def literal_glob_def example_evaluator_def
      rw_lock_new_def ref_lru_def)

lemma example_evaluator_reach: "policy_reach literal_glob ref_lru example_evaluator"
  by (rule policy_reach.configured [OF example_evaluator_config])

text \<open>
  C4: The cached evaluator refines the rule list. For every evaluator built by \<open>new\<close> or \<open>with_config\<close> and taken through
  any mix of evaluations, successful updates, cache resets, and failed updates whose cache is reset at once, the answer of
  \<open>evaluate\<close>, cache hit or miss, is the response of the first rule that matches in the order deny
  patterns, allow patterns, owner, default.
\<close>

theorem evaluate_refines_first_match:
  assumes "lru_contract L ok" and "policy_reach G L ev"
  shows "fst (evaluate G L ev path pid)
           = first_match (policy_rules G ev) (default_response ev) path pid"
  using lru_contract.evaluate_coherent_result [OF assms(1) lru_contract.reach_coherent [OF assms]]
  by (simp add: evaluate_uncached_first_match)

theorem evaluate_refines_first_match_witness:
  "fst (evaluate literal_glob ref_lru example_evaluator ''/x'' (Some 7)) = Allow"
  using evaluate_refines_first_match
    [OF ref_lru.lru_contract_axioms example_evaluator_reach, of "''/x''" "Some 7"]
  by (simp add: policy_rules_def example_evaluator_def owner_allowed_def literal_glob_def
      compiled_pattern_matches_def)

text \<open>
  Deny takes precedence. In a reachable evaluator a path that matches any deny pattern is denied,
  whatever the allow patterns, the owner rule, the default response and the cache say; and a path that
  matches no pattern and is not the owner's gets the default response.
\<close>

theorem evaluate_deny_precedence:
  assumes "lru_contract L ok" and "policy_reach G L ev"
  shows "((\<exists>cp\<in>set (deny_patterns ev). compiled_pattern_matches G cp path)
            \<longrightarrow> fst (evaluate G L ev path pid) = Deny) \<and>
         (\<not> matches_any_pattern G ev path \<and> \<not> owner_allowed ev pid
            \<longrightarrow> fst (evaluate G L ev path pid) = default_response ev)"
  using lru_contract.evaluate_coherent_result [OF assms(1) lru_contract.reach_coherent [OF assms]]
  by (auto simp: evaluate_uncached_def matches_any_pattern_def list_ex_iff)

theorem evaluate_deny_precedence_witness:
  "fst (evaluate literal_glob ref_lru example_evaluator ''/s'' (Some 7)) = Deny \<and>
   fst (evaluate literal_glob ref_lru example_evaluator ''/x'' None) = AuditResp"
proof -
  have "\<exists>cp\<in>set (deny_patterns example_evaluator). compiled_pattern_matches literal_glob cp ''/s''"
    by (simp add: example_evaluator_def literal_glob_def compiled_pattern_matches_def)
  moreover have "\<not> matches_any_pattern literal_glob example_evaluator ''/x''"
    by (simp add: example_evaluator_def literal_glob_def compiled_pattern_matches_def
        matches_any_pattern_def)
  moreover have "\<not> owner_allowed example_evaluator None"
    by (simp add: owner_allowed_def)
  moreover have "default_response example_evaluator = AuditResp"
    by (simp add: example_evaluator_def)
  ultimately show ?thesis
    using evaluate_deny_precedence [OF ref_lru.lru_contract_axioms example_evaluator_reach]
    by metis
qed

text \<open>
  \<open>with_config\<close> fails exactly when some pattern does not compile, and then it reports the first such
  pattern in the order deny patterns, allow patterns, with the reason the glob package gives.
\<close>

theorem with_config_error_iff:
  "with_config G L ds as auto owner dflt n = Inl e \<longleftrightarrow>
     (\<exists>pre p post reason. ds @ as = pre @ p # post \<and> glob_new G p = Inl reason
        \<and> e = InvalidPattern p reason \<and> (\<forall>q\<in>set pre. \<exists>c. glob_new G q = Inr c))"
proof -
  have "with_config G L ds as auto owner dflt n = Inl e
          \<longleftrightarrow> collect_results (compiled_pattern_new G) (ds @ as) = Inl e"
    by (auto simp: with_config_def collect_results_append split: sum.splits)
  also have "\<dots> \<longleftrightarrow> (\<exists>pre p post reason. ds @ as = pre @ p # post \<and> glob_new G p = Inl reason
        \<and> e = InvalidPattern p reason \<and> (\<forall>q\<in>set pre. \<exists>c. glob_new G q = Inr c))"
    unfolding collect_results_Inl_iff compiled_pattern_new_Inl_iff compiled_pattern_new_Inr_iff
    by blast
  finally show ?thesis .
qed

theorem with_config_error_iff_witness:
  "with_config literal_glob ref_lru [''/s''] [''[''] False None Allow None
     = Inl (InvalidPattern ''['' ''unclosed'')"
proof -
  have "[''/s''] @ [''[''] = [''/s''] @ ''['' # [] \<and> glob_new literal_glob ''['' = Inl ''unclosed''
      \<and> InvalidPattern ''['' ''unclosed'' = InvalidPattern ''['' ''unclosed''
      \<and> (\<forall>q\<in>set [''/s'']. \<exists>c. glob_new literal_glob q = Inr c)"
    by (simp add: literal_glob_def)
  then show ?thesis
    unfolding with_config_error_iff by blast
qed

text \<open>
  C40: An \<open>update\<close> that fails on an allow pattern has already replaced the deny patterns and leaves the
  cache as it was, so every decision cached under the old policy is still served, also for a path that a
  new deny pattern matches (the witness).
\<close>

theorem failed_update_serves_stale_decision:
  assumes "collect_results (compiled_pattern_new G) ds = Inr cps"
    and "collect_results (compiled_pattern_new G) as = Inl e"
    and "cache_lookup L ev (cache_key_new path pid) = Some v"
  shows "fst (policy_update G L (Some ds) (Some as) auto owner dflt ev) = Inl e \<and>
         deny_patterns (snd (policy_update G L (Some ds) (Some as) auto owner dflt ev)) = cps \<and>
         fst (evaluate G L (snd (policy_update G L (Some ds) (Some as) auto owner dflt ev)) path pid) = v"
  using assms
  by (simp add: policy_update_def update_deny_def update_allow_def evaluate_def cache_lookup_def)

theorem failed_update_serves_stale_decision_witness:
  "let ev = snd (evaluate literal_glob ref_lru example_evaluator ''/a'' None);
       ev' = snd (policy_update literal_glob ref_lru (Some [''/a'']) (Some [''['']) None None None ev)
   in fst (evaluate literal_glob ref_lru ev' ''/a'' None) = Allow \<and>
      evaluate_uncached literal_glob ev' ''/a'' None = Deny"
proof -
  let ?ev = "snd (evaluate literal_glob ref_lru example_evaluator ''/a'' None)"
  let ?cps = "[\<lparr>original = ''/a'', pattern = ''/a''\<rparr>]"
  have 1: "collect_results (compiled_pattern_new literal_glob) [''/a''] = Inr ?cps"
    by (simp add: compiled_pattern_new_def literal_glob_def)
  have 2: "collect_results (compiled_pattern_new literal_glob) [''[''] = Inl (InvalidPattern ''['' ''unclosed'')"
    by (simp add: compiled_pattern_new_def literal_glob_def)
  have 3: "cache_lookup ref_lru ?ev (cache_key_new ''/a'' None) = Some Allow"
    by (simp add: evaluate_def cache_lookup_def cache_store_def example_evaluator_def ref_lru_def
        rw_lock_new_def evaluate_uncached_def literal_glob_def compiled_pattern_matches_def)
  show ?thesis
    using failed_update_serves_stale_decision [OF 1 2 3]
    by (simp add: Let_def evaluate_uncached_def compiled_pattern_matches_def literal_glob_def)
qed

end
