(* ===== verification/Dedupe.thy ===== *)
theory Dedupe
  imports Policy
begin

section \<open>Event deduplication of janusd\<close>

text \<open>
  \<open>janusd/src/dedupe.rs\<close>: a bounded queue of recent access events. An \<open>Instant\<close> is a number of
  nanoseconds on the monotonic clock and the reading of the clock is an argument of the operation;
  \<open>elapsed\<close> saturates at zero, as the subtraction of naturals does. \<open>check_and_record\<close> reads the clock
  when it drops expired entries and again when it records, so it takes two readings. Paths are compared
  by their components, as \<open>PathBuf\<close> does.
\<close>

subsection \<open>Data and operations\<close>

definition DEFAULT_DEDUPE_WINDOW :: nat where
  "DEFAULT_DEDUPE_WINDOW = 100 * 1000000"

definition DEDUPE_CACHE_SIZE :: nat where
  "DEDUPE_CACHE_SIZE = 64"

record dedupe_entry =
  de_path :: string
  de_pid :: i32
  de_response :: access_response
  de_timestamp :: nat

record dedupe_cache =
  entries :: "dedupe_entry list"
  max_size :: nat
  window :: nat

definition dedupe_entry_new :: "nat \<Rightarrow> string \<Rightarrow> i32 \<Rightarrow> access_response \<Rightarrow> dedupe_entry" where
  "dedupe_entry_new now path pid r =
     \<lparr>de_path = path, de_pid = pid, de_response = r, de_timestamp = now\<rparr>"

definition dedupe_entry_matches :: "dedupe_entry \<Rightarrow> string \<Rightarrow> i32 \<Rightarrow> access_response \<Rightarrow> bool" where
  "dedupe_entry_matches e path pid r \<longleftrightarrow>
     path_eq (de_path e) path \<and> de_pid e = pid \<and> de_response e = r"

definition is_expired :: "nat \<Rightarrow> nat \<Rightarrow> dedupe_entry \<Rightarrow> bool" where
  "is_expired now w e \<longleftrightarrow> now - de_timestamp e > w"

definition dedupe_cache_new :: "nat \<Rightarrow> nat \<Rightarrow> dedupe_cache" where
  "dedupe_cache_new n w = \<lparr>entries = [], max_size = n, window = w\<rparr>"

definition dedupe_cache_default :: dedupe_cache where
  "dedupe_cache_default = dedupe_cache_new DEDUPE_CACHE_SIZE DEFAULT_DEDUPE_WINDOW"

definition clear_expired :: "nat \<Rightarrow> dedupe_cache \<Rightarrow> dedupe_cache" where
  "clear_expired now c = c\<lparr>entries := filter (\<lambda>e. \<not> is_expired now (window c) e) (entries c)\<rparr>"

definition should_process ::
  "nat \<Rightarrow> string \<Rightarrow> i32 \<Rightarrow> access_response \<Rightarrow> dedupe_cache \<Rightarrow> bool \<times> dedupe_cache" where
  "should_process now path pid r c =
     (let c1 = clear_expired now c
      in (\<not> list_ex (\<lambda>e. dedupe_entry_matches e path pid r) (entries c1), c1))"

definition dedupe_record ::
  "nat \<Rightarrow> string \<Rightarrow> i32 \<Rightarrow> access_response \<Rightarrow> dedupe_cache \<Rightarrow> dedupe_cache" where
  "dedupe_record now path pid r c =
     (let es = (if max_size c > 0 \<and> length (entries c) \<ge> max_size c then tl (entries c) else entries c)
      in c\<lparr>entries := es @ [dedupe_entry_new now path pid r]\<rparr>)"

definition check_and_record ::
  "nat \<Rightarrow> nat \<Rightarrow> string \<Rightarrow> i32 \<Rightarrow> access_response \<Rightarrow> dedupe_cache \<Rightarrow> bool \<times> dedupe_cache" where
  "check_and_record now now' path pid r c =
     (case should_process now path pid r c of
        (True, c1) \<Rightarrow> (True, dedupe_record now' path pid r c1)
      | (False, c1) \<Rightarrow> (False, c1))"

definition dedupe_len :: "dedupe_cache \<Rightarrow> nat" where
  "dedupe_len c = length (entries c)"

definition dedupe_is_empty :: "dedupe_cache \<Rightarrow> bool" where
  "dedupe_is_empty c \<longleftrightarrow> entries c = []"

definition dedupe_clear :: "dedupe_cache \<Rightarrow> dedupe_cache" where
  "dedupe_clear c = c\<lparr>entries := []\<rparr>"

subsection \<open>A run of the filter\<close>

record timed_event =
  te_check :: nat
  te_record :: nat
  te_path :: string
  te_pid :: i32
  te_response :: access_response

definition te_step :: "timed_event \<Rightarrow> dedupe_cache \<Rightarrow> bool \<times> dedupe_cache" where
  "te_step ev = check_and_record (te_check ev) (te_record ev) (te_path ev) (te_pid ev) (te_response ev)"

fun dedupe_run :: "dedupe_cache \<Rightarrow> timed_event list \<Rightarrow> bool list \<times> dedupe_cache" where
  "dedupe_run c [] = ([], c)"
| "dedupe_run c (ev # evs) =
     (let (b, c1) = te_step ev c; (bs, c2) = dedupe_run c1 evs in (b # bs, c2))"

definition same_event :: "timed_event \<Rightarrow> timed_event \<Rightarrow> bool" where
  "same_event a b \<longleftrightarrow> path_eq (te_path a) (te_path b) \<and> te_pid a = te_pid b \<and> te_response a = te_response b"

definition te_matches :: "dedupe_entry \<Rightarrow> timed_event \<Rightarrow> bool" where
  "te_matches e ev = dedupe_entry_matches e (te_path ev) (te_pid ev) (te_response ev)"

definition te_entry :: "timed_event \<Rightarrow> dedupe_entry" where
  "te_entry ev = dedupe_entry_new (te_record ev) (te_path ev) (te_pid ev) (te_response ev)"

subsection \<open>One step\<close>

lemma clear_expired_frame [frame, simp]:
  "max_size (clear_expired t c) = max_size c" "window (clear_expired t c) = window c"
  by (simp_all add: clear_expired_def)

lemma dedupe_record_frame [frame, simp]:
  "max_size (dedupe_record t p q r c) = max_size c" "window (dedupe_record t p q r c) = window c"
  by (simp_all add: dedupe_record_def Let_def)

lemma te_step_frame [frame, simp]:
  "max_size (snd (te_step ev c)) = max_size c" "window (snd (te_step ev c)) = window c"
  by (simp_all add: te_step_def check_and_record_def should_process_def Let_def split: bool.splits)

lemma te_step_result:
  "fst (te_step ev c) \<longleftrightarrow>
     \<not> (\<exists>e\<in>set (entries c). te_matches e ev \<and> te_check ev - de_timestamp e \<le> window c)"
  by (auto simp: te_step_def check_and_record_def should_process_def clear_expired_def is_expired_def
      te_matches_def list_ex_iff Let_def not_less split: bool.splits)

lemma te_step_entries:
  "entries (snd (te_step ev c)) =
     (let live = filter (\<lambda>e. \<not> is_expired (te_check ev) (window c) e) (entries c)
      in if fst (te_step ev c)
         then (if max_size c > 0 \<and> length live \<ge> max_size c then tl live else live) @ [te_entry ev]
         else live)"
  by (auto simp: te_step_def check_and_record_def should_process_def clear_expired_def te_entry_def
      dedupe_record_def Let_def split: bool.splits)

lemma te_step_entry_sources:
  "e \<in> set (entries (snd (te_step ev c))) \<Longrightarrow>
     e \<in> set (entries c) \<or> (fst (te_step ev c) \<and> e = te_entry ev)"
  by (auto simp: te_step_entries Let_def dest: in_set_tlD split: if_splits)

lemma te_step_bounded:
  assumes "length (entries c) \<le> max_size c" and "0 < max_size c"
  shows "length (entries (snd (te_step ev c))) \<le> max_size c"
proof -
  let ?live = "filter (\<lambda>e. \<not> is_expired (te_check ev) (window c) e) (entries c)"
  have "length ?live \<le> max_size c"
    using assms(1) by (rule le_trans [OF length_filter_le])
  with assms(2) show ?thesis by (simp add: te_step_entries Let_def) linarith
qed

lemma te_matches_entry: "te_matches (te_entry a) b \<longleftrightarrow> same_event a b"
  by (simp add: te_matches_def te_entry_def dedupe_entry_matches_def dedupe_entry_new_def same_event_def)

lemma de_timestamp_te_entry [simp]: "de_timestamp (te_entry ev) = te_record ev"
  by (simp add: te_entry_def dedupe_entry_new_def)

subsection \<open>Runs\<close>

lemma dedupe_run_frame [frame, simp]:
  "max_size (snd (dedupe_run c evs)) = max_size c"
  "window (snd (dedupe_run c evs)) = window c"
  "length (fst (dedupe_run c evs)) = length evs"
proof (induction evs arbitrary: c)
  case (Cons ev evs)
  { case 1 from Cons(1) [of "snd (te_step ev c)"] show ?case by (simp add: split_beta Let_def) }
  { case 2 from Cons(2) [of "snd (te_step ev c)"] show ?case by (simp add: split_beta Let_def) }
  { case 3 from Cons(3) [of "snd (te_step ev c)"] show ?case by (simp add: split_beta Let_def) }
qed simp_all

lemma dedupe_run_Cons:
  "fst (dedupe_run c (ev # evs)) = fst (te_step ev c) # fst (dedupe_run (snd (te_step ev c)) evs)"
  "snd (dedupe_run c (ev # evs)) = snd (dedupe_run (snd (te_step ev c)) evs)"
  by (simp_all add: split_beta Let_def)

declare dedupe_run.simps(2) [simp del]

text \<open>Every suppressed event of a run has an earlier entry behind it, of the start or of the run.\<close>

lemma dedupe_run_suppressed_source:
  assumes "i < length evs" and "\<not> fst (dedupe_run c evs) ! i"
  shows "(\<exists>e\<in>set (entries c). te_matches e (evs ! i) \<and> te_check (evs ! i) - de_timestamp e \<le> window c) \<or>
         (\<exists>j<i. fst (dedupe_run c evs) ! j \<and> same_event (evs ! j) (evs ! i) \<and>
                te_check (evs ! i) - te_record (evs ! j) \<le> window c)"
  using assms
proof (induction evs arbitrary: c i)
  case (Cons ev evs)
  show ?case
  proof (cases i)
    case 0
    with Cons.prems show ?thesis by (simp add: dedupe_run_Cons te_step_result)
  next
    case (Suc k)
    let ?c = "snd (te_step ev c)"
    have k: "k < length evs" "\<not> fst (dedupe_run ?c evs) ! k"
      using Cons.prems Suc by (simp_all add: dedupe_run_Cons)
    from Cons.IH [OF this] show ?thesis
    proof
      assume "\<exists>e\<in>set (entries ?c). te_matches e (evs ! k) \<and>
                te_check (evs ! k) - de_timestamp e \<le> window ?c"
      then obtain e where e: "e \<in> set (entries ?c)" "te_matches e (evs ! k)"
          "te_check (evs ! k) - de_timestamp e \<le> window c"
        by auto
      from te_step_entry_sources [OF e(1)] show ?thesis
      proof
        assume "e \<in> set (entries c)"
        with e(2,3) Suc show ?thesis by auto
      next
        assume "fst (te_step ev c) \<and> e = te_entry ev"
        with e(2,3) Suc show ?thesis
          by (intro disjI2 exI [of _ 0]) (simp add: dedupe_run_Cons te_matches_entry)
      qed
    next
      assume "\<exists>j<k. fst (dedupe_run ?c evs) ! j \<and> same_event (evs ! j) (evs ! k) \<and>
                te_check (evs ! k) - te_record (evs ! j) \<le> window ?c"
      then obtain j where "j < k" "fst (dedupe_run ?c evs) ! j" "same_event (evs ! j) (evs ! k)"
          "te_check (evs ! k) - te_record (evs ! j) \<le> window c"
        by auto
      with Suc show ?thesis
        by (intro disjI2 exI [of _ "Suc j"]) (simp add: dedupe_run_Cons)
    qed
  qed
qed simp

text \<open>
  An entry survives a run of fewer than \<open>max_size\<close> events as long as it does not expire: \<open>held_behind e n\<close>
  says that the entry is held with at most \<open>n\<close> younger entries behind it.
\<close>

definition held_behind :: "dedupe_entry \<Rightarrow> nat \<Rightarrow> dedupe_cache \<Rightarrow> bool" where
  "held_behind e n c \<longleftrightarrow> (\<exists>pre post. entries c = pre @ e # post \<and> length post \<le> n)"

lemma held_behind_step:
  assumes held: "held_behind e n c" and room: "max_size c = 0 \<or> Suc n < max_size c"
    and live: "\<not> is_expired (te_check ev) (window c) e"
  shows "held_behind e (Suc n) (snd (te_step ev c))"
proof -
  define keep where "keep = filter (\<lambda>e. \<not> is_expired (te_check ev) (window c) e)"
  obtain pre post where c: "entries c = pre @ e # post" "length post \<le> n"
    using held by (auto simp: held_behind_def)
  have kept: "keep (entries c) = keep pre @ e # keep post"
    using c(1) live by (simp add: keep_def)
  have len: "length (keep post) \<le> n"
    using c(2) length_filter_le [of _ post] le_trans unfolding keep_def by blast
  have step: "entries (snd (te_step ev c)) =
      (if fst (te_step ev c)
       then (if max_size c > 0 \<and> length (keep (entries c)) \<ge> max_size c
             then tl (keep (entries c)) else keep (entries c)) @ [te_entry ev]
       else keep (entries c))"
    by (simp add: te_step_entries Let_def keep_def)
  show ?thesis
  proof (cases "fst (te_step ev c) \<and> max_size c > 0 \<and> length (keep (entries c)) \<ge> max_size c")
    case True
    with room len have "keep pre \<noteq> []" by (auto simp: kept)
    with True have "entries (snd (te_step ev c)) = tl (keep pre) @ e # (keep post @ [te_entry ev])"
      by (simp add: step kept)
    with len show ?thesis unfolding held_behind_def by (intro exI conjI) auto
  next
    case False
    then have "entries (snd (te_step ev c)) =
        keep pre @ e # (keep post @ (if fst (te_step ev c) then [te_entry ev] else []))"
      by (auto simp: step kept)
    with len show ?thesis unfolding held_behind_def by (intro exI conjI) auto
  qed
qed

lemma held_behind_run:
  assumes "held_behind e n c" and "max_size c = 0 \<or> n + length evs < max_size c"
    and "\<forall>ev\<in>set evs. te_check ev - de_timestamp e \<le> window c"
  shows "held_behind e (n + length evs) (snd (dedupe_run c evs))"
  using assms
proof (induction evs arbitrary: c n)
  case (Cons ev evs)
  have "held_behind e (Suc n) (snd (te_step ev c))"
    using Cons.prems by (intro held_behind_step) (auto simp: is_expired_def)
  from Cons.IH [OF this] Cons.prems show ?case by (simp add: dedupe_run_Cons)
qed simp

lemma forwarded_held: "fst (te_step ev c) \<Longrightarrow> held_behind (te_entry ev) 0 (snd (te_step ev c))"
  unfolding held_behind_def by (auto simp: te_step_entries Let_def)

subsection \<open>Properties\<close>

definition ev_at :: "nat \<Rightarrow> string \<Rightarrow> timed_event" where
  "ev_at t p = \<lparr>te_check = t, te_record = t, te_path = p, te_pid = 7, te_response = Deny\<rparr>"

text \<open>
  C15: Suppression is sound. In any run of the filter from an empty cache, an event that is suppressed has
  an earlier event of the same run that was forwarded, with the same path (by components), process and
  response, and recorded no more than the window before.
\<close>

theorem suppressed_has_recent_original:
  assumes "i < length evs" and "\<not> fst (dedupe_run (dedupe_cache_new n w) evs) ! i"
  shows "\<exists>j<i. fst (dedupe_run (dedupe_cache_new n w) evs) ! j \<and> same_event (evs ! j) (evs ! i) \<and>
               te_check (evs ! i) - te_record (evs ! j) \<le> w"
  using dedupe_run_suppressed_source [OF assms] by (auto simp: dedupe_cache_new_def)

theorem suppressed_has_recent_original_witness:
  "\<exists>j<1. fst (dedupe_run (dedupe_cache_new 4 100) [ev_at 5 ''/a'', ev_at 9 ''/a'']) ! j"
proof -
  have "\<not> fst (dedupe_run (dedupe_cache_new 4 100) [ev_at 5 ''/a'', ev_at 9 ''/a'']) ! 1"
    by (simp add: ev_at_def te_step_def check_and_record_def should_process_def clear_expired_def
        is_expired_def dedupe_cache_new_def dedupe_record_def dedupe_entry_new_def
        dedupe_entry_matches_def dedupe_run_Cons)
  from suppressed_has_recent_original [OF _ this] show ?thesis by auto
qed

text \<open>
  Suppression is complete up to the size of the cache. Once an event has been forwarded, the same
  event is suppressed for as long as the window lasts, provided fewer than \<open>max_size\<close> events were handled
  in between (any number, when \<open>max_size\<close> is 0).
\<close>

theorem duplicate_is_suppressed:
  assumes "fst (te_step ev c)" and "max_size c = 0 \<or> length evs < max_size c"
    and "\<forall>x\<in>set (evs @ [ev']). te_check x - te_record ev \<le> window c"
    and "same_event ev ev'"
  shows "\<not> fst (te_step ev' (snd (dedupe_run (snd (te_step ev c)) evs)))"
proof -
  have "held_behind (te_entry ev) (0 + length evs) (snd (dedupe_run (snd (te_step ev c)) evs))"
    using assms by (intro held_behind_run forwarded_held) auto
  then have "te_entry ev \<in> set (entries (snd (dedupe_run (snd (te_step ev c)) evs)))"
    by (auto simp: held_behind_def)
  with assms(3,4) show ?thesis
    by (force simp: te_step_result te_matches_entry)
qed

theorem duplicate_is_suppressed_witness:
  "\<not> fst (te_step (ev_at 90 ''/a'')
       (snd (dedupe_run (snd (te_step (ev_at 5 ''/a'') (dedupe_cache_new 4 100))) [ev_at 7 ''/b''])))"
proof -
  have "fst (te_step (ev_at 5 ''/a'') (dedupe_cache_new 4 100))"
    by (simp add: te_step_result dedupe_cache_new_def)
  then show ?thesis
    by (rule duplicate_is_suppressed) (simp_all add: dedupe_cache_new_def ev_at_def same_event_def)
qed

text \<open>
  The cache is bounded: with a positive \<open>max_size\<close> no run makes it hold more than \<open>max_size\<close> entries.
\<close>

theorem dedupe_run_bounded:
  assumes "0 < n"
  shows "dedupe_len (snd (dedupe_run (dedupe_cache_new n w) evs)) \<le> n"
proof -
  have "length (entries (snd (dedupe_run c evs))) \<le> max_size c"
    if "length (entries c) \<le> max_size c" "0 < max_size c" for c
    using that
  proof (induction evs arbitrary: c)
    case (Cons ev evs)
    then have "length (entries (snd (te_step ev c))) \<le> max_size c"
      by (intro te_step_bounded)
    with Cons.IH [of "snd (te_step ev c)"] Cons.prems show ?case by (simp add: dedupe_run_Cons)
  qed simp
  from this [of "dedupe_cache_new n w"] assms show ?thesis
    by (simp add: dedupe_cache_new_def dedupe_len_def)
qed

theorem dedupe_run_bounded_witness:
  "dedupe_len (snd (dedupe_run (dedupe_cache_new 2 100)
     [ev_at 1 ''/a'', ev_at 2 ''/b'', ev_at 3 ''/c''])) \<le> 2"
  using dedupe_run_bounded [of 2 100 "[ev_at 1 ''/a'', ev_at 2 ''/b'', ev_at 3 ''/c'']"] by simp

end
