(* ===== verification/Metrics.thy ===== *)
theory Metrics
  imports Prelude
begin

section \<open>Metrics shared by the daemons\<close>

text \<open>
  \<open>common/src/metrics.rs\<close>. The trait \<open>DaemonMetrics\<close> is the locale \<open>daemon_metrics\<close>; \<open>BasicMetrics\<close> here,
  \<open>GuardMetrics\<close> and \<open>WatcherMetrics\<close> in their own theories are its interpretations. An \<open>AtomicU64\<close> is a
  64-bit word, \<open>fetch_add\<close> and \<open>fetch_sub\<close> wrap. The aggregator holds collectors behind \<open>dyn DaemonMetrics\<close>:
  its operations take the collector's \<open>name\<close> and \<open>snapshot\<close> as arguments.
\<close>

subsection \<open>Snapshots\<close>

record metrics_snapshot =
  ms_name :: string
  ms_events_total :: u64
  ms_errors_total :: u64
  ms_custom :: "(string \<times> u64) list"

definition metrics_snapshot_new :: "string \<Rightarrow> metrics_snapshot" where
  "metrics_snapshot_new n = \<lparr>ms_name = n, ms_events_total = 0, ms_errors_total = 0, ms_custom = []\<rparr>"

definition with_custom :: "string \<Rightarrow> u64 \<Rightarrow> metrics_snapshot \<Rightarrow> metrics_snapshot" where
  "with_custom k v s = s\<lparr>ms_custom := AList.update k v (ms_custom s)\<rparr>"

subsection \<open>The trait\<close>

datatype metrics_tick = TickEvent | TickError

locale daemon_metrics =
  fixes name :: "'m \<Rightarrow> string"
    and events_total :: "'m \<Rightarrow> u64"
    and errors_total :: "'m \<Rightarrow> u64"
    and record_event :: "'m \<Rightarrow> 'm"
    and record_error :: "'m \<Rightarrow> 'm"
    and snapshot :: "'m \<Rightarrow> metrics_snapshot"
  assumes name_record: "name (record_event m) = name m" "name (record_error m) = name m"
    and events_record_event: "events_total (record_event m) = events_total m + 1"
    and errors_record_event: "errors_total (record_event m) = errors_total m"
    and events_record_error: "events_total (record_error m) = events_total m"
    and errors_record_error: "errors_total (record_error m) = errors_total m + 1"
    and snapshot_name: "ms_name (snapshot m) = name m"
    and snapshot_events: "ms_events_total (snapshot m) = events_total m"
    and snapshot_errors: "ms_errors_total (snapshot m) = errors_total m"
begin

fun ticks :: "metrics_tick list \<Rightarrow> 'm \<Rightarrow> 'm" where
  "ticks [] m = m"
| "ticks (TickEvent # ts) m = ticks ts (record_event m)"
| "ticks (TickError # ts) m = ticks ts (record_error m)"

text \<open>Whatever the interleaving of the two counters, a snapshot reports how often each was bumped.\<close>

lemma snapshot_ticks:
  "ms_name (snapshot (ticks ts m)) = name m \<and>
   ms_events_total (snapshot (ticks ts m)) = events_total m + of_nat (count_list ts TickEvent) \<and>
   ms_errors_total (snapshot (ticks ts m)) = errors_total m + of_nat (count_list ts TickError)"
proof (induction ts arbitrary: m)
  case Nil
  then show ?case by (simp add: snapshot_name snapshot_events snapshot_errors)
next
  case (Cons t ts)
  then show ?case
    by (cases t) (simp_all add: name_record events_record_event errors_record_event
        events_record_error errors_record_error algebra_simps)
qed

end

subsection \<open>BasicMetrics\<close>

record basic_metrics =
  bm_name :: string
  bm_events_total :: u64
  bm_errors_total :: u64

definition basic_metrics_new :: "string \<Rightarrow> basic_metrics" where
  [metrics_defs]: "basic_metrics_new n = \<lparr>bm_name = n, bm_events_total = 0, bm_errors_total = 0\<rparr>"

definition bm_record_event :: "basic_metrics \<Rightarrow> basic_metrics" where
  [metrics_defs]: "bm_record_event m = m\<lparr>bm_events_total := bm_events_total m + 1\<rparr>"

definition bm_record_error :: "basic_metrics \<Rightarrow> basic_metrics" where
  [metrics_defs]: "bm_record_error m = m\<lparr>bm_errors_total := bm_errors_total m + 1\<rparr>"

definition bm_snapshot :: "basic_metrics \<Rightarrow> metrics_snapshot" where
  [metrics_defs]: "bm_snapshot m =
     \<lparr>ms_name = bm_name m, ms_events_total = bm_events_total m, ms_errors_total = bm_errors_total m,
      ms_custom = []\<rparr>"

interpretation bm: daemon_metrics bm_name bm_events_total bm_errors_total
    bm_record_event bm_record_error bm_snapshot
  by unfold_locales (simp_all add: metrics_defs)

subsection \<open>The aggregator\<close>

record 'm metrics_aggregator =
  agg_node_name :: string
  collectors :: "'m list"
  agg_total_events :: u64
  agg_total_errors :: u64
  agg_active_sessions :: u64

record aggregate_totals =
  at_node_name :: string
  at_events_total :: u64
  at_errors_total :: u64
  at_active_sessions :: u64

definition aggregator_new :: "string \<Rightarrow> 'm metrics_aggregator" where
  "aggregator_new n =
     \<lparr>agg_node_name = n, collectors = [], agg_total_events = 0, agg_total_errors = 0,
      agg_active_sessions = 0\<rparr>"

definition agg_register :: "'m \<Rightarrow> 'm metrics_aggregator \<Rightarrow> 'm metrics_aggregator" where
  "agg_register m a =
     a\<lparr>collectors := collectors a @ [m], agg_active_sessions := agg_active_sessions a + 1\<rparr>"

text \<open>\<open>iter().position(..)\<close> and \<open>Vec::remove\<close>: the first collector of that name goes.\<close>

definition agg_unregister :: "('m \<Rightarrow> string) \<Rightarrow> string \<Rightarrow> 'm metrics_aggregator \<Rightarrow> 'm metrics_aggregator" where
  "agg_unregister nm n a =
     (if list_ex (\<lambda>c. nm c = n) (collectors a)
      then a\<lparr>collectors := takeWhile (\<lambda>c. nm c \<noteq> n) (collectors a) @
                           tl (dropWhile (\<lambda>c. nm c \<noteq> n) (collectors a)),
             agg_active_sessions := agg_active_sessions a - 1\<rparr>
      else a)"

definition agg_record_event :: "'m metrics_aggregator \<Rightarrow> 'm metrics_aggregator" where
  "agg_record_event a = a\<lparr>agg_total_events := agg_total_events a + 1\<rparr>"

definition agg_record_error :: "'m metrics_aggregator \<Rightarrow> 'm metrics_aggregator" where
  "agg_record_error a = a\<lparr>agg_total_errors := agg_total_errors a + 1\<rparr>"

definition agg_totals :: "'m metrics_aggregator \<Rightarrow> aggregate_totals" where
  "agg_totals a =
     \<lparr>at_node_name = agg_node_name a, at_events_total = agg_total_events a,
      at_errors_total = agg_total_errors a, at_active_sessions = agg_active_sessions a\<rparr>"

definition collect_all :: "('m \<Rightarrow> metrics_snapshot) \<Rightarrow> 'm metrics_aggregator \<Rightarrow> metrics_snapshot list" where
  "collect_all snap a = map snap (collectors a)"

definition collect_filtered ::
  "('m \<Rightarrow> string) \<Rightarrow> ('m \<Rightarrow> metrics_snapshot) \<Rightarrow> string option \<Rightarrow> 'm metrics_aggregator
   \<Rightarrow> metrics_snapshot list" where
  "collect_filtered nm snap filt a =
     map snap (filter (\<lambda>c. case filt of Some f \<Rightarrow> starts_with (nm c) f | None \<Rightarrow> True) (collectors a))"

subsection \<open>Lemmas\<close>

lemma remove_first_length:
  "list_ex P xs \<Longrightarrow>
     Suc (length (takeWhile (\<lambda>x. \<not> P x) xs @ tl (dropWhile (\<lambda>x. \<not> P x) xs))) = length xs"
  by (induction xs) auto

lemma remove_first_filter:
  "filter (\<lambda>x. \<not> P x) (takeWhile (\<lambda>x. \<not> P x) xs @ tl (dropWhile (\<lambda>x. \<not> P x) xs))
     = filter (\<lambda>x. \<not> P x) xs"
  by (induction xs) auto

definition agg_ok :: "'m metrics_aggregator \<Rightarrow> bool" where
  "agg_ok a \<longleftrightarrow> agg_active_sessions a = of_nat (length (collectors a))"

lemma agg_ok_new [simp]: "agg_ok (aggregator_new n)"
  by (simp add: agg_ok_def aggregator_new_def)

lemma agg_ok_register [simp]: "agg_ok a \<Longrightarrow> agg_ok (agg_register m a)"
  by (simp add: agg_ok_def agg_register_def)

lemma agg_ok_unregister [simp]:
  assumes "agg_ok a"
  shows "agg_ok (agg_unregister nm n a)"
proof (cases "list_ex (\<lambda>c. nm c = n) (collectors a)")
  case True
  then have len: "length (collectors a) = Suc (length (collectors (agg_unregister nm n a)))"
    using remove_first_length [of "\<lambda>c. nm c = n" "collectors a"] by (simp add: agg_unregister_def)
  have "agg_active_sessions (agg_unregister nm n a) = agg_active_sessions a - 1"
    using True by (simp add: agg_unregister_def)
  with assms len show ?thesis by (simp add: agg_ok_def)
qed (use assms in \<open>simp add: agg_unregister_def\<close>)

lemma agg_ok_record [simp]:
  "agg_ok a \<Longrightarrow> agg_ok (agg_record_event a)" "agg_ok a \<Longrightarrow> agg_ok (agg_record_error a)"
  by (simp_all add: agg_ok_def agg_record_event_def agg_record_error_def)

subsection \<open>Properties\<close>

datatype 'm agg_op = Register 'm | Unregister string | RecordEvent | RecordError

fun agg_run :: "('m \<Rightarrow> string) \<Rightarrow> 'm metrics_aggregator \<Rightarrow> 'm agg_op list \<Rightarrow> 'm metrics_aggregator" where
  "agg_run nm a [] = a"
| "agg_run nm a (Register m # ops) = agg_run nm (agg_register m a) ops"
| "agg_run nm a (Unregister n # ops) = agg_run nm (agg_unregister nm n a) ops"
| "agg_run nm a (RecordEvent # ops) = agg_run nm (agg_record_event a) ops"
| "agg_run nm a (RecordError # ops) = agg_run nm (agg_record_error a) ops"

text \<open>
  The active session count of the aggregator is the number of registered collectors after every
  sequence of operations (as a 64-bit counter), and unregistering a name never touches a collector of
  another name.
\<close>

theorem aggregator_counts_collectors:
  "at_active_sessions (agg_totals (agg_run nm (aggregator_new node) ops))
     = of_nat (length (collectors (agg_run nm (aggregator_new node) ops))) \<and>
   filter (\<lambda>c. nm c \<noteq> n) (collectors (agg_unregister nm n a)) = filter (\<lambda>c. nm c \<noteq> n) (collectors a)"
proof
  have "agg_ok (agg_run nm a ops)" if "agg_ok a" for a
    using that by (induction nm a ops rule: agg_run.induct) simp_all
  from this [OF agg_ok_new]
  show "at_active_sessions (agg_totals (agg_run nm (aggregator_new node) ops))
          = of_nat (length (collectors (agg_run nm (aggregator_new node) ops)))"
    by (simp add: agg_ok_def agg_totals_def)
  show "filter (\<lambda>c. nm c \<noteq> n) (collectors (agg_unregister nm n a)) = filter (\<lambda>c. nm c \<noteq> n) (collectors a)"
    using remove_first_filter [of "\<lambda>c. nm c = n" "collectors a"] by (simp add: agg_unregister_def)
qed

end
