(* ===== verification/Guard_Metrics.thy ===== *)
theory Guard_Metrics
  imports Metrics Policy
begin

section \<open>Metrics of a guard\<close>

text \<open>
  \<open>janusd/src/metrics.rs\<close>: the counters of one guard, its snapshot and its implementation of
  \<open>DaemonMetrics\<close>. Every counter is an \<open>AtomicU64\<close>.
\<close>

record guard_metrics =
  gm_guard_name :: string
  gm_events_total :: u64
  gm_events_allowed :: u64
  gm_events_denied :: u64
  gm_events_audited :: u64
  gm_access_events :: u64
  gm_open_events :: u64
  gm_open_exec_events :: u64
  gm_close_write_events :: u64
  gm_close_events :: u64
  gm_errors :: u64
  gm_deduplicated :: u64
  gm_policy_cache_hits :: u64
  gm_policy_cache_misses :: u64
  gm_queue_overflows :: u64
  gm_response_write_retries :: u64
  gm_response_write_failures :: u64

definition guard_metrics_new :: "string \<Rightarrow> guard_metrics" where
  [metrics_defs]: "guard_metrics_new n =
     \<lparr>gm_guard_name = n, gm_events_total = 0, gm_events_allowed = 0, gm_events_denied = 0,
      gm_events_audited = 0, gm_access_events = 0, gm_open_events = 0, gm_open_exec_events = 0,
      gm_close_write_events = 0, gm_close_events = 0, gm_errors = 0, gm_deduplicated = 0,
      gm_policy_cache_hits = 0, gm_policy_cache_misses = 0, gm_queue_overflows = 0,
      gm_response_write_retries = 0, gm_response_write_failures = 0\<rparr>"

definition record_allowed :: "guard_metrics \<Rightarrow> guard_metrics" where
  [metrics_defs]: "record_allowed m =
     m\<lparr>gm_events_total := gm_events_total m + 1, gm_events_allowed := gm_events_allowed m + 1\<rparr>"

definition record_denied :: "guard_metrics \<Rightarrow> guard_metrics" where
  [metrics_defs]: "record_denied m =
     m\<lparr>gm_events_total := gm_events_total m + 1, gm_events_denied := gm_events_denied m + 1\<rparr>"

definition record_audited :: "guard_metrics \<Rightarrow> guard_metrics" where
  [metrics_defs]: "record_audited m =
     m\<lparr>gm_events_total := gm_events_total m + 1, gm_events_audited := gm_events_audited m + 1\<rparr>"

definition record_event_type :: "string \<Rightarrow> guard_metrics \<Rightarrow> guard_metrics" where
  [metrics_defs]: "record_event_type t m =
     (if t = ''access'' then m\<lparr>gm_access_events := gm_access_events m + 1\<rparr>
      else if t = ''open'' then m\<lparr>gm_open_events := gm_open_events m + 1\<rparr>
      else if t = ''open_exec'' then m\<lparr>gm_open_exec_events := gm_open_exec_events m + 1\<rparr>
      else if t = ''close_write'' then m\<lparr>gm_close_write_events := gm_close_write_events m + 1\<rparr>
      else if t = ''close'' \<or> t = ''close_nowrite'' then m\<lparr>gm_close_events := gm_close_events m + 1\<rparr>
      else m)"

definition gm_record_error :: "guard_metrics \<Rightarrow> guard_metrics" where
  [metrics_defs]: "gm_record_error m = m\<lparr>gm_errors := gm_errors m + 1\<rparr>"

definition record_deduplicated :: "guard_metrics \<Rightarrow> guard_metrics" where
  [metrics_defs]: "record_deduplicated m = m\<lparr>gm_deduplicated := gm_deduplicated m + 1\<rparr>"

definition record_policy_cache_hit :: "guard_metrics \<Rightarrow> guard_metrics" where
  [metrics_defs]: "record_policy_cache_hit m = m\<lparr>gm_policy_cache_hits := gm_policy_cache_hits m + 1\<rparr>"

definition record_policy_cache_miss :: "guard_metrics \<Rightarrow> guard_metrics" where
  [metrics_defs]: "record_policy_cache_miss m = m\<lparr>gm_policy_cache_misses := gm_policy_cache_misses m + 1\<rparr>"

definition gm_record_queue_overflow :: "guard_metrics \<Rightarrow> guard_metrics" where
  [metrics_defs]: "gm_record_queue_overflow m = m\<lparr>gm_queue_overflows := gm_queue_overflows m + 1\<rparr>"

definition record_response_retry :: "guard_metrics \<Rightarrow> guard_metrics" where
  [metrics_defs]: "record_response_retry m =
     m\<lparr>gm_response_write_retries := gm_response_write_retries m + 1\<rparr>"

definition record_response_failure :: "guard_metrics \<Rightarrow> guard_metrics" where
  [metrics_defs]: "record_response_failure m =
     m\<lparr>gm_response_write_failures := gm_response_write_failures m + 1\<rparr>"

text \<open>The fanotify snapshot: the counters without the name.\<close>

record guard_snapshot =
  gs_events_total :: u64
  gs_events_allowed :: u64
  gs_events_denied :: u64
  gs_events_audited :: u64
  gs_access_events :: u64
  gs_open_events :: u64
  gs_open_exec_events :: u64
  gs_close_write_events :: u64
  gs_close_events :: u64
  gs_errors :: u64
  gs_deduplicated :: u64
  gs_policy_cache_hits :: u64
  gs_policy_cache_misses :: u64
  gs_queue_overflows :: u64
  gs_response_write_retries :: u64
  gs_response_write_failures :: u64

definition guard_snapshot_of :: "guard_metrics \<Rightarrow> guard_snapshot" where
  "guard_snapshot_of m =
     \<lparr>gs_events_total = gm_events_total m, gs_events_allowed = gm_events_allowed m,
      gs_events_denied = gm_events_denied m, gs_events_audited = gm_events_audited m,
      gs_access_events = gm_access_events m, gs_open_events = gm_open_events m,
      gs_open_exec_events = gm_open_exec_events m, gs_close_write_events = gm_close_write_events m,
      gs_close_events = gm_close_events m, gs_errors = gm_errors m,
      gs_deduplicated = gm_deduplicated m, gs_policy_cache_hits = gm_policy_cache_hits m,
      gs_policy_cache_misses = gm_policy_cache_misses m, gs_queue_overflows = gm_queue_overflows m,
      gs_response_write_retries = gm_response_write_retries m,
      gs_response_write_failures = gm_response_write_failures m\<rparr>"

text \<open>The cast \<open>as i64\<close> keeps the bits: the same 64-bit word.\<close>

definition event_counts :: "guard_snapshot \<Rightarrow> (string \<times> i64) list" where
  "event_counts s =
     [(''access'', gs_access_events s), (''open'', gs_open_events s),
      (''open_exec'', gs_open_exec_events s), (''close_write'', gs_close_write_events s),
      (''close'', gs_close_events s)]"

definition gm_reset :: "guard_metrics \<Rightarrow> guard_metrics" where
  [metrics_defs]: "gm_reset m =
     m\<lparr>gm_events_total := 0, gm_events_allowed := 0, gm_events_denied := 0, gm_events_audited := 0,
       gm_access_events := 0, gm_open_events := 0, gm_open_exec_events := 0,
       gm_close_write_events := 0, gm_close_events := 0, gm_errors := 0, gm_deduplicated := 0,
       gm_policy_cache_hits := 0, gm_policy_cache_misses := 0, gm_queue_overflows := 0,
       gm_response_write_retries := 0, gm_response_write_failures := 0\<rparr>"

definition gm_record_event :: "guard_metrics \<Rightarrow> guard_metrics" where
  [metrics_defs]: "gm_record_event m = m\<lparr>gm_events_total := gm_events_total m + 1\<rparr>"

definition gm_daemon_snapshot :: "guard_metrics \<Rightarrow> metrics_snapshot" where
  [metrics_defs]: "gm_daemon_snapshot m =
     \<lparr>ms_name = gm_guard_name m, ms_events_total = gm_events_total m, ms_errors_total = gm_errors m,
      ms_custom =
        [(''events_allowed'', gm_events_allowed m), (''events_denied'', gm_events_denied m),
         (''events_audited'', gm_events_audited m), (''access_events'', gm_access_events m),
         (''open_events'', gm_open_events m), (''open_exec_events'', gm_open_exec_events m),
         (''close_write_events'', gm_close_write_events m), (''close_events'', gm_close_events m),
         (''deduplicated'', gm_deduplicated m), (''policy_cache_hits'', gm_policy_cache_hits m),
         (''policy_cache_misses'', gm_policy_cache_misses m),
         (''queue_overflows'', gm_queue_overflows m),
         (''response_write_retries'', gm_response_write_retries m),
         (''response_write_failures'', gm_response_write_failures m)]\<rparr>"

interpretation gm: daemon_metrics gm_guard_name gm_events_total gm_errors
    gm_record_event gm_record_error gm_daemon_snapshot
  by unfold_locales (simp_all add: metrics_defs)

subsection \<open>The response counters add up\<close>

definition gm_balanced :: "guard_metrics \<Rightarrow> bool" where
  "gm_balanced m \<longleftrightarrow> gm_events_total m = gm_events_allowed m + gm_events_denied m + gm_events_audited m"

lemma gm_balanced_intros [simp]:
  "gm_balanced (guard_metrics_new n)"
  "gm_balanced m \<Longrightarrow> gm_balanced (record_allowed m)"
  "gm_balanced m \<Longrightarrow> gm_balanced (record_denied m)"
  "gm_balanced m \<Longrightarrow> gm_balanced (record_audited m)"
  "gm_balanced m \<Longrightarrow> gm_balanced (record_event_type t m)"
  "gm_balanced m \<Longrightarrow> gm_balanced (gm_record_error m)"
  "gm_balanced m \<Longrightarrow> gm_balanced (gm_record_queue_overflow m)"
  "gm_balanced m \<Longrightarrow> gm_balanced (record_response_retry m)"
  "gm_balanced m \<Longrightarrow> gm_balanced (record_response_failure m)"
  "gm_balanced (gm_reset m)"
  by (simp_all add: gm_balanced_def metrics_defs algebra_simps)

lemma gm_name_frame [frame, simp]:
  "gm_guard_name (record_allowed m) = gm_guard_name m"
  "gm_guard_name (record_denied m) = gm_guard_name m"
  "gm_guard_name (record_audited m) = gm_guard_name m"
  "gm_guard_name (record_event_type t m) = gm_guard_name m"
  "gm_guard_name (gm_record_queue_overflow m) = gm_guard_name m"
  "gm_guard_name (record_response_retry m) = gm_guard_name m"
  "gm_guard_name (record_response_failure m) = gm_guard_name m"
  by (simp_all add: metrics_defs)

lemma gm_reset_new: "gm_reset m = guard_metrics_new (gm_guard_name m)"
  by (simp add: metrics_defs)

end
