(* ===== verification/Watcher_Metrics.thy ===== *)
theory Watcher_Metrics
  imports Metrics
begin

section \<open>Metrics of a watcher\<close>

text \<open>
  \<open>argusd/src/metrics.rs\<close>: the counters of one watcher. The per-type counters are an association list; a
  type that is not there yet is added with count one. The start time is an \<open>Instant\<close> in nanoseconds.
\<close>

record watcher_metrics =
  wm_watcher_name :: string
  wm_events_total :: u64
  wm_events_by_type :: "(string \<times> u64) list"
  wm_watches_active :: u64
  wm_watches_created :: u64
  wm_watches_removed :: u64
  wm_errors_total :: u64
  wm_queue_overflows :: u64
  wm_move_pairs_matched :: u64
  wm_move_pairs_timeout :: u64
  wm_start_time :: nat

definition watcher_metrics_new :: "nat \<Rightarrow> string \<Rightarrow> watcher_metrics" where
  [metrics_defs]: "watcher_metrics_new now n =
     \<lparr>wm_watcher_name = n, wm_events_total = 0, wm_events_by_type = [], wm_watches_active = 0,
      wm_watches_created = 0, wm_watches_removed = 0, wm_errors_total = 0, wm_queue_overflows = 0,
      wm_move_pairs_matched = 0, wm_move_pairs_timeout = 0, wm_start_time = now\<rparr>"

definition record_event_typed :: "string \<Rightarrow> watcher_metrics \<Rightarrow> watcher_metrics" where
  [metrics_defs]: "record_event_typed t m =
     (let m1 = m\<lparr>wm_events_total := wm_events_total m + 1\<rparr> in
      case map_of (wm_events_by_type m1) t of
        Some n \<Rightarrow> m1\<lparr>wm_events_by_type := AList.update t (n + 1) (wm_events_by_type m1)\<rparr>
      | None \<Rightarrow> m1\<lparr>wm_events_by_type := AList.update t 1 (wm_events_by_type m1)\<rparr>)"

definition record_watch_added :: "watcher_metrics \<Rightarrow> watcher_metrics" where
  [metrics_defs]: "record_watch_added m =
     m\<lparr>wm_watches_active := wm_watches_active m + 1, wm_watches_created := wm_watches_created m + 1\<rparr>"

definition record_watch_removed :: "watcher_metrics \<Rightarrow> watcher_metrics" where
  [metrics_defs]: "record_watch_removed m =
     m\<lparr>wm_watches_active := wm_watches_active m - 1, wm_watches_removed := wm_watches_removed m + 1\<rparr>"

definition set_watches_active :: "u64 \<Rightarrow> watcher_metrics \<Rightarrow> watcher_metrics" where
  [metrics_defs]: "set_watches_active n m = m\<lparr>wm_watches_active := n\<rparr>"

definition wm_record_queue_overflow :: "watcher_metrics \<Rightarrow> watcher_metrics" where
  [metrics_defs]: "wm_record_queue_overflow m =
     record_event_typed ''overflow'' (m\<lparr>wm_queue_overflows := wm_queue_overflows m + 1\<rparr>)"

definition record_move_pair_matched :: "watcher_metrics \<Rightarrow> watcher_metrics" where
  [metrics_defs]: "record_move_pair_matched m = m\<lparr>wm_move_pairs_matched := wm_move_pairs_matched m + 1\<rparr>"

definition record_move_pair_timeout :: "watcher_metrics \<Rightarrow> watcher_metrics" where
  [metrics_defs]: "record_move_pair_timeout m = m\<lparr>wm_move_pairs_timeout := wm_move_pairs_timeout m + 1\<rparr>"

definition wm_reset :: "watcher_metrics \<Rightarrow> watcher_metrics" where
  [metrics_defs]: "wm_reset m =
     m\<lparr>wm_events_total := 0, wm_events_by_type := [], wm_watches_active := 0, wm_watches_created := 0,
       wm_watches_removed := 0, wm_errors_total := 0, wm_queue_overflows := 0,
       wm_move_pairs_matched := 0, wm_move_pairs_timeout := 0\<rparr>"

definition wm_record_event :: "watcher_metrics \<Rightarrow> watcher_metrics" where
  [metrics_defs]: "wm_record_event m = m\<lparr>wm_events_total := wm_events_total m + 1\<rparr>"

definition wm_record_error :: "watcher_metrics \<Rightarrow> watcher_metrics" where
  [metrics_defs]: "wm_record_error m = m\<lparr>wm_errors_total := wm_errors_total m + 1\<rparr>"

text \<open>The custom map is filled by insertions, so a counter name overrides an event type of that name.\<close>

definition wm_snapshot :: "nat \<Rightarrow> watcher_metrics \<Rightarrow> metrics_snapshot" where
  [metrics_defs]: "wm_snapshot now m =
     \<lparr>ms_name = wm_watcher_name m, ms_events_total = wm_events_total m,
      ms_errors_total = wm_errors_total m,
      ms_custom = fold (\<lambda>(k, v). AList.update k v)
        [(''watches_active'', wm_watches_active m), (''watches_created'', wm_watches_created m),
         (''watches_removed'', wm_watches_removed m), (''queue_overflows'', wm_queue_overflows m),
         (''move_pairs_matched'', wm_move_pairs_matched m),
         (''move_pairs_timeout'', wm_move_pairs_timeout m),
         (''uptime_seconds'', of_nat ((now - wm_start_time m) div 1000000000))]
        (wm_events_by_type m)\<rparr>"

interpretation wm: daemon_metrics wm_watcher_name wm_events_total wm_errors_total
    wm_record_event wm_record_error "wm_snapshot now" for now
  by unfold_locales (simp_all add: metrics_defs)

subsection \<open>The per-type counters add up\<close>

definition by_type_sum :: "watcher_metrics \<Rightarrow> u64" where
  "by_type_sum m = sum_list (map snd (wm_events_by_type m))"

lemma sum_list_update_fresh:
  "map_of xs k = None \<Longrightarrow>
     sum_list (map snd (AList.update k v xs)) = sum_list (map snd xs) + (v :: 'a::comm_monoid_add)"
  by (induction xs) (auto split: if_splits simp: add_ac)

lemma sum_list_update_present:
  "map_of xs k = Some n \<Longrightarrow>
     sum_list (map snd (AList.update k (n + d) xs)) = sum_list (map snd xs) + (d :: 'a::comm_monoid_add)"
  by (induction xs) (auto split: if_splits simp: add_ac)

lemma by_type_sum_record [simp]: "by_type_sum (record_event_typed t m) = by_type_sum m + 1"
  by (auto simp: by_type_sum_def metrics_defs Let_def sum_list_update_fresh sum_list_update_present
      split: option.splits)

lemma wm_events_total_record [simp]:
  "wm_events_total (record_event_typed t m) = wm_events_total m + 1"
  by (simp add: metrics_defs Let_def split: option.splits)

lemma wm_by_type_lookup:
  "map_of (wm_events_by_type (record_event_typed t m)) t' =
     (if t' = t then Some (case map_of (wm_events_by_type m) t of Some n \<Rightarrow> n + 1 | None \<Rightarrow> 1)
      else map_of (wm_events_by_type m) t')"
  by (auto simp: metrics_defs Let_def update_conv' split: option.splits)

subsection \<open>Properties\<close>

text \<open>
  Counting by type loses nothing: after any sequence of typed events the total and the sum over the
  types are both the number of events, and the count of each type is the number of its events.
\<close>

theorem typed_events_counted:
  "wm_events_total (fold record_event_typed ts (watcher_metrics_new now n)) = of_nat (length ts) \<and>
   by_type_sum (fold record_event_typed ts (watcher_metrics_new now n)) = of_nat (length ts) \<and>
   map_of (wm_events_by_type (fold record_event_typed ts (watcher_metrics_new now n))) t
     = (if t \<in> set ts then Some (of_nat (count_list ts t)) else None)"
proof (induction ts rule: rev_induct)
  case Nil
  then show ?case by (simp add: metrics_defs by_type_sum_def)
next
  case (snoc x xs)
  then show ?case by (auto simp: wm_by_type_lookup)
qed

end
