(* ===== verification/Audit_Log.thy ===== *)
theory Audit_Log
  imports Policy
begin

section \<open>The kernel audit log of janusd\<close>

text \<open>
  \<open>janusd/src/audit.rs\<close>: the audit message of an access event, its netlink frame, and the two loggers
  behind the trait \<open>AuditLogger\<close> (the locale \<open>audit_sink\<close>). The kernel is an argument: the effective
  capabilities, the results of \<open>socket\<close>, \<open>bind\<close> and \<open>sendto\<close> (an errno on the left) and the process id.
  \<open>to_ne_bytes\<close> depends on the machine, so the byte order is an argument too. What an operation writes to
  the socket is returned as a list of frames.
\<close>

unbundle bit_operations_syntax

subsection \<open>Data\<close>

definition NETLINK_AUDIT :: nat where "NETLINK_AUDIT = 9"
definition AUDIT_USER :: u16 where "AUDIT_USER = 1005"
definition NLM_F_REQUEST :: u16 where "NLM_F_REQUEST = 1"
definition NLM_F_ACK :: u16 where "NLM_F_ACK = 4"
definition NLMSG_HDRLEN :: nat where "NLMSG_HDRLEN = 16"

datatype audit_error =
    SocketCreate nat
  | SocketBind nat
  | SendMessage nat
  | MissingCapability
  | MessageTooLong nat

datatype audit_event_type = EvAccess | EvOpen | EvDenied

fun audit_event_type_as_str :: "audit_event_type \<Rightarrow> string" where
  "audit_event_type_as_str EvAccess = ''ACCESS''"
| "audit_event_type_as_str EvOpen = ''OPEN''"
| "audit_event_type_as_str EvDenied = ''DENIED''"

record audit_access_event =
  ae_guard_name :: string
  ae_namespace :: string
  ae_pod_name :: string
  ae_container_id :: string
  ae_path :: string
  ae_pid :: i32
  ae_uid :: u32
  ae_gid :: u32
  ae_response :: access_response
  ae_event_type :: audit_event_type
  ae_comm :: string
  ae_exe :: string

definition allowed_word :: "access_response \<Rightarrow> string" where
  "allowed_word r = (case r of Allow \<Rightarrow> ''yes'' | AuditResp \<Rightarrow> ''yes'' | Deny \<Rightarrow> ''no'')"

definition to_audit_message :: "audit_access_event \<Rightarrow> string" where
  "to_audit_message e =
     ''op=janus type='' @ audit_event_type_as_str (ae_event_type e) @
     '' guard='' @ [CHR 0x22] @ ae_guard_name e @ [CHR 0x22] @
     '' namespace='' @ [CHR 0x22] @ ae_namespace e @ [CHR 0x22] @
     '' pod='' @ [CHR 0x22] @ ae_pod_name e @ [CHR 0x22] @
     '' container='' @ [CHR 0x22] @ ae_container_id e @ [CHR 0x22] @
     '' path='' @ [CHR 0x22] @ ae_path e @ [CHR 0x22] @
     '' pid='' @ show_i32 (ae_pid e) @ '' uid='' @ show_u32 (ae_uid e) @
     '' gid='' @ show_u32 (ae_gid e) @ '' allowed='' @ allowed_word (ae_response e) @
     (if ae_comm e \<noteq> [] then '' comm='' @ [CHR 0x22] @ ae_comm e @ [CHR 0x22] else []) @
     (if ae_exe e \<noteq> [] then '' exe='' @ [CHR 0x22] @ ae_exe e @ [CHR 0x22] else [])"

subsection \<open>Netlink frames\<close>

definition to_ne_bytes_u16 :: "bool \<Rightarrow> u16 \<Rightarrow> u8 list" where
  "to_ne_bytes_u16 little w =
     (let bs = [ucast w, ucast (drop_bit 8 w)] in if little then bs else rev bs)"

definition to_ne_bytes_u32 :: "bool \<Rightarrow> u32 \<Rightarrow> u8 list" where
  "to_ne_bytes_u32 little w =
     (let bs = [ucast w, ucast (drop_bit 8 w), ucast (drop_bit 16 w), ucast (drop_bit 24 w)]
      in if little then bs else rev bs)"

definition string_bytes :: "string \<Rightarrow> u8 list" where
  "string_bytes s = map of_char s"

text \<open>\<open>(total_len + 3) & !3\<close> on a 64-bit \<open>usize\<close>.\<close>

definition aligned_len :: "nat \<Rightarrow> nat" where
  "aligned_len n = unat ((of_nat n + 3 :: u64) AND NOT 3)"

text \<open>\<open>copy_from_slice\<close> into a slice of the buffer.\<close>

definition copy_at :: "nat \<Rightarrow> 'a list \<Rightarrow> 'a list \<Rightarrow> 'a list" where
  "copy_at i xs buf = take i buf @ xs @ drop (i + length xs) buf"

record netlink_logger =
  socket_fd :: nat
  nl_sequence :: u32

definition netlink_frame :: "bool \<Rightarrow> u32 \<Rightarrow> u32 \<Rightarrow> u8 list \<Rightarrow> u8 list" where
  "netlink_frame little seq pid msg =
     (let total = NLMSG_HDRLEN + length msg
      in copy_at NLMSG_HDRLEN msg
          (copy_at 12 (to_ne_bytes_u32 little pid)
          (copy_at 8 (to_ne_bytes_u32 little seq)
          (copy_at 6 (to_ne_bytes_u16 little (NLM_F_REQUEST OR NLM_F_ACK))
          (copy_at 4 (to_ne_bytes_u16 little AUDIT_USER)
          (copy_at 0 (to_ne_bytes_u32 little (of_nat total))
          (replicate (aligned_len total) 0)))))))"

text \<open>
  \<open>send_message\<close>: the size check comes before the sequence number is taken; the number is taken even if
  \<open>sendto\<close> fails.
\<close>

definition send_message ::
  "bool \<Rightarrow> u32 \<Rightarrow> (u8 list \<Rightarrow> nat + unit) \<Rightarrow> string \<Rightarrow> netlink_logger
   \<Rightarrow> (audit_error + unit) \<times> netlink_logger \<times> u8 list list" where
  "send_message little pid sendto message lg =
     (let msg = string_bytes message in
      if length msg > 8192 then (Inl (MessageTooLong (length msg)), lg, [])
      else (let frame = netlink_frame little (nl_sequence lg) pid msg;
                lg' = lg\<lparr>nl_sequence := nl_sequence lg + 1\<rparr>
            in (case sendto frame of
                  Inl errno \<Rightarrow> (Inl (SendMessage errno), lg', [])
                | Inr _ \<Rightarrow> (Inr (), lg', [frame]))))"

definition netlink_log_access ::
  "bool \<Rightarrow> u32 \<Rightarrow> (u8 list \<Rightarrow> nat + unit) \<Rightarrow> audit_access_event \<Rightarrow> netlink_logger
   \<Rightarrow> (audit_error + unit) \<times> netlink_logger \<times> u8 list list" where
  "netlink_log_access little pid sendto e lg = send_message little pid sendto (to_audit_message e) lg"

text \<open>\<open>caps::read\<close> may fail (\<open>None\<close>); then the capability is not checked.\<close>

definition netlink_logger_new ::
  "bool option \<Rightarrow> nat + nat \<Rightarrow> nat + unit \<Rightarrow> audit_error + netlink_logger" where
  "netlink_logger_new has_cap sock bnd =
     (if has_cap = Some False then Inl MissingCapability
      else (case sock of
              Inl errno \<Rightarrow> Inl (SocketCreate errno)
            | Inr fd \<Rightarrow> (case bnd of
                           Inl errno \<Rightarrow> Inl (SocketBind errno)
                         | Inr _ \<Rightarrow> Inr \<lparr>socket_fd = fd, nl_sequence = 1\<rparr>)))"

definition null_log_access ::
  "audit_access_event \<Rightarrow> unit \<Rightarrow> (audit_error + unit) \<times> unit \<times> u8 list list" where
  "null_log_access e lg = (Inr (), lg, [])"

text \<open>\<open>Box<dyn AuditLogger>\<close>\<close>

datatype audit_logger = Netlink netlink_logger | NullAuditLogger

definition create_audit_logger :: "bool option \<Rightarrow> nat + nat \<Rightarrow> nat + unit \<Rightarrow> audit_logger" where
  "create_audit_logger has_cap sock bnd =
     (case netlink_logger_new has_cap sock bnd of Inr lg \<Rightarrow> Netlink lg | Inl _ \<Rightarrow> NullAuditLogger)"

definition log_access ::
  "bool \<Rightarrow> u32 \<Rightarrow> (u8 list \<Rightarrow> nat + unit) \<Rightarrow> audit_access_event \<Rightarrow> audit_logger
   \<Rightarrow> (audit_error + unit) \<times> audit_logger \<times> u8 list list" where
  "log_access little pid sendto e lg =
     (case lg of
        Netlink n \<Rightarrow> (let (r, n', fs) = netlink_log_access little pid sendto e n in (r, Netlink n', fs))
      | NullAuditLogger \<Rightarrow> (let (r, _, fs) = null_log_access e () in (r, NullAuditLogger, fs)))"

definition is_available :: "audit_logger \<Rightarrow> bool" where
  "is_available lg = (case lg of Netlink _ \<Rightarrow> True | NullAuditLogger \<Rightarrow> False)"

subsection \<open>The trait\<close>

text \<open>
  What a client of a logger relies on: an access writes at most one frame, a failure writes none, and
  logging does not change whether the logger is available.
\<close>

locale audit_sink =
  fixes log :: "audit_access_event \<Rightarrow> 's \<Rightarrow> (audit_error + unit) \<times> 's \<times> u8 list list"
    and available :: "'s \<Rightarrow> bool"
  assumes one_frame: "log e s = (r, s', fs) \<Longrightarrow> length fs \<le> 1"
    and no_frame_on_error: "log e s = (Inl err, s', fs) \<Longrightarrow> fs = []"
    and available_kept: "log e s = (r, s', fs) \<Longrightarrow> available s' = available s"
    and unavailable_silent: "\<not> available s \<Longrightarrow> log e s = (r, s', fs) \<Longrightarrow> fs = []"
begin

fun log_all :: "audit_access_event list \<Rightarrow> 's \<Rightarrow> 's \<times> u8 list list" where
  "log_all [] s = (s, [])"
| "log_all (e # es) s =
     (let (r, s1, fs) = log e s; (s2, gs) = log_all es s1 in (s2, fs @ gs))"

lemma log_all_bounded:
  "length (snd (log_all es s)) \<le> length es \<and> (\<not> available s \<longrightarrow> snd (log_all es s) = [])"
proof (induction es arbitrary: s)
  case (Cons e es)
  obtain r s1 fs where l: "log e s = (r, s1, fs)" by (cases "log e s") auto
  with Cons [of s1] one_frame [OF l] available_kept [OF l] unavailable_silent [OF _ l]
  show ?case by (auto simp: split_beta)
qed simp

end

interpretation netlink_sink: audit_sink "netlink_log_access little pid sendto" "\<lambda>_. True"
  for little pid sendto
  by unfold_locales
    (auto simp: netlink_log_access_def send_message_def Let_def split: if_splits sum.splits)

interpretation null_sink: audit_sink null_log_access "\<lambda>_. False"
  by unfold_locales (auto simp: null_log_access_def)

interpretation boxed_sink: audit_sink "log_access little pid sendto" is_available for little pid sendto
  by unfold_locales
    (auto simp: log_access_def is_available_def null_log_access_def netlink_log_access_def
      send_message_def Let_def split: audit_logger.splits if_splits sum.splits prod.splits)

subsection \<open>Frames\<close>

lemma and_not_3: "w AND NOT 3 = push_bit 2 (drop_bit 2 (w :: u64))"
proof (rule bit_eqI)
  have mask: "NOT 3 = NOT (mask 2 :: u64)"
    by (simp add: mask_eq_exp_minus_1)
  show "bit (w AND NOT 3) n = bit (push_bit 2 (drop_bit 2 w)) n" for n
    unfolding mask by (cases "2 \<le> n") (auto simp: bit_simps not_less dest!: le_Suc_ex)
qed

lemma unat_and_not_3: "unat (w AND NOT 3) = 4 * (unat (w :: u64) div 4)"
proof -
  have "unat w < 2 ^ LENGTH(64)" by (rule unsigned_less)
  then have "unat w div 4 * 4 < 2 ^ 64" by simp
  then show ?thesis
    unfolding and_not_3 by (simp add: push_bit_eq_mult drop_bit_eq_div unat_word_ariths unat_div)
qed

lemma aligned_len_eq:
  assumes "n + 3 < 2 ^ 64"
  shows "aligned_len n = 4 * ((n + 3) div 4)"
proof -
  have "unat (of_nat n + 3 :: u64) = n + 3"
    using assms by (simp add: unat_word_ariths unsigned_of_nat take_bit_eq_mod)
  then show ?thesis unfolding aligned_len_def unat_and_not_3 by simp
qed

lemma length_ne_bytes [simp]:
  "length (to_ne_bytes_u16 l w) = 2" "length (to_ne_bytes_u32 l v) = 4"
  by (simp_all add: to_ne_bytes_u16_def to_ne_bytes_u32_def Let_def)

lemma copy_at_append:
  "length pre = i \<Longrightarrow> length old = length xs \<Longrightarrow> copy_at i xs (pre @ old @ post) = pre @ xs @ post"
  by (simp add: copy_at_def)

lemma netlink_frame_layout:
  assumes "length msg \<le> 8192"
  shows "netlink_frame little seq pid msg =
     to_ne_bytes_u32 little (of_nat (NLMSG_HDRLEN + length msg)) @ to_ne_bytes_u16 little AUDIT_USER @
     to_ne_bytes_u16 little (NLM_F_REQUEST OR NLM_F_ACK) @ to_ne_bytes_u32 little seq @
     to_ne_bytes_u32 little pid @ msg @
     replicate (aligned_len (NLMSG_HDRLEN + length msg) - (NLMSG_HDRLEN + length msg)) 0"
proof -
  let ?n = "NLMSG_HDRLEN + length msg"
  let ?pad = "replicate (aligned_len ?n - ?n) (0 :: u8)"
  have "aligned_len ?n = 4 + (2 + (2 + (4 + (4 + (length msg + (aligned_len ?n - ?n))))))"
    using assms by (simp add: aligned_len_eq NLMSG_HDRLEN_def)
  then have zero: "replicate (aligned_len ?n) (0 :: u8) =
      replicate 4 0 @ replicate 2 0 @ replicate 2 0 @ replicate 4 0 @ replicate 4 0 @
      replicate (length msg) 0 @ ?pad"
    by (metis replicate_add)
  note simps = copy_at_append [of "[]" 0, simplified]
    copy_at_append [of "to_ne_bytes_u32 _ _" 4]
    copy_at_append [of "to_ne_bytes_u32 _ _ @ to_ne_bytes_u16 _ _" 6, simplified]
    copy_at_append [of "to_ne_bytes_u32 _ _ @ to_ne_bytes_u16 _ _ @ to_ne_bytes_u16 _ _" 8, simplified]
    copy_at_append [of "to_ne_bytes_u32 _ _ @ to_ne_bytes_u16 _ _ @ to_ne_bytes_u16 _ _ @
        to_ne_bytes_u32 _ _" 12, simplified]
    copy_at_append [of "to_ne_bytes_u32 _ _ @ to_ne_bytes_u16 _ _ @ to_ne_bytes_u16 _ _ @
        to_ne_bytes_u32 _ _ @ to_ne_bytes_u32 _ _" 16, simplified]
  show ?thesis
    unfolding netlink_frame_def Let_def zero by (simp add: simps NLMSG_HDRLEN_def)
qed

text \<open>The receiving side, for the round trip: the fields of a \<open>struct nlmsghdr\<close> and the payload.\<close>

definition from_ne_bytes_u16 :: "bool \<Rightarrow> u8 list \<Rightarrow> u16" where
  "from_ne_bytes_u16 little bs =
     foldr (\<lambda>b acc. ucast b OR push_bit 8 acc) (if little then bs else rev bs) 0"

definition from_ne_bytes_u32 :: "bool \<Rightarrow> u8 list \<Rightarrow> u32" where
  "from_ne_bytes_u32 little bs =
     foldr (\<lambda>b acc. ucast b OR push_bit 8 acc) (if little then bs else rev bs) 0"

record nlmsg =
  nl_len :: u32
  nl_type :: u16
  nl_flags :: u16
  nl_seq :: u32
  nl_pid :: u32
  nl_payload :: "u8 list"

definition parse_frame :: "bool \<Rightarrow> u8 list \<Rightarrow> nlmsg" where
  "parse_frame little f =
     (let len = from_ne_bytes_u32 little (take 4 f)
      in \<lparr>nl_len = len, nl_type = from_ne_bytes_u16 little (take 2 (drop 4 f)),
          nl_flags = from_ne_bytes_u16 little (take 2 (drop 6 f)),
          nl_seq = from_ne_bytes_u32 little (take 4 (drop 8 f)),
          nl_pid = from_ne_bytes_u32 little (take 4 (drop 12 f)),
          nl_payload = take (unat len - 16) (drop 16 f)\<rparr>)"

lemma byte_split: "ucast (ucast w :: u8) OR push_bit 8 (drop_bit 8 w) = (w :: 'a::len word)"
proof (rule bit_word_eqI)
  show "bit (ucast (ucast w :: u8) OR push_bit 8 (drop_bit 8 w)) n = bit w n" if "n < LENGTH('a)" for n
    using that by (cases "8 \<le> n") (auto simp: bit_simps dest!: le_Suc_ex)
qed

lemma top_byte:
  "ucast (ucast (drop_bit 24 w) :: u8) = drop_bit 24 (w :: u32)"
  "ucast (ucast (drop_bit 8 v) :: u8) = drop_bit 8 (v :: u16)"
  by (rule bit_eqI; auto simp: bit_simps dest: bit_imp_le_length)+

lemma from_to_ne_bytes_u16 [simp]: "from_ne_bytes_u16 l (to_ne_bytes_u16 l w) = w"
  using byte_split [of w] top_byte(2) [of w]
  by (simp add: from_ne_bytes_u16_def to_ne_bytes_u16_def Let_def)

lemma from_to_ne_bytes_u32 [simp]: "from_ne_bytes_u32 l (to_ne_bytes_u32 l w) = w"
  using byte_split [of w] byte_split [of "drop_bit 8 w"] byte_split [of "drop_bit 16 w"] top_byte(1) [of w]
  by (simp add: from_ne_bytes_u32_def to_ne_bytes_u32_def Let_def)

subsection \<open>Properties\<close>

text \<open>
  C19: The netlink frame of a message within the size limit is well formed and can be read back: the
  length field is header plus payload, the type is AUDIT_USER with REQUEST and ACK set, sequence number,
  process id and payload come back, and the frame is padded to a multiple of four bytes.
\<close>

theorem netlink_frame_roundtrip:
  assumes "length msg \<le> 8192"
  shows "parse_frame little (netlink_frame little seq pid msg) =
           \<lparr>nl_len = of_nat (16 + length msg), nl_type = 1005, nl_flags = 5, nl_seq = seq, nl_pid = pid,
            nl_payload = msg\<rparr> \<and>
         length (netlink_frame little seq pid msg) mod 4 = 0 \<and>
         length (netlink_frame little seq pid msg) \<le> 8208"
proof -
  have "unat (of_nat (16 + length msg) :: u32) = 16 + length msg"
    using assms by (simp add: unsigned_of_nat take_bit_eq_mod del: of_nat_add)
  moreover have "aligned_len (16 + length msg) = 4 * ((19 + length msg) div 4)"
    using assms by (simp add: aligned_len_eq add.commute)
  moreover have "4 * ((19 + length msg) div 4) \<le> 8208"
    using div_le_mono [of "19 + length msg" 8211 4] assms by simp
  ultimately show ?thesis
    using assms
    by (simp add: netlink_frame_layout parse_frame_def Let_def NLMSG_HDRLEN_def AUDIT_USER_def
        NLM_F_REQUEST_def NLM_F_ACK_def)
qed

theorem netlink_frame_roundtrip_witness:
  "nl_payload (parse_frame True (netlink_frame True 7 42 (string_bytes ''op=janus''))) = string_bytes ''op=janus''"
  using netlink_frame_roundtrip [of "string_bytes ''op=janus''" True 7 42]
  by (simp add: string_bytes_def)

text \<open>
  Every outcome of \<open>send_message\<close>. A message over 8192 bytes is refused and takes no sequence number;
  any other message takes the next number (which wraps at 2 to the 32), and the frame with that number
  goes out exactly when the kernel accepts it.
\<close>

theorem send_message_cases:
  "send_message little pid sendto message lg =
     (if 8192 < length message then (Inl (MessageTooLong (length message)), lg, [])
      else let f = netlink_frame little (nl_sequence lg) pid (string_bytes message) in
        (case sendto f of Inl errno \<Rightarrow> Inl (SendMessage errno) | Inr _ \<Rightarrow> Inr (),
         lg\<lparr>nl_sequence := nl_sequence lg + 1\<rparr>,
         case sendto f of Inl errno \<Rightarrow> [] | Inr _ \<Rightarrow> [f]))"
  by (auto simp: send_message_def string_bytes_def Let_def split: sum.splits)

subsection \<open>What a message determines\<close>

lemma delim_inject:
  "c \<notin> set a \<Longrightarrow> c \<notin> set b \<Longrightarrow> a @ c # x = b @ c # y \<longleftrightarrow> a = b \<and> x = y"
proof (induction a arbitrary: b)
  case Nil
  then show ?case by (cases b) auto
next
  case (Cons z a)
  then show ?case by (cases b) auto
qed

lemma delim_absent:
  assumes "c \<notin> set b"
  shows "a @ c # x \<noteq> b" and "b \<noteq> a @ c # x"
  using assms by auto

definition quote_free :: "audit_access_event \<Rightarrow> bool" where
  "quote_free e \<longleftrightarrow> CHR 0x22 \<notin> set (ae_guard_name e) \<union> set (ae_namespace e) \<union> set (ae_pod_name e) \<union>
     set (ae_container_id e) \<union> set (ae_path e) \<union> set (ae_comm e) \<union> set (ae_exe e)"

lemma digit_no_blank: "is_ascii_digit c \<Longrightarrow> c \<noteq> CHR '' '' \<and> c \<noteq> CHR ''-''"
  by (auto simp: is_ascii_digit_def)

lemma show_nat_no_blank [simp]: "CHR '' '' \<notin> set (show_nat n)" "CHR ''-'' \<notin> set (show_nat n)"
  using show_nat_digits [of n] digit_no_blank by (auto simp: list_all_iff)

lemma show_no_blank [simp]: "CHR '' '' \<notin> set (show_u32 u)" "CHR '' '' \<notin> set (show_i32 i)"
  by (simp_all add: show_u32_def show_i32_def)

lemma show_u32_inject [simp]: "show_u32 a = show_u32 b \<longleftrightarrow> a = b"
  using parse_show_u32 by (metis option.inject)

lemma minus_not_show_nat [simp]: "CHR ''-'' # xs \<noteq> show_nat n" "show_nat n \<noteq> CHR ''-'' # xs"
  using show_nat_no_blank(2) [of n] by (metis list.set_intros(1))+

lemma show_i32_inject [simp]: "show_i32 a = show_i32 b \<longleftrightarrow> a = b"
proof
  assume "show_i32 a = show_i32 b"
  then have "sint a = sint b" by (auto simp: show_i32_def split: if_splits)
  then show "a = b" by (rule signed_word_eqI)
qed simp

lemma event_type_str [simp]:
  "CHR '' '' \<notin> set (audit_event_type_as_str t)"
  "audit_event_type_as_str t = audit_event_type_as_str t' \<longleftrightarrow> t = t'"
  by (cases t; simp; fail) (cases t; cases t'; simp)

text \<open>
  The audit message identifies the access. When no field holds a double quote, two events with the
  same message agree on guard, namespace, pod, container, path, process, user, group, kind, command and
  executable and on whether the access was allowed.
\<close>

theorem audit_message_injective:
  assumes "quote_free e" and "quote_free e'" and "to_audit_message e = to_audit_message e'"
  shows "e' = e\<lparr>ae_response := ae_response e'\<rparr> \<and> allowed_word (ae_response e) = allowed_word (ae_response e')"
proof -
  have rest: "ae_guard_name e = ae_guard_name e' \<and> ae_namespace e = ae_namespace e' \<and>
      ae_pod_name e = ae_pod_name e' \<and> ae_container_id e = ae_container_id e' \<and> ae_path e = ae_path e' \<and>
      ae_pid e = ae_pid e' \<and> ae_uid e = ae_uid e' \<and> ae_gid e = ae_gid e' \<and>
      ae_event_type e = ae_event_type e' \<and>
      allowed_word (ae_response e) @
        (if ae_comm e \<noteq> [] then '' comm='' @ [CHR 0x22] @ ae_comm e @ [CHR 0x22] else []) @
        (if ae_exe e \<noteq> [] then '' exe='' @ [CHR 0x22] @ ae_exe e @ [CHR 0x22] else []) =
      allowed_word (ae_response e') @
        (if ae_comm e' \<noteq> [] then '' comm='' @ [CHR 0x22] @ ae_comm e' @ [CHR 0x22] else []) @
        (if ae_exe e' \<noteq> [] then '' exe='' @ [CHR 0x22] @ ae_exe e' @ [CHR 0x22] else [])"
    using assms unfolding to_audit_message_def quote_free_def
    by (simp del: if_split_asm add: delim_inject)
  then have "allowed_word (ae_response e) = allowed_word (ae_response e') \<and> ae_comm e = ae_comm e' \<and>
      ae_exe e = ae_exe e'"
    using assms(1,2) unfolding quote_free_def
    by (auto simp: allowed_word_def delim_inject delim_absent split: access_response.splits if_splits)
  with rest show ?thesis by simp
qed

definition example_access :: "string \<Rightarrow> string \<Rightarrow> i32 \<Rightarrow> access_response \<Rightarrow> audit_access_event" where
  "example_access p x i r =
     \<lparr>ae_guard_name = ''g'', ae_namespace = ''n'', ae_pod_name = ''p'', ae_container_id = ''c'',
      ae_path = p, ae_pid = i, ae_uid = 0, ae_gid = 0, ae_response = r, ae_event_type = EvAccess,
      ae_comm = [], ae_exe = x\<rparr>"

theorem audit_message_injective_witness:
  "quote_free (example_access ''/a'' ''/b'' 7 Allow) \<and>
   allowed_word (ae_response (example_access ''/a'' ''/b'' 7 Allow))
     = allowed_word (ae_response (example_access ''/a'' ''/b'' 7 AuditResp))"
proof -
  have q: "quote_free (example_access ''/a'' ''/b'' 7 r)" for r
    by (simp add: quote_free_def example_access_def)
  have "to_audit_message (example_access ''/a'' ''/b'' 7 Allow) =
        to_audit_message (example_access ''/a'' ''/b'' 7 AuditResp)"
    by (simp add: to_audit_message_def example_access_def allowed_word_def)
  from audit_message_injective [OF q q this] q show ?thesis by blast
qed

text \<open>
  The hypothesis matters: fields are copied without escaping, so a file name that holds double quotes
  can make the record of a denied access read the same as the record of a denied access by another
  process and user.
\<close>

theorem audit_message_forgeable:
  "\<exists>e e'. ae_response e = Deny \<and> ae_response e' = Deny \<and> ae_pid e \<noteq> ae_pid e' \<and> ae_uid e \<noteq> ae_uid e' \<and>
          ae_path e \<noteq> ae_path e' \<and> to_audit_message e = to_audit_message e'"
proof -
  let ?q = "[CHR 0x22]"
  let ?e = "(example_access (''/p'' @ ?q @ '' pid=1 uid=0 gid=0 allowed=no exe='' @ ?q) ''z'' 7 Deny)
              \<lparr>ae_uid := 5\<rparr>"
  let ?e' = "example_access ''/p'' (?q @ '' pid=7 uid=5 gid=0 allowed=no exe='' @ ?q @ ''z'') 1 Deny"
  have "to_audit_message ?e = to_audit_message ?e'"
    by (simp add: to_audit_message_def example_access_def allowed_word_def show_u32_def show_i32_def
        show_nat.simps)
  moreover have "ae_pid ?e \<noteq> ae_pid ?e' \<and> ae_uid ?e \<noteq> ae_uid ?e' \<and> ae_path ?e \<noteq> ae_path ?e' \<and>
      ae_response ?e = Deny \<and> ae_response ?e' = Deny"
    by (simp add: example_access_def)
  ultimately show ?thesis by blast
qed

end
