(* ===== verification/Guard.thy ===== *)
theory Guard
  imports Policy Dedupe Guard_Metrics "HOL-Library.Sublist"
begin

section \<open>The fanotify guard of janusd\<close>

text \<open>
  \<open>janusd/src/guard.rs\<close>. The kernel and the file system are arguments: the results of \<open>fanotify_init\<close>,
  \<open>fanotify_mark\<close>, of each write of a permission response, of the \<open>readlink\<close> of an event's descriptor and
  of \<open>stat\<close>, the batches that \<open>read_events\<close> returns and the clock. The flags of the \<open>nix\<close> bit sets are sets
  of flags. The event loop is a function of the sequence of its inputs; what it does to the outside, the
  permission responses it writes and the events it sends down the channel, is its output. Logging is
  left out. The guard's metrics handle is the guard's own copy of the counters.
\<close>

subsection \<open>Data\<close>

datatype guard_error =
    Fanotify errno
  | Io errno
  | PolicyErr policy_error
  | MaxMarksExceeded nat nat

datatype init_flag = FAN_CLASS_CONTENT | FAN_CLASS_NOTIF | FAN_CLOEXEC | FAN_NONBLOCK

datatype mask_flag =
    FAN_ACCESS | FAN_MODIFY | FAN_CLOSE_WRITE | FAN_CLOSE_NOWRITE | FAN_OPEN | FAN_OPEN_EXEC
  | FAN_OPEN_PERM | FAN_ACCESS_PERM | FAN_OPEN_EXEC_PERM | FAN_Q_OVERFLOW

definition FAN_CLOSE :: "mask_flag set" where
  "FAN_CLOSE = {FAN_CLOSE_WRITE, FAN_CLOSE_NOWRITE}"

definition perm_flags :: "mask_flag set" where
  "perm_flags = {FAN_OPEN_PERM, FAN_ACCESS_PERM, FAN_OPEN_EXEC_PERM}"

datatype fan_response = FAN_ALLOW | FAN_DENY

record fan_event =
  fe_mask :: "mask_flag set"
  fe_fd :: "i32 option"
  fe_pid :: i32

record access_event =
  ev_event_type :: string
  ev_path :: string
  ev_is_dir :: bool
  ev_pid :: i32
  ev_response :: access_response
  ev_matched_pattern :: bool

record guard_config =
  gc_allow_patterns :: "string list"
  gc_deny_patterns :: "string list"
  gc_events :: "string list"
  gc_auto_allow_owner :: bool
  gc_enforce :: bool
  gc_max_marks_per_guard :: nat

record ('p, 'c) guard =
  g_running :: bool
  g_config :: guard_config
  g_policy :: "('p, 'c) policy_evaluator"
  g_dedupe :: dedupe_cache
  g_metrics :: "guard_metrics option"
  g_marks_active :: nat

subsection \<open>Construction and marks\<close>

definition guard_init_flags :: "bool \<Rightarrow> init_flag set" where
  "guard_init_flags enforce =
     (if enforce then {FAN_CLASS_CONTENT, FAN_CLOEXEC, FAN_NONBLOCK}
      else {FAN_CLASS_NOTIF, FAN_CLOEXEC, FAN_NONBLOCK})"

definition guard_new ::
  "'p glob_api \<Rightarrow> 'c lru_api \<Rightarrow> (init_flag set \<Rightarrow> errno + unit) \<Rightarrow> guard_config \<Rightarrow> guard_metrics option
   \<Rightarrow> guard_error + ('p, 'c) guard" where
  "guard_new G L init cfg metrics =
     (case init (guard_init_flags (gc_enforce cfg)) of
        Inl e \<Rightarrow> Inl (Fanotify e)
      | Inr _ \<Rightarrow>
          (case with_config G L (gc_deny_patterns cfg) (gc_allow_patterns cfg) (gc_auto_allow_owner cfg)
                  None Allow (Some 1024) of
             Inl e \<Rightarrow> Inl (PolicyErr e)
           | Inr policy \<Rightarrow>
               Inr \<lparr>g_running = False, g_config = cfg, g_policy = policy, g_dedupe = dedupe_cache_default,
                    g_metrics = metrics, g_marks_active = 0\<rparr>))"

text \<open>The flags one event name adds to the mask.\<close>

definition event_mask :: "bool \<Rightarrow> string \<Rightarrow> mask_flag set" where
  "event_mask use_perm name =
     (let e = to_lowercase name in
      if e = ''access'' then {if use_perm then FAN_ACCESS_PERM else FAN_ACCESS}
      else if e = ''open'' then {if use_perm then FAN_OPEN_PERM else FAN_OPEN}
      else if e = ''open_perm'' then {FAN_OPEN_PERM}
      else if e = ''access_perm'' then {FAN_ACCESS_PERM}
      else if e = ''close_write'' then {FAN_CLOSE_WRITE}
      else if e = ''close_nowrite'' then {FAN_CLOSE_NOWRITE}
      else if e = ''modify'' then {FAN_MODIFY}
      else if e = ''all'' then
        (if use_perm then {FAN_ACCESS_PERM, FAN_OPEN_PERM} \<union> FAN_CLOSE \<union> {FAN_MODIFY}
         else {FAN_ACCESS, FAN_OPEN} \<union> FAN_CLOSE \<union> {FAN_MODIFY})
      else if e = ''all_perm'' then {FAN_OPEN_PERM, FAN_ACCESS_PERM}
      else {})"

definition events_to_mask :: "guard_config \<Rightarrow> mask_flag set" where
  "events_to_mask cfg =
     (let mask = fold (\<lambda>e m. m \<union> event_mask (gc_enforce cfg) e) (gc_events cfg) {}
      in if mask = {} then {FAN_OPEN_PERM, FAN_ACCESS_PERM} else mask)"

definition add_mount ::
  "(mask_flag set \<Rightarrow> string \<Rightarrow> errno + unit) \<Rightarrow> string \<Rightarrow> ('p, 'c) guard
   \<Rightarrow> (guard_error + unit) \<times> ('p, 'c) guard" where
  "add_mount mark path g =
     (if g_marks_active g \<ge> gc_max_marks_per_guard (g_config g)
      then (Inl (MaxMarksExceeded (gc_max_marks_per_guard (g_config g)) (g_marks_active g)), g)
      else (case mark (events_to_mask (g_config g)) path of
              Inl e \<Rightarrow> (Inl (Fanotify e), g)
            | Inr _ \<Rightarrow> (Inr (), g\<lparr>g_marks_active := g_marks_active g + 1\<rparr>)))"

subsection \<open>Events\<close>

definition tick :: "(guard_metrics \<Rightarrow> guard_metrics) \<Rightarrow> ('p, 'c) guard \<Rightarrow> ('p, 'c) guard" where
  "tick f g = g\<lparr>g_metrics := map_option f (g_metrics g)\<rparr>"

definition handle_queue_overflow :: "fan_event \<Rightarrow> ('p, 'c) guard \<Rightarrow> bool \<times> ('p, 'c) guard" where
  "handle_queue_overflow ev g =
     (if FAN_Q_OVERFLOW \<in> fe_mask ev then (True, tick gm_record_queue_overflow g) else (False, g))"

definition MAX_RETRIES :: nat where
  "MAX_RETRIES = 3"

text \<open>
  The retry loop: \<open>write i\<close> is what the kernel answers to attempt \<open>i\<close>. The result says whether a write
  succeeded and how many attempts were made.
\<close>

function write_retry :: "(nat \<Rightarrow> errno + unit) \<Rightarrow> nat \<Rightarrow> ('p, 'c) guard \<Rightarrow> bool \<times> nat \<times> ('p, 'c) guard" where
  "write_retry write attempt g =
     (if attempt < MAX_RETRIES
      then (case write attempt of
              Inr _ \<Rightarrow> (True, Suc attempt, g)
            | Inl e \<Rightarrow> if e = EAGAIN then write_retry write (Suc attempt) (tick record_response_retry g)
                       else (False, Suc attempt, g))
      else (False, attempt, g))"
  by pat_completeness auto
termination
  by (relation "measure (\<lambda>(w, a, g). MAX_RETRIES - a)") auto

declare write_retry.simps [simp del]

definition response_type :: "access_response \<Rightarrow> fan_response" where
  "response_type r = (if r = Deny then FAN_DENY else FAN_ALLOW)"

text \<open>What reached the kernel: the descriptor, the response, and whether a write of it succeeded.\<close>

definition write_permission_response ::
  "(nat \<Rightarrow> errno + unit) \<Rightarrow> fan_event \<Rightarrow> access_response \<Rightarrow> ('p, 'c) guard
   \<Rightarrow> (i32 \<times> fan_response \<times> bool) list \<times> ('p, 'c) guard" where
  "write_permission_response write ev r g =
     (case fe_fd ev of
        None \<Rightarrow> ([], g)
      | Some fd \<Rightarrow>
          (let (success, n, g1) = write_retry write 0 g
           in ([(fd, response_type r, success)],
               if success then g1 else tick record_response_failure g1)))"

definition resolve_event_path :: "(string \<Rightarrow> string option) \<Rightarrow> fan_event \<Rightarrow> string" where
  "resolve_event_path read_link ev =
     (case fe_fd ev of
        Some fd \<Rightarrow> (case read_link (''/proc/self/fd/'' @ show_i32 fd) of Some p \<Rightarrow> p | None \<Rightarrow> [])
      | None \<Rightarrow> [])"

definition determine_event_type :: "mask_flag set \<Rightarrow> string" where
  "determine_event_type m =
     (if FAN_ACCESS_PERM \<in> m \<or> FAN_ACCESS \<in> m then ''access''
      else if FAN_OPEN_PERM \<in> m \<or> FAN_OPEN \<in> m then ''open''
      else if FAN_CLOSE_WRITE \<in> m then ''close_write''
      else if FAN_CLOSE_NOWRITE \<in> m then ''close_nowrite''
      else if FAN_MODIFY \<in> m then ''modify''
      else ''unknown'')"

definition PROC_PREFIX :: string where "PROC_PREFIX = ''/proc/''"
definition ROOT_SUFFIX :: string where "ROOT_SUFFIX = ''/root''"

definition strip_container_prefix :: "string \<Rightarrow> string" where
  "strip_container_prefix path =
     (if \<not> starts_with path PROC_PREFIX then path
      else let after_proc = drop (length PROC_PREFIX) path in
        (case find_char (CHR ''/'') after_proc of
           None \<Rightarrow> path
         | Some slash_pos \<Rightarrow>
             (let pid_part = take slash_pos after_proc; rest = drop slash_pos after_proc in
              if list_all is_ascii_digit pid_part \<and> starts_with rest ROOT_SUFFIX
              then (let stripped = drop (length ROOT_SUFFIX) rest
                    in if stripped = [] then ''/'' else stripped)
              else path)))"

text \<open>The inputs of one event of the loop.\<close>

record event_input =
  in_event :: fan_event
  in_read_link :: "string \<Rightarrow> string option"
  in_is_dir :: "string \<Rightarrow> bool option"
  in_write :: "nat \<Rightarrow> errno + unit"
  in_check_time :: nat
  in_record_time :: nat
  in_send_ok :: bool

definition event_path :: "event_input \<Rightarrow> string" where
  "event_path inp = strip_container_prefix (resolve_event_path (in_read_link inp) (in_event inp))"

definition process_event ::
  "'p glob_api \<Rightarrow> 'c lru_api \<Rightarrow> event_input \<Rightarrow> ('p, 'c) guard \<Rightarrow> access_event \<times> ('p, 'c) guard" where
  "process_event G L inp g =
     (let raw_path = resolve_event_path (in_read_link inp) (in_event inp);
          path = strip_container_prefix raw_path;
          pid = fe_pid (in_event inp);
          matched = matches_any_pattern G (g_policy g) path;
          (response, g1) =
            (if gc_enforce (g_config g)
             then (let (r, pol) = evaluate G L (g_policy g) path (Some pid) in (r, g\<lparr>g_policy := pol\<rparr>))
             else (AuditResp, g))
      in (\<lparr>ev_event_type = determine_event_type (fe_mask (in_event inp)), ev_path = path,
           ev_is_dir = (case in_is_dir inp raw_path of Some b \<Rightarrow> b | None \<Rightarrow> False), ev_pid = pid,
           ev_response = response, ev_matched_pattern = matched\<rparr>, g1))"

definition should_forward_event :: "event_input \<Rightarrow> access_event \<Rightarrow> ('p, 'c) guard \<Rightarrow> bool \<times> ('p, 'c) guard" where
  "should_forward_event inp ae g =
     (let (b, d) = check_and_record (in_check_time inp) (in_record_time inp) (ev_path ae) (ev_pid ae)
                     (ev_response ae) (g_dedupe g)
      in (b, g\<lparr>g_dedupe := d\<rparr>))"

subsection \<open>The event loop\<close>

record loop_output =
  out_responses :: "(i32 \<times> fan_response \<times> bool) list"
  out_sent :: "access_event list"

definition no_output :: loop_output where
  "no_output = \<lparr>out_responses = [], out_sent = []\<rparr>"

definition add_output :: "loop_output \<Rightarrow> loop_output \<Rightarrow> loop_output" where
  "add_output a b = \<lparr>out_responses = out_responses a @ out_responses b, out_sent = out_sent a @ out_sent b\<rparr>"

text \<open>One event of a batch. The Boolean says whether the batch goes on (\<open>False\<close>: the \<open>break\<close>).\<close>

definition guard_event ::
  "'p glob_api \<Rightarrow> 'c lru_api \<Rightarrow> event_input \<Rightarrow> ('p, 'c) guard \<Rightarrow> bool \<times> loop_output \<times> ('p, 'c) guard" where
  "guard_event G L inp g =
     (case handle_queue_overflow (in_event inp) g of
        (True, g1) \<Rightarrow> (True, no_output, g1)
      | (False, g1) \<Rightarrow>
          (let (ae, g2) = process_event G L inp g1;
               (resp, g3) = write_permission_response (in_write inp) (in_event inp) (ev_response ae) g2;
               (fwd, g4) = should_forward_event inp ae g3
           in if fwd then
                (if in_send_ok inp then (True, \<lparr>out_responses = resp, out_sent = [ae]\<rparr>, g4)
                 else (False, \<lparr>out_responses = resp, out_sent = []\<rparr>, g4\<lparr>g_running := False\<rparr>))
              else (True, \<lparr>out_responses = resp, out_sent = []\<rparr>, g4)))"

fun guard_batch ::
  "'p glob_api \<Rightarrow> 'c lru_api \<Rightarrow> event_input list \<Rightarrow> ('p, 'c) guard \<Rightarrow> loop_output \<times> ('p, 'c) guard" where
  "guard_batch G L [] g = (no_output, g)"
| "guard_batch G L (inp # inps) g =
     (let (continue, o1, g1) = guard_event G L inp g in
      if continue then (let (o2, g2) = guard_batch G L inps g1 in (add_output o1 o2, g2))
      else (o1, g1))"

text \<open>
  The \<open>while\<close> loop, over the results that \<open>read_events\<close> gives in turn; it ends when the running flag is
  cleared or the inputs end. An error of the read is either a short sleep or a log line.
\<close>

fun guard_while ::
  "'p glob_api \<Rightarrow> 'c lru_api \<Rightarrow> (errno + event_input list) list \<Rightarrow> ('p, 'c) guard
   \<Rightarrow> loop_output \<times> ('p, 'c) guard" where
  "guard_while G L [] g = (no_output, g)"
| "guard_while G L (rd # rds) g =
     (if g_running g then
        (case rd of
           Inr inps \<Rightarrow> (let (o1, g1) = guard_batch G L inps g; (o2, g2) = guard_while G L rds g1
                        in (add_output o1 o2, g2))
         | Inl e \<Rightarrow> guard_while G L rds g)
      else (no_output, g))"

definition guard_run ::
  "'p glob_api \<Rightarrow> 'c lru_api \<Rightarrow> (errno + event_input list) list \<Rightarrow> ('p, 'c) guard
   \<Rightarrow> loop_output \<times> ('p, 'c) guard" where
  "guard_run G L rds g = guard_while G L rds (g\<lparr>g_running := True\<rparr>)"

subsection \<open>The retry loop\<close>

definition eagains :: "(nat \<Rightarrow> errno + unit) \<Rightarrow> nat" where
  "eagains write = length (takeWhile (\<lambda>i. write i = Inl EAGAIN) [0..<MAX_RETRIES])"

lemma tick_frame [frame, simp]:
  "g_running (tick f g) = g_running g" "g_config (tick f g) = g_config g"
  "g_policy (tick f g) = g_policy g" "g_dedupe (tick f g) = g_dedupe g"
  "g_marks_active (tick f g) = g_marks_active g" "g_metrics (tick f g) = map_option f (g_metrics g)"
  by (simp_all add: tick_def)

lemma tick_tick: "tick f (tick h g) = tick (f \<circ> h) g"
  by (simp add: tick_def option.map_comp)

lemma write_retry_outcome:
  "write_retry write 0 g =
     (eagains write < MAX_RETRIES \<and> write (eagains write) = Inr (),
      min MAX_RETRIES (Suc (eagains write)),
      (tick record_response_retry ^^ eagains write) g)"
proof -
  have upt: "[0..<MAX_RETRIES] = [0, 1, 2]" by (simp add: MAX_RETRIES_def upt_rec)
  note unf = write_retry.simps [of "write" "0::nat"] write_retry.simps [of "write" "Suc 0"]
    write_retry.simps [of "write" "Suc (Suc 0)"] write_retry.simps [of "write" "Suc (Suc (Suc 0))"]
  show ?thesis
    unfolding eagains_def upt
    by (auto simp: unf MAX_RETRIES_def numeral_2_eq_2 split: sum.splits)
qed

lemma write_permission_response_frame [frame, simp]:
  "g_running (snd (write_permission_response w ev r g)) = g_running g"
  "g_config (snd (write_permission_response w ev r g)) = g_config g"
  "g_policy (snd (write_permission_response w ev r g)) = g_policy g"
  "g_dedupe (snd (write_permission_response w ev r g)) = g_dedupe g"
proof -
  have "g_running ((tick f ^^ n) g) = g_running g \<and> g_config ((tick f ^^ n) g) = g_config g \<and>
        g_policy ((tick f ^^ n) g) = g_policy g \<and> g_dedupe ((tick f ^^ n) g) = g_dedupe g" for f n
    by (induction n) simp_all
  then show
    "g_running (snd (write_permission_response w ev r g)) = g_running g"
    "g_config (snd (write_permission_response w ev r g)) = g_config g"
    "g_policy (snd (write_permission_response w ev r g)) = g_policy g"
    "g_dedupe (snd (write_permission_response w ev r g)) = g_dedupe g"
    by (simp_all add: write_permission_response_def write_retry_outcome split: option.splits)
qed

subsection \<open>One event\<close>

definition guard_ok :: "'p glob_api \<Rightarrow> 'c lru_api \<Rightarrow> ('p, 'c) guard \<Rightarrow> bool" where
  "guard_ok G L g \<longleftrightarrow> policy_reach G L (g_policy g)"

lemma guard_new_ok: "guard_new G L init cfg m = Inr g \<Longrightarrow> guard_ok G L g"
  by (auto simp: guard_new_def guard_ok_def split: sum.splits intro: policy_reach.configured)

lemma process_event_frame [frame, simp]:
  "g_running (snd (process_event G L inp g)) = g_running g"
  "g_config (snd (process_event G L inp g)) = g_config g"
  "g_dedupe (snd (process_event G L inp g)) = g_dedupe g"
  "ev_pid (fst (process_event G L inp g)) = fe_pid (in_event inp)"
  "policy_rules G (g_policy (snd (process_event G L inp g))) = policy_rules G (g_policy g)"
  "default_response (g_policy (snd (process_event G L inp g))) = default_response (g_policy g)"
  "guard_ok G L g \<Longrightarrow> guard_ok G L (snd (process_event G L inp g))"
  by (auto simp: process_event_def Let_def split_beta guard_ok_def intro: policy_reach.evaluated)

lemma should_forward_event_frame [frame, simp]:
  "g_running (snd (should_forward_event inp ae g)) = g_running g"
  "g_config (snd (should_forward_event inp ae g)) = g_config g"
  "g_policy (snd (should_forward_event inp ae g)) = g_policy g"
  by (simp_all add: should_forward_event_def split_beta Let_def)

text \<open>The response the policy asks for, without cache, deduplication or metrics.\<close>

definition decision :: "'p glob_api \<Rightarrow> ('p, 'c) guard \<Rightarrow> event_input \<Rightarrow> access_response" where
  "decision G g inp =
     (if gc_enforce (g_config g)
      then first_match (policy_rules G (g_policy g)) (default_response (g_policy g)) (event_path inp)
             (Some (fe_pid (in_event inp)))
      else AuditResp)"

text \<open>A response gets through when one of the first three attempts succeeds and only EAGAIN came before it.\<close>

definition gets_through :: "(nat \<Rightarrow> errno + unit) \<Rightarrow> bool" where
  "gets_through write \<longleftrightarrow> (\<exists>n\<in>{0, 1, 2}. write n = Inr () \<and> (\<forall>k\<in>{0..<n}. write k = Inl EAGAIN))"

lemma write_retry_gets_through: "fst (write_retry write 0 g) = gets_through write"
proof -
  have upt: "[0..<MAX_RETRIES] = [0, 1, 2]" by (simp add: MAX_RETRIES_def upt_rec)
  have less: "{0..<Suc (Suc 0)} = {0, Suc 0}" by auto
  show ?thesis
    unfolding write_retry_outcome eagains_def upt gets_through_def
    by (cases "write 0"; cases "write 1"; cases "write 2") (auto simp: MAX_RETRIES_def less numeral_2_eq_2)
qed

lemma gets_through_simps [simp]: "gets_through (\<lambda>_. Inr ())" "\<not> gets_through (\<lambda>_. Inl e)"
  by (simp_all add: gets_through_def)

definition required_responses :: "'p glob_api \<Rightarrow> ('p, 'c) guard \<Rightarrow> event_input \<Rightarrow> (i32 \<times> fan_response) list" where
  "required_responses G g inp =
     (if FAN_Q_OVERFLOW \<in> fe_mask (in_event inp) \<or> \<not> gets_through (in_write inp) then []
      else (case fe_fd (in_event inp) of
              None \<Rightarrow> []
            | Some fd \<Rightarrow> [(fd, if decision G g inp = Deny then FAN_DENY else FAN_ALLOW)]))"

text \<open>The responses that the kernel has taken.\<close>

definition answered :: "loop_output \<Rightarrow> (i32 \<times> fan_response) list" where
  "answered out = map (\<lambda>(fd, r, _). (fd, r)) (filter (\<lambda>(_, _, success). success) (out_responses out))"

lemma answered_simps [simp]:
  "answered no_output = []" "answered (add_output a b) = answered a @ answered b"
  by (simp_all add: answered_def no_output_def add_output_def)

lemma process_event_decision:
  assumes "lru_contract L ok" and "guard_ok G L g"
  shows "ev_response (fst (process_event G L inp g)) = decision G g inp"
proof -
  have "fst (evaluate G L (g_policy g) (event_path inp) pid) =
        first_match (policy_rules G (g_policy g)) (default_response (g_policy g)) (event_path inp) pid" for pid
    using lru_contract.evaluate_coherent_result [OF assms(1)
        lru_contract.reach_coherent [OF assms(1) assms(2) [unfolded guard_ok_def]]]
    by (simp add: evaluate_uncached_first_match)
  then show ?thesis
    by (simp add: process_event_def Let_def split_beta decision_def event_path_def)
qed

lemma guard_event_frame:
  "guard_event G L inp g = (cont, out, g') \<Longrightarrow>
     g_config g' = g_config g \<and> policy_rules G (g_policy g') = policy_rules G (g_policy g) \<and>
     default_response (g_policy g') = default_response (g_policy g) \<and>
     (guard_ok G L g \<longrightarrow> guard_ok G L g') \<and> (cont \<longrightarrow> g_running g' = g_running g) \<and>
     (in_send_ok inp \<longrightarrow> cont)"
  by (auto simp: guard_event_def handle_queue_overflow_def split_beta Let_def guard_ok_def
      split: if_splits intro: process_event_frame(7) [unfolded guard_ok_def])

lemma guard_event_stop:
  "guard_event G L inp g = (cont, out, g') \<Longrightarrow> \<not> cont \<Longrightarrow> \<not> g_running g'"
  by (auto simp: guard_event_def split_beta Let_def split: if_splits prod.splits bool.splits)

lemma decision_cong:
  "g_config g' = g_config g \<Longrightarrow> policy_rules G (g_policy g') = policy_rules G (g_policy g) \<Longrightarrow>
   default_response (g_policy g') = default_response (g_policy g) \<Longrightarrow>
   decision G g' = decision G g \<and> required_responses G g' = required_responses G g"
  by (simp add: fun_eq_iff decision_def required_responses_def)

lemma guard_event_answers:
  assumes "lru_contract L ok" and "guard_ok G L g" and "guard_event G L inp g = (cont, out, g')"
  shows "answered out = required_responses G g inp"
  using assms(3) process_event_decision [OF assms(1,2), of inp] write_retry_gets_through
  by (auto simp: guard_event_def handle_queue_overflow_def split_beta Let_def required_responses_def
      answered_def no_output_def write_permission_response_def response_type_def
      split: if_splits option.splits)

subsection \<open>Batches and the loop\<close>

lemma guard_batch_answers:
  assumes "lru_contract L ok" and "guard_ok G L g" and "\<forall>inp\<in>set inps. in_send_ok inp"
    and "guard_batch G L inps g = (out, g')"
  shows "answered out = concat (map (required_responses G g) inps) \<and> guard_ok G L g' \<and>
         required_responses G g' = required_responses G g \<and> g_running g' = g_running g"
  using assms(2-)
proof (induction inps arbitrary: g out)
  case (Cons inp inps)
  obtain cont o1 g1 where e: "guard_event G L inp g = (cont, o1, g1)"
    by (cases "guard_event G L inp g") auto
  note fr = guard_event_frame [OF e]
  with Cons.prems have cont: "cont" and ok: "guard_ok G L g1" and run: "g_running g1 = g_running g"
    and req: "required_responses G g1 = required_responses G g"
    using decision_cong by auto
  obtain o2 where o2: "guard_batch G L inps g1 = (o2, g')" "out = add_output o1 o2"
    using Cons.prems(3) e cont by (auto split: prod.splits)
  from Cons.IH [OF ok _ o2(1)] Cons.prems(2) o2(2) req run
    guard_event_answers [OF assms(1) Cons.prems(1) e]
  show ?case by simp
qed (simp add: answered_def no_output_def)

definition loop_inputs :: "(errno + event_input list) list \<Rightarrow> event_input list" where
  "loop_inputs rds = concat (map (\<lambda>rd. case rd of Inr inps \<Rightarrow> inps | Inl _ \<Rightarrow> []) rds)"

lemma guard_while_answers:
  assumes "lru_contract L ok" and "guard_ok G L g" and "g_running g"
    and "\<forall>inp\<in>set (loop_inputs rds). in_send_ok inp"
  shows "answered (fst (guard_while G L rds g)) = concat (map (required_responses G g) (loop_inputs rds))"
  using assms(2-)
proof (induction rds arbitrary: g)
  case (Cons rd rds)
  show ?case
  proof (cases rd)
    case (Inl e)
    with Cons show ?thesis by (simp add: loop_inputs_def)
  next
    case (Inr inps)
    obtain o1 g1 where b: "guard_batch G L inps g = (o1, g1)"
      by (cases "guard_batch G L inps g") auto
    have "\<forall>inp\<in>set inps. in_send_ok inp" "\<forall>inp\<in>set (loop_inputs rds). in_send_ok inp"
      using Cons.prems(3) Inr by (auto simp: loop_inputs_def)
    with guard_batch_answers [OF assms(1) Cons.prems(1) _ b] Cons.IH [of g1] Cons.prems Inr b
    show ?thesis by (simp add: split_beta loop_inputs_def)
  qed
qed (simp add: loop_inputs_def answered_def no_output_def)

text \<open>Without the assumption on the channel, the answers are a prefix of the required ones.\<close>

lemma guard_batch_prefix:
  assumes "lru_contract L ok" and "guard_ok G L g"
  shows "prefix (answered (fst (guard_batch G L inps g))) (concat (map (required_responses G g) inps)) \<and>
         (g_running g \<and> g_running (snd (guard_batch G L inps g)) \<longrightarrow>
            answered (fst (guard_batch G L inps g)) = concat (map (required_responses G g) inps)) \<and>
         guard_ok G L (snd (guard_batch G L inps g)) \<and>
         required_responses G (snd (guard_batch G L inps g)) = required_responses G g"
  using assms(2)
proof (induction inps arbitrary: g)
  case (Cons inp inps)
  obtain cont o1 g1 where e: "guard_event G L inp g = (cont, o1, g1)"
    by (cases "guard_event G L inp g") auto
  note fr = guard_event_frame [OF e] and ans = guard_event_answers [OF assms(1) Cons.prems e]
  have ok: "guard_ok G L g1" and req: "required_responses G g1 = required_responses G g"
    using fr Cons.prems decision_cong by auto
  show ?case
  proof (cases cont)
    case True
    with Cons.IH [OF ok] e ans req fr show ?thesis by (auto simp: split_beta Let_def)
  next
    case False
    then have "\<not> g_running g1" using guard_event_stop [OF e] by simp
    with False e ans ok req show ?thesis by simp
  qed
qed simp

lemma guard_while_prefix:
  assumes "lru_contract L ok" and "guard_ok G L g"
  shows "prefix (answered (fst (guard_while G L rds g)))
           (concat (map (required_responses G g) (loop_inputs rds)))"
  using assms(2)
proof (induction rds arbitrary: g)
  case (Cons rd rds)
  show ?case
  proof (cases rd)
    case (Inl e)
    with Cons show ?thesis by (simp add: loop_inputs_def)
  next
    case (Inr inps)
    note b = guard_batch_prefix [OF assms(1) Cons.prems, of inps]
    show ?thesis
    proof (cases "g_running g \<and> g_running (snd (guard_batch G L inps g))")
      case True
      with b Cons.IH [of "snd (guard_batch G L inps g)"] Inr show ?thesis
        by (simp add: split_beta Let_def loop_inputs_def)
    next
      case False
      with b Inr show ?thesis
        by (cases rds) (auto simp: split_beta Let_def loop_inputs_def intro: prefix_prefix split: sum.splits)
    qed
  qed
qed (simp add: loop_inputs_def)

subsection \<open>Marks\<close>

fun add_mounts ::
  "(mask_flag set \<Rightarrow> string \<Rightarrow> errno + unit) \<Rightarrow> string list \<Rightarrow> ('p, 'c) guard
   \<Rightarrow> (guard_error + unit) list \<times> ('p, 'c) guard" where
  "add_mounts mark [] g = ([], g)"
| "add_mounts mark (p # ps) g =
     (let (r, g1) = add_mount mark p g; (rs, g2) = add_mounts mark ps g1 in (r # rs, g2))"

lemma add_mount_Inr_iff:
  "fst (add_mount mark p g) = Inr () \<longleftrightarrow>
     g_marks_active g < gc_max_marks_per_guard (g_config g) \<and> mark (events_to_mask (g_config g)) p = Inr ()"
  by (auto simp: add_mount_def split: sum.splits)

lemma add_mount_state:
  "snd (add_mount mark p g) = (case fst (add_mount mark p g) of
     Inr _ \<Rightarrow> g\<lparr>g_marks_active := Suc (g_marks_active g)\<rparr> | Inl _ \<Rightarrow> g)"
  by (auto simp: add_mount_def split: sum.splits)

subsection \<open>Container paths\<close>

lemma proc_prefix_shape:
  assumes "list_all is_ascii_digit ds"
  shows "strip_container_prefix (''/proc/'' @ ds @ ''/root'' @ p) = (if p = [] then ''/'' else p)"
proof -
  have "CHR ''/'' \<notin> set ds" using assms digit_no_sign by (auto simp: list_all_iff)
  then have "find_char (CHR ''/'') (ds @ ''/root'' @ p) = Some (length ds)" by simp
  with assms show ?thesis
    by (simp add: strip_container_prefix_def PROC_PREFIX_def ROOT_SUFFIX_def Let_def starts_with_def)
qed

lemma strip_container_prefix_other:
  assumes "\<nexists>ds p. list_all is_ascii_digit ds \<and> s = ''/proc/'' @ ds @ ''/root'' @ p"
  shows "strip_container_prefix s = s"
proof (rule ccontr)
  assume "strip_container_prefix s \<noteq> s"
  then obtain i where sw: "starts_with s PROC_PREFIX"
    and i: "list_all is_ascii_digit (take i (drop (length PROC_PREFIX) s))"
      "starts_with (drop i (drop (length PROC_PREFIX) s)) ROOT_SUFFIX"
    by (auto simp: strip_container_prefix_def Let_def split: if_splits option.splits)
  from sw obtain t where t: "s = PROC_PREFIX @ t" by (rule starts_withE)
  from i(2) t obtain p where p: "drop i t = ROOT_SUFFIX @ p" by (auto elim: starts_withE)
  have "s = ''/proc/'' @ take i t @ ''/root'' @ p"
    using t p append_take_drop_id [of i t] by (simp add: PROC_PREFIX_def ROOT_SUFFIX_def)
  moreover have "list_all is_ascii_digit (take i t)" using i(1) t by simp
  ultimately show False using assms by blast
qed

subsection \<open>Masks\<close>

lemma events_to_mask_eq:
  "events_to_mask cfg =
     (let m = (\<Union>e\<in>set (gc_events cfg). event_mask (gc_enforce cfg) e)
      in if m = {} then {FAN_OPEN_PERM, FAN_ACCESS_PERM} else m)"
proof -
  have "fold (\<lambda>e m. m \<union> f e) es acc = acc \<union> (\<Union>e\<in>set es. f e)" for f :: "string \<Rightarrow> mask_flag set" and es acc
    by (induction es arbitrary: acc) auto
  from this [of "event_mask (gc_enforce cfg)" "gc_events cfg" "{}"] show ?thesis
    by (simp add: events_to_mask_def Let_def)
qed

lemma event_mask_notif_perm:
  "event_mask False e \<inter> perm_flags \<noteq> {} \<longleftrightarrow> to_lowercase e \<in> {''open_perm'', ''access_perm'', ''all_perm''}"
  by (auto simp: event_mask_def Let_def perm_flags_def FAN_CLOSE_def split: if_splits)

lemma event_mask_empty_iff:
  "event_mask b e = {} \<longleftrightarrow>
     to_lowercase e \<notin> {''access'', ''open'', ''open_perm'', ''access_perm'', ''close_write'',
       ''close_nowrite'', ''modify'', ''all'', ''all_perm''}"
  by (auto simp: event_mask_def Let_def)

subsection \<open>Properties\<close>

definition example_config :: guard_config where
  "example_config = \<lparr>gc_allow_patterns = [''/a''], gc_deny_patterns = [''/s''], gc_events = [''open''],
     gc_auto_allow_owner = False, gc_enforce = True, gc_max_marks_per_guard = 1\<rparr>"

definition example_guard :: "(string, ref_lru) guard" where
  "example_guard =
     \<lparr>g_running = False, g_config = example_config,
      g_policy = \<lparr>deny_patterns = [\<lparr>original = ''/s'', pattern = ''/s''\<rparr>],
        allow_patterns = [\<lparr>original = ''/a'', pattern = ''/a''\<rparr>], auto_allow_owner = False,
        owner_pid = None, default_response = Allow, cache = Some (rw_lock_new (1024, []))\<rparr>,
      g_dedupe = dedupe_cache_default, g_metrics = Some (guard_metrics_new ''g''), g_marks_active = 0\<rparr>"

definition example_input :: "i32 \<Rightarrow> string \<Rightarrow> bool \<Rightarrow> event_input" where
  "example_input fd path sent =
     \<lparr>in_event = \<lparr>fe_mask = {FAN_OPEN_PERM}, fe_fd = Some fd, fe_pid = 9\<rparr>, in_read_link = (\<lambda>_. Some path),
      in_is_dir = (\<lambda>_. Some False), in_write = (\<lambda>_. Inr ()), in_check_time = 5, in_record_time = 6,
      in_send_ok = sent\<rparr>"

lemma example_guard_new:
  "guard_new literal_glob ref_lru (\<lambda>_. Inr ()) example_config (Some (guard_metrics_new ''g''))
     = Inr example_guard"
  by (simp add: guard_new_def example_config_def example_guard_def with_config_def
      compiled_pattern_new_def literal_glob_def rw_lock_new_def ref_lru_def)

lemmas example_guard_ok = guard_new_ok [OF example_guard_new]

lemmas example_decision =
  decision_def example_guard_def example_input_def example_config_def policy_rules_def literal_glob_def
  compiled_pattern_matches_def event_path_def resolve_event_path_def strip_container_prefix_def
  PROC_PREFIX_def ROOT_SUFFIX_def starts_with_def owner_allowed_def

text \<open>
  C1: Every permission event gets the response the policy asks for, or none. From a guard that \<open>new\<close> built, over
  any sequence of reads (batches or errors) and as long as the channel stays open, the responses that the kernel has taken are,
  in the order of the events: one for each event with a descriptor that is not a queue overflow and whose response gets
  through (a write succeeds at the first, second or third attempt with only EAGAIN before it), DENY
  when the guard enforces and the first rule that matches says deny, ALLOW otherwise. An event whose response does not
  get through has none. The policy cache and the deduplication do not change it.
\<close>

theorem guard_run_answers:
  assumes "lru_contract L ok" and "guard_ok G L g"
    and "\<forall>inp\<in>set (loop_inputs rds). in_send_ok inp"
  shows "answered (fst (guard_run G L rds g)) = concat (map (required_responses G g) (loop_inputs rds))"
proof -
  have "required_responses G (g\<lparr>g_running := True\<rparr>) = required_responses G g"
    using decision_cong [of "g\<lparr>g_running := True\<rparr>" g] by simp
  with guard_while_answers [OF assms(1), of G "g\<lparr>g_running := True\<rparr>" rds] assms(2,3) show ?thesis
    by (simp add: guard_run_def guard_ok_def)
qed

theorem guard_run_answers_witness:
  "answered (fst (guard_run literal_glob ref_lru
     [Inr [example_input 3 ''/a'' True, example_input 4 ''/s'' True, (example_input 6 ''/a'' True)\<lparr>in_write := \<lambda>_. Inl EAGAIN\<rparr>],
      Inl EAGAIN, Inr [example_input 5 ''/proc/12/root/s'' True]] example_guard))
   = [(3, FAN_ALLOW), (4, FAN_DENY), (5, FAN_DENY)]"
proof -
  have "\<forall>inp\<in>set (loop_inputs
     [Inr [example_input 3 ''/a'' True, example_input 4 ''/s'' True, (example_input 6 ''/a'' True)\<lparr>in_write := \<lambda>_. Inl EAGAIN\<rparr>],
      Inl EAGAIN, Inr [example_input 5 ''/proc/12/root/s'' True]]). in_send_ok inp"
    by (simp add: loop_inputs_def example_input_def)
  note run = guard_run_answers [OF ref_lru.lru_contract_axioms example_guard_ok this]
  have "strip_container_prefix ''/proc/12/root/s'' = ''/s''"
    using proc_prefix_shape [of "''12''" "''/s''"] by (simp add: is_ascii_digit_def)
  then have p: "event_path (example_input 5 ''/proc/12/root/s'' True) = ''/s''"
    by (simp add: event_path_def resolve_event_path_def example_input_def)
  have "required_responses literal_glob example_guard (example_input 3 ''/a'' True) = [(3, FAN_ALLOW)]"
    "required_responses literal_glob example_guard (example_input 4 ''/s'' True) = [(4, FAN_DENY)]"
    "required_responses literal_glob example_guard ((example_input 6 ''/a'' True)\<lparr>in_write := \<lambda>_. Inl EAGAIN\<rparr>) = []"
    by (simp_all add: required_responses_def example_decision)
  moreover have "required_responses literal_glob example_guard (example_input 5 ''/proc/12/root/s'' True)
      = [(5, FAN_DENY)]"
    using p by (simp add: required_responses_def decision_def example_guard_def example_config_def
        policy_rules_def literal_glob_def compiled_pattern_matches_def example_input_def owner_allowed_def)
  ultimately show ?thesis using run by (simp add: loop_inputs_def)
qed

text \<open>
  No wrong answer is ever written. Even when the channel closes in the middle of a batch, the
  responses written by the loop are a prefix of the required ones: the loop may stop answering (the rest of
  the batch is then left without a response) but never answers an event differently or out of order.
\<close>

theorem guard_run_answers_prefix:
  assumes "lru_contract L ok" and "guard_ok G L g"
  shows "prefix (answered (fst (guard_run G L rds g)))
           (concat (map (required_responses G g) (loop_inputs rds)))"
proof -
  have "required_responses G (g\<lparr>g_running := True\<rparr>) = required_responses G g"
    using decision_cong [of "g\<lparr>g_running := True\<rparr>" g] by simp
  with guard_while_prefix [OF assms(1), of G "g\<lparr>g_running := True\<rparr>" rds] assms(2) show ?thesis
    by (simp add: guard_run_def guard_ok_def)
qed

theorem guard_run_answers_prefix_witness:
  "prefix (answered (fst (guard_run literal_glob ref_lru
       [Inr [example_input 3 ''/a'' False, example_input 4 ''/s'' True]] example_guard)))
     [(3, FAN_ALLOW), (4, FAN_DENY)]"
proof -
  have "required_responses literal_glob example_guard (example_input 3 ''/a'' False) = [(3, FAN_ALLOW)]"
    "required_responses literal_glob example_guard (example_input 4 ''/s'' True) = [(4, FAN_DENY)]"
    by (simp_all add: required_responses_def example_decision)
  with guard_run_answers_prefix [OF ref_lru.lru_contract_axioms example_guard_ok,
      of "[Inr [example_input 3 ''/a'' False, example_input 4 ''/s'' True]]"]
  show ?thesis by (simp add: loop_inputs_def)
qed

text \<open>
  A closed channel leaves the rest of a batch without a response. When the send of a forwarded event
  fails, the \<open>break\<close> leaves the batch: the loop returns with the responses of the events up to that one,
  and whatever permission events follow in the batch and in later reads get no answer.
\<close>

theorem closed_channel_abandons_batch:
  assumes "guard_event G L inp (g\<lparr>g_running := True\<rparr>) = (False, out, g')"
  shows "guard_run G L (Inr (inp # inps) # rds) g = (out, g') \<and> \<not> g_running g'"
proof -
  have nr: "\<not> g_running g'" using guard_event_stop [OF assms] by simp
  then have "guard_while G L rds g' = (no_output, g')" by (cases rds) auto
  with nr assms show ?thesis by (simp add: guard_run_def add_output_def no_output_def)
qed

theorem closed_channel_abandons_batch_witness:
  "answered (fst (guard_run literal_glob ref_lru
     [Inr [example_input 3 ''/a'' False, example_input 4 ''/s'' True]] example_guard)) = [(3, FAN_ALLOW)]"
proof -
  obtain c out g' where e:
    "guard_event literal_glob ref_lru (example_input 3 ''/a'' False) (example_guard\<lparr>g_running := True\<rparr>) = (c, out, g')"
    by (cases "guard_event literal_glob ref_lru (example_input 3 ''/a'' False) (example_guard\<lparr>g_running := True\<rparr>)") auto
  have "guard_ok literal_glob ref_lru (example_guard\<lparr>g_running := True\<rparr>)"
    using example_guard_ok by (simp add: guard_ok_def)
  from guard_event_answers [OF ref_lru.lru_contract_axioms this e]
  have a: "answered out = [(3, FAN_ALLOW)]"
    by (simp add: required_responses_def example_decision)
  have "fst (check_and_record 5 6 p 9 r dedupe_cache_default)" for p r
    by (simp add: check_and_record_def should_process_def dedupe_cache_default_def dedupe_cache_new_def
        clear_expired_def Let_def)
  then have "\<not> c"
    using e by (auto simp: guard_event_def handle_queue_overflow_def example_input_def should_forward_event_def
        split_beta Let_def example_guard_def split: if_splits)
  with e have "guard_event literal_glob ref_lru (example_input 3 ''/a'' False) (example_guard\<lparr>g_running := True\<rparr>)
      = (False, out, g')" by simp
  from closed_channel_abandons_batch [OF this, of "[example_input 4 ''/s'' True]" "[]"] a show ?thesis by simp
qed

text \<open>
  C20: The retry protocol of a permission response. A response is tried again only after EAGAIN and at most
  three times; it counts as written when the attempt after the EAGAINs succeeds, each EAGAIN is one retry
  in the metrics, and a response that could not be written is exactly one failure.
\<close>

theorem write_permission_response_outcome:
  assumes "fe_fd ev = Some fd" and "g_metrics g = Some m"
  shows "write_permission_response write ev r g =
     (let n = eagains write; success = (n < MAX_RETRIES \<and> write n = Inr ())
      in ([(fd, if r = Deny then FAN_DENY else FAN_ALLOW, success)],
          g\<lparr>g_metrics := Some (m\<lparr>
            gm_response_write_retries := gm_response_write_retries m + of_nat n,
            gm_response_write_failures :=
              gm_response_write_failures m + (if success then 0 else 1)\<rparr>)\<rparr>))"
proof -
  have "(tick record_response_retry ^^ n) g =
      g\<lparr>g_metrics := Some (m\<lparr>gm_response_write_retries := gm_response_write_retries m + of_nat n\<rparr>)\<rparr>" for n
    using assms(2) by (induction n) (simp_all add: tick_def record_response_retry_def algebra_simps)
  with assms show ?thesis
    by (simp add: write_permission_response_def write_retry_outcome Let_def response_type_def
        tick_def record_response_failure_def)
qed

theorem write_permission_response_outcome_witness:
  "fst (write_permission_response (\<lambda>i. if i < 2 then Inl EAGAIN else Inr ())
     \<lparr>fe_mask = {FAN_OPEN_PERM}, fe_fd = Some 3, fe_pid = 9\<rparr> Deny example_guard) = [(3, FAN_DENY, True)]"
proof -
  have "g_metrics example_guard = Some (guard_metrics_new ''g'')"
    "fe_fd \<lparr>fe_mask = {FAN_OPEN_PERM}, fe_fd = Some 3, fe_pid = 9\<rparr> = Some 3"
    by (simp_all add: example_guard_def)
  moreover have "eagains (\<lambda>i. if i < 2 then Inl EAGAIN else Inr ()) = 2"
    by (simp add: eagains_def MAX_RETRIES_def upt_rec)
  ultimately show ?thesis
    using write_permission_response_outcome [where g = example_guard and r = Deny and
        ev = "\<lparr>fe_mask = {FAN_OPEN_PERM}, fe_fd = Some 3, fe_pid = 9\<rparr>"]
    by (simp add: Let_def MAX_RETRIES_def)
qed

text \<open>
  Paths are reported relative to the container. \<open>strip_container_prefix\<close> removes exactly
  \<open>/proc/<digits>/root\<close> (the container's root itself becomes \<open>/\<close>) and leaves every other path as it is.
\<close>

theorem strip_container_prefix_spec:
  "(list_all is_ascii_digit ds \<longrightarrow>
      strip_container_prefix (''/proc/'' @ ds @ ''/root'' @ p) = (if p = [] then ''/'' else p)) \<and>
   ((\<nexists>ds p. list_all is_ascii_digit ds \<and> s = ''/proc/'' @ ds @ ''/root'' @ p) \<longrightarrow>
      strip_container_prefix s = s)"
  using proc_prefix_shape strip_container_prefix_other by blast

theorem strip_container_prefix_spec_witness:
  "strip_container_prefix ''/proc/12/root/etc'' = ''/etc'' \<and> strip_container_prefix ''/etc'' = ''/etc''"
  using strip_container_prefix_spec [of "''12''" "''/etc''" "''/etc''"] by (simp add: is_ascii_digit_def)

text \<open>
  The suffix is not matched at a component boundary: a file under \<open>/proc/1/rootfs\<close> is reported as a
  relative path.
\<close>

lemma strip_container_prefix_boundary:
  "strip_container_prefix (''/proc/'' @ show_nat n @ ''/rootfs/'' @ x) = ''fs/'' @ x"
  using proc_prefix_shape [OF show_nat_digits, of n "''fs/'' @ x"] by simp

text \<open>
  When a notification-only guard asks for permission events. The mask of a guard that does not enforce
  holds a permission flag exactly when one of its event names asks for one, or when none of its event
  names is known to \<open>events_to_mask\<close>: in that case the default mask is the permission mask, although the
  fanotify group was opened in the notification class.
\<close>

theorem notification_mask_perm_iff:
  assumes "\<not> gc_enforce cfg"
  shows "events_to_mask cfg \<inter> perm_flags \<noteq> {} \<longleftrightarrow>
     (\<exists>e\<in>set (gc_events cfg). to_lowercase e \<in> {''open_perm'', ''access_perm'', ''all_perm''}) \<or>
     \<not> (\<exists>e\<in>set (gc_events cfg).
        to_lowercase e \<in> {''access'', ''open'', ''open_perm'', ''access_perm'', ''close_write'',
          ''close_nowrite'', ''modify'', ''all'', ''all_perm''})"
proof (cases "(\<Union>e\<in>set (gc_events cfg). event_mask False e) = {}")
  case True
  then have "events_to_mask cfg = {FAN_OPEN_PERM, FAN_ACCESS_PERM}"
    using assms by (simp add: events_to_mask_eq)
  moreover from True have "\<forall>e\<in>set (gc_events cfg). event_mask False e = {}" by simp
  ultimately show ?thesis
    unfolding event_mask_empty_iff by (auto simp: perm_flags_def)
next
  case False
  then obtain e where "e \<in> set (gc_events cfg)" "event_mask False e \<noteq> {}" by auto
  moreover have "events_to_mask cfg \<inter> perm_flags \<noteq> {} \<longleftrightarrow>
      (\<exists>e\<in>set (gc_events cfg). event_mask False e \<inter> perm_flags \<noteq> {})"
    using False assms by (auto simp: events_to_mask_eq Let_def)
  ultimately show ?thesis
    unfolding event_mask_notif_perm event_mask_empty_iff by blast
qed

theorem notification_mask_perm_iff_witness:
  "events_to_mask (example_config\<lparr>gc_enforce := False, gc_events := [''open_exec'', ''close'']\<rparr>)
     \<inter> perm_flags \<noteq> {}"
  using notification_mask_perm_iff
    [of "example_config\<lparr>gc_enforce := False, gc_events := [''open_exec'', ''close'']\<rparr>"]
  by (simp add: to_lowercase_def ascii_lower_def)

text \<open>
  The limit on marks. Over any sequence of \<open>add_mount\<close> calls, whatever the kernel answers, the number of
  active marks grows by exactly the number of calls that succeeded and never passes the configured
  maximum.
\<close>

theorem add_mounts_limit:
  assumes "g_marks_active g \<le> gc_max_marks_per_guard (g_config g)"
    and "add_mounts mark ps g = (rs, g')"
  shows "g_marks_active g' = g_marks_active g + length (filter (\<lambda>r. r = Inr ()) rs) \<and>
         g_marks_active g' \<le> gc_max_marks_per_guard (g_config g) \<and> g_config g' = g_config g \<and>
         length rs = length ps"
  using assms
proof (induction ps arbitrary: g rs)
  case (Cons p ps)
  obtain r g1 rs1 where a: "add_mount mark p g = (r, g1)" "add_mounts mark ps g1 = (rs1, g')" "rs = r # rs1"
    using Cons.prems(2) by (auto split: prod.splits)
  have "g_config g1 = g_config g \<and> g_marks_active g1 = g_marks_active g + (if r = Inr () then 1 else 0) \<and>
      g_marks_active g1 \<le> gc_max_marks_per_guard (g_config g)"
    using a(1) add_mount_state [of mark p g] add_mount_Inr_iff [of mark p g] Cons.prems(1)
    by (auto split: sum.splits)
  with Cons.IH [of g1 rs1] a show ?case by auto
qed simp

theorem add_mounts_limit_witness:
  "fst (add_mounts (\<lambda>_ _. Inr ()) [''/m'', ''/n''] example_guard)
     = [Inr (), Inl (MaxMarksExceeded 1 1)] \<and>
   g_marks_active (snd (add_mounts (\<lambda>_ _. Inr ()) [''/m'', ''/n''] example_guard)) = 1"
  using add_mounts_limit [of example_guard "\<lambda>_ _. Inr ()" "[''/m'', ''/n'']"]
  by (simp add: example_guard_def example_config_def add_mount_def)

end
