(* ===== verification/Session.thy ===== *)
theory Session
  imports Prelude
begin

section \<open>Sessions\<close>

text \<open>
  \<open>common/src/session.rs\<close>. A session is shared behind \<open>Arc<Mutex<Session<T>>>\<close>: the map holds addresses
  into a heap of sessions, and an address stays valid after the key is removed, as an \<open>Arc\<close> does. The
  \<open>Arc<AtomicBool>\<close> of a session is created with it and only cloned from it, so the flag is the field of
  the session at that address. The methods of the trait \<open>SessionManager\<close> are functions of the table and
  of the limit that the implementing service gives. The \<open>metrics\<close> field is an address of the service's
  metrics. A \<open>SystemTime\<close> is the number of nanoseconds since the epoch. Each operation is one critical section of the map's lock.
\<close>

subsection \<open>Data\<close>

record 's session =
  s_id :: string
  s_name :: string
  s_namespace :: string
  s_node_name :: string
  s_pod_name :: string
  s_container_ids :: "string list"
  s_pids :: "i32 list"
  s_paused :: bool
  s_created_at :: int
  s_running :: bool
  s_metrics :: nat
  s_state :: 's

datatype session_error =
    AlreadyExists string
  | NotFound string
  | MaxSessionsReached nat

text \<open>The \<open>Display\<close> text of an error.\<close>

definition show_session_error :: "session_error \<Rightarrow> string" where
  "show_session_error e = (case e of
     AlreadyExists key \<Rightarrow> ''session already exists: '' @ key
   | NotFound key \<Rightarrow> ''session not found: '' @ key
   | MaxSessionsReached n \<Rightarrow> ''maximum sessions reached: '' @ show_nat n)"

record 's session_table =
  tbl_map :: "(string \<times> nat) list"
  tbl_heap :: "'s session list"

subsection \<open>Operations\<close>

definition session_new ::
  "int \<Rightarrow> string \<Rightarrow> string \<Rightarrow> string \<Rightarrow> string \<Rightarrow> string \<Rightarrow> string list \<Rightarrow> i32 list \<Rightarrow> bool \<Rightarrow> nat \<Rightarrow> 's
   \<Rightarrow> 's session" where
  "session_new now sid name namespace node_name pod_name container_ids pids paused metrics state =
     \<lparr>s_id = sid, s_name = name, s_namespace = namespace, s_node_name = node_name, s_pod_name = pod_name,
      s_container_ids = container_ids, s_pids = pids, s_paused = paused, s_created_at = now,
      s_running = True, s_metrics = metrics, s_state = state\<rparr>"

definition session_stop :: "'s session \<Rightarrow> 's session" where
  "session_stop s = s\<lparr>s_running := False\<rparr>"

definition session_is_running :: "'s session \<Rightarrow> bool" where
  "session_is_running s = s_running s"

definition session_key :: "string \<Rightarrow> string \<Rightarrow> string \<Rightarrow> string" where
  "session_key name namespace pod_name = name @ '':'' @ namespace @ '':'' @ pod_name"

definition new_session_map :: "'s session_table" where
  "new_session_map = \<lparr>tbl_map = [], tbl_heap = []\<rparr>"

definition session_exists :: "string \<Rightarrow> 's session_table \<Rightarrow> bool" where
  "session_exists key t \<longleftrightarrow> map_of (tbl_map t) key \<noteq> None"

definition session_get :: "string \<Rightarrow> 's session_table \<Rightarrow> nat option" where
  "session_get key t = map_of (tbl_map t) key"

definition session_count :: "'s session_table \<Rightarrow> nat" where
  "session_count t = length (tbl_map t)"

text \<open>\<open>Arc::new(Mutex::new(session))\<close> and \<open>HashMap::insert\<close>, which replaces the value of a present key.\<close>

definition map_insert :: "string \<Rightarrow> 's session \<Rightarrow> 's session_table \<Rightarrow> nat \<times> 's session_table" where
  "map_insert key s t =
     (let a = length (tbl_heap t)
      in (a, \<lparr>tbl_map = AList.update key a (tbl_map t), tbl_heap = tbl_heap t @ [s]\<rparr>))"

definition session_insert ::
  "nat \<Rightarrow> string \<Rightarrow> 's session \<Rightarrow> 's session_table \<Rightarrow> session_error + nat \<times> 's session_table" where
  "session_insert limit key s t =
     (if session_count t \<ge> limit then Inl (MaxSessionsReached limit)
      else if session_exists key t then Inl (AlreadyExists key)
      else Inr (map_insert key s t))"

text \<open>A change made under the session's own lock.\<close>

definition session_modify :: "nat \<Rightarrow> ('s session \<Rightarrow> 's session) \<Rightarrow> 's session_table \<Rightarrow> 's session_table" where
  "session_modify a f t = t\<lparr>tbl_heap := (tbl_heap t)[a := f (tbl_heap t ! a)]\<rparr>"

definition session_remove :: "string \<Rightarrow> 's session_table \<Rightarrow> nat option \<times> 's session_table" where
  "session_remove key t =
     (let removed = session_get key t;
          t1 = t\<lparr>tbl_map := AList.delete key (tbl_map t)\<rparr>
      in (removed, case removed of Some a \<Rightarrow> session_modify a session_stop t1 | None \<Rightarrow> t1))"

definition session_keys :: "'s session_table \<Rightarrow> string list" where
  "session_keys t = map fst (tbl_map t)"

definition has_capacity :: "nat \<Rightarrow> 's session_table \<Rightarrow> bool" where
  "has_capacity limit t \<longleftrightarrow> session_count t < limit"

subsection \<open>The contract of a bounded store\<close>

text \<open>
  What the services rely on: a finite map from keys to values that holds at most \<open>capacity\<close> of them.
\<close>

datatype 'v store_op = StoreInsert string 'v | StoreRemove string

locale bounded_store =
  fixes capacity :: nat
    and inv :: "'t \<Rightarrow> bool"
    and lookup :: "'t \<Rightarrow> string \<Rightarrow> 'v option"
    and size_of :: "'t \<Rightarrow> nat"
    and empty :: 't
    and insert :: "string \<Rightarrow> 'v \<Rightarrow> 't \<Rightarrow> 'e + 't"
    and remove :: "string \<Rightarrow> 't \<Rightarrow> 't"
  assumes empty_law: "inv empty" "lookup empty = Map.empty"
    and size_law: "inv t \<Longrightarrow> finite (dom (lookup t)) \<and> size_of t = card (dom (lookup t))"
    and insert_fails: "inv t \<Longrightarrow> (\<exists>e. insert k v t = Inl e) \<longleftrightarrow> capacity \<le> size_of t \<or> lookup t k \<noteq> None"
    and insert_law: "inv t \<Longrightarrow> insert k v t = Inr t' \<Longrightarrow> inv t' \<and> lookup t' = (lookup t)(k \<mapsto> v)"
    and remove_law: "inv t \<Longrightarrow> inv (remove k t) \<and> lookup (remove k t) = (lookup t)(k := None)"
begin

definition apply_op :: "'v store_op \<Rightarrow> 't \<Rightarrow> 't" where
  "apply_op x t = (case x of StoreInsert k v \<Rightarrow> (case insert k v t of Inr t' \<Rightarrow> t' | Inl _ \<Rightarrow> t)
                          | StoreRemove k \<Rightarrow> remove k t)"

text \<open>The abstract store: what a map with a capacity does.\<close>

definition spec_op :: "'v store_op \<Rightarrow> (string \<rightharpoonup> 'v) \<Rightarrow> (string \<rightharpoonup> 'v)" where
  "spec_op x m = (case x of
     StoreInsert k v \<Rightarrow> if card (dom m) < capacity \<and> m k = None then m(k \<mapsto> v) else m
   | StoreRemove k \<Rightarrow> m(k := None))"

lemma insert_cases:
  assumes "inv t"
  shows "(case insert k v t of
            Inr t' \<Rightarrow> size_of t < capacity \<and> lookup t k = None \<and> inv t' \<and> lookup t' = (lookup t)(k \<mapsto> v)
          | Inl _ \<Rightarrow> capacity \<le> size_of t \<or> lookup t k \<noteq> None)"
  using insert_fails [OF assms, of k v] insert_law [OF assms, of k v] by (cases "insert k v t") auto

lemma apply_op_refines:
  assumes "inv t"
  shows "inv (apply_op x t) \<and> lookup (apply_op x t) = spec_op x (lookup t)"
proof (cases x)
  case (StoreInsert k v)
  with size_law [OF assms] insert_cases [OF assms, of k v] assms show ?thesis
    by (auto simp: apply_op_def spec_op_def split: sum.splits)
qed (use remove_law [OF assms] in \<open>simp add: apply_op_def spec_op_def\<close>)

lemma spec_op_bounded:
  assumes "finite (dom m)" "card (dom m) \<le> capacity"
  shows "finite (dom (spec_op x m)) \<and> card (dom (spec_op x m)) \<le> capacity"
  using assms order_trans [OF card_Diff1_le [of "dom m"]]
  by (auto simp: spec_op_def card_insert_if split: store_op.splits)

lemma run_refines:
  "inv (fold apply_op xs empty) \<and> lookup (fold apply_op xs empty) = fold spec_op xs Map.empty \<and>
   size_of (fold apply_op xs empty) \<le> capacity"
proof -
  have ref: "inv t \<Longrightarrow> inv (fold apply_op xs t) \<and> lookup (fold apply_op xs t) = fold spec_op xs (lookup t)" for t
    using apply_op_refines by (induction xs arbitrary: t) auto
  have "finite (dom m) \<Longrightarrow> card (dom m) \<le> capacity \<Longrightarrow> card (dom (fold spec_op xs m)) \<le> capacity" for m
    using spec_op_bounded by (induction xs arbitrary: m) auto
  with ref [of empty] empty_law size_law show ?thesis by (metis card.empty dom_empty finite.emptyI le0)
qed

lemma insert_remove: "inv t \<Longrightarrow> insert k v t = Inr t' \<Longrightarrow> lookup (remove k t') = lookup t"
  using insert_law remove_law insert_cases [of t k v] by fastforce

end

subsection \<open>The session table implements it\<close>

definition session_lookup :: "'s session_table \<Rightarrow> string \<Rightarrow> 's session option" where
  "session_lookup t key = map_option (\<lambda>a. tbl_heap t ! a) (session_get key t)"

text \<open>Keys are unique, addresses are valid and no two keys share a session.\<close>

definition table_wf :: "'s session_table \<Rightarrow> bool" where
  "table_wf t \<longleftrightarrow> alist_wf (tbl_map t) \<and> (\<forall>a\<in>ran (map_of (tbl_map t)). a < length (tbl_heap t)) \<and>
     inj_on (map_of (tbl_map t)) (dom (map_of (tbl_map t)))"

lemma table_wf_get: "table_wf t \<Longrightarrow> session_get k t = Some a \<Longrightarrow> a < length (tbl_heap t)"
  by (auto simp: table_wf_def session_get_def ran_def)

lemma table_wf_inj:
  "table_wf t \<Longrightarrow> session_get k t = Some a \<Longrightarrow> session_get k' t = Some a \<Longrightarrow> k = k'"
  by (auto simp: table_wf_def session_get_def inj_on_def dom_def)

lemma new_session_map_wf [simp]: "table_wf new_session_map"
  by (simp add: table_wf_def new_session_map_def)

lemma session_exists_iff: "session_exists k t \<longleftrightarrow> session_lookup t k \<noteq> None"
  by (simp add: session_exists_def session_lookup_def session_get_def)

lemma session_count_card: "table_wf t \<Longrightarrow> session_count t = card (dom (session_lookup t))"
proof -
  assume "table_wf t"
  moreover have "dom (session_lookup t) = dom (map_of (tbl_map t))"
    by (auto simp: session_lookup_def session_get_def)
  ultimately show ?thesis by (simp add: session_count_def table_wf_def alist_size_dom)
qed

lemma map_insert_fields [simp]:
  "fst (map_insert k s t) = length (tbl_heap t)"
  "map_of (tbl_map (snd (map_insert k s t))) = (map_of (tbl_map t))(k \<mapsto> length (tbl_heap t))"
  "tbl_heap (snd (map_insert k s t)) = tbl_heap t @ [s]"
  by (simp_all add: map_insert_def Let_def update_conv')

lemma map_insert_wf: "table_wf t \<Longrightarrow> table_wf (snd (map_insert k s t))"
proof -
  assume wf: "table_wf t"
  have "alist_wf (tbl_map (snd (map_insert k s t)))"
    using wf by (simp add: table_wf_def map_insert_def Let_def)
  with wf show ?thesis
    by (auto simp: table_wf_def ran_def inj_on_def less_Suc_eq split: if_splits)
qed

lemma map_insert_lookup:
  "table_wf t \<Longrightarrow> session_lookup (snd (map_insert k s t)) = (session_lookup t)(k \<mapsto> s)"
  using table_wf_get [of t]
  by (auto simp: fun_eq_iff session_lookup_def session_get_def nth_append intro!: option.map_cong0
      simp: elem_set)

lemma session_modify_wf [simp]: "table_wf (session_modify a f t) \<longleftrightarrow> table_wf t"
  by (simp add: table_wf_def session_modify_def)

lemma session_modify_get [simp]: "session_get k (session_modify a f t) = session_get k t"
  by (simp add: session_get_def session_modify_def)

lemma session_modify_count [simp]: "session_count (session_modify a f t) = session_count t"
  by (simp add: session_count_def session_modify_def)

lemma session_modify_lookup:
  assumes "table_wf t" "session_get k t = Some a"
  shows "session_lookup (session_modify a f t) = (session_lookup t)(k := map_option f (session_lookup t k))"
proof
  fix k'
  show "session_lookup (session_modify a f t) k' = ((session_lookup t)(k := map_option f (session_lookup t k))) k'"
  proof (cases "session_get k' t")
    case (Some b)
    with assms table_wf_inj [OF assms(1), of k' b k] table_wf_get [OF assms] show ?thesis
      by (cases "k' = k") (auto simp: session_lookup_def session_modify_def session_get_def nth_list_update)
  qed (use assms in \<open>auto simp: session_lookup_def\<close>)
qed

lemma session_remove_result: "fst (session_remove k t) = session_get k t"
  by (simp add: session_remove_def Let_def)

lemma delete_key_wf: "table_wf t \<Longrightarrow> table_wf (t\<lparr>tbl_map := AList.delete k (tbl_map t)\<rparr>)"
  by (auto simp: table_wf_def delete_conv' inj_on_def ran_def dom_def split: if_splits)

lemma session_remove_wf: "table_wf t \<Longrightarrow> table_wf (snd (session_remove k t))"
  using delete_key_wf [of t k] by (simp add: session_remove_def Let_def split: option.splits)

lemma session_remove_lookup:
  assumes "table_wf t"
  shows "session_lookup (snd (session_remove k t)) = (session_lookup t)(k := None)"
proof
  fix k'
  show "session_lookup (snd (session_remove k t)) k' = ((session_lookup t)(k := None)) k'"
  proof (cases "k' = k")
    case False
    then show ?thesis
      using table_wf_inj [OF assms, of k' _ k]
      by (auto simp: session_lookup_def session_remove_def Let_def session_get_def session_modify_def
          delete_conv' elem_set split: option.splits intro!: option.map_cong0 nth_list_update_neq)
  qed (auto simp: session_lookup_def session_remove_def Let_def session_get_def session_modify_def
          delete_conv' split: option.splits)
qed

definition table_insert :: "nat \<Rightarrow> string \<Rightarrow> 's session \<Rightarrow> 's session_table \<Rightarrow> session_error + 's session_table" where
  "table_insert limit k s t = (case session_insert limit k s t of Inl e \<Rightarrow> Inl e | Inr (_, t') \<Rightarrow> Inr t')"

definition table_remove :: "string \<Rightarrow> 's session_table \<Rightarrow> 's session_table" where
  "table_remove k t = snd (session_remove k t)"

lemma finite_dom_session_lookup: "finite (dom (session_lookup t))"
proof -
  have "dom (session_lookup t) = dom (map_of (tbl_map t))"
    by (auto simp: session_lookup_def session_get_def)
  then show ?thesis by (simp add: finite_dom_map_of)
qed

lemma table_insert_Inr_iff:
  "table_insert limit k s t = Inr t' \<longleftrightarrow>
     session_count t < limit \<and> session_lookup t k = None \<and> t' = snd (map_insert k s t)"
  by (auto simp: table_insert_def session_insert_def session_exists_iff split: if_splits prod.splits)

interpretation st: bounded_store limit table_wf session_lookup session_count new_session_map
    "table_insert limit" table_remove
  for limit :: nat
proof
  show "session_lookup (new_session_map :: 'a session_table) = Map.empty"
    by (simp add: fun_eq_iff session_lookup_def session_get_def new_session_map_def)
next
  fix t :: "'a session_table" and k v
  assume "table_wf t"
  then show "(\<exists>e. table_insert limit k v t = Inl e) \<longleftrightarrow> limit \<le> session_count t \<or> session_lookup t k \<noteq> None"
    by (auto simp: table_insert_def session_insert_def session_exists_iff map_insert_def Let_def)
next
  fix t t' :: "'a session_table" and k v
  assume "table_wf t" "table_insert limit k v t = Inr t'"
  then show "table_wf t' \<and> session_lookup t' = (session_lookup t)(k \<mapsto> v)"
    by (auto simp: table_insert_Inr_iff map_insert_wf map_insert_lookup)
qed (simp_all add: finite_dom_session_lookup session_count_card table_remove_def session_remove_wf
    session_remove_lookup)

subsection \<open>The contract of a session service\<close>

text \<open>
  A service over the table, as the two daemons are: its requests keep the limit it was configured with,
  the table well-formed and the number of sessions within the limit. What the kernel, the file system and
  the clock answer is the environment of one request; the next request may meet another one.
\<close>

locale session_service =
  fixes sessions :: "'svc \<Rightarrow> 's session_table"
    and max_sessions :: "'svc \<Rightarrow> nat"
    and step :: "'env \<Rightarrow> 'req \<Rightarrow> 'svc \<Rightarrow> 'svc"
  assumes step_limit: "max_sessions (step env r svc) = max_sessions svc"
    and step_wf: "table_wf (sessions svc) \<Longrightarrow> table_wf (sessions (step env r svc))"
    and step_bounded: "table_wf (sessions svc) \<Longrightarrow> session_count (sessions svc) \<le> max_sessions svc \<Longrightarrow>
      session_count (sessions (step env r svc)) \<le> max_sessions svc"
begin

lemma run_bounded:
  assumes "table_wf (sessions svc)" and "session_count (sessions svc) \<le> max_sessions svc"
  shows "table_wf (sessions (fold (\<lambda>(env, r). step env r) rs svc)) \<and>
    max_sessions (fold (\<lambda>(env, r). step env r) rs svc) = max_sessions svc \<and>
    session_count (sessions (fold (\<lambda>(env, r). step env r) rs svc)) \<le> max_sessions svc"
  using assms
proof (induction rs arbitrary: svc)
  case (Cons x rs)
  obtain env r where "x = (env, r)" by (cases x)
  with Cons.IH [of "step env r svc"] Cons.prems step_limit [of env r svc] step_wf [of svc env r]
    step_bounded [of svc env r]
  show ?case by simp
qed simp

end

lemma session_remove_count: "session_count (snd (session_remove k t)) \<le> session_count t"
proof -
  have "length (AList.delete k (tbl_map t)) \<le> length (tbl_map t)" by simp
  then show ?thesis
    by (auto simp: session_remove_def session_count_def session_modify_def Let_def split: option.splits)
qed

lemma map_insert_count:
  "table_wf t \<Longrightarrow> session_lookup t k = None \<Longrightarrow> session_count (snd (map_insert k s t)) = Suc (session_count t)"
  using session_count_card [of t] session_count_card [of "snd (map_insert k s t)"] map_insert_wf [of t k s]
    finite_dom_session_lookup [of t]
  by (auto simp: map_insert_lookup domIff)

subsection \<open>Keys\<close>

lemma split_at_colon:
  assumes "CHR '':'' \<notin> set a" "CHR '':'' \<notin> set a'" "a @ CHR '':'' # r = a' @ CHR '':'' # r'"
  shows "a = a' \<and> r = r'"
proof -
  have "takeWhile (\<lambda>c. c \<noteq> CHR '':'') (x @ CHR '':'' # y) = x"
    if "CHR '':'' \<notin> set x" for x y
    using that by (induction x) auto
  from this [of a r] this [of a' r'] assms have "a = a'" by metis
  with assms(3) show ?thesis by simp
qed

subsection \<open>Properties\<close>

definition session_step :: "nat \<Rightarrow> 's session store_op \<Rightarrow> 's session_table \<Rightarrow> 's session_table" where
  "session_step limit x t = (case x of
     StoreInsert k s \<Rightarrow> (case session_insert limit k s t of Inr (_, t') \<Rightarrow> t' | Inl _ \<Rightarrow> t)
   | StoreRemove k \<Rightarrow> snd (session_remove k t))"

definition map_step :: "nat \<Rightarrow> 'v store_op \<Rightarrow> (string \<rightharpoonup> 'v) \<Rightarrow> (string \<rightharpoonup> 'v)" where
  "map_step limit x m = (case x of
     StoreInsert k v \<Rightarrow> if card (dom m) < limit \<and> m k = None then m(k \<mapsto> v) else m
   | StoreRemove k \<Rightarrow> m(k := None))"

lemma session_step_apply_op: "session_step limit = st.apply_op limit"
  by (auto simp: fun_eq_iff session_step_def st.apply_op_def table_insert_def table_remove_def
      split: store_op.splits sum.splits)

lemma map_step_spec_op: "map_step limit = st.spec_op limit"
  by (simp add: fun_eq_iff map_step_def st.spec_op_def split: store_op.splits)

text \<open>
  C5: The session table refines a bounded map. After every sequence of \<open>insert\<close> and \<open>remove\<close> calls the
  sessions the table holds are those of a map that accepts a key exactly when it is absent and fewer
  than \<open>max_sessions\<close> keys are present, and the number of sessions never passes the limit.
\<close>

theorem session_table_refines_map:
  "session_lookup (fold (session_step limit) xs new_session_map) = fold (map_step limit) xs Map.empty \<and>
   session_count (fold (session_step limit) xs new_session_map) \<le> limit \<and>
   table_wf (fold (session_step limit) xs new_session_map)"
  using st.run_refines [of limit xs] by (simp add: session_step_apply_op map_step_spec_op)

text \<open>
  \<open>insert\<close> on every branch. The limit is tested before the key, a failed call returns its error and no
  new table; a successful one returns an address whose session is the inserted one, bound to the key,
  and no other key changes.
\<close>

theorem session_insert_spec:
  assumes "table_wf t"
  shows "session_insert limit k s t =
      (if limit \<le> session_count t then Inl (MaxSessionsReached limit)
       else if session_lookup t k \<noteq> None then Inl (AlreadyExists k)
       else Inr (map_insert k s t)) \<and>
    (\<forall>a t'. session_insert limit k s t = Inr (a, t') \<longrightarrow>
       session_get k t' = Some a \<and> session_lookup t' = (session_lookup t)(k \<mapsto> s) \<and>
       session_count t' = Suc (session_count t) \<and> session_count t' \<le> limit)"
proof (intro conjI allI impI)
  show "session_insert limit k s t =
      (if limit \<le> session_count t then Inl (MaxSessionsReached limit)
       else if session_lookup t k \<noteq> None then Inl (AlreadyExists k) else Inr (map_insert k s t))"
    by (simp add: session_insert_def session_exists_iff)
next
  fix a t'
  assume "session_insert limit k s t = Inr (a, t')"
  then have ok: "session_count t < limit" "session_lookup t k = None" and t': "map_insert k s t = (a, t')"
    by (auto simp: session_insert_def session_exists_iff split: if_splits)
  from t' have a: "a = length (tbl_heap t)" and snd: "t' = snd (map_insert k s t)"
    by (auto simp: map_insert_def Let_def)
  show "session_get k t' = Some a" by (simp add: snd a session_get_def)
  show look: "session_lookup t' = (session_lookup t)(k \<mapsto> s)"
    using assms by (simp add: snd map_insert_lookup)
  have "k \<notin> dom (session_lookup t)" using ok(2) by auto
  then show cnt: "session_count t' = Suc (session_count t)"
    using look session_count_card [OF assms] session_count_card [OF map_insert_wf [OF assms], of k s]
      finite_dom_session_lookup [of t] by (simp add: snd)
  show "session_count t' \<le> limit" using cnt ok(1) by simp
qed

theorem session_insert_spec_witness:
  "\<exists>a t'. session_insert 1 ''k'' (session_new 0 ''k'' ''n'' ''s'' ''o'' ''p'' [] [] False 0 ()) new_session_map
      = Inr (a, t') \<and> session_count t' = 1"
proof -
  obtain a t' where i: "map_insert ''k'' (session_new 0 ''k'' ''n'' ''s'' ''o'' ''p'' [] [] False 0 ())
      new_session_map = (a, t')"
    by (cases "map_insert ''k'' (session_new 0 ''k'' ''n'' ''s'' ''o'' ''p'' [] [] False 0 ()) new_session_map")
  from session_insert_spec [OF new_session_map_wf, of 1 "''k''"
      "session_new 0 ''k'' ''n'' ''s'' ''o'' ''p'' [] [] False 0 ()"] i
  show ?thesis by (simp add: session_lookup_def session_get_def session_count_def new_session_map_def)
qed

text \<open>
  Distinct guards get distinct keys. The key \<open>name:namespace:pod\<close> determines its three parts when the
  name and the namespace hold no colon (Kubernetes object names do not).
\<close>

theorem session_key_injective:
  assumes "CHR '':'' \<notin> set name" "CHR '':'' \<notin> set ns" "CHR '':'' \<notin> set name'" "CHR '':'' \<notin> set ns'"
  shows "session_key name ns pod = session_key name' ns' pod' \<longleftrightarrow> name = name' \<and> ns = ns' \<and> pod = pod'"
proof
  assume "session_key name ns pod = session_key name' ns' pod'"
  then have "name @ CHR '':'' # (ns @ CHR '':'' # pod) = name' @ CHR '':'' # (ns' @ CHR '':'' # pod')"
    by (simp add: session_key_def)
  from split_at_colon [OF assms(1,3) this] split_at_colon [OF assms(2,4), of pod pod']
  show "name = name' \<and> ns = ns' \<and> pod = pod'" by simp
qed simp

theorem session_key_injective_witness:
  "session_key ''web'' ''prod'' ''p-1'' \<noteq> session_key ''web'' ''prod'' ''p-2''"
  using session_key_injective [of "''web''" "''prod''" "''web''" "''prod''" "''p-1''" "''p-2''"] by simp

text \<open>
  \<open>remove\<close> stops exactly the session it removes. It returns the address the key had; the session there
  is no longer running, every other session keeps its flag and all its fields, and the key is gone.
\<close>

theorem session_remove_spec:
  assumes "table_wf t" and "session_get k t = Some a"
  shows "fst (session_remove k t) = Some a \<and>
    tbl_heap (snd (session_remove k t)) = (tbl_heap t)[a := session_stop (tbl_heap t ! a)] \<and>
    \<not> session_is_running (tbl_heap (snd (session_remove k t)) ! a) \<and>
    session_lookup (snd (session_remove k t)) = (session_lookup t)(k := None)"
  using assms table_wf_get [OF assms] session_remove_lookup [OF assms(1), of k]
  by (simp add: session_remove_def Let_def session_modify_def session_stop_def session_is_running_def)

theorem session_remove_spec_witness:
  "\<not> session_is_running (tbl_heap (snd (session_remove ''k''
      (snd (map_insert ''k'' (session_new 0 ''k'' ''n'' ''s'' ''o'' ''p'' [] [] False 0 ()) new_session_map)))) ! 0)"
  using session_remove_spec [OF map_insert_wf [OF new_session_map_wf], of "''k''" "''k''"
      "session_new 0 ''k'' ''n'' ''s'' ''o'' ''p'' [] [] False 0 ()" 0]
  by (simp add: session_get_def new_session_map_def session_is_running_def session_stop_def)

end
