(* ===== verification/Broadcast.thy ===== *)
theory Broadcast
  imports Prelude "HOL-Library.Sublist"
begin

section \<open>Event streams\<close>

text \<open>
  \<open>common/src/broadcast.rs\<close> and \<open>common/src/grpc.rs\<close>. The tokio broadcast channel is not part of the
  program: a receiver is the sequence of results its \<open>recv\<close> gives (an event, a lag, or the closed
  channel), and the client's side of a response stream is a function that says whether the \<open>n\<close>-th send
  succeeds (\<open>False\<close>: the client is gone). The tasks that the functions spawn are functions of these; what
  they return is what the client receives. The trait \<open>Filterable\<close> is a record of its three methods.
\<close>

subsection \<open>Filters\<close>

record 'e filterable =
  filter_name :: "'e \<Rightarrow> string"
  filter_namespace :: "'e \<Rightarrow> string"
  filter_event_type :: "'e \<Rightarrow> string"

record stream_filter =
  sf_name :: "string option"
  sf_namespace :: "string option"
  sf_event_types :: "string list"

definition stream_filter_new :: stream_filter where
  "stream_filter_new = \<lparr>sf_name = None, sf_namespace = None, sf_event_types = []\<rparr>"

definition with_name :: "string \<Rightarrow> stream_filter \<Rightarrow> stream_filter" where
  "with_name n f = f\<lparr>sf_name := Some n\<rparr>"

definition with_namespace :: "string \<Rightarrow> stream_filter \<Rightarrow> stream_filter" where
  "with_namespace n f = f\<lparr>sf_namespace := Some n\<rparr>"

definition with_event_types :: "string list \<Rightarrow> stream_filter \<Rightarrow> stream_filter" where
  "with_event_types ts f = f\<lparr>sf_event_types := ts\<rparr>"

definition filter_matches :: "'e filterable \<Rightarrow> stream_filter \<Rightarrow> 'e \<Rightarrow> bool" where
  "filter_matches F f e =
     (if (case sf_name f of Some n \<Rightarrow> filter_name F e \<noteq> n | None \<Rightarrow> False) then False
      else if (case sf_namespace f of Some n \<Rightarrow> filter_namespace F e \<noteq> n | None \<Rightarrow> False) then False
      else if sf_event_types f \<noteq> [] \<and> filter_event_type F e \<notin> set (sf_event_types f) then False
      else True)"

definition filter_is_empty :: "stream_filter \<Rightarrow> bool" where
  "filter_is_empty f \<longleftrightarrow> sf_name f = None \<and> sf_namespace f = None \<and> sf_event_types f = []"

subsection \<open>Streams\<close>

datatype 'e recv_result = RecvOk 'e | Lagged nat | Closed

text \<open>
  The receive loop the streams share: an event that is not kept is skipped, a lag is skipped, the
  closed channel and a client that is gone end it. \<open>n\<close> counts the sends.
\<close>

fun stream_loop :: "('e \<Rightarrow> bool) \<Rightarrow> ('e \<Rightarrow> 't) \<Rightarrow> (nat \<Rightarrow> bool) \<Rightarrow> nat \<Rightarrow> 'e recv_result list \<Rightarrow> 't list" where
  "stream_loop keep convert connected n [] = []"
| "stream_loop keep convert connected n (RecvOk e # rs) =
     (if keep e then (if connected n then convert e # stream_loop keep convert connected (Suc n) rs else [])
      else stream_loop keep convert connected n rs)"
| "stream_loop keep convert connected n (Lagged k # rs) = stream_loop keep convert connected n rs"
| "stream_loop keep convert connected n (Closed # rs) = []"

definition filtered_broadcast_stream ::
  "'e filterable \<Rightarrow> stream_filter \<Rightarrow> ('e \<Rightarrow> 't) \<Rightarrow> (nat \<Rightarrow> bool) \<Rightarrow> 'e recv_result list \<Rightarrow> 't list" where
  "filtered_broadcast_stream F f convert connected rs =
     stream_loop (filter_matches F f) convert connected 0 rs"

definition broadcast_stream ::
  "'e filterable \<Rightarrow> ('e \<Rightarrow> 't) \<Rightarrow> (nat \<Rightarrow> bool) \<Rightarrow> 'e recv_result list \<Rightarrow> 't list" where
  "broadcast_stream F convert connected rs =
     filtered_broadcast_stream F stream_filter_new convert connected rs"

definition basic_filtered_broadcast_stream ::
  "'e filterable \<Rightarrow> stream_filter \<Rightarrow> ('e \<Rightarrow> 't) \<Rightarrow> (nat \<Rightarrow> bool) \<Rightarrow> 'e recv_result list \<Rightarrow> 't list" where
  "basic_filtered_broadcast_stream F f convert connected rs =
     stream_loop (filter_matches F f) convert connected 0 rs"

fun send_all :: "(nat \<Rightarrow> bool) \<Rightarrow> nat \<Rightarrow> 't list \<Rightarrow> 't list" where
  "send_all connected n [] = []"
| "send_all connected n (x # xs) = (if connected n then x # send_all connected (Suc n) xs else [])"

definition stream_from_iter :: "(nat \<Rightarrow> bool) \<Rightarrow> 't list \<Rightarrow> 't list" where
  "stream_from_iter connected items = send_all connected 0 items"

definition basic_stream_from_iter :: "(nat \<Rightarrow> bool) \<Rightarrow> 't list \<Rightarrow> 't list" where
  "basic_stream_from_iter connected items = send_all connected 0 items"

subsection \<open>Lemmas\<close>

text \<open>The events a receiver gets before its channel is closed.\<close>

fun received :: "'e recv_result list \<Rightarrow> 'e list" where
  "received [] = []"
| "received (RecvOk e # rs) = e # received rs"
| "received (Lagged k # rs) = received rs"
| "received (Closed # rs) = []"

lemma stream_loop_send_all:
  "stream_loop keep convert connected n rs = send_all connected n (map convert (filter keep (received rs)))"
  by (induction keep convert connected n rs rule: stream_loop.induct) simp_all

lemma send_all_prefix: "prefix (send_all connected n xs) xs"
  by (induction connected n xs rule: send_all.induct) simp_all

lemma send_all_connected: "(\<And>i. i < length xs \<Longrightarrow> connected (n + i)) \<Longrightarrow> send_all connected n xs = xs"
proof (induction xs arbitrary: n)
  case (Cons x xs)
  from Cons.prems [of 0] have "connected n" by simp
  moreover have "send_all connected (Suc n) xs = xs"
    using Cons.prems [of "Suc i" for i] by (intro Cons.IH) simp
  ultimately show ?case by simp
qed simp

lemma send_all_take:
  "(\<And>i. i < k \<Longrightarrow> connected (n + i)) \<Longrightarrow> \<not> connected (n + k) \<Longrightarrow> send_all connected n xs = take k xs"
proof (induction xs arbitrary: n k)
  case (Cons x xs)
  show ?case
  proof (cases k)
    case (Suc j)
    with Cons.prems(1) [of 0] have "connected n" by simp
    moreover have "send_all connected (Suc n) xs = take j xs"
      using Cons.prems(1) [of "Suc i" for i] Cons.prems(2) Suc by (intro Cons.IH) auto
    ultimately show ?thesis using Suc by simp
  qed (use Cons.prems in simp)
qed simp

lemma filter_matches_empty: "filter_is_empty f \<Longrightarrow> filter_matches F f e"
  by (simp add: filter_is_empty_def filter_matches_def)

lemma filter_matches_iff:
  "filter_matches F f e \<longleftrightarrow>
     sf_name f \<in> {None, Some (filter_name F e)} \<and> sf_namespace f \<in> {None, Some (filter_namespace F e)} \<and>
     (sf_event_types f = [] \<or> filter_event_type F e \<in> set (sf_event_types f))"
  by (auto simp: filter_matches_def split: option.splits)

subsection \<open>Properties\<close>

text \<open>
  A filtered stream delivers the matching events, all of them and in order, up to the point where the
  client disconnects: if the client accepts exactly the first \<open>k\<close> sends it gets the first \<open>k\<close> events that
  were received before the channel closed and pass the name, namespace and type filter. Lags in between
  do not end the stream.
\<close>

theorem filtered_stream_delivers:
  assumes "\<forall>i<k. connected i" and "\<not> connected k"
  shows "filtered_broadcast_stream F f convert connected rs =
     take k (map convert (filter
       (\<lambda>e. sf_name f \<in> {None, Some (filter_name F e)} \<and> sf_namespace f \<in> {None, Some (filter_namespace F e)} \<and>
            (sf_event_types f = [] \<or> filter_event_type F e \<in> set (sf_event_types f)))
       (received rs)))"
  unfolding filtered_broadcast_stream_def stream_loop_send_all filter_matches_iff [abs_def]
  by (rule send_all_take) (simp_all add: assms)

theorem filtered_stream_delivers_witness:
  "filtered_broadcast_stream \<lparr>filter_name = id, filter_namespace = id, filter_event_type = id\<rparr>
     (with_name ''a'' stream_filter_new) length (\<lambda>i. i < 2)
     [RecvOk ''a'', RecvOk ''b'', Lagged 5, RecvOk ''a'', RecvOk ''a'', Closed, RecvOk ''a''] = [1, 1]"
  using filtered_stream_delivers [of 2 "\<lambda>i. i < 2"
      "\<lparr>filter_name = id, filter_namespace = id, filter_event_type = id\<rparr>"
      "with_name ''a'' stream_filter_new" length
      "[RecvOk ''a'', RecvOk ''b'', Lagged 5, RecvOk ''a'', RecvOk ''a'', Closed, RecvOk ''a'']"]
  by (simp add: with_name_def stream_filter_new_def)

text \<open>
  The default filter passes everything: \<open>broadcast_stream\<close> to a connected client delivers every event
  received before the channel is closed, and \<open>stream_from_iter\<close> every item.
\<close>

theorem broadcast_stream_complete:
  "broadcast_stream F convert (\<lambda>_. True) rs = map convert (received rs) \<and>
   stream_from_iter (\<lambda>_. True) items = items"
proof -
  have "filter (filter_matches F stream_filter_new) (received rs) = received rs"
    by (simp add: filter_matches_empty filter_is_empty_def stream_filter_new_def)
  then show ?thesis
    using send_all_connected [of items "\<lambda>_. True" 0]
      send_all_connected [of "map convert (received rs)" "\<lambda>_. True" 0]
    by (simp add: broadcast_stream_def filtered_broadcast_stream_def stream_loop_send_all stream_from_iter_def)
qed

end
