(* ===== verification/Rust_Text.thy ===== *)
theory Rust_Text
  imports Prelude
begin

section \<open>Text and files of the Rust standard library\<close>

text \<open>
  What the daemons use of \<open>str\<close>, \<open>String\<close>, \<open>Path\<close> and \<open>std::fs\<close>. Strings and files are byte strings:
  UTF-8 validity and lossy decoding, character boundaries, \<open>split_whitespace\<close> (the Unicode white space in
  its UTF-8 form), \<open>lines\<close>, \<open>trim\<close>, \<open>Path::join\<close>. The file system is an argument: what a read, a
  \<open>readlink\<close> or an existence test of a path gives.
\<close>

subsection \<open>UTF-8\<close>

definition byte :: "char \<Rightarrow> nat" where
  "byte c = of_char c"

definition is_cont :: "char \<Rightarrow> bool" where
  "is_cont c \<longleftrightarrow> 128 \<le> byte c \<and> byte c < 192"

text \<open>Length of the sequence a lead byte announces and the range of its second byte.\<close>

definition utf8_lead :: "nat \<Rightarrow> (nat \<times> nat \<times> nat) option" where
  "utf8_lead b =
     (if 0xC2 \<le> b \<and> b \<le> 0xDF then Some (2, 0x80, 0xBF)
      else if b = 0xE0 then Some (3, 0xA0, 0xBF)
      else if b = 0xED then Some (3, 0x80, 0x9F)
      else if 0xE1 \<le> b \<and> b \<le> 0xEF then Some (3, 0x80, 0xBF)
      else if b = 0xF0 then Some (4, 0x90, 0xBF)
      else if 0xF1 \<le> b \<and> b \<le> 0xF3 then Some (4, 0x80, 0xBF)
      else if b = 0xF4 then Some (4, 0x80, 0x8F)
      else None)"

text \<open>
  The next step of a decoder: how many bytes it takes and whether they are a character. An ill-formed
  sequence takes its longest well-formed start, at least one byte.
\<close>

definition utf8_step :: "string \<Rightarrow> nat \<times> bool" where
  "utf8_step s = (case s of
     [] \<Rightarrow> (0, True)
   | c # cs \<Rightarrow>
       if byte c < 128 then (1, True)
       else (case utf8_lead (byte c) of
         None \<Rightarrow> (1, False)
       | Some (n, lo, hi) \<Rightarrow>
           (case cs of
              d # ds \<Rightarrow>
                if lo \<le> byte d \<and> byte d \<le> hi then
                  (let m = length (takeWhile is_cont (take (n - 2) ds))
                   in (2 + m, m = n - 2))
                else (1, False)
            | [] \<Rightarrow> (1, False))))"

lemma utf8_step_pos: "s \<noteq> [] \<Longrightarrow> 0 < fst (utf8_step s)"
  by (cases s) (auto simp: utf8_step_def Let_def split: option.splits list.splits)

function utf8_valid :: "string \<Rightarrow> bool" where
  "utf8_valid s =
     (if s = [] then True else snd (utf8_step s) \<and> utf8_valid (drop (fst (utf8_step s)) s))"
  by pat_completeness auto
termination
  by (relation "measure length") (auto simp: utf8_step_pos)

declare utf8_valid.simps [simp del]

definition REPLACEMENT :: string where
  "REPLACEMENT = [CHR 0xEF, CHR 0xBF, CHR 0xBD]"

function from_utf8_lossy :: "string \<Rightarrow> string" where
  "from_utf8_lossy s =
     (if s = [] then []
      else (if snd (utf8_step s) then take (fst (utf8_step s)) s else REPLACEMENT) @
           from_utf8_lossy (drop (fst (utf8_step s)) s))"
  by pat_completeness auto
termination
  by (relation "measure length") (auto simp: utf8_step_pos)

declare from_utf8_lossy.simps [simp del]

lemma from_utf8_lossy_valid: "utf8_valid s \<Longrightarrow> from_utf8_lossy s = s"
proof (induction s rule: utf8_valid.induct)
  case (1 s)
  then show ?case
    by (subst from_utf8_lossy.simps) (simp add: utf8_valid.simps [of s])
qed

lemma utf8_valid_hd: "utf8_valid s \<Longrightarrow> s = [] \<or> \<not> is_cont (hd s)"
proof (cases s)
  case (Cons c cs)
  assume "utf8_valid s"
  then have "snd (utf8_step (c # cs))" using Cons by (simp add: utf8_valid.simps [of "c # cs"])
  then have "byte c < 128 \<or> utf8_lead (byte c) \<noteq> None"
    by (auto simp: utf8_step_def split: if_splits option.splits)
  then have "\<not> is_cont c" by (auto simp: is_cont_def utf8_lead_def)
  with Cons show ?thesis by simp
qed simp

lemma utf8_valid_ascii_Cons: "byte c < 128 \<Longrightarrow> utf8_valid (c # s) \<longleftrightarrow> utf8_valid s"
  by (subst utf8_valid.simps) (simp add: utf8_step_def)

lemma utf8_valid_Nil [simp]: "utf8_valid []"
  by (simp add: utf8_valid.simps)

lemma utf8_valid_ascii: "list_all (\<lambda>c. byte c < 128) s \<Longrightarrow> utf8_valid s"
  by (induction s) (simp_all add: utf8_valid_ascii_Cons)

text \<open>\<open>str::is_char_boundary\<close>; slicing anywhere else, or past the end, or backwards, panics.\<close>

definition is_char_boundary :: "string \<Rightarrow> nat \<Rightarrow> bool" where
  "is_char_boundary s i \<longleftrightarrow> i \<le> length s \<and> (i < length s \<longrightarrow> \<not> is_cont (s ! i))"

definition str_slice :: "string \<Rightarrow> nat \<Rightarrow> nat \<Rightarrow> string outcome" where
  "str_slice s i j =
     (if i \<le> j \<and> is_char_boundary s i \<and> is_char_boundary s j then Returned (take (j - i) (drop i s))
      else Panicked)"

definition str_slice_from :: "string \<Rightarrow> nat \<Rightarrow> string outcome" where
  "str_slice_from s i = str_slice s i (length s)"

lemma str_slice_from_eq:
  "str_slice_from s i = (if is_char_boundary s i then Returned (drop i s) else Panicked)"
  by (auto simp: str_slice_from_def str_slice_def is_char_boundary_def)

subsection \<open>White space and lines\<close>

definition is_ascii_ws :: "char \<Rightarrow> bool" where
  "is_ascii_ws c \<longleftrightarrow> byte c = 32 \<or> (9 \<le> byte c \<and> byte c \<le> 13)"

text \<open>Length in bytes of the white space character at the front of a string, 0 if there is none.\<close>

definition ws_len :: "string \<Rightarrow> nat" where
  "ws_len s =
     (if s = [] then 0
      else if is_ascii_ws (hd s) then 1
      else if take 2 s = [CHR 0xC2, CHR 0x85] \<or> take 2 s = [CHR 0xC2, CHR 0xA0] then 2
      else if take 3 s = [CHR 0xE1, CHR 0x9A, CHR 0x80] \<or> take 3 s = [CHR 0xE2, CHR 0x81, CHR 0x9F] \<or>
              take 3 s = [CHR 0xE3, CHR 0x80, CHR 0x80] then 3
      else if take 2 s = [CHR 0xE2, CHR 0x80] \<and> 3 \<le> length s \<and>
              (let b = byte (s ! 2) in (0x80 \<le> b \<and> b \<le> 0x8A) \<or> b = 0xA8 \<or> b = 0xA9 \<or> b = 0xAF) then 3
      else 0)"

lemma ws_len_le: "ws_len s \<le> length s"
  by (auto simp: ws_len_def Let_def Suc_le_eq dest: arg_cong [where f = length])

text \<open>\<open>word\<close> collects the current word in reverse.\<close>

function split_ws_acc :: "string \<Rightarrow> string \<Rightarrow> string list" where
  "split_ws_acc word s =
     (if s = [] then (if word = [] then [] else [rev word])
      else if ws_len s > 0 then (if word = [] then [] else [rev word]) @ split_ws_acc [] (drop (ws_len s) s)
      else split_ws_acc (hd s # word) (tl s))"
  by pat_completeness auto
termination
  by (relation "measure (length \<circ> snd)") auto

declare split_ws_acc.simps [simp del]

definition split_whitespace :: "string \<Rightarrow> string list" where
  "split_whitespace s = split_ws_acc [] s"

text \<open>A plain word: ASCII without white space, as every number and state letter of procfs is.\<close>

definition plain_word :: "string \<Rightarrow> bool" where
  "plain_word w \<longleftrightarrow> w \<noteq> [] \<and> list_all (\<lambda>c. byte c < 128 \<and> \<not> is_ascii_ws c) w"

lemma ws_len_plain: "byte c < 128 \<Longrightarrow> \<not> is_ascii_ws c \<Longrightarrow> ws_len (c # s) = 0"
  by (auto simp: ws_len_def byte_def)

lemma ws_len_ascii: "is_ascii_ws c \<Longrightarrow> ws_len (c # s) = 1"
  by (simp add: ws_len_def)

lemma split_ws_acc_plain:
  "list_all (\<lambda>c. byte c < 128 \<and> \<not> is_ascii_ws c) w \<Longrightarrow> split_ws_acc acc (w @ s) = split_ws_acc (rev w @ acc) s"
proof (induction w arbitrary: acc)
  case (Cons c w)
  then show ?case by (subst split_ws_acc.simps) (simp add: ws_len_plain)
qed simp

lemma split_whitespace_Nil [simp]: "split_whitespace [] = []"
  by (simp add: split_whitespace_def split_ws_acc.simps)

lemma split_whitespace_ws [simp]: "is_ascii_ws c \<Longrightarrow> split_whitespace (c # s) = split_whitespace s"
  by (simp add: split_whitespace_def split_ws_acc.simps [of "[]" "c # s"] ws_len_ascii)

lemma split_whitespace_word:
  assumes "plain_word w" "s = [] \<or> is_ascii_ws (hd s)"
  shows "split_whitespace (w @ s) = w # split_whitespace s"
proof -
  have "split_whitespace (w @ s) = split_ws_acc (rev w) s"
    using assms(1) split_ws_acc_plain [of w "[]" s] by (simp add: split_whitespace_def plain_word_def)
  also have "\<dots> = w # split_whitespace s"
    using assms by (cases s) (auto simp: split_ws_acc.simps [of "rev w"] ws_len_ascii plain_word_def
        split_whitespace_def split_ws_acc.simps [of "[]" "c # s" for c s] split_ws_acc.simps [of "[]" "[]"])
  finally show ?thesis .
qed

lemma is_ascii_ws_simps [simp]:
  "is_ascii_ws (CHR '' '')" "is_ascii_ws (CHR 0x09)" "is_ascii_ws (CHR 0x0A)"
  by (simp_all add: is_ascii_ws_def byte_def)

lemma digit_plain: "is_ascii_digit c \<Longrightarrow> byte c < 128 \<and> \<not> is_ascii_ws c"
  by (auto simp: is_ascii_digit_def is_ascii_ws_def byte_def Let_def)

lemma plain_word_show_nat [simp]: "plain_word (show_nat n)"
  using show_nat_digits [of n] by (auto simp: plain_word_def list_all_iff digit_plain)

lemma plain_word_show_u32 [simp]: "plain_word (show_u32 w)"
  by (simp add: show_u32_def)

text \<open>\<open>str::lines\<close>: the last line may lack its newline; a carriage return before the newline goes.\<close>

definition strip_cr :: "string \<Rightarrow> string" where
  "strip_cr l = (if l \<noteq> [] \<and> last l = CHR 0x0D then butlast l else l)"

definition str_lines :: "string \<Rightarrow> string list" where
  "str_lines s =
     (let parts = split_on (CHR 0x0A) s
      in map strip_cr (butlast parts) @ (if last parts = [] then [] else [last parts]))"

lemma split_on_no_sep: "c \<notin> set l \<Longrightarrow> split_on c l = [l]"
  by (induction l) auto

lemma split_on_append:
  "c \<notin> set l \<Longrightarrow> split_on c (l @ c # s) = l # split_on c s"
  by (induction l) auto

lemma split_on_not_Nil [simp]: "split_on c s \<noteq> []"
  by (cases s) (auto split: list.splits)

lemma str_lines_Cons:
  "CHR 0x0A \<notin> set l \<Longrightarrow> str_lines (l @ CHR 0x0A # s) = strip_cr l # str_lines s"
  by (simp add: str_lines_def split_on_append Let_def)

lemma str_lines_Nil [simp]: "str_lines [] = []"
  by (simp add: str_lines_def)

definition unlines :: "string list \<Rightarrow> string" where
  "unlines ls = concat (map (\<lambda>l. l @ [CHR 0x0A]) ls)"

lemma str_lines_unlines:
  "(\<forall>l\<in>set ls. CHR 0x0A \<notin> set l \<and> strip_cr l = l) \<Longrightarrow> str_lines (unlines ls) = ls"
  by (induction ls) (simp_all add: unlines_def str_lines_Cons)

subsection \<open>Paths and files\<close>

definition path_join :: "string \<Rightarrow> string \<Rightarrow> string" where
  "path_join p q =
     (if path_has_root q then q
      else if p = [] \<or> last p = CHR ''/'' then p @ q
      else p @ ''/'' @ q)"

text \<open>A path with the given components; the root component comes first.\<close>

fun join_components :: "string list \<Rightarrow> string" where
  "join_components [] = []"
| "join_components [c] = c"
| "join_components (c # cs) = c @ ''/'' @ join_components cs"

definition path_of_components :: "string list \<Rightarrow> string" where
  "path_of_components cs =
     (case cs of c # rest \<Rightarrow> if c = ''/'' then ''/'' @ join_components rest else join_components cs
               | [] \<Rightarrow> [])"

datatype io_error = IoNotFound | IoPermissionDenied | IoInvalidData | IoOther nat

record file_system =
  fs_read :: "string \<Rightarrow> io_error + string"
  fs_read_link :: "string \<Rightarrow> io_error + string"
  fs_exists :: "string \<Rightarrow> bool"
  fs_is_dir :: "string \<Rightarrow> bool"

definition read_to_string :: "file_system \<Rightarrow> string \<Rightarrow> io_error + string" where
  "read_to_string fs p =
     (case fs_read fs p of
        Inl e \<Rightarrow> Inl e
      | Inr s \<Rightarrow> if utf8_valid s then Inr s else Inl IoInvalidData)"

subsection \<open>Searching, replacing and trimming\<close>

fun str_contains :: "string \<Rightarrow> string \<Rightarrow> bool" where
  "str_contains pat [] \<longleftrightarrow> pat = []"
| "str_contains pat (c # cs) \<longleftrightarrow> starts_with (c # cs) pat \<or> str_contains pat cs"

text \<open>\<open>str::replace\<close> with a pattern that is not empty.\<close>

function str_replace :: "string \<Rightarrow> string \<Rightarrow> string \<Rightarrow> string" where
  "str_replace pat rep s =
     (if s = [] then []
      else if pat \<noteq> [] \<and> starts_with s pat then rep @ str_replace pat rep (drop (length pat) s)
      else hd s # str_replace pat rep (tl s))"
  by pat_completeness auto
termination
  by (relation "measure (\<lambda>(p, r, s). length s)") auto

declare str_replace.simps [simp del]

lemma str_replace_Nil [simp]: "str_replace pat rep [] = []"
  by (simp add: str_replace.simps)

lemma str_replace_skip: "hd pat \<notin> set s \<Longrightarrow> pat \<noteq> [] \<Longrightarrow> str_replace pat rep (s @ t) = s @ str_replace pat rep t"
proof (induction s)
  case (Cons c s)
  then have "\<not> starts_with (c # s @ t) pat" by (cases pat) (auto simp: starts_with_def)
  with Cons show ?case by (simp add: str_replace.simps [of pat rep "c # s @ t"])
qed simp

lemma str_replace_hit: "pat \<noteq> [] \<Longrightarrow> str_replace pat rep (pat @ t) = rep @ str_replace pat rep t"
  by (simp add: str_replace.simps [of pat rep "pat @ t"])

function str_trim_start :: "string \<Rightarrow> string" where
  "str_trim_start s = (if 0 < ws_len s then str_trim_start (drop (ws_len s) s) else s)"
  by pat_completeness auto
termination
  by (relation "measure length") (auto simp: ws_len_def split: if_splits)

declare str_trim_start.simps [simp del]

definition ends_with_ws :: "nat \<Rightarrow> string \<Rightarrow> bool" where
  "ends_with_ws k s \<longleftrightarrow> k \<le> length s \<and> ws_len (drop (length s - k) s) = k"

function str_trim_end :: "string \<Rightarrow> string" where
  "str_trim_end s =
     (if s = [] then []
      else if ends_with_ws 1 s then str_trim_end (take (length s - 1) s)
      else if ends_with_ws 2 s then str_trim_end (take (length s - 2) s)
      else if ends_with_ws 3 s then str_trim_end (take (length s - 3) s)
      else s)"
  by pat_completeness auto
termination
  by (relation "measure length") (auto simp: ends_with_ws_def)

declare str_trim_end.simps [simp del]

definition str_trim :: "string \<Rightarrow> string" where
  "str_trim s = str_trim_end (str_trim_start s)"

definition trim_start_char :: "char \<Rightarrow> string \<Rightarrow> string" where
  "trim_start_char c s = dropWhile (\<lambda>x. x = c) s"

lemma str_trim_start_plain: "plain_word w \<Longrightarrow> str_trim_start (w @ s) = w @ s"
  by (cases w) (auto simp: plain_word_def str_trim_start.simps [of "c # cs" for c cs] ws_len_plain)

lemma not_ends_with_ws_plain:
  assumes "plain_word w" "k \<in> {1, 2, 3}"
  shows "\<not> ends_with_ws k w"
proof
  assume e: "ends_with_ws k w"
  define s where "s = drop (length w - k) w"
  have "length s = k" "list_all (\<lambda>c. byte c < 128 \<and> \<not> is_ascii_ws c) s"
    using e assms(1) by (auto simp: s_def ends_with_ws_def plain_word_def list_all_iff dest: in_set_dropD)
  then have "ws_len s = 0" using assms(2) by (cases s) (auto simp: ws_len_plain)
  with e assms(2) show False by (auto simp: ends_with_ws_def s_def)
qed

lemma str_trim_plain: "plain_word w \<Longrightarrow> str_trim w = w"
  using str_trim_start_plain [of w "[]"] not_ends_with_ws_plain [of w]
  by (simp add: str_trim_def str_trim_end.simps [of w])

lemma str_trim_plain_newline: "plain_word w \<Longrightarrow> str_trim (w @ [CHR 0x0A]) = w"
proof -
  assume w: "plain_word w"
  have "ends_with_ws 1 (w @ [CHR 0x0A])" by (simp add: ends_with_ws_def ws_len_ascii)
  then have "str_trim_end (w @ [CHR 0x0A]) = str_trim_end w"
    by (simp add: str_trim_end.simps [of "w @ [CHR 0x0A]"])
  with w str_trim_start_plain [of w "[CHR 0x0A]"] not_ends_with_ws_plain [of w] show ?thesis
    by (simp add: str_trim_def str_trim_end.simps [of w])
qed

end
