(* ===== verification/Proc.thy ===== *)
theory Proc
  imports Rust_Text
begin

section \<open>Process information from procfs\<close>

text \<open>
  \<open>common/src/proc.rs\<close>: \<open>ProcfsProcessResolver\<close> over a file system given as an argument. A slice outside the
  bounds or off a character boundary panics in Rust; the parsers return an \<open>outcome\<close> where that can happen.
\<close>

subsection \<open>Data\<close>

datatype proc_error =
    ProcessNotFound u32
  | StatReadError u32 io_error
  | StatParseError u32 string
  | StatusReadError u32 io_error
  | StatusParseError u32 string
  | FdResolutionError u32 i32 io_error
  | PermissionDenied u32 string

record process_info =
  pi_pid :: u32
  pi_ppid :: u32
  pi_uid :: u32
  pi_gid :: u32
  pi_comm :: string
  pi_exe :: string
  pi_cmdline :: "string list"
  pi_cwd :: string

record procfs_resolver =
  proc_path :: string

definition procfs_resolver_new :: procfs_resolver where
  "procfs_resolver_new = \<lparr>proc_path = ''/proc''\<rparr>"

definition with_proc_path :: "string \<Rightarrow> procfs_resolver" where
  "with_proc_path p = \<lparr>proc_path = p\<rparr>"

subsection \<open>Parsers\<close>

definition read_error :: "(u32 \<Rightarrow> io_error \<Rightarrow> proc_error) \<Rightarrow> string \<Rightarrow> u32 \<Rightarrow> io_error \<Rightarrow> proc_error" where
  "read_error other file pid e =
     (case e of
        IoNotFound \<Rightarrow> ProcessNotFound pid
      | IoPermissionDenied \<Rightarrow> PermissionDenied pid file
      | _ \<Rightarrow> other pid e)"

definition parse_stat_content :: "u32 \<Rightarrow> string \<Rightarrow> (proc_error + u32 \<times> string \<times> u32) outcome" where
  "parse_stat_content pid content =
     (case find_char (CHR ''('') content of
        None \<Rightarrow> Returned (Inl (StatParseError pid (''missing '' @ [CHR 0x27, CHR 0x28, CHR 0x27] @ '' for comm field'')))
      | Some comm_start \<Rightarrow>
          (case rfind_char (CHR '')'') content of
             None \<Rightarrow> Returned (Inl (StatParseError pid (''missing '' @ [CHR 0x27, CHR 0x29, CHR 0x27] @ '' for comm field'')))
           | Some comm_end \<Rightarrow>
               (case str_slice content (comm_start + 1) comm_end of
                  Panicked \<Rightarrow> Panicked
                | Returned comm \<Rightarrow>
                    (case str_slice_from content (comm_end + 2) of
                       Panicked \<Rightarrow> Panicked
                     | Returned after_comm \<Rightarrow>
                         (let fields = split_whitespace after_comm in
                          Returned
                            (if length fields < 2
                             then Inl (StatParseError pid
                               (''expected at least 2 fields after comm, got '' @ show_nat (length fields)))
                             else (case parse_u32 (fields ! 1) of
                                     None \<Rightarrow> Inl (StatParseError pid (''invalid ppid: '' @ [CHR 0x27] @ fields ! 1 @ [CHR 0x27]))
                                   | Some ppid \<Rightarrow> Inr (pid, comm, ppid))))))))"

definition parse_stat :: "file_system \<Rightarrow> procfs_resolver \<Rightarrow> u32 \<Rightarrow> (proc_error + u32 \<times> string \<times> u32) outcome" where
  "parse_stat fs r pid =
     (case read_to_string fs (path_join (proc_path r) (show_u32 pid @ ''/stat'')) of
        Inl e \<Rightarrow> Returned (Inl (read_error StatReadError ''stat'' pid e))
      | Inr content \<Rightarrow> parse_stat_content pid content)"

text \<open>The first word of a line's rest, as a number; \<open>None\<close> also overwrites an earlier value.\<close>

definition first_id :: "string \<Rightarrow> u32 option" where
  "first_id s = (case split_whitespace s of w # _ \<Rightarrow> parse_u32 w | [] \<Rightarrow> None)"

definition scan_line :: "string \<Rightarrow> u32 option \<times> u32 option \<Rightarrow> u32 option \<times> u32 option" where
  "scan_line line ids =
     (case strip_prefix line ''Uid:'' of
        Some s \<Rightarrow> (first_id s, snd ids)
      | None \<Rightarrow> (case strip_prefix line ''Gid:'' of
                   Some s \<Rightarrow> (fst ids, first_id s)
                 | None \<Rightarrow> ids))"

fun scan_status :: "string list \<Rightarrow> u32 option \<times> u32 option \<Rightarrow> u32 option \<times> u32 option" where
  "scan_status [] ids = ids"
| "scan_status (line # lines) ids =
     (let ids' = scan_line line ids
      in if fst ids' \<noteq> None \<and> snd ids' \<noteq> None then ids' else scan_status lines ids')"

definition parse_status_content :: "u32 \<Rightarrow> string \<Rightarrow> proc_error + u32 \<times> u32" where
  "parse_status_content pid content =
     (case scan_status (str_lines content) (None, None) of
        (None, _) \<Rightarrow> Inl (StatusParseError pid ''Uid field not found'')
      | (Some uid, None) \<Rightarrow> Inl (StatusParseError pid ''Gid field not found'')
      | (Some uid, Some gid) \<Rightarrow> Inr (uid, gid))"

definition parse_status :: "file_system \<Rightarrow> procfs_resolver \<Rightarrow> u32 \<Rightarrow> proc_error + u32 \<times> u32" where
  "parse_status fs r pid =
     (case read_to_string fs (path_join (proc_path r) (show_u32 pid @ ''/status'')) of
        Inl e \<Rightarrow> Inl (read_error StatusReadError ''status'' pid e)
      | Inr content \<Rightarrow> parse_status_content pid content)"

definition read_exe :: "file_system \<Rightarrow> procfs_resolver \<Rightarrow> u32 \<Rightarrow> string" where
  "read_exe fs r pid =
     (case fs_read_link fs (path_join (proc_path r) (show_u32 pid @ ''/exe'')) of Inr p \<Rightarrow> p | Inl _ \<Rightarrow> [])"

definition cmdline_words :: "string \<Rightarrow> string list" where
  "cmdline_words bytes = map from_utf8_lossy (filter (\<lambda>s. s \<noteq> []) (split_on (CHR 0x00) bytes))"

definition read_cmdline :: "file_system \<Rightarrow> procfs_resolver \<Rightarrow> u32 \<Rightarrow> string list" where
  "read_cmdline fs r pid =
     (case fs_read fs (path_join (proc_path r) (show_u32 pid @ ''/cmdline'')) of
        Inr bytes \<Rightarrow> cmdline_words bytes
      | Inl _ \<Rightarrow> [])"

definition read_cwd :: "file_system \<Rightarrow> procfs_resolver \<Rightarrow> u32 \<Rightarrow> string" where
  "read_cwd fs r pid =
     (case fs_read_link fs (path_join (proc_path r) (show_u32 pid @ ''/cwd'')) of Inr p \<Rightarrow> p | Inl _ \<Rightarrow> [])"

subsection \<open>The resolver\<close>

definition get_process_info ::
  "file_system \<Rightarrow> procfs_resolver \<Rightarrow> u32 \<Rightarrow> (proc_error + process_info) outcome" where
  "get_process_info fs r pid =
     (case parse_stat fs r pid of
        Panicked \<Rightarrow> Panicked
      | Returned (Inl e) \<Rightarrow> Returned (Inl e)
      | Returned (Inr (parsed_pid, comm, ppid)) \<Rightarrow>
          Returned (case parse_status fs r pid of
             Inl e \<Rightarrow> Inl e
           | Inr (uid, gid) \<Rightarrow>
               Inr \<lparr>pi_pid = parsed_pid, pi_ppid = ppid, pi_uid = uid, pi_gid = gid, pi_comm = comm,
                    pi_exe = read_exe fs r pid, pi_cmdline = read_cmdline fs r pid,
                    pi_cwd = read_cwd fs r pid\<rparr>))"

definition get_parent_pid :: "file_system \<Rightarrow> procfs_resolver \<Rightarrow> u32 \<Rightarrow> (proc_error + u32) outcome" where
  "get_parent_pid fs r pid =
     (case parse_stat fs r pid of
        Panicked \<Rightarrow> Panicked
      | Returned (Inl e) \<Rightarrow> Returned (Inl e)
      | Returned (Inr (_, _, ppid)) \<Rightarrow> Returned (Inr ppid))"

definition process_exists :: "file_system \<Rightarrow> procfs_resolver \<Rightarrow> u32 \<Rightarrow> bool" where
  "process_exists fs r pid = fs_exists fs (path_join (proc_path r) (show_u32 pid))"

definition resolve_fd_path :: "file_system \<Rightarrow> procfs_resolver \<Rightarrow> u32 \<Rightarrow> i32 \<Rightarrow> proc_error + string" where
  "resolve_fd_path fs r pid fd =
     (case fs_read_link fs (path_join (proc_path r) (show_u32 pid @ ''/fd/'' @ show_i32 fd)) of
        Inr p \<Rightarrow> Inr p
      | Inl e \<Rightarrow>
          Inl (if e = IoNotFound then
                 (if \<not> process_exists fs r pid then ProcessNotFound pid else FdResolutionError pid fd e)
               else FdResolutionError pid fd e))"

subsection \<open>Lemmas\<close>


lemma scan_status_skip:
  assumes "\<forall>l\<in>set ls. \<not> starts_with l ''Uid:'' \<and> \<not> starts_with l ''Gid:''"
    and "fst ids = None \<or> snd ids = None"
  shows "scan_status (ls @ ls') ids = scan_status ls' ids"
  using assms
proof (induction ls)
  case (Cons l ls)
  then have "scan_line l ids = ids"
    by (auto simp: scan_line_def strip_prefix_def)
  with Cons show ?case by auto
qed simp

lemma first_id_show: "is_ascii_ws c \<Longrightarrow> rest = [] \<or> is_ascii_ws (hd rest) \<Longrightarrow> first_id (c # show_u32 w @ rest) = Some w"
  using split_whitespace_word [OF plain_word_show_u32, of rest w] by (simp add: first_id_def)

lemma scan_line_ids [simp]:
  "scan_line (''Uid:'' @ s) ids = (first_id s, snd ids)"
  "scan_line (''Gid:'' @ s) ids = (fst ids, first_id s)"
  by (simp_all add: scan_line_def strip_prefix_def starts_with_def)

lemma cmdline_split:
  assumes "\<forall>a\<in>set args. CHR 0x00 \<notin> set a"
  shows "split_on (CHR 0x00) (concat (map (\<lambda>a. a @ [CHR 0x00]) args)) = args @ [[]]"
  using assms by (induction args) (simp_all add: split_on_append)

subsection \<open>Properties\<close>



text \<open>
  The parser of \<open>stat\<close> can panic. When the file ends right after its last closing parenthesis, or that
  parenthesis comes before the first opening one, a slice is out of range and the caller's task dies
  instead of getting a \<open>StatParseError\<close>.
\<close>

theorem parse_stat_panics:
  "(CHR ''('' \<in> set pre \<longrightarrow> parse_stat_content pid (pre @ '')'') = Panicked) \<and>
   (CHR ''('' \<notin> set p \<and> CHR '')'' \<notin> set q \<longrightarrow> parse_stat_content pid (p @ '')'' @ q @ ''('') = Panicked)"
proof (intro conjI impI)
  assume "CHR ''('' \<in> set pre"
  then obtain i where "find_char (CHR ''('') (pre @ '')'') = Some i"
    using find_char_None_iff [of "CHR ''(''" "pre @ '')''"] by fastforce
  moreover have "rfind_char (CHR '')'') (pre @ '')'') = Some (length pre)" by simp
  moreover have "str_slice_from (pre @ '')'') (length pre + 2) = Panicked"
    by (simp add: str_slice_from_eq is_char_boundary_def)
  ultimately show "parse_stat_content pid (pre @ '')'') = Panicked"
    by (simp add: parse_stat_content_def str_slice_def)
next
  assume a: "CHR ''('' \<notin> set p \<and> CHR '')'' \<notin> set q"
  then have "rfind_char (CHR '')'') (p @ '')'' @ q @ ''('') = Some (length p)"
    using rfind_char_append [of "CHR '')''" "q @ ''(''" p] by simp
  moreover obtain i where i: "find_char (CHR ''('') (p @ '')'' @ q @ ''('') = Some i"
    using find_char_None_iff [of "CHR ''(''" "p @ '')'' @ q @ ''(''"] by fastforce
  moreover have "length p \<le> i"
  proof (rule ccontr)
    assume "\<not> length p \<le> i"
    with i have "p ! i = CHR ''(''" "i < length p" by (auto simp: find_char_Some_iff nth_append)
    with a show False using nth_mem by metis
  qed
  ultimately show "parse_stat_content pid (p @ '')'' @ q @ ''('') = Panicked"
    by (simp add: parse_stat_content_def str_slice_def)
qed

theorem parse_stat_panics_witness:
  "parse_stat_content 1 ''1 (a)'' = Panicked \<and> parse_stat_content 1 ''1 )a('' = Panicked"
  using parse_stat_panics [of "''1 (a''" 1 "''1 ''" "''a''"] by simp

text \<open>
  The credentials come from the first \<open>Uid:\<close> and \<open>Gid:\<close> lines: for a \<open>status\<close> file whose other lines before
  them start differently, the real user and group ids (the first number of each line) are returned.
\<close>

theorem parse_status_first_ids:
  assumes "\<forall>l\<in>set (pre @ mid). \<not> starts_with l ''Uid:'' \<and> \<not> starts_with l ''Gid:''"
    and "u = [] \<or> is_ascii_ws (hd u)" and "g = [] \<or> is_ascii_ws (hd g)"
    and "str_lines content = pre @ [''Uid:'' @ [CHR 0x09] @ show_u32 uid @ u] @ mid @
                             [''Gid:'' @ [CHR 0x09] @ show_u32 gid @ g] @ post"
  shows "parse_status_content pid content = Inr (uid, gid)"
proof -
  have "scan_status (str_lines content) (None, None) = (Some uid, Some gid)"
    using assms(1-3) unfolding assms(4)
    by (simp add: scan_status_skip first_id_show scan_line_ids [simplified])
  then show ?thesis by (simp add: parse_status_content_def)
qed

theorem parse_status_first_ids_witness:
  "parse_status_content 1 (unlines [''Name: x'', ''Uid:'' @ [CHR 0x09] @ ''33'', ''Gid:'' @ [CHR 0x09] @ ''7'']) = Inr (33, 7)"
proof -
  have "str_lines (unlines [''Name: x'', ''Uid:'' @ [CHR 0x09] @ show_u32 33, ''Gid:'' @ [CHR 0x09] @ show_u32 7])
      = [''Name: x'', ''Uid:'' @ [CHR 0x09] @ show_u32 33, ''Gid:'' @ [CHR 0x09] @ show_u32 7]"
    by (rule str_lines_unlines) (simp add: show_u32_def strip_cr_def show_nat.simps)
  then show ?thesis
    using parse_status_first_ids [of "[''Name: x'']" "[]" "[]" "[]" _ 33 7 "[]" 1]
    by (simp add: starts_with_def show_u32_def show_nat.simps)
qed

text \<open>
  The arguments of a process come back as they were: a \<open>cmdline\<close> file of NUL-terminated non-empty
  arguments in UTF-8 is split into exactly these arguments.
\<close>

theorem cmdline_roundtrip:
  assumes "\<forall>a\<in>set args. a \<noteq> [] \<and> CHR 0x00 \<notin> set a \<and> utf8_valid a"
  shows "cmdline_words (concat (map (\<lambda>a. a @ [CHR 0x00]) args)) = args"
proof -
  have "filter (\<lambda>s. s \<noteq> []) args = args" "map from_utf8_lossy args = args"
    using assms by (induction args) (auto simp: from_utf8_lossy_valid)
  then show ?thesis using assms by (simp add: cmdline_words_def cmdline_split)
qed

theorem cmdline_roundtrip_witness:
  "cmdline_words (''ls'' @ [CHR 0x00] @ ''-l'' @ [CHR 0x00]) = [''ls'', ''-l'']"
proof -
  have "utf8_valid ''ls''" "utf8_valid ''-l''" by (rule utf8_valid_ascii, simp add: byte_def)+
  then show ?thesis using cmdline_roundtrip [of "[''ls'', ''-l'']"] by simp
qed

end
