(* ===== verification/Container_Runtime.thy ===== *)
theory Container_Runtime
  imports Rust_Text
begin

section \<open>Container runtimes and host paths\<close>

text \<open>
  \<open>common/src/container_runtime.rs\<close> and \<open>common/src/paths.rs\<close>: from a container id to the process id of the
  container's first process, and from paths inside a container or on the host to paths the daemon can
  open. The file system and the value of \<open>HOST_ROOT_PATH\<close> (\<open>None\<close> when unset or not Unicode) are
  arguments. The trait \<open>ContainerRuntime\<close> is the locale \<open>runtime_contract\<close>; its two implementations are the
  constructors of \<open>container_runtime\<close>, each holding its \<open>host_root\<close>.
\<close>

subsection \<open>Data\<close>

datatype runtime_type = Containerd | CriO

datatype runtime_error =
    NoRuntimeDetected
  | UnknownRuntime string
  | InvalidContainerId string string
  | PidFileNotFound string string
  | PidFileRead string io_error
  | InvalidPidContent string string
  | ContainerRootNotAccessible u32

datatype container_runtime = ContainerdRuntime string | CriORuntime string

definition runtime_type_display :: "runtime_type \<Rightarrow> string" where
  "runtime_type_display t = (case t of Containerd \<Rightarrow> ''containerd'' | CriO \<Rightarrow> ''CRI-O'')"

text \<open>The \<open>Display\<close> text of an error; the text of an I/O error is an argument.\<close>

definition show_runtime_error :: "(io_error \<Rightarrow> string) \<Rightarrow> runtime_error \<Rightarrow> string" where
  "show_runtime_error show_io e = (case e of
     NoRuntimeDetected \<Rightarrow> ''no supported container runtime detected (checked containerd, CRI-O)''
   | UnknownRuntime cid \<Rightarrow> ''unknown container runtime in ID: '' @ cid
   | InvalidContainerId cid reason \<Rightarrow>
       ''invalid container ID '' @ [CHR 0x27] @ cid @ [CHR 0x27] @ '': '' @ reason
   | PidFileNotFound cid path \<Rightarrow> ''PID file not found for container '' @ cid @ '': '' @ from_utf8_lossy path
   | PidFileRead path source \<Rightarrow> ''failed to read PID file '' @ from_utf8_lossy path @ '': '' @ show_io source
   | InvalidPidContent path content \<Rightarrow>
       ''invalid PID in file '' @ from_utf8_lossy path @ '': expected integer, got '' @ [CHR 0x27] @ content @ [CHR 0x27]
   | ContainerRootNotAccessible pid \<Rightarrow> ''container root not accessible: /proc/'' @ show_u32 pid @ ''/root'')"

definition CONTAINERD_SOCKET_PATH :: string where
  "CONTAINERD_SOCKET_PATH = ''/run/containerd/containerd.sock''"

definition CONTAINERD_PREFIX :: string where
  "CONTAINERD_PREFIX = ''containerd://''"

definition CONTAINERD_PID_PATH_TEMPLATE :: string where
  "CONTAINERD_PID_PATH_TEMPLATE = ''{0}/run/containerd/io.containerd.runtime.v2.task/k8s.io/{1}/init.pid''"

definition CRIO_SOCKET_PATH :: string where
  "CRIO_SOCKET_PATH = ''/var/run/crio/crio.sock''"

definition CRIO_PREFIX :: string where
  "CRIO_PREFIX = ''cri-o://''"

definition CRIO_PID_PATH_TEMPLATE :: string where
  "CRIO_PID_PATH_TEMPLATE = ''{0}/var/run/crio/{1}/pidfile''"

subsection \<open>Resolution\<close>

definition validate_container_id :: "string \<Rightarrow> runtime_error + unit" where
  "validate_container_id cid =
     (if cid = [] then Inl (InvalidContainerId cid ''container ID is empty'')
      else if str_contains ''..'' cid \<or> CHR ''/'' \<in> set cid \<or> CHR 0x5C \<in> set cid \<or> CHR 0x00 \<in> set cid
      then Inl (InvalidContainerId cid ''container ID contains invalid characters (potential path traversal)'')
      else if \<not> list_all (\<lambda>c. is_ascii_alphanumeric c \<or> c = CHR ''-'' \<or> c = CHR ''_'') cid
      then Inl (InvalidContainerId cid ''container ID contains invalid characters'')
      else Inr ())"

text \<open>\<open>to_str().unwrap_or("")\<close>\<close>

definition host_root_str :: "string \<Rightarrow> string" where
  "host_root_str h = (if utf8_valid h then h else [])"

definition containerd_pid_file_path :: "string \<Rightarrow> string \<Rightarrow> string" where
  "containerd_pid_file_path host_root cid =
     str_replace ''{1}'' cid (str_replace ''{0}'' (host_root_str host_root) CONTAINERD_PID_PATH_TEMPLATE)"

definition crio_pid_file_path :: "string \<Rightarrow> string \<Rightarrow> string" where
  "crio_pid_file_path host_root cid =
     str_replace ''{1}'' cid (str_replace ''{0}'' (host_root_str host_root) CRIO_PID_PATH_TEMPLATE)"

definition prefix_error :: "string \<Rightarrow> string \<Rightarrow> runtime_error" where
  "prefix_error pre cid = InvalidContainerId cid (''expected prefix '' @ [CHR 0x27] @ pre @ [CHR 0x27])"

definition containerd_strip_prefix :: "string \<Rightarrow> runtime_error + string" where
  "containerd_strip_prefix cid =
     (case strip_prefix cid CONTAINERD_PREFIX of Some s \<Rightarrow> Inr s | None \<Rightarrow> Inl (prefix_error CONTAINERD_PREFIX cid))"

definition crio_strip_prefix :: "string \<Rightarrow> runtime_error + string" where
  "crio_strip_prefix cid =
     (case strip_prefix cid CRIO_PREFIX of Some s \<Rightarrow> Inr s | None \<Rightarrow> Inl (prefix_error CRIO_PREFIX cid))"

text \<open>The part of \<open>resolve_pid\<close> that reads and parses the file at the path.\<close>

definition read_pid_file :: "file_system \<Rightarrow> string \<Rightarrow> string \<Rightarrow> runtime_error + u32" where
  "read_pid_file fs container_id pid_path =
     (case read_to_string fs pid_path of
        Inl e \<Rightarrow> Inl (if e = IoNotFound then PidFileNotFound container_id pid_path else PidFileRead pid_path e)
      | Inr content \<Rightarrow>
          (case parse_u32 (str_trim content) of
             Some pid \<Rightarrow> Inr pid
           | None \<Rightarrow> Inl (InvalidPidContent pid_path (str_trim content))))"

definition containerd_resolve_pid :: "file_system \<Rightarrow> string \<Rightarrow> string \<Rightarrow> runtime_error + u32" where
  "containerd_resolve_pid fs host_root container_id =
     (case containerd_strip_prefix container_id of
        Inl e \<Rightarrow> Inl e
      | Inr cid \<Rightarrow>
          (case validate_container_id cid of
             Inl e \<Rightarrow> Inl e
           | Inr _ \<Rightarrow> read_pid_file fs container_id (containerd_pid_file_path host_root cid)))"

definition crio_resolve_pid :: "file_system \<Rightarrow> string \<Rightarrow> string \<Rightarrow> runtime_error + u32" where
  "crio_resolve_pid fs host_root container_id =
     (case crio_strip_prefix container_id of
        Inl e \<Rightarrow> Inl e
      | Inr cid \<Rightarrow>
          (case validate_container_id cid of
             Inl e \<Rightarrow> Inl e
           | Inr _ \<Rightarrow> read_pid_file fs container_id (crio_pid_file_path host_root cid)))"

definition resolve_pid :: "file_system \<Rightarrow> container_runtime \<Rightarrow> string \<Rightarrow> runtime_error + u32" where
  "resolve_pid fs rt cid = (case rt of
     ContainerdRuntime h \<Rightarrow> containerd_resolve_pid fs h cid
   | CriORuntime h \<Rightarrow> crio_resolve_pid fs h cid)"

definition resolve_container_root :: "container_runtime \<Rightarrow> u32 \<Rightarrow> string" where
  "resolve_container_root rt pid = ''/proc/'' @ show_u32 pid @ ''/root''"

definition resolve_container_path :: "container_runtime \<Rightarrow> u32 \<Rightarrow> string \<Rightarrow> string" where
  "resolve_container_path rt pid path =
     path_join (resolve_container_root rt pid) (trim_start_char (CHR ''/'') path)"

subsection \<open>Detection\<close>

definition detect_runtime_type :: "string \<Rightarrow> runtime_type option" where
  "detect_runtime_type container_id =
     (if starts_with container_id CONTAINERD_PREFIX then Some Containerd
      else if starts_with container_id CRIO_PREFIX then Some CriO
      else None)"

definition detect_host_root :: "file_system \<Rightarrow> string option \<Rightarrow> string" where
  "detect_host_root fs host_root_path =
     (case host_root_path of
        Some p \<Rightarrow> p
      | None \<Rightarrow> if fs_exists fs ''/host'' \<and> fs_is_dir fs ''/host'' then ''/host'' else ''/'')"

definition containerd_is_available :: "file_system \<Rightarrow> string \<Rightarrow> bool" where
  "containerd_is_available fs host_root =
     fs_exists fs (path_join host_root (trim_start_char (CHR ''/'') CONTAINERD_SOCKET_PATH))"

definition crio_is_available :: "file_system \<Rightarrow> string \<Rightarrow> bool" where
  "crio_is_available fs host_root =
     fs_exists fs (path_join host_root (trim_start_char (CHR ''/'') CRIO_SOCKET_PATH))"

definition detect_runtime :: "file_system \<Rightarrow> string option \<Rightarrow> container_runtime option" where
  "detect_runtime fs host_root_path =
     (let h = detect_host_root fs host_root_path in
      if containerd_is_available fs h then Some (ContainerdRuntime h)
      else if crio_is_available fs h then Some (CriORuntime h)
      else None)"

definition runtime_for_container :: "file_system \<Rightarrow> string option \<Rightarrow> string \<Rightarrow> runtime_error + container_runtime" where
  "runtime_for_container fs host_root_path container_id =
     (case detect_runtime_type container_id of
        Some Containerd \<Rightarrow> Inr (ContainerdRuntime (detect_host_root fs host_root_path))
      | Some CriO \<Rightarrow> Inr (CriORuntime (detect_host_root fs host_root_path))
      | None \<Rightarrow> Inl (UnknownRuntime container_id))"

subsection \<open>Host paths\<close>

record path_provider =
  pv_host_root :: string
  pv_proc_path :: string

definition default_socket_path :: "runtime_type \<Rightarrow> string" where
  "default_socket_path t =
     (case t of Containerd \<Rightarrow> ''run/containerd/containerd.sock'' | CriO \<Rightarrow> ''var/run/crio/crio.sock'')"

definition provider_detect_host_root :: "file_system \<Rightarrow> string option \<Rightarrow> string" where
  "provider_detect_host_root fs host_root_path =
     (case host_root_path of
        Some p \<Rightarrow>
          if fs_exists fs p \<and> fs_is_dir fs p then p
          else if fs_exists fs ''/host'' \<and> fs_is_dir fs ''/host'' then ''/host'' else ''/''
      | None \<Rightarrow> if fs_exists fs ''/host'' \<and> fs_is_dir fs ''/host'' then ''/host'' else ''/'')"

definition provider_new :: "file_system \<Rightarrow> string option \<Rightarrow> path_provider" where
  "provider_new fs host_root_path =
     \<lparr>pv_host_root = provider_detect_host_root fs host_root_path, pv_proc_path = ''/proc''\<rparr>"

definition provider_with_paths :: "string \<Rightarrow> string \<Rightarrow> path_provider" where
  "provider_with_paths h p = \<lparr>pv_host_root = h, pv_proc_path = p\<rparr>"

definition provider_with_overrides ::
  "file_system \<Rightarrow> string option \<Rightarrow> string option \<Rightarrow> string option \<Rightarrow> path_provider" where
  "provider_with_overrides fs host_root_path h p =
     \<lparr>pv_host_root = (case h of Some x \<Rightarrow> x | None \<Rightarrow> provider_detect_host_root fs host_root_path),
      pv_proc_path = (case p of Some x \<Rightarrow> x | None \<Rightarrow> ''/proc'')\<rparr>"

definition runtime_socket :: "path_provider \<Rightarrow> runtime_type \<Rightarrow> string" where
  "runtime_socket pv t = path_join (pv_host_root pv) (default_socket_path t)"

definition provider_resolve_container_path :: "path_provider \<Rightarrow> u32 \<Rightarrow> string \<Rightarrow> string" where
  "provider_resolve_container_path pv pid path =
     (let relative_path = trim_start_char (CHR ''/'') (from_utf8_lossy path)
      in path_join (path_join (path_join (pv_proc_path pv) (show_u32 pid)) ''root'') relative_path)"

definition provider_resolve_path :: "path_provider \<Rightarrow> string \<Rightarrow> string" where
  "provider_resolve_path pv path =
     (let path_str = from_utf8_lossy path in
      if starts_with path_str ''/'' then path_join (pv_host_root pv) (trim_start_char (CHR ''/'') path_str)
      else path)"

subsection \<open>The contract of a runtime\<close>

text \<open>An id that is safe as one component of a path: letters, digits, hyphens and underscores only.\<close>

definition safe_id :: "string \<Rightarrow> bool" where
  "safe_id cid \<longleftrightarrow> cid \<noteq> [] \<and> list_all (\<lambda>c. is_ascii_alphanumeric c \<or> c = CHR ''-'' \<or> c = CHR ''_'') cid"

lemma str_contains_dot: "str_contains ''..'' s \<Longrightarrow> CHR ''.'' \<in> set s"
  by (induction s) (auto simp: starts_with_def split: if_splits)

lemma safe_id_chars:
  "safe_id cid \<Longrightarrow> CHR ''/'' \<notin> set cid \<and> CHR 0x5C \<notin> set cid \<and> CHR 0x00 \<notin> set cid \<and> CHR ''.'' \<notin> set cid"
  by (auto simp: safe_id_def list_all_iff is_ascii_alphanumeric_def Let_def)

lemma validate_container_id_iff: "validate_container_id cid = Inr () \<longleftrightarrow> safe_id cid"
  using safe_id_chars [of cid] str_contains_dot [of cid]
  by (auto simp: validate_container_id_def safe_id_def)

text \<open>
  What a client relies on: another runtime's prefix and an unsafe id are refused without looking at the
  file system; for a safe id the one file at \<open>pid_path\<close> decides.
\<close>

locale runtime_contract =
  fixes pre :: string
    and pid_path :: "string \<Rightarrow> string"
    and resolve :: "file_system \<Rightarrow> string \<Rightarrow> runtime_error + u32"
  assumes wrong_prefix: "\<not> starts_with cid pre \<Longrightarrow> resolve fs cid = Inl (prefix_error pre cid)"
    and unsafe: "validate_container_id i = Inl e \<Longrightarrow> resolve fs (pre @ i) = Inl e"
    and reads: "safe_id i \<Longrightarrow> resolve fs (pre @ i) = read_pid_file fs (pre @ i) (pid_path i)"
begin

text \<open>Two file systems that agree on the pid files of safe ids cannot be told apart.\<close>

lemma resolve_confined:
  assumes "\<And>i. safe_id i \<Longrightarrow> fs_read fs (pid_path i) = fs_read fs' (pid_path i)"
  shows "resolve fs cid = resolve fs' cid"
proof (cases "starts_with cid pre")
  case True
  then obtain i where i: "cid = pre @ i" by (rule starts_withE)
  show ?thesis
  proof (cases "safe_id i")
    case True
    with i assms [of i] reads show ?thesis by (simp add: read_pid_file_def read_to_string_def)
  next
    case False
    then obtain e where "validate_container_id i = Inl e"
      using validate_container_id_iff [of i] by (cases "validate_container_id i") auto
    with i unsafe show ?thesis by simp
  qed
qed (simp add: wrong_prefix)

lemma resolve_roundtrip:
  assumes "safe_id i" and "fs_read fs (pid_path i) = Inr (show_u32 pid @ nl)" and "nl = [] \<or> nl = [CHR 0x0A]"
  shows "resolve fs (pre @ i) = Inr pid"
proof -
  have "str_trim (show_u32 pid @ nl) = show_u32 pid"
    using assms(3) str_trim_plain [OF plain_word_show_u32] str_trim_plain_newline [OF plain_word_show_u32] by auto
  moreover have "utf8_valid (show_u32 pid @ nl)"
    using assms(3) plain_word_show_u32 [of pid]
    by (intro utf8_valid_ascii) (auto simp: plain_word_def list_all_iff byte_def)
  ultimately show ?thesis
    using assms(1,2) by (simp add: reads read_pid_file_def read_to_string_def)
qed

end

subsection \<open>Both runtimes implement it\<close>

lemma template_replace:
  assumes "CHR ''{'' \<notin> set h" "CHR ''{'' \<notin> set a" "CHR ''{'' \<notin> set z"
  shows "str_replace ''{1}'' i (str_replace ''{0}'' h (''{0}'' @ a @ ''{1}'' @ z)) = h @ a @ i @ z"
proof -
  have z: "str_replace ''{0}'' h (''{1}'' @ z) = ''{1}'' @ z"
    using str_replace_skip [of "''{0}''" "''1}'' @ z" h "[]"] assms(3)
    by (simp add: str_replace.simps [of "''{0}''" h "CHR ''{'' # s" for s] starts_with_def)
  have "str_replace ''{0}'' h (''{0}'' @ a @ ''{1}'' @ z) = h @ a @ ''{1}'' @ z"
    using str_replace_hit [of "''{0}''" h "a @ ''{1}'' @ z"] str_replace_skip [of "''{0}''" a h "''{1}'' @ z"]
      assms(2) z by simp
  moreover have "str_replace ''{1}'' i ((h @ a) @ ''{1}'' @ z) = (h @ a) @ i @ z"
    using str_replace_skip [of "''{1}''" "h @ a" i "''{1}'' @ z"] str_replace_hit [of "''{1}''" i z]
      str_replace_skip [of "''{1}''" z i "[]"] assms by simp
  ultimately show ?thesis by simp
qed

lemma containerd_pid_file_path_eq:
  assumes "CHR ''{'' \<notin> set h"
  shows "containerd_pid_file_path h i =
    host_root_str h @ ''/run/containerd/io.containerd.runtime.v2.task/k8s.io/'' @ i @ ''/init.pid''"
  using template_replace [of "host_root_str h" "''/run/containerd/io.containerd.runtime.v2.task/k8s.io/''"
      "''/init.pid''" i] assms
  by (simp add: containerd_pid_file_path_def CONTAINERD_PID_PATH_TEMPLATE_def host_root_str_def)

lemma crio_pid_file_path_eq:
  assumes "CHR ''{'' \<notin> set h"
  shows "crio_pid_file_path h i = host_root_str h @ ''/var/run/crio/'' @ i @ ''/pidfile''"
  using template_replace [of "host_root_str h" "''/var/run/crio/''" "''/pidfile''" i] assms
  by (simp add: crio_pid_file_path_def CRIO_PID_PATH_TEMPLATE_def host_root_str_def)

interpretation containerd: runtime_contract CONTAINERD_PREFIX "containerd_pid_file_path h"
    "\<lambda>fs. containerd_resolve_pid fs h"
  for h :: string
  by unfold_locales
    (auto simp: containerd_resolve_pid_def containerd_strip_prefix_def strip_prefix_def
      validate_container_id_iff [symmetric])

interpretation crio: runtime_contract CRIO_PREFIX "crio_pid_file_path h" "\<lambda>fs. crio_resolve_pid fs h"
  for h :: string
  by unfold_locales
    (auto simp: crio_resolve_pid_def crio_strip_prefix_def strip_prefix_def validate_container_id_iff [symmetric])

subsection \<open>Properties\<close>

text \<open>
  C17: A container id cannot make the daemon read another file. Whatever the id is, the result of \<open>resolve_pid\<close>
  of either runtime depends on the file system only through the pid files
  \<open><host_root>/.../<id>/init.pid\<close> (or \<open>pidfile\<close>) whose id consists of letters, digits, hyphens and
  underscores: no slash, no dot, no NUL and no traversal.
\<close>

theorem resolve_pid_confined:
  assumes "CHR ''{'' \<notin> set h"
    and "\<forall>i. safe_id i \<longrightarrow>
      fs_read fs (host_root_str h @ ''/run/containerd/io.containerd.runtime.v2.task/k8s.io/'' @ i @ ''/init.pid'') =
      fs_read fs' (host_root_str h @ ''/run/containerd/io.containerd.runtime.v2.task/k8s.io/'' @ i @ ''/init.pid'')"
    and "\<forall>i. safe_id i \<longrightarrow>
      fs_read fs (host_root_str h @ ''/var/run/crio/'' @ i @ ''/pidfile'') =
      fs_read fs' (host_root_str h @ ''/var/run/crio/'' @ i @ ''/pidfile'')"
  shows "resolve_pid fs (ContainerdRuntime h) cid = resolve_pid fs' (ContainerdRuntime h) cid \<and>
         resolve_pid fs (CriORuntime h) cid = resolve_pid fs' (CriORuntime h) cid"
  using containerd.resolve_confined [of fs h fs' cid] crio.resolve_confined [of fs h fs' cid] assms
  by (simp add: resolve_pid_def containerd_pid_file_path_eq crio_pid_file_path_eq)

definition one_file :: "string \<Rightarrow> string \<Rightarrow> file_system" where
  "one_file path content =
     \<lparr>fs_read = (\<lambda>p. if p = path then Inr content else Inl IoNotFound), fs_read_link = (\<lambda>_. Inl IoNotFound),
      fs_exists = (\<lambda>p. p = path), fs_is_dir = (\<lambda>_. False)\<rparr>"

theorem resolve_pid_confined_witness:
  "resolve_pid (one_file ''/etc/passwd'' ''42'') (CriORuntime ''/host'') ''cri-o://../../etc/passwd''
     = resolve_pid (one_file ''/x'' []) (CriORuntime ''/host'') ''cri-o://../../etc/passwd''"
proof -
  have "''/host/var/run/crio/'' @ i @ ''/pidfile'' \<noteq> ''/etc/passwd''"
    "''/host/var/run/crio/'' @ i @ ''/pidfile'' \<noteq> ''/x''"
    "''/host/run/containerd/io.containerd.runtime.v2.task/k8s.io/'' @ i @ ''/init.pid'' \<noteq> ''/etc/passwd''"
    "''/host/run/containerd/io.containerd.runtime.v2.task/k8s.io/'' @ i @ ''/init.pid'' \<noteq> ''/x''" for i
    by simp_all
  moreover have "utf8_valid ''/host''" by (rule utf8_valid_ascii) (simp add: byte_def)
  ultimately show ?thesis
    using resolve_pid_confined [of "''/host''" "one_file ''/etc/passwd'' ''42''" "one_file ''/x'' []"
        "''cri-o://../../etc/passwd''"]
    by (simp add: one_file_def host_root_str_def)
qed

text \<open>
  The pid written by the runtime is the pid returned. For a container id with the runtime's prefix and a
  safe id, a pid file that holds a number in decimal, with or without a final newline, resolves to it.
\<close>

theorem resolve_pid_roundtrip:
  assumes "CHR ''{'' \<notin> set h" and "safe_id i" and "nl = [] \<or> nl = [CHR 0x0A]"
    and "fs_read fs (host_root_str h @ ''/run/containerd/io.containerd.runtime.v2.task/k8s.io/'' @ i @ ''/init.pid'')
           = Inr (show_u32 pid @ nl)"
    and "fs_read fs (host_root_str h @ ''/var/run/crio/'' @ i @ ''/pidfile'') = Inr (show_u32 pid' @ nl)"
  shows "resolve_pid fs (ContainerdRuntime h) (''containerd://'' @ i) = Inr pid \<and>
         resolve_pid fs (CriORuntime h) (''cri-o://'' @ i) = Inr pid'"
  using containerd.resolve_roundtrip [OF assms(2) _ assms(3), of fs h pid]
    crio.resolve_roundtrip [OF assms(2) _ assms(3), of fs h pid'] assms
  by (simp add: resolve_pid_def containerd_pid_file_path_eq crio_pid_file_path_eq CONTAINERD_PREFIX_def CRIO_PREFIX_def)

theorem resolve_pid_roundtrip_witness:
  "resolve_pid \<lparr>fs_read = (\<lambda>_. Inr (''42'' @ [CHR 0x0A])), fs_read_link = (\<lambda>_. Inl IoNotFound),
      fs_exists = (\<lambda>_. True), fs_is_dir = (\<lambda>_. False)\<rparr> (ContainerdRuntime ''/host'') ''containerd://ab-1'' = Inr 42"
proof -
  have "show_u32 42 = ''42''" by (simp add: show_u32_def show_nat.simps)
  moreover have "safe_id ''ab-1''" by (simp add: safe_id_def is_ascii_alphanumeric_def Let_def)
  ultimately show ?thesis
    using resolve_pid_roundtrip [of "''/host''" "''ab-1''" "[CHR 0x0A]"
        "\<lparr>fs_read = (\<lambda>_. Inr (''42'' @ [CHR 0x0A])), fs_read_link = (\<lambda>_. Inl IoNotFound),
          fs_exists = (\<lambda>_. True), fs_is_dir = (\<lambda>_. False)\<rparr>" 42 42] by simp
qed

text \<open>
  The runtime chosen for an id accepts it. When \<open>runtime_for_container\<close> returns a runtime for an id, that
  runtime resolves the id without a prefix error, and an id that neither runtime can take is reported as
  unknown.
\<close>

theorem runtime_for_container_accepts:
  "(case runtime_for_container fs var cid of
      Inr rt \<Rightarrow> resolve_pid fs' rt cid \<noteq> Inl (prefix_error CONTAINERD_PREFIX cid) \<and>
                resolve_pid fs' rt cid \<noteq> Inl (prefix_error CRIO_PREFIX cid)
    | Inl e \<Rightarrow> e = UnknownRuntime cid \<and> \<not> starts_with cid CONTAINERD_PREFIX \<and> \<not> starts_with cid CRIO_PREFIX)"
proof -
  have v: "validate_container_id i \<noteq> Inl (prefix_error p c)" for i p c
    by (simp add: validate_container_id_def prefix_error_def)
  have r: "read_pid_file fs' c p \<noteq> Inl (prefix_error q d)" for c p q d
    by (auto simp: read_pid_file_def prefix_error_def split: sum.splits option.splits)
  have c: "containerd_resolve_pid fs' h cid \<noteq> Inl (prefix_error p d)"
    if "starts_with cid CONTAINERD_PREFIX" for h p d
    using that v r by (auto simp: containerd_resolve_pid_def containerd_strip_prefix_def strip_prefix_def split: sum.splits)
  have o: "crio_resolve_pid fs' h cid \<noteq> Inl (prefix_error p d)" if "starts_with cid CRIO_PREFIX" for h p d
    using that v r by (auto simp: crio_resolve_pid_def crio_strip_prefix_def strip_prefix_def split: sum.splits)
  show ?thesis
    using c o by (simp add: runtime_for_container_def detect_runtime_type_def resolve_pid_def)
qed

lemma path_join_relative:
  assumes "p \<noteq> []" "last p \<noteq> CHR ''/''"
  shows "path_join p (trim_start_char (CHR ''/'') q) = p @ ''/'' @ trim_start_char (CHR ''/'') q"
proof -
  define r where "r = trim_start_char (CHR ''/'') q"
  have "r \<noteq> [] \<Longrightarrow> hd r \<noteq> CHR ''/''"
    using hd_dropWhile [of "\<lambda>x. x = CHR ''/''" q] by (simp add: r_def trim_start_char_def)
  then have "\<not> path_has_root r" by (cases r) (simp_all add: path_has_root_def starts_with_def)
  with assms have "path_join p r = p @ ''/'' @ r" by (simp add: path_join_def)
  then show ?thesis by (simp add: r_def)
qed

text \<open>
  Paths are resolved below the container's root. The path of a file in a container always lies below
  \<open>/proc/<pid>/root\<close>: no number of leading slashes makes the join absolute.
\<close>

theorem container_path_below_root:
  "resolve_container_path rt pid path =
     ''/proc/'' @ show_u32 pid @ ''/root/'' @ dropWhile (\<lambda>c. c = CHR ''/'') path \<and>
   provider_resolve_container_path (provider_with_paths h ''/proc'') pid path =
     ''/proc/'' @ show_u32 pid @ ''/root/'' @ dropWhile (\<lambda>c. c = CHR ''/'') (from_utf8_lossy path)"
proof -
  have d: "last (show_u32 pid) \<noteq> CHR ''/''" "\<not> path_has_root (show_u32 pid)"
  proof -
    have ne: "show_u32 pid \<noteq> []" and ns: "CHR ''/'' \<notin> set (show_u32 pid)"
      by (simp_all add: show_u32_def show_nat_no_slash)
    from last_in_set [OF ne] ns show "last (show_u32 pid) \<noteq> CHR ''/''" by metis
    from ne ns show "\<not> path_has_root (show_u32 pid)"
      by (cases "show_u32 pid") (auto simp: path_has_root_def starts_with_def)
  qed
  have "path_join (path_join ''/proc'' (show_u32 pid)) ''root'' = ''/proc/'' @ show_u32 pid @ ''/root''"
    using d by (simp add: path_join_def path_has_root_def starts_with_def show_u32_def)
  then show ?thesis
    using path_join_relative [of "''/proc/'' @ show_u32 pid @ ''/root''"]
    by (simp add: resolve_container_path_def resolve_container_root_def provider_resolve_container_path_def
        provider_with_paths_def Let_def trim_start_char_def)
qed

end
