(* ===== verification/Grpc.thy ===== *)
theory Grpc
  imports Prelude
begin

section \<open>Statuses, actions and times of the two services\<close>

text \<open>
  What the services of janusd and argusd share of the protocol: the statuses they answer with, the action
  of an update request, and the conversion of a \<open>SystemTime\<close> (nanoseconds since the epoch) to a timestamp.
\<close>

datatype grpc_status =
    ResourceExhausted string
  | StatusAlreadyExists string
  | StatusNotFound string
  | Internal string
  | FailedPrecondition string
  | Unimplemented string
  | InvalidArgument string

datatype update_action = UaUnspecified | UaPause | UaResume

definition update_action_of :: "i32 \<Rightarrow> update_action" where
  "update_action_of n = (if n = 1 then UaPause else if n = 2 then UaResume else UaUnspecified)"

record timestamp =
  seconds :: i64
  nanos :: i32

text \<open>\<open>duration_since(UNIX_EPOCH)\<close> fails before the epoch.\<close>

definition to_timestamp :: "int \<Rightarrow> timestamp option" where
  "to_timestamp t =
     (if t < 0 then None
      else Some \<lparr>seconds = of_int (t div 1000000000), nanos = of_int (t mod 1000000000)\<rparr>)"

end
