(* ===== verification/Janus_Service.thy ===== *)
theory Janus_Service
  imports Guard Guard_Metrics Audit_Log Session Broadcast Proc Container_Runtime Grpc
begin

section \<open>The gRPC service of janusd\<close>

text \<open>
  \<open>janusd/src/service.rs\<close>: the handlers of the service and the task that forwards a guard's events. The
  state is a record of the service's fields. \<open>Arc<GuardMetrics>\<close> objects live in a heap of their own, since
  a session, the aggregator, the guard and the forwarding task share them; a collector of the aggregator
  is an address there. Tasks handed to \<open>tokio::spawn\<close> by \<open>create_guard\<close> are appended to \<open>j_guard_tasks\<close>.
  The environment gives the clock, the kernel, the file system, the glob and LRU libraries and the text
  of a guard error. A handler that locks several times is split at these points, so that interleavings
  can be stated. Logging and the channel handles are left out.
\<close>

subsection \<open>Messages of the protocol\<close>

datatype fanotify_event_kind =
    FeUnspecified | FeAccess | FeOpen | FeOpenExec | FeCloseWrite | FeClose | FeAll

definition fanotify_event_to_i32 :: "fanotify_event_kind \<Rightarrow> i32" where
  "fanotify_event_to_i32 e = (case e of
     FeUnspecified \<Rightarrow> 0 | FeAccess \<Rightarrow> 1 | FeOpen \<Rightarrow> 2 | FeOpenExec \<Rightarrow> 3 | FeCloseWrite \<Rightarrow> 4 | FeClose \<Rightarrow> 5 | FeAll \<Rightarrow> 99)"

definition fanotify_event_try_from :: "i32 \<Rightarrow> fanotify_event_kind option" where
  "fanotify_event_try_from n =
     (if n = 0 then Some FeUnspecified else if n = 1 then Some FeAccess else if n = 2 then Some FeOpen
      else if n = 3 then Some FeOpenExec else if n = 4 then Some FeCloseWrite else if n = 5 then Some FeClose
      else if n = 99 then Some FeAll else None)"

definition fanotify_event_or_unspecified :: "i32 \<Rightarrow> fanotify_event_kind" where
  "fanotify_event_or_unspecified n =
     (case fanotify_event_try_from n of Some e \<Rightarrow> e | None \<Rightarrow> FeUnspecified)"

definition PROTO_ALLOW :: i32 where "PROTO_ALLOW = 1"
definition PROTO_DENY :: i32 where "PROTO_DENY = 2"
definition PROTO_AUDIT :: i32 where "PROTO_AUDIT = 3"

record guard_subject =
  gsub_allow :: "string list"
  gsub_deny :: "string list"
  gsub_events :: "i32 list"
  gsub_only_dir :: bool
  gsub_auto_allow_owner :: bool
  gsub_audit :: bool
  gsub_default_response :: i32
  gsub_tags :: "(string \<times> string) list"

record proto_process_info =
  pp_pid :: i32
  pp_tid :: i32
  pp_uid :: i32
  pp_gid :: i32
  pp_comm :: string
  pp_exe :: string
  pp_ppid :: i32
  pp_cmdline :: "string list"
  pp_cwd :: string

record proto_access_event =
  pa_timestamp :: "timestamp option"
  pa_guard_name :: string
  pa_namespace :: string
  pa_node_name :: string
  pa_pod_name :: string
  pa_container_id :: string
  pa_event_type :: i32
  pa_path :: string
  pa_response :: i32
  pa_process_info :: "proto_process_info option"
  pa_is_directory :: bool
  pa_tags :: "(string \<times> string) list"
  pa_audit_logged :: bool
  pa_cluster_name :: string

record create_guard_request =
  cg_guard_name :: string
  cg_namespace :: string
  cg_node_name :: string
  cg_pod_name :: string
  cg_container_ids :: "string list"
  cg_pids :: "i32 list"
  cg_subjects :: "guard_subject list"
  cg_log_format :: string
  cg_paused :: bool
  cg_enforcing :: bool

record create_guard_response =
  cr_guard_id :: string
  cr_node_name :: string
  cr_pod_name :: string
  cr_guarded_paths :: i32
  cr_process_eventfds :: "i32 list"
  cr_paused :: bool
  cr_enforcing :: bool
  cr_marks_registered :: i32

record guard_state =
  st_guard_name :: string
  st_namespace :: string
  st_node_name :: string
  st_pod_name :: string
  st_pids :: "i32 list"
  st_process_eventfds :: "i32 list"
  st_created_at :: "timestamp option"
  st_subjects :: "guard_subject list"
  st_log_format :: string
  st_paused :: bool
  st_enforcing :: bool
  st_guarded_paths :: i32
  st_marks_registered :: bool
  st_ready_at :: "timestamp option"
  st_mount_count :: i32

record proto_guard_metrics =
  pg_guard_name :: string
  pg_namespace :: string
  pg_denied_count :: i64
  pg_allowed_count :: i64
  pg_audited_count :: i64
  pg_event_counts :: "(string \<times> i64) list"
  pg_queue_overflows :: i64

record metrics_response =
  mr_active_guards :: i32
  mr_total_events_processed :: i64
  mr_total_denied :: i64
  mr_total_allowed :: i64
  mr_guard_metrics :: "proto_guard_metrics list"

record update_guard_response =
  ug_guard_id :: string
  ug_paused :: bool
  ug_enforcing :: bool
  ug_guarded_paths :: i32

record update_policy_response =
  up_guard_id :: string
  up_deny_pattern_count :: i32
  up_allow_pattern_count :: i32
  up_cache_cleared :: bool

subsection \<open>State\<close>

record guard_session_state =
  gss_subjects :: "guard_subject list"
  gss_log_format :: string
  gss_enforcing :: bool
  gss_typed_metrics :: nat
  gss_guard_config :: "guard_config option"
  gss_marks_registered :: bool
  gss_ready_at :: "int option"
  gss_mount_count :: u32

record ('p, 'c) janusd =
  j_node_name :: string
  j_cluster_name :: string
  j_max_guards :: nat
  j_sessions :: "guard_session_state session_table"
  j_metrics :: "nat metrics_aggregator"
  j_metrics_heap :: "guard_metrics list"
  j_runtime :: "container_runtime option"
  j_proc_resolver :: procfs_resolver
  j_audit :: audit_logger
  j_guard_tasks :: "('p, 'c) guard list"

record ('p, 'c) janus_env =
  env_glob :: "'p glob_api"
  env_lru :: "'c lru_api"
  env_now :: int
  env_init :: "init_flag set \<Rightarrow> errno + unit"
  env_mark :: "mask_flag set \<Rightarrow> string \<Rightarrow> errno + unit"
  env_fs :: file_system
  env_show_error :: "guard_error \<Rightarrow> string"

definition collector_name :: "('p, 'c) janusd \<Rightarrow> nat \<Rightarrow> string" where
  "collector_name svc a = gm_guard_name (j_metrics_heap svc ! a)"

definition janusd_new ::
  "container_runtime option \<Rightarrow> string \<Rightarrow> string \<Rightarrow> nat \<Rightarrow> audit_logger \<Rightarrow> ('p, 'c) janusd" where
  "janusd_new runtime node cluster max_guards audit =
     \<lparr>j_node_name = node, j_cluster_name = cluster, j_max_guards = max_guards, j_sessions = new_session_map,
      j_metrics = aggregator_new node, j_metrics_heap = [], j_runtime = runtime,
      j_proc_resolver = procfs_resolver_new, j_audit = audit, j_guard_tasks = []\<rparr>"

subsection \<open>Conversions\<close>

definition access_event_filterable :: "proto_access_event filterable" where
  "access_event_filterable =
     \<lparr>filter_name = pa_guard_name, filter_namespace = pa_namespace,
      filter_event_type = (\<lambda>e. case fanotify_event_or_unspecified (pa_event_type e) of
        FeUnspecified \<Rightarrow> ''unspecified'' | FeAccess \<Rightarrow> ''access'' | FeOpen \<Rightarrow> ''open''
      | FeOpenExec \<Rightarrow> ''open_exec'' | FeCloseWrite \<Rightarrow> ''close_write'' | FeClose \<Rightarrow> ''close'' | FeAll \<Rightarrow> ''all'')\<rparr>"

definition session_to_guard_state :: "guard_session_state session \<Rightarrow> guard_state" where
  "session_to_guard_state s =
     \<lparr>st_guard_name = s_name s, st_namespace = s_namespace s, st_node_name = s_node_name s,
      st_pod_name = s_pod_name s, st_pids = s_pids s, st_process_eventfds = [],
      st_created_at = to_timestamp (s_created_at s), st_subjects = gss_subjects (s_state s),
      st_log_format = gss_log_format (s_state s), st_paused = s_paused s,
      st_enforcing = gss_enforcing (s_state s),
      st_guarded_paths =
        of_nat (sum_list (map (\<lambda>x. length (gsub_allow x) + length (gsub_deny x)) (gss_subjects (s_state s)))),
      st_marks_registered = gss_marks_registered (s_state s),
      st_ready_at = Option.bind (gss_ready_at (s_state s)) to_timestamp,
      st_mount_count = gss_mount_count (s_state s)\<rparr>"

definition resolve_container_pids :: "file_system \<Rightarrow> ('p, 'c) janusd \<Rightarrow> string list \<Rightarrow> i32 list" where
  "resolve_container_pids fs svc ids =
     (case j_runtime svc of
        None \<Rightarrow> []
      | Some rt \<Rightarrow> List.map_filter (\<lambda>cid. case resolve_pid fs rt cid of Inr pid \<Rightarrow> Some pid | Inl _ \<Rightarrow> None) ids)"

definition fanotify_event_to_string :: "fanotify_event_kind \<Rightarrow> string option" where
  "fanotify_event_to_string e = (case e of
     FeUnspecified \<Rightarrow> None | FeAccess \<Rightarrow> Some ''access'' | FeOpen \<Rightarrow> Some ''open''
   | FeOpenExec \<Rightarrow> Some ''open_exec'' | FeCloseWrite \<Rightarrow> Some ''close_write'' | FeClose \<Rightarrow> Some ''close''
   | FeAll \<Rightarrow> Some ''all'')"

definition response_to_proto :: "access_response \<Rightarrow> i32" where
  "response_to_proto r = (case r of Allow \<Rightarrow> PROTO_ALLOW | Deny \<Rightarrow> PROTO_DENY | AuditResp \<Rightarrow> PROTO_AUDIT)"

definition event_type_to_proto :: "string \<Rightarrow> i32" where
  "event_type_to_proto t =
     fanotify_event_to_i32
       (if t = ''access'' then FeAccess else if t = ''open'' then FeOpen
        else if t = ''open_exec'' then FeOpenExec else if t = ''close_write'' then FeCloseWrite
        else if t = ''close'' \<or> t = ''close_nowrite'' then FeClose else FeUnspecified)"

definition DEFAULT_MAX_MARKS_PER_GUARD :: nat where
  "DEFAULT_MAX_MARKS_PER_GUARD = 100"

definition build_guard_config :: "guard_subject list \<Rightarrow> bool \<Rightarrow> guard_config" where
  "build_guard_config subjects enforcing =
     (case subjects of
        subject # _ \<Rightarrow>
          \<lparr>gc_allow_patterns = gsub_allow subject, gc_deny_patterns = gsub_deny subject,
           gc_events = List.map_filter (\<lambda>e. fanotify_event_to_string (fanotify_event_or_unspecified e))
                         (gsub_events subject),
           gc_auto_allow_owner = gsub_auto_allow_owner subject, gc_enforce = enforcing,
           gc_max_marks_per_guard = DEFAULT_MAX_MARKS_PER_GUARD\<rparr>
      | [] \<Rightarrow>
          \<lparr>gc_allow_patterns = [], gc_deny_patterns = [], gc_events = [''open_perm'', ''access_perm''],
           gc_auto_allow_owner = False, gc_enforce = enforcing,
           gc_max_marks_per_guard = DEFAULT_MAX_MARKS_PER_GUARD\<rparr>)"

subsection \<open>Forwarding of events\<close>

record forwarding_context =
  fc_guard_name :: string
  fc_namespace :: string
  fc_pod_name :: string
  fc_container_id :: string
  fc_node_name :: string
  fc_cluster_name :: string
  fc_proc_resolver :: procfs_resolver

text \<open>What the context shares: the guard's metrics, the audit logger, and what was written and broadcast.\<close>

record forwarding_state =
  fw_metrics :: guard_metrics
  fw_audit :: audit_logger
  fw_frames :: "u8 list list"
  fw_broadcast :: "proto_access_event list"

text \<open>An event of the channel and the outside world at the time it is handled.\<close>

record forwarding_input =
  fi_event :: access_event
  fi_fs :: file_system
  fi_now :: int
  fi_sendto :: "u8 list \<Rightarrow> nat + unit"

definition create_proto_access_event ::
  "int \<Rightarrow> access_event \<Rightarrow> forwarding_context \<Rightarrow> proto_process_info option \<Rightarrow> proto_access_event" where
  "create_proto_access_event now e ctx info =
     \<lparr>pa_timestamp = Some \<lparr>seconds = (case to_timestamp now of Some t \<Rightarrow> seconds t | None \<Rightarrow> 0), nanos = 0\<rparr>,
      pa_guard_name = fc_guard_name ctx, pa_namespace = fc_namespace ctx, pa_node_name = fc_node_name ctx,
      pa_pod_name = fc_pod_name ctx, pa_container_id = fc_container_id ctx,
      pa_event_type = event_type_to_proto (ev_event_type e), pa_path = ev_path e,
      pa_response = response_to_proto (ev_response e), pa_process_info = info,
      pa_is_directory = ev_is_dir e, pa_tags = [], pa_audit_logged = False,
      pa_cluster_name = fc_cluster_name ctx\<rparr>"

text \<open>The information for the event, and comm, exe, uid, gid for the audit record.\<close>

definition resolve_process_info ::
  "file_system \<Rightarrow> procfs_resolver \<Rightarrow> i32
   \<Rightarrow> (proto_process_info option \<times> string \<times> string \<times> u32 \<times> u32) outcome" where
  "resolve_process_info fs r pid =
     (case get_process_info fs r pid of
        Panicked \<Rightarrow> Panicked
      | Returned (Inr i) \<Rightarrow>
          Returned (Some \<lparr>pp_pid = pi_pid i, pp_tid = 0, pp_uid = pi_uid i, pp_gid = pi_gid i,
              pp_comm = pi_comm i, pp_exe = from_utf8_lossy (pi_exe i), pp_ppid = pi_ppid i,
              pp_cmdline = pi_cmdline i, pp_cwd = from_utf8_lossy (pi_cwd i)\<rparr>,
            pi_comm i, from_utf8_lossy (pi_exe i), pi_uid i, pi_gid i)
      | Returned (Inl _) \<Rightarrow>
          Returned (Some \<lparr>pp_pid = pid, pp_tid = 0, pp_uid = 0, pp_gid = 0, pp_comm = [], pp_exe = [],
              pp_ppid = 0, pp_cmdline = [], pp_cwd = []\<rparr>,
            [], [], 0, 0))"

definition audit_event_of ::
  "access_event \<Rightarrow> forwarding_context \<Rightarrow> string \<Rightarrow> string \<Rightarrow> u32 \<Rightarrow> u32 \<Rightarrow> audit_access_event" where
  "audit_event_of e ctx comm exe uid gid =
     \<lparr>ae_guard_name = fc_guard_name ctx, ae_namespace = fc_namespace ctx, ae_pod_name = fc_pod_name ctx,
      ae_container_id = fc_container_id ctx, ae_path = ev_path e, ae_pid = ev_pid e, ae_uid = uid,
      ae_gid = gid, ae_response = ev_response e,
      ae_event_type = (case ev_response e of Allow \<Rightarrow> EvAccess | Deny \<Rightarrow> EvDenied | AuditResp \<Rightarrow> EvOpen),
      ae_comm = comm, ae_exe = exe\<rparr>"

text \<open>A failure of the logger is ignored.\<close>

definition log_to_audit ::
  "bool \<Rightarrow> u32 \<Rightarrow> (u8 list \<Rightarrow> nat + unit) \<Rightarrow> audit_access_event \<Rightarrow> forwarding_state \<Rightarrow> forwarding_state" where
  "log_to_audit little pid sendto ae st =
     (let (_, lg, frames) = log_access little pid sendto ae (fw_audit st)
      in st\<lparr>fw_audit := lg, fw_frames := fw_frames st @ frames\<rparr>)"

definition record_response :: "access_response \<Rightarrow> guard_metrics \<Rightarrow> guard_metrics" where
  "record_response r m =
     (case r of Allow \<Rightarrow> record_allowed m | Deny \<Rightarrow> record_denied m | AuditResp \<Rightarrow> record_audited m)"

text \<open>One turn of the loop; \<open>False\<close>: the task panicked.\<close>

definition forward_event ::
  "bool \<Rightarrow> u32 \<Rightarrow> forwarding_context \<Rightarrow> forwarding_input \<Rightarrow> forwarding_state \<Rightarrow> bool \<times> forwarding_state" where
  "forward_event little self_pid ctx i st =
     (let e = fi_event i;
          st1 = st\<lparr>fw_metrics := record_event_type (ev_event_type e)
                                  (record_response (ev_response e) (fw_metrics st))\<rparr>
      in if ev_matched_pattern e then
           (case resolve_process_info (fi_fs i) (fc_proc_resolver ctx) (ev_pid e) of
              Panicked \<Rightarrow> (False, st1)
            | Returned (info, comm, exe, uid, gid) \<Rightarrow>
                (let st2 = log_to_audit little self_pid (fi_sendto i)
                             (audit_event_of e ctx comm exe uid gid) st1
                 in (True, st2\<lparr>fw_broadcast := fw_broadcast st2 @
                                 [create_proto_access_event (fi_now i) e ctx info]\<rparr>)))
         else (True, st1))"

fun event_forwarding_task ::
  "bool \<Rightarrow> u32 \<Rightarrow> forwarding_context \<Rightarrow> forwarding_input list \<Rightarrow> forwarding_state
   \<Rightarrow> bool \<times> forwarding_state" where
  "event_forwarding_task little self_pid ctx [] st = (True, st)"
| "event_forwarding_task little self_pid ctx (i # is) st =
     (case forward_event little self_pid ctx i st of
        (True, st1) \<Rightarrow> event_forwarding_task little self_pid ctx is st1
      | (False, st1) \<Rightarrow> (False, st1))"

subsection \<open>Creation and destruction\<close>

fun register_fanotify_marks ::
  "(mask_flag set \<Rightarrow> string \<Rightarrow> errno + unit) \<Rightarrow> (string \<Rightarrow> bool) \<Rightarrow> u32 \<Rightarrow> ('p, 'c) guard \<Rightarrow> i32 list
   \<Rightarrow> u32 \<times> ('p, 'c) guard" where
  "register_fanotify_marks mark ex n g [] = (n, g)"
| "register_fanotify_marks mark ex n g (pid # pids) =
     (let root = ''/proc/'' @ show_i32 pid @ ''/root'' in
      if ex root then
        (case add_mount mark root g of
           (Inr _, g1) \<Rightarrow> register_fanotify_marks mark ex (n + 1) g1 pids
         | (Inl _, g1) \<Rightarrow> register_fanotify_marks mark ex n g1 pids)
      else register_fanotify_marks mark ex n g pids)"

definition cg_key :: "create_guard_request \<Rightarrow> string" where
  "cg_key req = session_key (cg_guard_name req) (cg_namespace req) (cg_pod_name req)"

definition create_guard_check :: "create_guard_request \<Rightarrow> ('p, 'c) janusd \<Rightarrow> grpc_status option" where
  "create_guard_check req svc =
     (if session_count (j_sessions svc) \<ge> j_max_guards svc
      then Some (ResourceExhausted (''Maximum number of guards ('' @ show_nat (j_max_guards svc) @ '') exceeded''))
      else if session_exists (cg_key req) (j_sessions svc)
      then Some (StatusAlreadyExists (''Guard already exists: '' @ cg_key req))
      else None)"

definition new_guard_session ::
  "int \<Rightarrow> create_guard_request \<Rightarrow> i32 list \<Rightarrow> nat \<Rightarrow> guard_session_state session" where
  "new_guard_session now req pids metrics =
     \<lparr>s_id = cg_key req, s_name = cg_guard_name req, s_namespace = cg_namespace req,
      s_node_name = cg_node_name req, s_pod_name = cg_pod_name req,
      s_container_ids = cg_container_ids req, s_pids = pids, s_paused = cg_paused req,
      s_created_at = now, s_running = True, s_metrics = metrics,
      s_state = \<lparr>gss_subjects = cg_subjects req, gss_log_format = cg_log_format req,
        gss_enforcing = cg_enforcing req, gss_typed_metrics = metrics, gss_guard_config = None,
        gss_marks_registered = False, gss_ready_at = None, gss_mount_count = 0\<rparr>\<rparr>"

text \<open>The session is stored with a plain \<open>HashMap::insert\<close>, then its metrics are registered.\<close>

definition create_guard_store ::
  "file_system \<Rightarrow> int \<Rightarrow> create_guard_request \<Rightarrow> ('p, 'c) janusd \<Rightarrow> nat \<times> ('p, 'c) janusd" where
  "create_guard_store fs now req svc =
     (let pids = (if cg_pids req = [] then resolve_container_pids fs svc (cg_container_ids req) else cg_pids req);
          m = length (j_metrics_heap svc);
          (a, tbl) = map_insert (cg_key req) (new_guard_session now req pids m) (j_sessions svc)
      in (a, svc\<lparr>j_metrics_heap := j_metrics_heap svc @ [guard_metrics_new (cg_guard_name req)], j_sessions := tbl\<rparr>))"

definition create_guard_register :: "nat \<Rightarrow> ('p, 'c) janusd \<Rightarrow> ('p, 'c) janusd" where
  "create_guard_register a svc = svc\<lparr>j_metrics := agg_register (s_metrics (tbl_heap (j_sessions svc) ! a)) (j_metrics svc)\<rparr>"

definition create_guard_insert ::
  "file_system \<Rightarrow> int \<Rightarrow> create_guard_request \<Rightarrow> ('p, 'c) janusd \<Rightarrow> nat \<times> ('p, 'c) janusd" where
  "create_guard_insert fs now req svc =
     (let (a, svc1) = create_guard_store fs now req svc in (a, create_guard_register a svc1))"

definition stop_session :: "nat \<Rightarrow> ('p, 'c) janusd \<Rightarrow> ('p, 'c) janusd" where
  "stop_session a svc = svc\<lparr>j_sessions := session_modify a session_stop (j_sessions svc)\<rparr>"

definition mark_ready :: "guard_config \<Rightarrow> int \<Rightarrow> u32 \<Rightarrow> guard_session_state session \<Rightarrow> guard_session_state session" where
  "mark_ready config now n s =
     s\<lparr>s_state := (s_state s)\<lparr>gss_guard_config := Some config, gss_marks_registered := True,
                              gss_ready_at := Some now, gss_mount_count := n\<rparr>\<rparr>"

text \<open>The part for a guard that is not paused: build it and mark the mounts, then note that it is ready and spawn its loop.\<close>

definition create_guard_build ::
  "('p, 'c) janus_env \<Rightarrow> nat \<Rightarrow> ('p, 'c) janusd \<Rightarrow> grpc_status + guard_config \<times> u32 \<times> ('p, 'c) guard" where
  "create_guard_build env a svc =
     (let s = tbl_heap (j_sessions svc) ! a;
          pids = s_pids s;
          config = build_guard_config (gss_subjects (s_state s)) (gss_enforcing (s_state s))
      in (case guard_new (env_glob env) (env_lru env) (env_init env) config
                 (Some (j_metrics_heap svc ! gss_typed_metrics (s_state s))) of
            Inl e \<Rightarrow> Inl (Internal (''Failed to create guard: '' @ env_show_error env e))
          | Inr g \<Rightarrow>
              (case register_fanotify_marks (env_mark env) (fs_exists (env_fs env)) 0 g pids of
                 (n, g1) \<Rightarrow>
                   if n = 0 \<and> pids \<noteq> [] then Inl (Internal ''Failed to register any fanotify marks'')
                   else Inr (config, n, g1))))"

definition create_guard_ready ::
  "int \<Rightarrow> nat \<Rightarrow> guard_config \<times> u32 \<times> ('p, 'c) guard \<Rightarrow> ('p, 'c) janusd \<Rightarrow> ('p, 'c) janusd" where
  "create_guard_ready now a b svc = (case b of (config, n, g) \<Rightarrow>
     svc\<lparr>j_sessions := session_modify a (mark_ready config now n) (j_sessions svc),
         j_guard_tasks := j_guard_tasks svc @ [g]\<rparr>)"

definition create_guard_start ::
  "('p, 'c) janus_env \<Rightarrow> nat \<Rightarrow> ('p, 'c) janusd \<Rightarrow> (grpc_status + i32) \<times> ('p, 'c) janusd" where
  "create_guard_start env a svc =
     (case create_guard_build env a svc of
        Inl st \<Rightarrow> (Inl st, stop_session a svc)
      | Inr (config, n, g) \<Rightarrow> (Inr n, create_guard_ready (env_now env) a (config, n, g) svc))"

definition guarded_paths_of :: "guard_subject list \<Rightarrow> i32" where
  "guarded_paths_of subjects =
     sum_list (map (\<lambda>s. of_nat (length (gsub_allow s) + length (gsub_deny s))) subjects)"

definition create_guard_response_of :: "create_guard_request \<Rightarrow> i32 \<Rightarrow> create_guard_response" where
  "create_guard_response_of req n =
     \<lparr>cr_guard_id = cg_key req, cr_node_name = cg_node_name req, cr_pod_name = cg_pod_name req,
      cr_guarded_paths = guarded_paths_of (cg_subjects req), cr_process_eventfds = [],
      cr_paused = cg_paused req, cr_enforcing = cg_enforcing req, cr_marks_registered = n\<rparr>"

definition create_guard ::
  "('p, 'c) janus_env \<Rightarrow> create_guard_request \<Rightarrow> ('p, 'c) janusd
   \<Rightarrow> (grpc_status + create_guard_response) \<times> ('p, 'c) janusd" where
  "create_guard env req svc =
     (case create_guard_check req svc of
        Some st \<Rightarrow> (Inl st, svc)
      | None \<Rightarrow>
          (let (a, svc1) = create_guard_insert (env_fs env) (env_now env) req svc in
           if cg_paused req then (Inr (create_guard_response_of req 0), svc1)
           else (case create_guard_start env a svc1 of
                   (Inl st, svc2) \<Rightarrow> (Inl st, svc2)
                 | (Inr n, svc2) \<Rightarrow> (Inr (create_guard_response_of req n), svc2))))"

definition destroy_guard ::
  "string \<Rightarrow> string \<Rightarrow> string \<Rightarrow> ('p, 'c) janusd \<Rightarrow> (grpc_status + unit) \<times> ('p, 'c) janusd" where
  "destroy_guard guard_name ns pod svc =
     (let key = session_key guard_name ns pod in
      case session_remove key (j_sessions svc) of
        (Some a, tbl) \<Rightarrow>
          (let name = s_name (tbl_heap tbl ! a)
           in (Inr (), svc\<lparr>j_sessions := tbl,
                 j_metrics := agg_unregister (collector_name svc) name (j_metrics svc)\<rparr>))
      | (None, tbl) \<Rightarrow> (Inl (StatusNotFound (''Guard not found: '' @ key)), svc\<lparr>j_sessions := tbl\<rparr>))"

subsection \<open>Queries and updates\<close>

definition live_sessions :: "('p, 'c) janusd \<Rightarrow> guard_session_state session list" where
  "live_sessions svc = map (\<lambda>(k, a). tbl_heap (j_sessions svc) ! a) (tbl_map (j_sessions svc))"

definition get_guard_state :: "string \<Rightarrow> string \<Rightarrow> (nat \<Rightarrow> bool) \<Rightarrow> ('p, 'c) janusd \<Rightarrow> guard_state list" where
  "get_guard_state guard_name ns connected svc =
     send_all connected 0
       (map session_to_guard_state
         (filter (\<lambda>s. \<not> (guard_name \<noteq> [] \<and> s_name s \<noteq> guard_name) \<and> \<not> (ns \<noteq> [] \<and> s_namespace s \<noteq> ns))
           (live_sessions svc)))"

definition access_event_wanted :: "string \<Rightarrow> string \<Rightarrow> i32 list \<Rightarrow> bool \<Rightarrow> proto_access_event \<Rightarrow> bool" where
  "access_event_wanted guard_name ns event_types include_allowed e =
     (if guard_name \<noteq> [] \<and> pa_guard_name e \<noteq> guard_name then False
      else if ns \<noteq> [] \<and> pa_namespace e \<noteq> ns then False
      else if event_types \<noteq> [] \<and> pa_event_type e \<notin> set event_types then False
      else if \<not> include_allowed \<and> pa_response e = PROTO_ALLOW then False
      else True)"

definition stream_access_events ::
  "string \<Rightarrow> string \<Rightarrow> i32 list \<Rightarrow> bool \<Rightarrow> (nat \<Rightarrow> bool) \<Rightarrow> proto_access_event recv_result list
   \<Rightarrow> proto_access_event list" where
  "stream_access_events guard_name ns event_types include_allowed connected rs =
     stream_loop (access_event_wanted guard_name ns event_types include_allowed) (\<lambda>e. e) connected 0 rs"

definition proto_metrics_of :: "guard_session_state session \<Rightarrow> guard_snapshot \<Rightarrow> proto_guard_metrics" where
  "proto_metrics_of s snap =
     \<lparr>pg_guard_name = s_name s, pg_namespace = s_namespace s, pg_denied_count = gs_events_denied snap,
      pg_allowed_count = gs_events_allowed snap, pg_audited_count = gs_events_audited snap,
      pg_event_counts = event_counts snap, pg_queue_overflows = gs_queue_overflows snap\<rparr>"

definition get_metrics :: "string \<Rightarrow> ('p, 'c) janusd \<Rightarrow> metrics_response outcome" where
  "get_metrics guard_name svc =
     (let ss = filter (\<lambda>s. \<not> (guard_name \<noteq> [] \<and> s_name s \<noteq> guard_name)) (live_sessions svc);
          snap = (\<lambda>s. guard_snapshot_of (j_metrics_heap svc ! gss_typed_metrics (s_state s)))
      in case (checked_sum 0 (map (gs_events_denied \<circ> snap) ss), checked_sum 0 (map (gs_events_allowed \<circ> snap) ss),
               checked_sum 0 (map (gs_events_total \<circ> snap) ss)) of
           (Returned denied, Returned allowed, Returned processed) \<Rightarrow>
             Returned
               \<lparr>mr_active_guards = ucast (at_active_sessions (agg_totals (j_metrics svc))),
                mr_total_events_processed = processed, mr_total_denied = denied, mr_total_allowed = allowed,
                mr_guard_metrics = map (\<lambda>s. proto_metrics_of s (snap s)) ss\<rparr>
         | _ \<Rightarrow> Panicked)"

text \<open>The part of the handler that holds the lock of the session it found.\<close>

definition update_guard_at ::
  "string \<Rightarrow> nat \<Rightarrow> i32 \<Rightarrow> ('p, 'c) janusd \<Rightarrow> (grpc_status + update_guard_response) \<times> ('p, 'c) janusd" where
  "update_guard_at key a action svc =
     (let s = tbl_heap (j_sessions svc) ! a in
      case update_action_of action of
        UaPause \<Rightarrow>
          if s_paused s then (Inl (FailedPrecondition ''Guard is already paused''), svc)
          else (Inr \<lparr>ug_guard_id = key, ug_paused = True, ug_enforcing = gss_enforcing (s_state s),
                     ug_guarded_paths = 0\<rparr>,
                svc\<lparr>j_sessions := session_modify a (\<lambda>s. s\<lparr>s_running := False, s_paused := True\<rparr>)
                      (j_sessions svc)\<rparr>)
      | UaResume \<Rightarrow>
          if \<not> s_paused s then (Inl (FailedPrecondition ''Guard is not paused''), svc)
          else (Inl (Unimplemented
            ''Resume not fully implemented. Please destroy and recreate the guard.''), svc)
      | UaUnspecified \<Rightarrow> (Inl (InvalidArgument ''Action must be PAUSE or RESUME''), svc))"

definition update_guard ::
  "string \<Rightarrow> string \<Rightarrow> string \<Rightarrow> i32 \<Rightarrow> ('p, 'c) janusd
   \<Rightarrow> (grpc_status + update_guard_response) \<times> ('p, 'c) janusd" where
  "update_guard guard_name ns pod action svc =
     (let key = session_key guard_name ns pod in
      case session_get key (j_sessions svc) of
        None \<Rightarrow> (Inl (StatusNotFound (''Guard not found: '' @ key)), svc)
      | Some a \<Rightarrow> update_guard_at key a action svc)"

definition replace_first_patterns :: "string list \<Rightarrow> string list \<Rightarrow> guard_subject list \<Rightarrow> guard_subject list" where
  "replace_first_patterns deny allow subjects =
     (if deny \<noteq> [] \<or> allow \<noteq> [] then
        (case subjects of
           [] \<Rightarrow> []
         | x # xs \<Rightarrow>
             (let x1 = (if deny \<noteq> [] then x\<lparr>gsub_deny := deny\<rparr> else x);
                  x2 = (if allow \<noteq> [] then x1\<lparr>gsub_allow := allow\<rparr> else x1)
              in x2 # xs))
      else subjects)"

definition update_policy_at ::
  "string \<Rightarrow> nat \<Rightarrow> string list \<Rightarrow> string list \<Rightarrow> ('p, 'c) janusd
   \<Rightarrow> (grpc_status + update_policy_response) \<times> ('p, 'c) janusd" where
  "update_policy_at key a deny allow svc =
     (let subjects = replace_first_patterns deny allow
                       (gss_subjects (s_state (tbl_heap (j_sessions svc) ! a)))
      in (Inr \<lparr>up_guard_id = key,
               up_deny_pattern_count = of_nat (sum_list (map (length \<circ> gsub_deny) subjects)),
               up_allow_pattern_count = of_nat (sum_list (map (length \<circ> gsub_allow) subjects)),
               up_cache_cleared = True\<rparr>,
          svc\<lparr>j_sessions := session_modify a
                (\<lambda>s. s\<lparr>s_state := (s_state s)\<lparr>gss_subjects := subjects\<rparr>\<rparr>) (j_sessions svc)\<rparr>))"

definition update_policy ::
  "string \<Rightarrow> string \<Rightarrow> string \<Rightarrow> string list \<Rightarrow> string list \<Rightarrow> ('p, 'c) janusd
   \<Rightarrow> (grpc_status + update_policy_response) \<times> ('p, 'c) janusd" where
  "update_policy guard_name ns pod deny allow svc =
     (let key = session_key guard_name ns pod in
      case session_get key (j_sessions svc) of
        None \<Rightarrow> (Inl (StatusNotFound (''Guard not found: '' @ key)), svc)
      | Some a \<Rightarrow> update_policy_at key a deny allow svc)"

text \<open>Facts for a handler as a whole, over the parts that hold one lock each.\<close>

lemmas create_guard_insert_parts = create_guard_insert_def create_guard_store_def create_guard_register_def
lemmas create_guard_start_parts = create_guard_start_def create_guard_build_def create_guard_ready_def
lemmas update_guard_parts = update_guard_def update_guard_at_def
lemmas update_policy_parts = update_policy_def update_policy_at_def

end
