(* ===== verification/Janus_Props.thy ===== *)
theory Janus_Props
  imports Janus_Service
begin

section \<open>Properties of the janusd service\<close>

text \<open>
  Lemmas and properties of the handlers of \<open>Janus_Service\<close>: the requests as the steps of a session service,
  what creation and destruction do to the sessions, the metrics and the running guards, and what the
  forwarding task writes, counts and broadcasts.
\<close>

subsection \<open>Requests as steps\<close>

datatype janus_request =
    CreateGuard create_guard_request
  | DestroyGuard string string string
  | UpdateGuard string string string i32
  | UpdatePolicy string string string "string list" "string list"

definition janus_step :: "('p, 'c) janus_env \<Rightarrow> janus_request \<Rightarrow> ('p, 'c) janusd \<Rightarrow> ('p, 'c) janusd" where
  "janus_step env r svc = (case r of
     CreateGuard req \<Rightarrow> snd (create_guard env req svc)
   | DestroyGuard n ns p \<Rightarrow> snd (destroy_guard n ns p svc)
   | UpdateGuard n ns p a \<Rightarrow> snd (update_guard n ns p a svc)
   | UpdatePolicy n ns p d al \<Rightarrow> snd (update_policy n ns p d al svc))"

lemma session_modify_map [frame, simp]: "tbl_map (session_modify a f t) = tbl_map t"
  by (simp add: session_modify_def)

lemma stop_session_fields [frame, simp]:
  "j_max_guards (stop_session a svc) = j_max_guards svc"
  "j_sessions (stop_session a svc) = session_modify a session_stop (j_sessions svc)"
  "j_metrics (stop_session a svc) = j_metrics svc"
  "j_metrics_heap (stop_session a svc) = j_metrics_heap svc"
  "j_guard_tasks (stop_session a svc) = j_guard_tasks svc"
  by (simp_all add: stop_session_def)

text \<open>What the start of a guard may change: the fields of its session and the list of tasks.\<close>

lemma create_guard_start_frame [frame]:
  "\<exists>f. j_sessions (snd (create_guard_start env a svc)) = session_modify a f (j_sessions svc)"
  "j_max_guards (snd (create_guard_start env a svc)) = j_max_guards svc"
  "j_metrics (snd (create_guard_start env a svc)) = j_metrics svc"
  "j_metrics_heap (snd (create_guard_start env a svc)) = j_metrics_heap svc"
  by (auto simp: create_guard_start_parts Let_def split: sum.splits prod.splits)

lemma create_guard_start_wf [simp]:
  "table_wf (j_sessions (snd (create_guard_start env a svc))) \<longleftrightarrow> table_wf (j_sessions svc)"
  "session_count (j_sessions (snd (create_guard_start env a svc))) = session_count (j_sessions svc)"
  "session_get k (j_sessions (snd (create_guard_start env a svc))) = session_get k (j_sessions svc)"
  using create_guard_start_frame(1) [of env a svc] by auto

lemma new_guard_session_metrics [simp]:
  "s_metrics (new_guard_session now req pids m) = m" "gss_typed_metrics (s_state (new_guard_session now req pids m)) = m"
  by (simp_all add: new_guard_session_def)

lemma create_guard_insert_fields [simp]:
  "fst (create_guard_insert fs now req svc) = length (tbl_heap (j_sessions svc))"
  "j_max_guards (snd (create_guard_insert fs now req svc)) = j_max_guards svc"
  "j_metrics (snd (create_guard_insert fs now req svc)) = agg_register (length (j_metrics_heap svc)) (j_metrics svc)"
  "j_metrics_heap (snd (create_guard_insert fs now req svc)) =
     j_metrics_heap svc @ [guard_metrics_new (cg_guard_name req)]"
  "j_guard_tasks (snd (create_guard_insert fs now req svc)) = j_guard_tasks svc"
  by (simp_all add: create_guard_insert_parts Let_def map_insert_def)

lemma create_guard_insert_sessions:
  "\<exists>pids. j_sessions (snd (create_guard_insert fs now req svc)) =
     snd (map_insert (cg_key req) (new_guard_session now req pids (length (j_metrics_heap svc))) (j_sessions svc))"
  by (auto simp: create_guard_insert_parts Let_def split_beta)

lemma create_guard_check_None_iff:
  "create_guard_check req svc = None \<longleftrightarrow>
     session_count (j_sessions svc) < j_max_guards svc \<and> session_lookup (j_sessions svc) (cg_key req) = None"
  by (auto simp: create_guard_check_def session_exists_iff)

lemma create_guard_cases:
  "snd (create_guard env req svc) =
     (if create_guard_check req svc \<noteq> None then svc
      else if cg_paused req then snd (create_guard_insert (env_fs env) (env_now env) req svc)
      else snd (create_guard_start env (length (tbl_heap (j_sessions svc)))
             (snd (create_guard_insert (env_fs env) (env_now env) req svc))))"
proof -
  let ?i = "create_guard_insert (env_fs env) (env_now env) req svc"
  have "?i = (length (tbl_heap (j_sessions svc)), snd ?i)" by (rule prod_eqI) simp_all
  then show ?thesis
    by (auto simp: create_guard_def Let_def split_beta split: option.splits prod.splits sum.splits)
qed

lemma create_guard_insert_wf:
  assumes "table_wf (j_sessions svc)"
  shows "table_wf (j_sessions (snd (create_guard_insert fs now req svc)))"
  using create_guard_insert_sessions [of fs now req svc] map_insert_wf [OF assms] by auto

lemma create_guard_insert_count:
  assumes "table_wf (j_sessions svc)" "session_lookup (j_sessions svc) (cg_key req) = None"
  shows "session_count (j_sessions (snd (create_guard_insert fs now req svc))) = Suc (session_count (j_sessions svc))"
  using create_guard_insert_sessions [of fs now req svc] map_insert_count [OF assms] by auto

lemma destroy_guard_fields [simp]:
  "j_sessions (snd (destroy_guard n ns p svc)) = snd (session_remove (session_key n ns p) (j_sessions svc))"
  "j_max_guards (snd (destroy_guard n ns p svc)) = j_max_guards svc"
  "j_guard_tasks (snd (destroy_guard n ns p svc)) = j_guard_tasks svc"
  "j_metrics_heap (snd (destroy_guard n ns p svc)) = j_metrics_heap svc"
  by (auto simp: destroy_guard_def Let_def split: prod.splits option.splits)

lemma update_guard_frame [frame]:
  "j_sessions (snd (update_guard n ns p a svc)) = j_sessions svc \<or>
   (\<exists>b. session_get (session_key n ns p) (j_sessions svc) = Some b \<and>
      j_sessions (snd (update_guard n ns p a svc)) =
        session_modify b (\<lambda>s. s\<lparr>s_running := False, s_paused := True\<rparr>) (j_sessions svc))"
  "j_max_guards (snd (update_guard n ns p a svc)) = j_max_guards svc"
  "j_metrics (snd (update_guard n ns p a svc)) = j_metrics svc"
  "j_guard_tasks (snd (update_guard n ns p a svc)) = j_guard_tasks svc"
  by (auto simp: update_guard_parts Let_def split: option.splits update_action.splits)

lemma update_policy_frame [frame]:
  "\<exists>b f. j_sessions (snd (update_policy n ns p d al svc)) = session_modify b f (j_sessions svc) \<or>
     j_sessions (snd (update_policy n ns p d al svc)) = j_sessions svc"
  "j_max_guards (snd (update_policy n ns p d al svc)) = j_max_guards svc"
  "j_metrics (snd (update_policy n ns p d al svc)) = j_metrics svc"
  "j_guard_tasks (snd (update_policy n ns p d al svc)) = j_guard_tasks svc"
  by (auto simp: update_policy_parts Let_def split: option.splits)

interpretation janus: session_service j_sessions j_max_guards
    "janus_step :: ('p, 'c) janus_env \<Rightarrow> janus_request \<Rightarrow> ('p, 'c) janusd \<Rightarrow> ('p, 'c) janusd"
proof
  fix env :: "('p, 'c) janus_env" and r and svc :: "('p, 'c) janusd"
  show "j_max_guards (janus_step env r svc) = j_max_guards svc"
    by (auto simp: janus_step_def create_guard_cases create_guard_start_frame update_guard_frame
        update_policy_frame split: janus_request.splits)
next
  fix env :: "('p, 'c) janus_env" and r and svc :: "('p, 'c) janusd"
  assume wf: "table_wf (j_sessions svc)"
  show "table_wf (j_sessions (janus_step env r svc))"
  proof (cases r)
    case (UpdateGuard n ns p a)
    with wf update_guard_frame(1) [of n ns p a svc] show ?thesis by (auto simp: janus_step_def)
  next
    case (UpdatePolicy n ns p d al)
    with wf update_policy_frame(1) [of n ns p d al svc] show ?thesis by (auto simp: janus_step_def)
  qed (use wf in \<open>auto simp: janus_step_def create_guard_cases create_guard_insert_wf session_remove_wf\<close>)
next
  fix env :: "('p, 'c) janus_env" and r and svc :: "('p, 'c) janusd"
  assume wf: "table_wf (j_sessions svc)" and le: "session_count (j_sessions svc) \<le> j_max_guards svc"
  show "session_count (j_sessions (janus_step env r svc)) \<le> j_max_guards svc"
  proof (cases r)
    case (CreateGuard req)
    with wf le show ?thesis
      by (auto simp: janus_step_def create_guard_cases create_guard_check_None_iff create_guard_insert_count)
  next
    case (DestroyGuard n ns p)
    with le session_remove_count [of "session_key n ns p" "j_sessions svc"] show ?thesis
      by (simp add: janus_step_def)
  next
    case (UpdateGuard n ns p a)
    with le update_guard_frame(1) [of n ns p a svc] show ?thesis by (auto simp: janus_step_def)
  next
    case (UpdatePolicy n ns p d al)
    with le update_policy_frame(1) [of n ns p d al svc] show ?thesis by (auto simp: janus_step_def)
  qed
qed

subsection \<open>Collectors\<close>

lemma agg_ok_step:
  assumes "agg_ok (j_metrics svc)"
  shows "agg_ok (j_metrics (janus_step env r svc))"
proof (cases r)
  case (DestroyGuard n ns p)
  with assms show ?thesis
    by (auto simp: janus_step_def destroy_guard_def Let_def split: prod.splits option.splits)
qed (use assms in \<open>simp_all add: janus_step_def create_guard_cases create_guard_start_frame
      update_guard_frame update_policy_frame\<close>)

lemma agg_ok_run: "agg_ok (j_metrics svc) \<Longrightarrow> agg_ok (j_metrics (fold (\<lambda>(env, r). janus_step env r) rs svc))"
  by (induction rs arbitrary: svc) (simp_all add: agg_ok_step split_def)

subsection \<open>Properties of the requests\<close>

definition example_request :: "string \<Rightarrow> create_guard_request" where
  "example_request pod =
     \<lparr>cg_guard_name = ''g'', cg_namespace = ''ns'', cg_node_name = ''node'', cg_pod_name = pod,
      cg_container_ids = [], cg_pids = [5], cg_subjects = [], cg_log_format = [], cg_paused = True,
      cg_enforcing = True\<rparr>"

definition example_service :: "nat \<Rightarrow> (string, ref_lru) janusd" where
  "example_service n = janusd_new None ''node'' ''cluster'' n NullAuditLogger"

definition example_fs :: file_system where
  "example_fs = \<lparr>fs_read = (\<lambda>_. Inl IoNotFound), fs_read_link = (\<lambda>_. Inl IoNotFound), fs_exists = (\<lambda>_. True), fs_is_dir = (\<lambda>_. False)\<rparr>"

definition example_env :: "(string, ref_lru) janus_env" where
  "example_env = \<lparr>env_glob = literal_glob, env_lru = ref_lru, env_now = 1000, env_init = (\<lambda>_. Inr ()),
     env_mark = (\<lambda>_ _. Inl ENOSPC), env_fs = example_fs, env_show_error = (\<lambda>_. [])\<rparr>"

text \<open>
  C6: The limit on guards. From a fresh service, whatever requests are handled one after the other and
  whatever the kernel, the file system and the clock answer to each of them, at most \<open>max_guards\<close> sessions exist, the table stays well-formed, and the
  number of active guards that the metrics report, unless their sums overflow, is the number of
  registered collectors.
\<close>

theorem janus_guard_limit:
  "(let svc = fold (\<lambda>(env, r). janus_step env r) rs (janusd_new runtime node cluster max_guards audit)
    in session_count (j_sessions svc) \<le> max_guards \<and> table_wf (j_sessions svc) \<and>
       pred_outcome (\<lambda>r. mr_active_guards r = of_nat (length (collectors (j_metrics svc)))) (get_metrics name svc))"
proof -
  define new where "new = (janusd_new runtime node cluster max_guards audit :: ('a, 'b) janusd)"
  define svc where "svc = fold (\<lambda>(env, r). janus_step env r) rs new"
  have wf: "table_wf (j_sessions new)" and le: "session_count (j_sessions new) \<le> j_max_guards new"
    and max: "j_max_guards new = max_guards" and "agg_ok (j_metrics new)"
    by (simp_all add: new_def janusd_new_def session_count_def) (simp add: new_session_map_def)
  then have "agg_ok (j_metrics svc)" unfolding svc_def by (intro agg_ok_run)
  then have "pred_outcome (\<lambda>r. mr_active_guards r = of_nat (length (collectors (j_metrics svc)))) (get_metrics name svc)"
    by (auto simp: get_metrics_def Let_def agg_totals_def agg_ok_def ucast_of_nat_32 split: outcome.splits)
  with janus.run_bounded [OF wf le, of rs] max show ?thesis
    by (simp add: svc_def new_def)
qed

text \<open>
  The limit is not kept under concurrency. The handler tests the limit and the key under one lock and
  inserts under another: two requests for different pods whose tests both come before both inserts are
  both accepted, and a service that had room for one guard then holds one more than its maximum.
\<close>

theorem create_guard_race:
  assumes "table_wf (j_sessions svc)" and "Suc (session_count (j_sessions svc)) = j_max_guards svc"
    and "session_lookup (j_sessions svc) (cg_key r1) = None" and "session_lookup (j_sessions svc) (cg_key r2) = None"
    and "cg_key r1 \<noteq> cg_key r2"
  shows "create_guard_check r1 svc = None \<and> create_guard_check r2 svc = None \<and>
    session_count (j_sessions (snd (create_guard_insert fs2 t2 r2 (snd (create_guard_insert fs1 t1 r1 svc)))))
      = Suc (j_max_guards svc)"
proof -
  have "session_lookup (j_sessions (snd (create_guard_insert fs1 t1 r1 svc))) (cg_key r2) = None"
    using create_guard_insert_sessions [of fs1 t1 r1 svc] assms(4,5) by (auto simp: map_insert_lookup [OF assms(1)])
  then show ?thesis
    using assms create_guard_insert_wf [OF assms(1)] by (simp add: create_guard_check_None_iff create_guard_insert_count)
qed

theorem create_guard_race_witness:
  "session_count (j_sessions (snd (create_guard_insert example_fs 0 (example_request ''b'')
     (snd (create_guard_insert example_fs 0 (example_request ''a'') (example_service 1)))))) = 2 \<and>
   j_max_guards (example_service 1) = 1"
proof -
  have "table_wf (j_sessions (example_service 1))" by (simp add: example_service_def janusd_new_def)
  moreover have "session_lookup (j_sessions (example_service 1)) k = None"
    "session_count (j_sessions (example_service 1)) = 0" "j_max_guards (example_service 1) = 1" for k
    by (simp_all add: example_service_def janusd_new_def new_session_map_def session_lookup_def
        session_get_def session_count_def)
  moreover have "cg_key (example_request ''a'') \<noteq> cg_key (example_request ''b'')"
    by (simp add: cg_key_def session_key_def example_request_def)
  ultimately show ?thesis
    using create_guard_race [of "example_service 1" "example_request ''a''" "example_request ''b''" example_fs 0 example_fs 0] by simp
qed

text \<open>
  A failed creation is not undone. When the guard cannot be built or no mount can be marked the handler
  returns an error, but the session stays in the table (not running) and its metrics stay registered:
  the same request sent again is answered with \<open>already_exists\<close> or \<open>resource_exhausted\<close>, never retried.
\<close>

theorem failed_create_keeps_session:
  assumes "table_wf (j_sessions svc)" and "create_guard_check req svc = None"
    and "create_guard env req svc = (Inl st, svc')"
  shows "(\<exists>s. session_lookup (j_sessions svc') (cg_key req) = Some s \<and> \<not> s_running s) \<and>
    collectors (j_metrics svc') = collectors (j_metrics svc) @ [length (j_metrics_heap svc)] \<and>
    create_guard_check req svc' \<noteq> None"
proof -
  let ?a = "length (tbl_heap (j_sessions svc))" and ?svc1 = "snd (create_guard_insert (env_fs env) (env_now env) req svc)"
  have ci: "create_guard_insert (env_fs env) (env_now env) req svc = (?a, ?svc1)" by (rule prod_eqI) simp_all
  have start: "create_guard_start env ?a ?svc1 = (Inl st, svc')"
    using assms(2,3) ci by (auto simp: create_guard_def Let_def split: if_splits prod.splits sum.splits)
  then have svc': "svc' = stop_session ?a ?svc1"
    by (auto simp: create_guard_start_parts Let_def split: sum.splits prod.splits if_splits)
  obtain pids where ses: "j_sessions ?svc1 =
      snd (map_insert (cg_key req) (new_guard_session (env_now env) req pids (length (j_metrics_heap svc))) (j_sessions svc))"
    using create_guard_insert_sessions by blast
  have wf: "table_wf (j_sessions ?svc1)" using assms(1) by (rule create_guard_insert_wf)
  have get: "session_get (cg_key req) (j_sessions ?svc1) = Some ?a" by (simp add: ses session_get_def)
  have look: "session_lookup (j_sessions svc') (cg_key req) =
      Some (session_stop (new_guard_session (env_now env) req pids (length (j_metrics_heap svc))))"
    using session_modify_lookup [OF wf get, of session_stop]
    by (simp add: svc' ses map_insert_lookup [OF assms(1)])
  then have "create_guard_check req svc' \<noteq> None" by (simp add: create_guard_check_None_iff)
  with look show ?thesis by (simp add: svc' agg_register_def session_stop_def)
qed

theorem failed_create_keeps_session_witness:
  "\<exists>st svc'. create_guard example_env ((example_request ''p'')\<lparr>cg_paused := False\<rparr>) (example_service 3) = (Inl st, svc') \<and>
     create_guard_check ((example_request ''p'')\<lparr>cg_paused := False\<rparr>) svc' \<noteq> None"
proof -
  let ?req = "(example_request ''p'')\<lparr>cg_paused := False\<rparr>"
  have wf: "table_wf (j_sessions (example_service 3))" by (simp add: example_service_def janusd_new_def)
  have chk: "create_guard_check ?req (example_service 3) = None"
    by (simp add: create_guard_check_None_iff example_service_def janusd_new_def new_session_map_def
        session_lookup_def session_get_def session_count_def)
  have "\<exists>st svc'. create_guard example_env ?req (example_service 3) = (Inl st, svc')"
    using chk
    by (simp add: create_guard_def create_guard_insert_parts create_guard_start_parts Let_def map_insert_def
        example_service_def janusd_new_def new_session_map_def new_guard_session_def example_request_def
        example_env_def example_fs_def guard_new_def build_guard_config_def with_config_def literal_glob_def add_mount_def
        DEFAULT_MAX_MARKS_PER_GUARD_def)
  then obtain st svc' where "create_guard example_env ?req (example_service 3) = (Inl st, svc')" by blast
  with failed_create_keeps_session [OF wf chk this] show ?thesis by blast
qed

text \<open>
  C14: Creating and destroying a guard are inverse on the sessions. A guard that was created can be destroyed,
  after which every key is bound as before the creation; destroying it once more is \<open>not_found\<close>.
\<close>

theorem create_destroy_roundtrip:
  assumes "table_wf (j_sessions svc)" and "create_guard env req svc = (Inr resp, svc1)"
    and "destroy_guard (cg_guard_name req) (cg_namespace req) (cg_pod_name req) svc1 = (r, svc2)"
  shows "r = Inr () \<and> session_lookup (j_sessions svc2) = session_lookup (j_sessions svc) \<and>
    cr_guard_id resp = cg_key req \<and>
    fst (destroy_guard (cg_guard_name req) (cg_namespace req) (cg_pod_name req) svc2)
      = Inl (StatusNotFound (''Guard not found: '' @ cg_key req))"
proof -
  let ?k = "cg_key req" and ?i = "snd (create_guard_insert (env_fs env) (env_now env) req svc)"
  have chk: "create_guard_check req svc = None" and id: "cr_guard_id resp = ?k"
    using assms(2) by (auto simp: create_guard_def Let_def create_guard_response_of_def
        split: option.splits if_splits prod.splits sum.splits)
  from assms(2) have svc1: "svc1 = snd (create_guard env req svc)" by simp
  obtain s where ins: "j_sessions ?i = snd (map_insert ?k s (j_sessions svc))"
    using create_guard_insert_sessions by blast
  have wfi: "table_wf (j_sessions ?i)" using assms(1) by (rule create_guard_insert_wf)
  have geti: "session_get ?k (j_sessions ?i) = Some (length (tbl_heap (j_sessions svc)))"
    by (simp add: ins session_get_def)
  obtain f where st: "j_sessions svc1 = j_sessions ?i \<or>
      j_sessions svc1 = session_modify (length (tbl_heap (j_sessions svc))) f (j_sessions ?i)"
    using create_guard_start_frame(1) [of env "length (tbl_heap (j_sessions svc))" ?i] chk
    unfolding svc1 create_guard_cases by fastforce
  then have wf1: "table_wf (j_sessions svc1)" and get1: "session_get ?k (j_sessions svc1) \<noteq> None"
    and rest: "(session_lookup (j_sessions svc1))(?k := None) = (session_lookup (j_sessions svc))(?k := None)"
    using wfi geti session_modify_lookup [OF wfi geti, of f] map_insert_lookup [OF assms(1), of ?k s]
    by (auto simp: ins)
  have svc2: "svc2 = snd (destroy_guard (cg_guard_name req) (cg_namespace req) (cg_pod_name req) svc1)"
    using assms(3) by simp
  have look2: "session_lookup (j_sessions svc2) = session_lookup (j_sessions svc)"
    using session_remove_lookup [OF wf1, of ?k] rest chk
    by (simp add: svc2 cg_key_def create_guard_check_None_iff fun_upd_idem)
  then have "session_lookup (j_sessions svc2) ?k = None" using chk by (simp add: create_guard_check_None_iff)
  then have "session_get ?k (j_sessions svc2) = None" by (simp add: session_lookup_def)
  then have "fst (destroy_guard (cg_guard_name req) (cg_namespace req) (cg_pod_name req) svc2)
      = Inl (StatusNotFound (''Guard not found: '' @ ?k))"
    using session_remove_result [of ?k "j_sessions svc2"]
    by (auto simp: destroy_guard_def cg_key_def Let_def split: prod.splits)
  moreover have "r = Inr ()"
    using assms(3) get1 session_remove_result [of ?k "j_sessions svc1"]
    by (auto simp: destroy_guard_def cg_key_def Let_def split: prod.splits option.splits)
  ultimately show ?thesis using look2 id by simp
qed

lemma example_create:
  "\<exists>resp svc1. create_guard example_env (example_request pod) (example_service 3) = (Inr resp, svc1)"
  by (simp add: create_guard_def create_guard_check_def example_service_def janusd_new_def new_session_map_def
      session_count_def session_exists_def create_guard_insert_parts Let_def map_insert_def example_request_def)

theorem create_destroy_roundtrip_witness:
  "fst (destroy_guard ''g'' ''ns'' ''p'' (snd (create_guard example_env (example_request ''p'') (example_service 3))))
     = Inr ()"
proof -
  obtain resp svc1 where c: "create_guard example_env (example_request ''p'') (example_service 3) = (Inr resp, svc1)"
    using example_create by blast
  obtain r svc2 where d: "destroy_guard (cg_guard_name (example_request ''p'')) (cg_namespace (example_request ''p''))
      (cg_pod_name (example_request ''p'')) svc1 = (r, svc2)" by fastforce
  have "table_wf (j_sessions (example_service 3))" by (simp add: example_service_def janusd_new_def)
  from create_destroy_roundtrip [OF this c d] c d show ?thesis by (simp add: example_request_def)
qed

text \<open>
  Destroying a guard can unregister another guard's metrics. Collectors are registered under the guard's
  name, without namespace and pod, and unregistered by that name: with two guards of the same name on
  two pods, destroying the second removes the collector of the first, whose session goes on.
\<close>

theorem destroy_unregisters_other_pod:
  assumes "cg_paused r1" "cg_paused r2" "cg_guard_name r1 = cg_guard_name r2" "cg_key r1 \<noteq> cg_key r2" "2 \<le> n"
    and "svc2 = snd (create_guard env r2 (snd (create_guard env r1 (janusd_new runtime node cluster n audit))))"
    and "destroy_guard (cg_guard_name r2) (cg_namespace r2) (cg_pod_name r2) svc2 = (r, svc3)"
  shows "collectors (j_metrics svc2) = [0, 1] \<and> collectors (j_metrics svc3) = [1] \<and>
    map_option s_metrics (session_lookup (j_sessions svc3) (cg_key r1)) = Some 0 \<and>
    session_lookup (j_sessions svc3) (cg_key r2) = None"
proof -
  let ?new = "janusd_new runtime node cluster n audit :: ('p, 'c) janusd"
  have "2 \<le> n \<Longrightarrow> cg_key r2 \<noteq> cg_key r1 \<Longrightarrow> svc2 = snd (create_guard_insert (env_fs env) (env_now env) r2
      (snd (create_guard_insert (env_fs env) (env_now env) r1 (janusd_new runtime node cluster n audit))))"
    using assms(1,2,6)
    by (auto simp: create_guard_cases create_guard_check_def janusd_new_def new_session_map_def session_count_def
        session_exists_def create_guard_insert_parts Let_def map_insert_def)
  then have svc2: "svc2 = snd (create_guard_insert (env_fs env) (env_now env) r2
      (snd (create_guard_insert (env_fs env) (env_now env) r1 (janusd_new runtime node cluster n audit))))"
    using assms(4,5) by auto
  have 1: "collectors (j_metrics svc2) = [0, 1]"
    by (simp add: svc2 janusd_new_def agg_register_def aggregator_new_def)
  have "collector_name svc2 0 = cg_guard_name r2" "s_name (tbl_heap (j_sessions svc2) ! 1) = cg_guard_name r2"
    using assms(3) by (simp_all add: svc2 collector_name_def janusd_new_def guard_metrics_new_def
        create_guard_insert_parts Let_def map_insert_def new_session_map_def new_guard_session_def)
  moreover have "session_get (cg_key r2) (j_sessions svc2) = Some 1" "length (tbl_heap (j_sessions svc2)) = 2"
    by (simp_all add: svc2 session_get_def create_guard_insert_parts Let_def map_insert_def janusd_new_def
        new_session_map_def update_conv')
  ultimately have 2: "collectors (j_metrics svc3) = [1]"
    using assms(7) 1
    by (auto simp: destroy_guard_def Let_def cg_key_def [symmetric] session_remove_def session_modify_def
        agg_unregister_def session_stop_def nth_list_update)
  have wf: "table_wf (j_sessions svc2)"
    unfolding svc2 by (intro create_guard_insert_wf) (simp add: janusd_new_def)
  have "svc3 = snd (destroy_guard (cg_guard_name r2) (cg_namespace r2) (cg_pod_name r2) svc2)"
    using assms(7) by simp
  then have l3: "session_lookup (j_sessions svc3) = (session_lookup (j_sessions svc2))(cg_key r2 := None)"
    by (simp add: session_remove_lookup [OF wf] cg_key_def)
  have "map_option s_metrics (session_lookup (j_sessions svc2) (cg_key r1)) = Some 0"
    using assms(4)
    by (simp add: svc2 session_lookup_def session_get_def create_guard_insert_parts Let_def map_insert_def
        janusd_new_def new_session_map_def update_conv' new_guard_session_def)
  with 1 2 l3 assms(4) show ?thesis by simp
qed

theorem destroy_unregisters_other_pod_witness:
  "collectors (j_metrics (snd (destroy_guard ''g'' ''ns'' ''b''
     (snd (create_guard example_env (example_request ''b'')
       (snd (create_guard example_env (example_request ''a'') (janusd_new None ''node'' ''cluster'' 3 NullAuditLogger)))))))) = [1]"
proof -
  let ?svc2 = "snd (create_guard example_env (example_request ''b'')
       (snd (create_guard example_env (example_request ''a'') (janusd_new None ''node'' ''cluster'' 3 NullAuditLogger))))"
  obtain r svc3 where d: "destroy_guard ''g'' ''ns'' ''b'' ?svc2 = (r, svc3)" by fastforce
  have "cg_paused (example_request x)" "cg_guard_name (example_request x) = ''g''"
    "cg_namespace (example_request x) = ''ns''" "cg_pod_name (example_request x) = x" for x
    by (simp_all add: example_request_def)
  then have "collectors (j_metrics svc3) = [1]"
    using destroy_unregisters_other_pod [of "example_request ''a''" "example_request ''b''" 3 ?svc2 example_env
        None "''node''" "''cluster''" NullAuditLogger r svc3] d
    by (simp add: cg_key_def session_key_def)
  with d show ?thesis by simp
qed

text \<open>
  No request stops or changes a guard that runs. Destroying a guard, pausing it and updating its policy
  leave the spawned event loops exactly as they were: their own
  running flag, their patterns and their cached decisions. \<open>update_policy\<close> nevertheless reports that the
  cache was cleared.
\<close>

theorem running_guards_unaffected:
  "j_guard_tasks (snd (destroy_guard n ns p svc)) = j_guard_tasks svc \<and>
   j_guard_tasks (snd (update_guard n ns p a svc)) = j_guard_tasks svc \<and>
   j_guard_tasks (snd (update_policy n ns p d al svc)) = j_guard_tasks svc \<and>
   (case fst (update_policy n ns p d al svc) of Inr resp \<Rightarrow> up_cache_cleared resp | Inl _ \<Rightarrow> True)"
  using update_guard_frame(4) update_policy_frame(4)
  by (auto simp: update_policy_parts Let_def split: option.splits)

lemma update_guard_paused:
  assumes "table_wf (j_sessions svc)" "session_lookup (j_sessions svc) k = Some s" "s_paused s"
  shows "\<exists>s'. session_lookup (j_sessions (snd (update_guard n ns p a svc))) k = Some s' \<and> s_paused s'"
proof -
  let ?f = "\<lambda>s :: guard_session_state session. s\<lparr>s_running := False, s_paused := True\<rparr>"
  consider "j_sessions (snd (update_guard n ns p a svc)) = j_sessions svc"
    | b where "session_get (session_key n ns p) (j_sessions svc) = Some b"
      "j_sessions (snd (update_guard n ns p a svc)) = session_modify b ?f (j_sessions svc)"
    using update_guard_frame(1) [of n ns p a svc] by blast
  then show ?thesis
  proof cases
    case 2
    with session_modify_lookup [OF assms(1) 2(1), of ?f] assms(2,3) show ?thesis by auto
  qed (use assms in simp)
qed

text \<open>
  Pausing is final. A paused session stays paused under every \<open>UpdateGuard\<close> request, and a resume request
  is always refused: \<open>not_found\<close>, \<open>failed_precondition\<close> or \<open>unimplemented\<close>.
\<close>

theorem pause_is_final:
  assumes "table_wf (j_sessions svc)" and "session_lookup (j_sessions svc) k = Some s" and "s_paused s"
  shows "(\<exists>s'. session_lookup (j_sessions (snd (update_guard n ns p a svc))) k = Some s' \<and> s_paused s') \<and>
    fst (update_guard n ns p 2 svc) \<in>
      {Inl (StatusNotFound (''Guard not found: '' @ session_key n ns p)), Inl (FailedPrecondition ''Guard is not paused''),
       Inl (Unimplemented ''Resume not fully implemented. Please destroy and recreate the guard.'')}"
  using update_guard_paused [OF assms]
  by (simp add: update_guard_parts update_action_of_def Let_def split: option.splits)

theorem pause_is_final_witness:
  "fst (update_guard ''g'' ''ns'' ''p'' 2
     (snd (create_guard_insert example_fs 0 (example_request ''p'') (example_service 1)))) \<in>
      {Inl (StatusNotFound ''Guard not found: g:ns:p''), Inl (FailedPrecondition ''Guard is not paused''),
       Inl (Unimplemented ''Resume not fully implemented. Please destroy and recreate the guard.'')}"
proof -
  let ?svc = "snd (create_guard_insert example_fs 0 (example_request ''p'') (example_service 1))"
  have wf: "table_wf (j_sessions ?svc)"
    by (intro create_guard_insert_wf) (simp add: example_service_def janusd_new_def)
  have "session_lookup (j_sessions ?svc) ''g:ns:p'' = Some (new_guard_session 0 (example_request ''p'') [5] 0)"
    by (simp add: session_lookup_def session_get_def create_guard_insert_parts Let_def map_insert_def
        example_service_def janusd_new_def new_session_map_def example_request_def cg_key_def session_key_def)
  from pause_is_final [OF wf this, of "''g''" "''ns''" "''p''" 1] show ?thesis
    by (simp add: new_guard_session_def example_request_def session_key_def)
qed

text \<open>
  What a subscriber of access events receives: the events of the guard and namespace it asked for (empty
  means any), of the listed types (none means all), without the allowed ones unless it asked for them, in
  the order they were broadcast, until it disconnects after \<open>k\<close> of them.
\<close>

theorem stream_access_events_delivers:
  assumes "\<forall>i<k. connected i" and "\<not> connected k"
  shows "stream_access_events guard_name ns types include_allowed connected rs =
    take k (filter (\<lambda>e. guard_name \<in> {[], pa_guard_name e} \<and> ns \<in> {[], pa_namespace e} \<and>
        (types = [] \<or> pa_event_type e \<in> set types) \<and> (include_allowed \<or> pa_response e \<noteq> PROTO_ALLOW))
      (received rs))"
proof -
  have "access_event_wanted guard_name ns types include_allowed =
      (\<lambda>e. guard_name \<in> {[], pa_guard_name e} \<and> ns \<in> {[], pa_namespace e} \<and>
        (types = [] \<or> pa_event_type e \<in> set types) \<and> (include_allowed \<or> pa_response e \<noteq> PROTO_ALLOW))"
    by (auto simp: fun_eq_iff access_event_wanted_def)
  then show ?thesis
    unfolding stream_access_events_def stream_loop_send_all
    using send_all_take [of k connected 0] assms by simp
qed

definition example_event :: "string \<Rightarrow> access_response \<Rightarrow> bool \<Rightarrow> access_event" where
  "example_event path r matched =
     \<lparr>ev_event_type = ''open'', ev_path = path, ev_is_dir = False, ev_pid = 9, ev_response = r,
      ev_matched_pattern = matched\<rparr>"

definition example_context :: forwarding_context where
  "example_context =
     \<lparr>fc_guard_name = ''g'', fc_namespace = ''ns'', fc_pod_name = ''p'', fc_container_id = [],
      fc_node_name = ''node'', fc_cluster_name = ''c'', fc_proc_resolver = procfs_resolver_new\<rparr>"

definition example_proto :: "string \<Rightarrow> access_response \<Rightarrow> proto_access_event" where
  "example_proto path r = create_proto_access_event 0 (example_event path r True) example_context None"

theorem stream_access_events_delivers_witness:
  "stream_access_events ''g'' [] [] False (\<lambda>i. i < 1)
     [RecvOk (example_proto ''/a'' Allow), Lagged 3, RecvOk (example_proto ''/s'' Deny),
      RecvOk (example_proto ''/t'' Deny)] = [example_proto ''/s'' Deny]"
  using stream_access_events_delivers [of 1 "\<lambda>i. i < 1" "''g''" "[]" "[]" False
      "[RecvOk (example_proto ''/a'' Allow), Lagged 3, RecvOk (example_proto ''/s'' Deny),
        RecvOk (example_proto ''/t'' Deny)]"]
  by (simp add: example_proto_def create_proto_access_event_def example_event_def example_context_def
      response_to_proto_def PROTO_ALLOW_def PROTO_DENY_def)

subsection \<open>The forwarding task\<close>

text \<open>What a subscriber can tell of a broadcast event, and what the guard's event says.\<close>

definition proto_summary :: "proto_access_event \<Rightarrow> string \<times> string \<times> string \<times> string \<times> i32 \<times> i32" where
  "proto_summary e = (pa_guard_name e, pa_namespace e, pa_pod_name e, pa_path e, pa_event_type e, pa_response e)"

definition event_summary ::
  "forwarding_context \<Rightarrow> access_event \<Rightarrow> string \<times> string \<times> string \<times> string \<times> i32 \<times> i32" where
  "event_summary ctx e = (fc_guard_name ctx, fc_namespace ctx, fc_pod_name ctx, ev_path e,
     event_type_to_proto (ev_event_type e), response_to_proto (ev_response e))"

definition count_response :: "access_response \<Rightarrow> forwarding_input list \<Rightarrow> nat" where
  "count_response r is = length (filter (\<lambda>i. ev_response (fi_event i) = r) is)"

lemma count_response_Cons:
  "count_response r (i # is) = (if ev_response (fi_event i) = r then 1 else 0) + count_response r is"
  by (simp add: count_response_def)

lemma record_response_counts:
  "gm_events_total (record_event_type t (record_response r m)) = gm_events_total m + 1"
  "gm_events_allowed (record_event_type t (record_response r m)) = gm_events_allowed m + (if r = Allow then 1 else 0)"
  "gm_events_denied (record_event_type t (record_response r m)) = gm_events_denied m + (if r = Deny then 1 else 0)"
  "gm_events_audited (record_event_type t (record_response r m)) = gm_events_audited m + (if r = AuditResp then 1 else 0)"
  by (cases r; simp add: record_response_def metrics_defs)+

lemma forward_event_spec:
  assumes "ev_matched_pattern (fi_event i) \<Longrightarrow>
      get_process_info (fi_fs i) (fc_proc_resolver ctx) (ev_pid (fi_event i)) \<noteq> Panicked"
  shows "fst (forward_event little self_pid ctx i st) \<and>
    fw_metrics (snd (forward_event little self_pid ctx i st)) =
      record_event_type (ev_event_type (fi_event i)) (record_response (ev_response (fi_event i)) (fw_metrics st)) \<and>
    map proto_summary (fw_broadcast (snd (forward_event little self_pid ctx i st))) =
      map proto_summary (fw_broadcast st) @
        (if ev_matched_pattern (fi_event i) then [event_summary ctx (fi_event i)] else [])"
proof (cases "ev_matched_pattern (fi_event i)")
  case True
  have "resolve_process_info fs r pid = Panicked \<longleftrightarrow> get_process_info fs r pid = Panicked" for fs r pid
    by (simp add: resolve_process_info_def split: outcome.splits sum.splits)
  with True assms obtain x where
    x: "resolve_process_info (fi_fs i) (fc_proc_resolver ctx) (ev_pid (fi_event i)) = Returned x"
    by (cases "resolve_process_info (fi_fs i) (fc_proc_resolver ctx) (ev_pid (fi_event i))") auto
  obtain info comm exe uid gid where "x = (info, comm, exe, uid, gid)" by (cases x) auto
  with True x show ?thesis
    by (simp add: forward_event_def Let_def log_to_audit_def split_beta proto_summary_def event_summary_def
        create_proto_access_event_def)
qed (simp add: forward_event_def Let_def)

lemma forwarding_task_all:
  assumes "\<forall>i\<in>set is. ev_matched_pattern (fi_event i) \<longrightarrow>
      get_process_info (fi_fs i) (fc_proc_resolver ctx) (ev_pid (fi_event i)) \<noteq> Panicked"
    and "event_forwarding_task little self_pid ctx is st = (fin, st')"
  shows "fin \<and>
    map proto_summary (fw_broadcast st') = map proto_summary (fw_broadcast st) @
      map (event_summary ctx) (filter ev_matched_pattern (map fi_event is)) \<and>
    gm_events_total (fw_metrics st') = gm_events_total (fw_metrics st) + of_nat (length is) \<and>
    gm_events_allowed (fw_metrics st') = gm_events_allowed (fw_metrics st) + of_nat (count_response Allow is) \<and>
    gm_events_denied (fw_metrics st') = gm_events_denied (fw_metrics st) + of_nat (count_response Deny is) \<and>
    gm_events_audited (fw_metrics st') = gm_events_audited (fw_metrics st) + of_nat (count_response AuditResp is)"
  using assms
proof (induction "is" arbitrary: st)
  case (Cons i "is")
  obtain b st1 where f: "forward_event little self_pid ctx i st = (b, st1)" by fastforce
  from Cons.prems(1) have sp: "b \<and> fw_metrics st1 = record_event_type (ev_event_type (fi_event i))
        (record_response (ev_response (fi_event i)) (fw_metrics st)) \<and>
      map proto_summary (fw_broadcast st1) = map proto_summary (fw_broadcast st) @
        (if ev_matched_pattern (fi_event i) then [event_summary ctx (fi_event i)] else [])"
    using forward_event_spec [of i ctx little self_pid st] f by simp
  have "event_forwarding_task little self_pid ctx is st1 = (fin, st')"
    using Cons.prems(2) f sp by simp
  from Cons.IH [OF _ this] Cons.prems(1) sp show ?case
    by (simp add: record_response_counts count_response_Cons algebra_simps)
qed (simp add: count_response_def)

lemma forwarding_broadcast:
  assumes "\<forall>i\<in>set is. get_process_info (fi_fs i) (fc_proc_resolver ctx) (ev_pid (fi_event i)) \<noteq> Panicked"
    and "event_forwarding_task little self_pid ctx is st = (fin, st')"
  shows "map proto_summary (fw_broadcast st') = map proto_summary (fw_broadcast st) @
      map (event_summary ctx) (filter ev_matched_pattern (map fi_event is))"
  using forwarding_task_all [of "is" ctx little self_pid st fin st'] assms by blast

text \<open>
  C16: What the forwarding task does with a guard's events, provided no \<open>stat\<close> file makes the parser panic. It
  handles them all; every event is counted once in the total and once under its response; exactly the
  events that matched a pattern are broadcast, in order, with the guard's identity and the event's path,
  type and response.
\<close>

theorem forwarding_task_spec:
  assumes "\<forall>i\<in>set is. ev_matched_pattern (fi_event i) \<longrightarrow>
      get_process_info (fi_fs i) (fc_proc_resolver ctx) (ev_pid (fi_event i)) \<noteq> Panicked"
    and "event_forwarding_task little self_pid ctx is st = (fin, st')"
  shows "fin \<and>
    map proto_summary (fw_broadcast st') = map proto_summary (fw_broadcast st) @
      map (event_summary ctx) (filter ev_matched_pattern (map fi_event is)) \<and>
    gm_events_total (fw_metrics st') = gm_events_total (fw_metrics st) + of_nat (length is) \<and>
    gm_events_allowed (fw_metrics st') = gm_events_allowed (fw_metrics st) + of_nat (count_response Allow is) \<and>
    gm_events_denied (fw_metrics st') = gm_events_denied (fw_metrics st) + of_nat (count_response Deny is) \<and>
    gm_events_audited (fw_metrics st') = gm_events_audited (fw_metrics st) + of_nat (count_response AuditResp is)"
  by (rule forwarding_task_all [OF assms])

theorem forwarding_task_spec_witness:
  "map proto_summary (fw_broadcast (snd (event_forwarding_task True 1 example_context
      [\<lparr>fi_event = example_event ''/s'' Deny True, fi_fs = example_fs, fi_now = 0, fi_sendto = (\<lambda>_. Inr ())\<rparr>]
      \<lparr>fw_metrics = guard_metrics_new ''g'', fw_audit = NullAuditLogger, fw_frames = [], fw_broadcast = []\<rparr>)))
   = [(''g'', ''ns'', ''p'', ''/s'', 2, 2)]"
proof -
  let ?i = "\<lparr>fi_event = example_event ''/s'' Deny True, fi_fs = example_fs, fi_now = 0, fi_sendto = (\<lambda>_. Inr ())\<rparr>"
  let ?st = "\<lparr>fw_metrics = guard_metrics_new ''g'', fw_audit = NullAuditLogger, fw_frames = [], fw_broadcast = []\<rparr>"
  obtain b st' where t: "event_forwarding_task True 1 example_context [?i] ?st = (b, st')" by fastforce
  have "get_process_info example_fs (fc_proc_resolver example_context) 9 \<noteq> Panicked"
    by (simp add: get_process_info_def parse_stat_def example_fs_def read_to_string_def)
  then have "\<forall>i\<in>set [?i]. ev_matched_pattern (fi_event i) \<longrightarrow>
      get_process_info (fi_fs i) (fc_proc_resolver example_context) (ev_pid (fi_event i)) \<noteq> Panicked"
    by (simp add: example_event_def)
  from forwarding_task_spec [OF this t] t show ?thesis
    by (simp add: event_summary_def example_event_def example_context_def event_type_to_proto_def
        fanotify_event_to_i32_def response_to_proto_def PROTO_DENY_def)
qed

subsection \<open>Metrics of the service\<close>

text \<open>
  The totals of \<open>GetMetrics\<close> agree with the guards they sum up. The denied and allowed totals are the sums
  of the per-guard counts, and, the counters of every guard being balanced, the events processed are the
  denied, allowed and audited ones together; the guards listed are those of the requested name. The
  handler panics exactly when one of the three sums does not fit 64 bits.
\<close>

theorem get_metrics_totals:
  assumes "\<forall>s\<in>set (live_sessions svc). gm_balanced (j_metrics_heap svc ! gss_typed_metrics (s_state s))"
  shows "(let total = (\<lambda>f. \<Sum>s\<leftarrow>filter (\<lambda>s. name = [] \<or> s_name s = name) (live_sessions svc).
                unat (f (j_metrics_heap svc ! gss_typed_metrics (s_state s)) :: u64)) in
     case get_metrics name svc of
       Panicked \<Rightarrow> 2 ^ 64 \<le> total gm_events_total \<or> 2 ^ 64 \<le> total gm_events_denied \<or> 2 ^ 64 \<le> total gm_events_allowed
     | Returned r \<Rightarrow>
         (let gs = mr_guard_metrics r in
          unat (mr_total_denied r) = sum_list (map (unat \<circ> pg_denied_count) gs) \<and>
          unat (mr_total_allowed r) = sum_list (map (unat \<circ> pg_allowed_count) gs) \<and>
          mr_total_events_processed r =
            mr_total_allowed r + mr_total_denied r + sum_list (map pg_audited_count gs) \<and>
          map pg_guard_name gs = filter (\<lambda>n. name = [] \<or> n = name) (map s_name (live_sessions svc))))"
proof -
  define ss where "ss = filter (\<lambda>s. name = [] \<or> s_name s = name) (live_sessions svc)"
  let ?m = "\<lambda>s. j_metrics_heap svc ! gss_typed_metrics (s_state s)"
  have keep: "filter (\<lambda>s. name = [] \<or> s_name s = name) (live_sessions svc) = ss"
    by (simp add: ss_def)
  have bal: "sum_list (map (\<lambda>s. gm_events_total (?m s)) xs) = sum_list (map (\<lambda>s. gm_events_allowed (?m s)) xs) +
      sum_list (map (\<lambda>s. gm_events_denied (?m s)) xs) + sum_list (map (\<lambda>s. gm_events_audited (?m s)) xs)"
    if "set xs \<subseteq> set (live_sessions svc)" for xs
    using that assms by (induction xs) (auto simp: gm_balanced_def algebra_simps)
  have names: "filter (\<lambda>n. name = [] \<or> n = name) (map s_name (live_sessions svc)) = map s_name ss"
    unfolding ss_def by (simp add: filter_map o_def)
  have "set ss \<subseteq> set (live_sessions svc)" by (auto simp: ss_def)
  note b = bal [OF this]
  have fits: "sum_list (map (\<lambda>s. unat (f s)) ss) < 2 ^ 64 \<Longrightarrow>
      unat (sum_list (map f ss)) = sum_list (map (\<lambda>s. unat (f s)) ss)" for f :: "_ \<Rightarrow> u64"
    using unat_sum_list [of "map f ss"] by (simp add: o_def)
  show ?thesis
    unfolding names keep using b fits [of "\<lambda>s. gm_events_denied (?m s)"] fits [of "\<lambda>s. gm_events_allowed (?m s)"]
    by (auto simp: get_metrics_def keep Let_def checked_sum_eq proto_metrics_of_def guard_snapshot_of_def o_def)
qed

theorem get_metrics_totals_witness:
  "(case get_metrics ''g'' (snd (create_guard_insert example_fs 0 (example_request ''p'') (example_service 1))) of
      Returned r \<Rightarrow> mr_total_denied r = 0 \<and> length (mr_guard_metrics r) = 1 | Panicked \<Rightarrow> False)"
proof -
  let ?svc = "snd (create_guard_insert example_fs 0 (example_request ''p'') (example_service 1))"
  have "live_sessions ?svc = [new_guard_session 0 (example_request ''p'') [5] 0]"
    "j_metrics_heap ?svc = [guard_metrics_new ''g'']"
    by (simp_all add: live_sessions_def create_guard_insert_parts Let_def map_insert_def
        example_service_def janusd_new_def new_session_map_def example_request_def)
  moreover from this have "\<forall>s\<in>set (live_sessions ?svc). gm_balanced (j_metrics_heap ?svc ! gss_typed_metrics (s_state s))"
    by (simp add: new_guard_session_def)
  ultimately show ?thesis
    using get_metrics_totals [of ?svc "''g''"]
    by (simp add: get_metrics_def Let_def new_guard_session_def proto_metrics_of_def guard_snapshot_of_def
        guard_metrics_new_def)
qed

end
