(* ===== verification/Janus_Pipeline.thy ===== *)
theory Janus_Pipeline
  imports Janus_Props
begin

section \<open>From a denied access to its report\<close>

text \<open>
  The parts of janusd put together: the event loop of a guard (\<open>Guard\<close>) sends access events through its channel,
  the forwarding task of the service (\<open>Janus_Service\<close>) broadcasts them and the stream of a subscriber
  (\<open>Broadcast\<close>) delivers them. The lemmas follow the denied accesses through deduplication, which drops an event
  only when one for the same path, process and response has been sent.
\<close>

subsection \<open>What a guard sends\<close>

text \<open>An event that reports an input: its path as the components say, and the response the rules ask for.\<close>

definition reports :: "'p glob_api \<Rightarrow> ('p, 'c) guard \<Rightarrow> event_input \<Rightarrow> access_event \<Rightarrow> bool" where
  "reports G g inp e \<longleftrightarrow> path_eq (ev_path e) (event_path inp) \<and> ev_response e = decision G g inp"

text \<open>An event that was made for an input. The guards that \<open>new\<close> builds deny only what a pattern matches.\<close>

definition made_for :: "'p glob_api \<Rightarrow> ('p, 'c) guard \<Rightarrow> event_input \<Rightarrow> access_event \<Rightarrow> bool" where
  "made_for G g inp e \<longleftrightarrow> ev_path e = event_path inp \<and> ev_response e = decision G g inp \<and>
     (ev_response e = Deny \<longrightarrow> ev_matched_pattern e)"

text \<open>Every entry of the deduplication stands for an event that was sent.\<close>

definition covered :: "access_event set \<Rightarrow> dedupe_cache \<Rightarrow> bool" where
  "covered S c \<longleftrightarrow> (\<forall>d\<in>set (entries c). \<exists>e\<in>S. ev_path e = de_path d \<and> ev_response e = de_response d)"

lemma covered_mono: "covered S c \<Longrightarrow> S \<subseteq> T \<Longrightarrow> covered T c"
  by (auto simp: covered_def)

lemma check_and_record_covered:
  assumes "covered S c" and "check_and_record t t' path pid r c = (fwd, c')"
  shows "fwd \<Longrightarrow> ev_path e = path \<Longrightarrow> ev_response e = r \<Longrightarrow> covered (insert e S) c'"
    and "\<not> fwd \<Longrightarrow> covered S c' \<and> (\<exists>e\<in>S. path_eq (ev_path e) path \<and> ev_response e = r)"
proof -
  note defs = check_and_record_def should_process_def clear_expired_def dedupe_record_def dedupe_entry_new_def
    dedupe_entry_matches_def list_ex_iff Let_def
  have "d \<in> set (entries c) \<or> de_path d = path \<and> de_response d = r" if "d \<in> set (entries c')" for d
    using assms(2) that in_set_tlD [of d] by (fastforce simp: defs split: bool.splits if_splits)
  then show "covered (insert e S) c'" if "fwd" "ev_path e = path" "ev_response e = r"
    using assms(1) that unfolding covered_def by (metis insertCI)
  assume "\<not> fwd"
  then obtain d where "d \<in> set (entries c)" "path_eq (de_path d) path" "de_response d = r" "set (entries c') \<subseteq> set (entries c)"
    using assms(2) by (auto simp: defs split: bool.splits)
  moreover from this(1) assms(1) obtain e where "e \<in> S" "ev_path e = de_path d" "ev_response e = de_response d"
    by (auto simp: covered_def)
  ultimately show "covered S c' \<and> (\<exists>e\<in>S. path_eq (ev_path e) path \<and> ev_response e = r)"
    using assms(1) unfolding covered_def by (metis subsetD)
qed

lemma decision_deny_matched:
  assumes "default_response (g_policy g) = Allow" and "decision G g inp = Deny"
  shows "matches_any_pattern G (g_policy g) (event_path inp)"
  using assms by (auto simp: decision_def matches_any_pattern_def policy_rules_def first_match_const split: if_splits)

lemma process_event_made_for:
  assumes "lru_contract L ok" and "guard_ok G L g" and "default_response (g_policy g) = Allow"
  shows "made_for G g inp (fst (process_event G L inp g))"
  using process_event_decision [OF assms(1,2), of inp] decision_deny_matched [OF assms(3), of G inp]
  by (auto simp: made_for_def process_event_def Let_def event_path_def split_beta)

definition is_overflow :: "event_input \<Rightarrow> bool" where
  "is_overflow inp \<longleftrightarrow> FAN_Q_OVERFLOW \<in> fe_mask (in_event inp)"

lemma guard_event_sent:
  assumes "lru_contract L ok" and "guard_ok G L g" and "default_response (g_policy g) = Allow" and "in_send_ok inp"
    and "covered S (g_dedupe g)" and "guard_event G L inp g = (cont, out, g')"
  shows "covered (S \<union> set (out_sent out)) (g_dedupe g')"
    and "is_overflow inp \<or> (\<exists>e\<in>S \<union> set (out_sent out). reports G g inp e)"
    and "\<forall>e\<in>set (out_sent out). made_for G g inp e"
proof -
  define ae where "ae = fst (process_event G L inp g)"
  note made = process_event_made_for [OF assms(1-3), of inp, folded ae_def]
  obtain fwd d where d: "check_and_record (in_check_time inp) (in_record_time inp) (ev_path ae) (ev_pid ae) (ev_response ae) (g_dedupe g) = (fwd, d)"
    by fastforce
  have ev: "is_overflow inp \<and> out_sent out = [] \<and> g_dedupe g' = g_dedupe g \<or>
      \<not> is_overflow inp \<and> out_sent out = (if fwd then [ae] else []) \<and> g_dedupe g' = d"
    using assms(4,6) d by (auto simp: guard_event_def handle_queue_overflow_def is_overflow_def should_forward_event_def
        no_output_def tick_def split_beta Let_def ae_def [symmetric] split: if_splits)
  note c = check_and_record_covered [OF assms(5) d]
  have rep: "reports G g inp e" if "path_eq (ev_path e) (ev_path ae)" "ev_response e = ev_response ae" for e
    using that made by (simp add: reports_def made_for_def)
  show "covered (S \<union> set (out_sent out)) (g_dedupe g')" using ev c(1) [of ae] c(2) assms(5) by (cases fwd) auto
  show "is_overflow inp \<or> (\<exists>e\<in>S \<union> set (out_sent out). reports G g inp e)" using ev c(2) rep by (cases fwd) auto
  show "\<forall>e\<in>set (out_sent out). made_for G g inp e" using ev made by auto
qed

subsection \<open>Batches and the loop\<close>

text \<open>What one pass over inputs adds to the events \<open>S\<close> sent before.\<close>

definition sent_well :: "'p glob_api \<Rightarrow> ('p, 'c) guard \<Rightarrow> access_event set \<Rightarrow> event_input list \<Rightarrow> access_event list \<Rightarrow> bool" where
  "sent_well G g S inps es \<longleftrightarrow>
     (\<forall>inp\<in>set inps. is_overflow inp \<or> (\<exists>e\<in>S \<union> set es. reports G g inp e)) \<and>
     (\<forall>e\<in>set es. \<exists>inp\<in>set inps. made_for G g inp e)"

lemma sent_well_append:
  assumes "sent_well G g S xs es" and "sent_well G g' (S \<union> set es) ys fs" and "decision G g' = decision G g"
  shows "sent_well G g S (xs @ ys) (es @ fs)"
  using assms unfolding sent_well_def reports_def made_for_def by (auto; blast)

lemma guard_batch_sent:
  assumes "lru_contract L ok" and "guard_ok G L g" and "default_response (g_policy g) = Allow"
    and "\<forall>inp\<in>set inps. in_send_ok inp" and "covered S (g_dedupe g)" and "guard_batch G L inps g = (out, g')"
  shows "covered (S \<union> set (out_sent out)) (g_dedupe g') \<and> sent_well G g S inps (out_sent out) \<and> guard_ok G L g' \<and>
    default_response (g_policy g') = Allow \<and> decision G g' = decision G g \<and> g_running g' = g_running g"
  using assms(2-)
proof (induction inps arbitrary: g S out)
  case Nil
  then show ?case by (auto simp: sent_well_def no_output_def)
next
  case (Cons inp inps)
  obtain cont o1 g1 where e: "guard_event G L inp g = (cont, o1, g1)" by (cases "guard_event G L inp g") auto
  note fr = guard_event_frame [OF e]
  then have g1: "cont" "guard_ok G L g1" "default_response (g_policy g1) = Allow" "decision G g1 = decision G g" "g_running g1 = g_running g"
    using Cons.prems decision_cong [of g1 g] by auto
  obtain o2 where o2: "guard_batch G L inps g1 = (o2, g')" "out = add_output o1 o2"
    using Cons.prems(5) e g1(1) by (auto split: prod.splits)
  note ev = guard_event_sent [OF assms(1) Cons.prems(1,2) _ Cons.prems(4) e]
  then have "sent_well G g S [inp] (out_sent o1)" using Cons.prems(3) by (simp add: sent_well_def)
  moreover note IH = Cons.IH [OF g1(2,3) _ ev(1) o2(1)]
  ultimately have "sent_well G g S ([inp] @ inps) (out_sent o1 @ out_sent o2)"
    using Cons.prems(3) g1(4) by (intro sent_well_append [where g' = g1]) auto
  with IH Cons.prems(3) g1 o2(2) show ?case by (simp add: add_output_def Un_assoc)
qed

lemma guard_while_sent:
  assumes "lru_contract L ok" and "guard_ok G L g" and "default_response (g_policy g) = Allow" and "g_running g"
    and "\<forall>inp\<in>set (loop_inputs rds). in_send_ok inp" and "covered S (g_dedupe g)"
  shows "sent_well G g S (loop_inputs rds) (out_sent (fst (guard_while G L rds g)))"
  using assms(2-)
proof (induction rds arbitrary: g S)
  case Nil
  then show ?case by (simp add: sent_well_def loop_inputs_def no_output_def)
next
  case (Cons rd rds)
  show ?case
  proof (cases rd)
    case (Inl e)
    with Cons show ?thesis by (simp add: loop_inputs_def)
  next
    case (Inr inps)
    obtain o1 g1 where b: "guard_batch G L inps g = (o1, g1)" by (cases "guard_batch G L inps g") auto
    have ok: "\<forall>inp\<in>set inps. in_send_ok inp" "\<forall>inp\<in>set (loop_inputs rds). in_send_ok inp"
      using Cons.prems(4) Inr by (auto simp: loop_inputs_def)
    note bs = guard_batch_sent [OF assms(1) Cons.prems(1,2) ok(1) Cons.prems(5) b]
    with Cons.IH [of g1 "S \<union> set (out_sent o1)"] Cons.prems(3) ok(2)
    have "sent_well G g S (inps @ loop_inputs rds) (out_sent o1 @ out_sent (fst (guard_while G L rds g1)))"
      by (intro sent_well_append [where g' = g1]) auto
    with Inr b Cons.prems(3) show ?thesis by (simp add: split_beta loop_inputs_def add_output_def)
  qed
qed

lemma guard_run_sent:
  assumes "lru_contract L ok" and "guard_new G L init cfg m = Inr g" and "\<forall>inp\<in>set (loop_inputs rds). in_send_ok inp"
  shows "sent_well G g {} (loop_inputs rds) (out_sent (fst (guard_run G L rds g)))"
proof -
  have "default_response (g_policy g) = Allow" "covered {} (g_dedupe g)"
    using assms(2) by (auto simp: guard_new_def with_config_def covered_def dedupe_cache_default_def dedupe_cache_new_def
        split: sum.splits)
  with guard_while_sent [OF assms(1), of G "g\<lparr>g_running := True\<rparr>" rds "{}"] guard_new_ok [OF assms(2)] assms(3)
    decision_cong [of "g\<lparr>g_running := True\<rparr>" g G]
  show ?thesis by (simp add: guard_run_def guard_ok_def sent_well_def reports_def made_for_def)
qed

subsection \<open>The report\<close>

text \<open>
  C2: Whoever subscribes learns of every denied access, and of no other. A guard that \<open>new\<close> built reads any sequence
  of events with its channel open; the forwarding task handles what it sends, provided no \<open>stat\<close> file makes
  the parser panic; a subscriber without filters does not lag behind and stays connected. Then for every event other
  than a queue overflow whose access the rules deny it receives a DENY event of this guard with that path (as a list of components, under which
  deduplication merges repetitions), and every DENY event it receives names the path of an access that the rules deny.
\<close>

theorem denied_accesses_reported:
  assumes "lru_contract L ok" and "guard_new G L init cfg m = Inr g" and "\<forall>inp\<in>set (loop_inputs rds). in_send_ok inp"
    and "map fi_event is = out_sent (fst (guard_run G L rds g))"
    and "\<forall>i\<in>set is. get_process_info (fi_fs i) (fc_proc_resolver ctx) (ev_pid (fi_event i)) \<noteq> Panicked"
    and "event_forwarding_task little self_pid ctx is st = (fin, st')" and "fw_broadcast st = []"
    and "received rs = fw_broadcast st'"
  shows "let delivered = stream_access_events [] [] [] include_allowed (\<lambda>_. True) rs in
    (\<forall>inp\<in>set (loop_inputs rds). FAN_Q_OVERFLOW \<notin> fe_mask (in_event inp) \<and> decision G g inp = Deny \<longrightarrow>
       (\<exists>e\<in>set delivered. pa_response e = PROTO_DENY \<and> pa_guard_name e = fc_guard_name ctx \<and>
          path_eq (pa_path e) (event_path inp))) \<and>
    (\<forall>e\<in>set delivered. pa_response e = PROTO_DENY \<longrightarrow>
       (\<exists>inp\<in>set (loop_inputs rds). decision G g inp = Deny \<and> pa_path e = event_path inp))"
proof -
  let ?es = "out_sent (fst (guard_run G L rds g))"
  note sent = guard_run_sent [OF assms(1-3), unfolded sent_well_def]
  have deny: "response_to_proto r = PROTO_DENY \<longleftrightarrow> r = Deny" for r
    by (cases r) (simp_all add: response_to_proto_def PROTO_DENY_def PROTO_ALLOW_def PROTO_AUDIT_def)
  have "map proto_summary (fw_broadcast st') = map (event_summary ctx) (filter ev_matched_pattern ?es)"
    using forwarding_broadcast [of "is" ctx little self_pid st fin st'] assms(4-7) by simp
  from arg_cong [OF this, of set] have b: "proto_summary ` set (fw_broadcast st') = event_summary ctx ` {e \<in> set ?es. ev_matched_pattern e}" by simp
  have delivered: "stream_access_events [] [] [] include_allowed (\<lambda>_. True) rs =
      filter (\<lambda>e. include_allowed \<or> pa_response e \<noteq> PROTO_ALLOW) (fw_broadcast st')"
    by (simp add: stream_access_events_def stream_loop_send_all send_all_connected access_event_wanted_def assms(8) [symmetric] cong: filter_cong)
  have complete: "\<exists>p\<in>set (fw_broadcast st'). pa_response p = PROTO_DENY \<and> pa_guard_name p = fc_guard_name ctx \<and> path_eq (pa_path p) (event_path inp)"
    if inp: "inp \<in> set (loop_inputs rds)" "FAN_Q_OVERFLOW \<notin> fe_mask (in_event inp)" "decision G g inp = Deny" for inp
  proof -
    from sent inp obtain e where e: "e \<in> set ?es" "reports G g inp e" by (auto simp: is_overflow_def)
    with sent inp(3) have "ev_response e = Deny" "ev_matched_pattern e" by (auto simp: reports_def made_for_def)
    with e have "event_summary ctx e \<in> proto_summary ` set (fw_broadcast st')" unfolding b by blast
    then obtain p where "p \<in> set (fw_broadcast st')" "proto_summary p = event_summary ctx e" by force
    moreover from this have "pa_response p = response_to_proto (ev_response e)" "pa_guard_name p = fc_guard_name ctx" "pa_path p = ev_path e"
      by (simp_all add: proto_summary_def event_summary_def)
    ultimately show ?thesis using e(2) \<open>ev_response e = Deny\<close> deny by (intro bexI [of _ p]) (simp_all add: reports_def)
  qed
  have sound: "\<exists>inp\<in>set (loop_inputs rds). decision G g inp = Deny \<and> pa_path p = event_path inp"
    if p: "p \<in> set (fw_broadcast st')" "pa_response p = PROTO_DENY" for p
  proof -
    from imageI [OF p(1), of proto_summary] obtain e where e: "e \<in> set ?es" "proto_summary p = event_summary ctx e"
      unfolding b by blast
    with sent obtain inp where "inp \<in> set (loop_inputs rds)" "made_for G g inp e" by blast
    moreover have "pa_response p = response_to_proto (ev_response e)" "pa_path p = ev_path e"
      using e(2) by (simp_all add: proto_summary_def event_summary_def)
    moreover from this(1) p(2) have "ev_response e = Deny" using deny [of "ev_response e"] by simp
    ultimately show ?thesis by (intro bexI [of _ inp]) (simp_all add: made_for_def)
  qed
  have "PROTO_DENY \<noteq> PROTO_ALLOW" by (simp add: PROTO_DENY_def PROTO_ALLOW_def)
  then show ?thesis unfolding Let_def delivered set_filter using complete sound by (intro conjI ballI impI) fastforce+
qed

definition example_state :: forwarding_state where
  "example_state = \<lparr>fw_metrics = guard_metrics_new ''g'', fw_audit = NullAuditLogger, fw_frames = [], fw_broadcast = []\<rparr>"

theorem denied_accesses_reported_witness:
  "\<exists>e\<in>set (stream_access_events [] [] [] False (\<lambda>_. True)
      (map RecvOk (fw_broadcast (snd (event_forwarding_task True 1 example_context
        (map (\<lambda>e. \<lparr>fi_event = e, fi_fs = example_fs, fi_now = 0, fi_sendto = (\<lambda>_. Inr ())\<rparr>)
          (out_sent (fst (guard_run literal_glob ref_lru [Inr [example_input 3 ''/a'' True, example_input 4 ''/s'' True]] example_guard))))
        example_state))))). pa_response e = PROTO_DENY \<and> path_eq (pa_path e) ''/s''"
proof -
  let ?rds = "[Inr [example_input 3 ''/a'' True, example_input 4 ''/s'' True]]"
  let ?is = "map (\<lambda>e. \<lparr>fi_event = e, fi_fs = example_fs, fi_now = 0, fi_sendto = (\<lambda>_. Inr ())\<rparr>)
      (out_sent (fst (guard_run literal_glob ref_lru ?rds example_guard)))"
  obtain fin st' where t: "event_forwarding_task True 1 example_context ?is example_state = (fin, st')" by fastforce
  have np: "get_process_info example_fs (fc_proc_resolver example_context) pid \<noteq> Panicked" for pid
    by (simp add: get_process_info_def parse_stat_def example_fs_def read_to_string_def)
  have "received (map RecvOk xs) = xs" for xs :: "proto_access_event list" by (induction xs) simp_all
  note run = denied_accesses_reported [OF ref_lru.lru_contract_axioms example_guard_new _ _ _ t _ this, of ?rds False]
  have "decision literal_glob example_guard (example_input 4 ''/s'' True) = Deny" "event_path (example_input 4 ''/s'' True) = ''/s''"
    by (simp_all add: example_decision)
  with run t np show ?thesis
    by (auto simp: loop_inputs_def example_input_def example_state_def o_def Let_def)
qed

end
