(* ===== verification/Janus_Tasks.thy ===== *)
theory Janus_Tasks
  imports Janus_Props
begin

section \<open>The handlers of janusd under concurrency\<close>

text \<open>
  The handlers of \<open>janusd/src/service.rs\<close> as tasks. A task moves from one await to the next: one step is what it
  does with a lock in hand, up to the point where it awaits the next lock or the channel of a stream. The locks
  of sessions and of the aggregator are never held across an await, so they need no owner here; the lock of the
  session table is, by the task of \<open>get_guard_state\<close>, which reads the table for as long as it sends. A client of
  that stream reads from a channel of 100 states, or leaves (what the transport takes from the channel on behalf of
  a client counts as read by it); a client that gives up on a call has its handler dropped at the next await. Waiting queues are left out, so more steps are
  possible here than with the fair locks of tokio. \<open>stream_access_events\<close> takes no lock and is not a task here.
\<close>

subsection \<open>Tasks\<close>

datatype janus_answer =
    AnsCreate "grpc_status + create_guard_response"
  | AnsDestroy "grpc_status + unit"
  | AnsUpdate "grpc_status + update_guard_response"
  | AnsPolicy "grpc_status + update_policy_response"
  | AnsMetrics "metrics_response outcome"

datatype ('p, 'c) janus_task =
    CreateCount create_guard_request
  | CreateExists create_guard_request
  | CreateStore create_guard_request
  | CreateRegister create_guard_request nat
  | CreateBuild create_guard_request nat
  | CreateReady create_guard_request nat "guard_config \<times> u32 \<times> ('p, 'c) guard"
  | DestroyRemove string string string
  | DestroySession nat
  | DestroyUnregister nat
  | UpdateGet string string string i32
  | UpdateLock string nat i32
  | PolicyGet string string string "string list" "string list"
  | PolicyLock string nat "string list" "string list"
  | MetricsRead string
  | StateOpen string string
  | StateSend string string "nat list" bool "guard_state list" "guard_state list"
  | StateClosed "guard_state list" "guard_state list"
  | Answered janus_answer
  | Dropped

type_synonym ('p, 'c) janus_machine = "('p, 'c) janusd \<times> ('p, 'c) janus_task list"

definition STATE_CHANNEL :: nat where
  "STATE_CHANNEL = 100"

definition reads_table :: "('p, 'c) janus_task \<Rightarrow> bool" where
  "reads_table t = (case t of StateSend _ _ _ _ _ _ \<Rightarrow> True | _ \<Rightarrow> False)"

definition state_matches :: "string \<Rightarrow> string \<Rightarrow> guard_session_state session \<Rightarrow> bool" where
  "state_matches name ns s \<longleftrightarrow> \<not> (name \<noteq> [] \<and> s_name s \<noteq> name) \<and> \<not> (ns \<noteq> [] \<and> s_namespace s \<noteq> ns)"

subsection \<open>The steps of a handler\<close>

text \<open>
  A step of a task while somebody else reads the table (\<open>held\<close>) or not: its next position and the service, or
  \<^const>\<open>None\<close> while it has to wait.
\<close>

definition janus_create_step ::
  "('p, 'c) janus_env \<Rightarrow> bool \<Rightarrow> ('p, 'c) janusd \<Rightarrow> ('p, 'c) janus_task \<Rightarrow> (('p, 'c) janus_task \<times> ('p, 'c) janusd) option" where
  "janus_create_step env held svc t = (case t of
     CreateCount req \<Rightarrow> Some
       (if session_count (j_sessions svc) \<ge> j_max_guards svc
        then Answered (AnsCreate (Inl (ResourceExhausted
          (''Maximum number of guards ('' @ show_nat (j_max_guards svc) @ '') exceeded''))))
        else CreateExists req, svc)
   | CreateExists req \<Rightarrow> Some
       (if session_exists (cg_key req) (j_sessions svc)
        then Answered (AnsCreate (Inl (StatusAlreadyExists (''Guard already exists: '' @ cg_key req))))
        else CreateStore req, svc)
   | CreateStore req \<Rightarrow>
       if held then None
       else (let (a, svc1) = create_guard_store (env_fs env) (env_now env) req svc in Some (CreateRegister req a, svc1))
   | CreateRegister req a \<Rightarrow> Some
       (if cg_paused req then Answered (AnsCreate (Inr (create_guard_response_of req 0))) else CreateBuild req a,
        create_guard_register a svc)
   | CreateBuild req a \<Rightarrow> Some
       (case create_guard_build env a svc of
          Inl st \<Rightarrow> (Answered (AnsCreate (Inl st)), stop_session a svc)
        | Inr b \<Rightarrow> (CreateReady req a b, svc))
   | CreateReady req a b \<Rightarrow> Some
       (Answered (AnsCreate (Inr (create_guard_response_of req (fst (snd b))))), create_guard_ready (env_now env) a b svc)
   | _ \<Rightarrow> None)"

definition janus_destroy_step ::
  "bool \<Rightarrow> ('p, 'c) janusd \<Rightarrow> ('p, 'c) janus_task \<Rightarrow> (('p, 'c) janus_task \<times> ('p, 'c) janusd) option" where
  "janus_destroy_step held svc t = (case t of
     DestroyRemove n ns p \<Rightarrow>
       if held then None
       else (let key = session_key n ns p; tbl = j_sessions svc in Some
         (case session_get key tbl of
            None \<Rightarrow> Answered (AnsDestroy (Inl (StatusNotFound (''Guard not found: '' @ key))))
          | Some a \<Rightarrow> DestroySession a, svc\<lparr>j_sessions := tbl\<lparr>tbl_map := AList.delete key (tbl_map tbl)\<rparr>\<rparr>))
   | DestroySession a \<Rightarrow> Some (DestroyUnregister a, stop_session a svc)
   | DestroyUnregister a \<Rightarrow> Some
       (Answered (AnsDestroy (Inr ())),
        svc\<lparr>j_metrics := agg_unregister (collector_name svc) (s_name (tbl_heap (j_sessions svc) ! a)) (j_metrics svc)\<rparr>)
   | _ \<Rightarrow> None)"

definition janus_update_step ::
  "('p, 'c) janusd \<Rightarrow> ('p, 'c) janus_task \<Rightarrow> (('p, 'c) janus_task \<times> ('p, 'c) janusd) option" where
  "janus_update_step svc t = (case t of
     UpdateGet n ns p action \<Rightarrow>
       (let key = session_key n ns p in Some
         (case session_get key (j_sessions svc) of
            None \<Rightarrow> Answered (AnsUpdate (Inl (StatusNotFound (''Guard not found: '' @ key))))
          | Some a \<Rightarrow> UpdateLock key a action, svc))
   | UpdateLock key a action \<Rightarrow> (let (r, svc1) = update_guard_at key a action svc in Some (Answered (AnsUpdate r), svc1))
   | PolicyGet n ns p deny allow \<Rightarrow>
       (let key = session_key n ns p in Some
         (case session_get key (j_sessions svc) of
            None \<Rightarrow> Answered (AnsPolicy (Inl (StatusNotFound (''Guard not found: '' @ key))))
          | Some a \<Rightarrow> PolicyLock key a deny allow, svc))
   | PolicyLock key a deny allow \<Rightarrow>
       (let (r, svc1) = update_policy_at key a deny allow svc in Some (Answered (AnsPolicy r), svc1))
   | _ \<Rightarrow> None)"

text \<open>
  The task that \<open>get_guard_state\<close> spawns: the sessions still to visit, whether the client is there, what is in the
  channel and what the client has read. The lock of the table is released when the loop ends.
\<close>

definition janus_state_step ::
  "('p, 'c) janusd \<Rightarrow> ('p, 'c) janus_task \<Rightarrow> (('p, 'c) janus_task \<times> ('p, 'c) janusd) option" where
  "janus_state_step svc t = (case t of
     StateOpen n ns \<Rightarrow> Some (StateSend n ns (map snd (tbl_map (j_sessions svc))) True [] [], svc)
   | StateSend n ns [] connected buf got \<Rightarrow> Some (StateClosed buf got, svc)
   | StateSend n ns (a # as) connected buf got \<Rightarrow>
       (let s = tbl_heap (j_sessions svc) ! a in
        if \<not> state_matches n ns s then Some (StateSend n ns as connected buf got, svc)
        else if \<not> connected then Some (StateClosed buf got, svc)
        else if length buf \<ge> STATE_CHANNEL then None
        else Some (StateSend n ns as connected (buf @ [session_to_guard_state s]) got, svc))
   | _ \<Rightarrow> None)"

definition janus_task_step ::
  "('p, 'c) janus_env \<Rightarrow> bool \<Rightarrow> ('p, 'c) janusd \<Rightarrow> ('p, 'c) janus_task \<Rightarrow> (('p, 'c) janus_task \<times> ('p, 'c) janusd) option" where
  "janus_task_step env held svc t = (case t of
     CreateCount _ \<Rightarrow> janus_create_step env held svc t
   | CreateExists _ \<Rightarrow> janus_create_step env held svc t
   | CreateStore _ \<Rightarrow> janus_create_step env held svc t
   | CreateRegister _ _ \<Rightarrow> janus_create_step env held svc t
   | CreateBuild _ _ \<Rightarrow> janus_create_step env held svc t
   | CreateReady _ _ _ \<Rightarrow> janus_create_step env held svc t
   | DestroyRemove _ _ _ \<Rightarrow> janus_destroy_step held svc t
   | DestroySession _ \<Rightarrow> janus_destroy_step held svc t
   | DestroyUnregister _ \<Rightarrow> janus_destroy_step held svc t
   | MetricsRead name \<Rightarrow> Some (Answered (AnsMetrics (get_metrics name svc)), svc)
   | StateOpen _ _ \<Rightarrow> janus_state_step svc t
   | StateSend _ _ _ _ _ _ \<Rightarrow> janus_state_step svc t
   | _ \<Rightarrow> janus_update_step svc t)"

text \<open>
  What a client does: take the next state of a stream, or leave. A stream is then dropped with what is in it, and
  the future of a handler is dropped at the await where it stands.
\<close>

definition client_reads :: "('p, 'c) janus_task \<Rightarrow> ('p, 'c) janus_task option" where
  "client_reads t = (case t of
     StateSend n ns as True (x # buf) got \<Rightarrow> Some (StateSend n ns as True buf (got @ [x]))
   | StateClosed (x # buf) got \<Rightarrow> Some (StateClosed buf (got @ [x]))
   | _ \<Rightarrow> None)"

definition client_leaves :: "('p, 'c) janus_task \<Rightarrow> ('p, 'c) janus_task option" where
  "client_leaves t = (case t of
     StateSend n ns as True buf got \<Rightarrow> Some (StateSend n ns as False [] got)
   | StateClosed [] got \<Rightarrow> None
   | StateClosed (x # buf) got \<Rightarrow> Some (StateClosed [] got)
   | StateSend n ns as False buf got \<Rightarrow> None
   | StateOpen n ns \<Rightarrow> None
   | Answered r \<Rightarrow> None
   | Dropped \<Rightarrow> None
   | _ \<Rightarrow> Some Dropped)"

definition is_janus_request :: "('p, 'c) janus_task \<Rightarrow> bool" where
  "is_janus_request t = (case t of
     CreateCount _ \<Rightarrow> True | DestroyRemove _ _ _ \<Rightarrow> True | UpdateGet _ _ _ _ \<Rightarrow> True | PolicyGet _ _ _ _ _ \<Rightarrow> True
   | MetricsRead _ \<Rightarrow> True | StateOpen _ _ \<Rightarrow> True | _ \<Rightarrow> False)"

subsection \<open>The machine\<close>

text \<open>
  A move: a task that need not wait makes a step, or the client of task \<open>i\<close>, one of those that act, reads or leaves.
\<close>

inductive task_moves ::
  "('p, 'c) janus_env \<Rightarrow> (nat \<Rightarrow> bool) \<Rightarrow> ('p, 'c) janus_machine \<Rightarrow> ('p, 'c) janus_machine \<Rightarrow> bool"
  for env acts where
  moves: "i < length ts \<Longrightarrow> janus_task_step env (list_ex reads_table ts) svc (ts ! i) = Some (t, svc') \<Longrightarrow>
     task_moves env acts (svc, ts) (svc', ts[i := t])"
| reads: "i < length ts \<Longrightarrow> acts i \<Longrightarrow> client_reads (ts ! i) = Some t \<Longrightarrow> task_moves env acts (svc, ts) (svc, ts[i := t])"
| leaves: "i < length ts \<Longrightarrow> acts i \<Longrightarrow> client_leaves (ts ! i) = Some t \<Longrightarrow> task_moves env acts (svc, ts) (svc, ts[i := t])"

text \<open>A step of the daemon: a request arrives, guards and forwarding tasks count events, or something moves.\<close>

inductive daemon_step :: "(nat \<Rightarrow> bool) \<Rightarrow> ('p, 'c) janus_machine \<Rightarrow> ('p, 'c) janus_machine \<Rightarrow> bool" for acts where
  arrives: "is_janus_request t \<Longrightarrow> daemon_step acts (svc, ts) (svc, ts @ [t])"
| counts: "map gm_guard_name h = map gm_guard_name (j_metrics_heap svc) \<Longrightarrow>
     daemon_step acts (svc, ts) (svc\<lparr>j_metrics_heap := h\<rparr>, ts)"
| works: "task_moves env acts m m' \<Longrightarrow> daemon_step acts m m'"

inductive_cases task_movesE: "task_moves env acts (svc, ts) m'"
inductive_cases daemon_stepE: "daemon_step acts (svc, ts) m'"

lemmas janus_steps = janus_task_step_def janus_create_step_def janus_destroy_step_def janus_update_step_def
  janus_state_step_def

lemmas client_steps = client_reads_def client_leaves_def

subsection \<open>What a step does to the sessions\<close>

definition keeps_identity :: "(guard_session_state session \<Rightarrow> guard_session_state session) \<Rightarrow> bool" where
  "keeps_identity f \<longleftrightarrow> (\<forall>s. s_name (f s) = s_name s \<and> s_namespace (f s) = s_namespace s \<and> s_pod_name (f s) = s_pod_name s)"

lemma keeps_identity_simps [simp]:
  "keeps_identity (\<lambda>s. s)" "keeps_identity session_stop" "keeps_identity (mark_ready c now n)"
  "keeps_identity (\<lambda>s. s\<lparr>s_running := b, s_paused := p\<rparr>)" "keeps_identity (\<lambda>s. s\<lparr>s_state := g s\<rparr>)"
  by (simp_all add: keeps_identity_def session_stop_def mark_ready_def)

lemma session_modify_id [simp]: "session_modify a (\<lambda>s. s) t = t"
  by (simp add: session_modify_def)

text \<open>How the table may change: a session in place, one more session, or one key less.\<close>

definition alters_session :: "guard_session_state session_table \<Rightarrow> guard_session_state session_table \<Rightarrow> bool" where
  "alters_session t t' \<longleftrightarrow> (\<exists>a f. keeps_identity f \<and> t' = session_modify a f t)"

lemma alters_session_refl [simp]: "alters_session t t"
  unfolding alters_session_def by (rule exI, rule exI [of _ "\<lambda>s. s"]) simp

lemma alters_session_modify [simp]: "keeps_identity f \<Longrightarrow> alters_session t (session_modify a f t)"
  by (auto simp: alters_session_def)

lemma update_at_alters:
  "alters_session (j_sessions svc) (j_sessions (snd (update_guard_at key a action svc)))"
  "j_max_guards (snd (update_guard_at key a action svc)) = j_max_guards svc"
  by (simp_all add: update_guard_at_def Let_def split: update_action.split)

lemma policy_at_alters:
  "alters_session (j_sessions svc) (j_sessions (snd (update_policy_at key a deny allow svc)))"
  "j_max_guards (snd (update_policy_at key a deny allow svc)) = j_max_guards svc"
  by (simp_all add: update_policy_at_def Let_def)

lemma create_store_sessions:
  "\<exists>s. j_sessions (snd (create_guard_store fs now req svc)) = snd (map_insert (cg_key req) s (j_sessions svc))"
  "j_max_guards (snd (create_guard_store fs now req svc)) = j_max_guards svc"
  by (auto simp: create_guard_store_def Let_def split_beta)

lemma create_step_sessions:
  assumes "janus_create_step env held svc t = Some (t', svc')"
  shows "j_max_guards svc' = j_max_guards svc"
    and "alters_session (j_sessions svc) (j_sessions svc') \<or>
      \<not> held \<and> (\<exists>req s. t = CreateStore req \<and> j_sessions svc' = snd (map_insert (cg_key req) s (j_sessions svc)))"
proof -
  have store: "\<exists>s. j_sessions v = snd (map_insert (cg_key req) s (j_sessions svc))" "j_max_guards v = j_max_guards svc"
    if "create_guard_store (env_fs env) (env_now env) req svc = (a, v)" for req a v
    using create_store_sessions [of "env_fs env" "env_now env" req svc] that by auto
  have ready: "alters_session (j_sessions svc) (j_sessions (create_guard_ready now a b svc))"
    "j_max_guards (create_guard_ready now a b svc) = j_max_guards svc" for now a b
    by (cases b; simp add: create_guard_ready_def)+
  show "j_max_guards svc' = j_max_guards svc"
    using assms store(2) ready(2)
    by (auto simp: janus_create_step_def create_guard_register_def split: janus_task.splits if_splits prod.splits sum.splits)
  show "alters_session (j_sessions svc) (j_sessions svc') \<or>
      \<not> held \<and> (\<exists>req s. t = CreateStore req \<and> j_sessions svc' = snd (map_insert (cg_key req) s (j_sessions svc)))"
    using assms store(1) ready(1)
    by (auto simp: janus_create_step_def create_guard_register_def split: janus_task.splits if_splits prod.splits sum.splits)
qed

lemma destroy_step_sessions:
  assumes "janus_destroy_step held svc t = Some (t', svc')"
  shows "j_max_guards svc' = j_max_guards svc"
    and "alters_session (j_sessions svc) (j_sessions svc') \<or>
      \<not> held \<and> (\<exists>k. j_sessions svc' = (j_sessions svc)\<lparr>tbl_map := AList.delete k (tbl_map (j_sessions svc))\<rparr>)"
  using assms by (auto simp: janus_destroy_step_def Let_def split: janus_task.splits if_splits)

lemma update_step_sessions:
  assumes "janus_update_step svc t = Some (t', svc')"
  shows "j_max_guards svc' = j_max_guards svc" and "alters_session (j_sessions svc) (j_sessions svc')"
proof -
  have u: "j_max_guards v = j_max_guards svc" "alters_session (j_sessions svc) (j_sessions v)"
    if "update_guard_at key a action svc = (r, v)" for key a action r v
    using update_at_alters [where svc = svc and key = key and a = a and action = action] that by auto
  have p: "j_max_guards v = j_max_guards svc" "alters_session (j_sessions svc) (j_sessions v)"
    if "update_policy_at key a deny allow svc = (r, v)" for key a deny allow r v
    using policy_at_alters [where svc = svc and key = key and a = a and deny = deny and allow = allow] that by auto
  show "j_max_guards svc' = j_max_guards svc"
    using assms by (auto simp: janus_update_step_def Let_def u(1) p(1) split: janus_task.splits prod.splits)
  show "alters_session (j_sessions svc) (j_sessions svc')"
    using assms by (auto simp: janus_update_step_def Let_def u(2) p(2) split: janus_task.splits prod.splits)
qed

lemma state_step_service: "janus_state_step svc t = Some (t', svc') \<Longrightarrow> svc' = svc"
  by (auto simp: janus_state_step_def Let_def split: janus_task.splits list.splits if_splits)

lemma task_step_sessions:
  assumes "janus_task_step env held svc t = Some (t', svc')"
  shows "j_max_guards svc' = j_max_guards svc"
    and "alters_session (j_sessions svc) (j_sessions svc') \<or>
      \<not> held \<and> (\<exists>req s. t = CreateStore req \<and> j_sessions svc' = snd (map_insert (cg_key req) s (j_sessions svc))) \<or>
      \<not> held \<and> (\<exists>k. j_sessions svc' = (j_sessions svc)\<lparr>tbl_map := AList.delete k (tbl_map (j_sessions svc))\<rparr>)"
proof -
  consider "janus_create_step env held svc t = Some (t', svc')" | "janus_destroy_step held svc t = Some (t', svc')"
    | "janus_update_step svc t = Some (t', svc')" | "janus_state_step svc t = Some (t', svc')" | "svc' = svc"
    using assms by (cases t) (auto simp: janus_task_step_def)
  note cases = this
  show "j_max_guards svc' = j_max_guards svc"
    using cases by cases (auto dest: create_step_sessions(1) destroy_step_sessions(1) update_step_sessions(1) state_step_service)
  show "alters_session (j_sessions svc) (j_sessions svc') \<or>
      \<not> held \<and> (\<exists>req s. t = CreateStore req \<and> j_sessions svc' = snd (map_insert (cg_key req) s (j_sessions svc))) \<or>
      \<not> held \<and> (\<exists>k. j_sessions svc' = (j_sessions svc)\<lparr>tbl_map := AList.delete k (tbl_map (j_sessions svc))\<rparr>)"
    using cases
    by cases (simp_all, blast dest: create_step_sessions(2), blast dest: destroy_step_sessions(2),
        blast dest: update_step_sessions(2), use state_step_service alters_session_refl in blast)
qed

subsection \<open>The limit under concurrency\<close>

text \<open>A creation that has passed the test of the limit and has not stored its session.\<close>

definition is_creating :: "('p, 'c) janus_task \<Rightarrow> nat" where
  "is_creating t = (case t of CreateExists _ \<Rightarrow> 1 | CreateStore _ \<Rightarrow> 1 | _ \<Rightarrow> 0)"

definition creating :: "('p, 'c) janus_task list \<Rightarrow> nat" where
  "creating ts = sum_list (map is_creating ts)"

text \<open>The steps after which at most \<open>N\<close> creations are in that window.\<close>

definition step_within :: "nat \<Rightarrow> (nat \<Rightarrow> bool) \<Rightarrow> ('p, 'c) janus_machine \<Rightarrow> ('p, 'c) janus_machine \<Rightarrow> bool" where
  "step_within N acts m m' \<longleftrightarrow> daemon_step acts m m' \<and> creating (snd m') \<le> N"

lemma client_step_creating:
  "client_reads t = Some t' \<Longrightarrow> is_creating t' = is_creating t" "client_leaves t = Some t' \<Longrightarrow> is_creating t' \<le> is_creating t"
  by (auto simp: client_steps is_creating_def split: janus_task.splits list.splits bool.splits)

lemma alters_session_count: "alters_session t t' \<Longrightarrow> session_count t' = session_count t"
  and alters_session_wf: "alters_session t t' \<Longrightarrow> table_wf t' = table_wf t"
  by (auto simp: alters_session_def)

lemma map_insert_count_le: "session_count (snd (map_insert k s t)) \<le> Suc (session_count t)"
proof -
  have "length (AList.update k a xs) \<le> Suc (length xs)" for a and xs :: "(string \<times> nat) list" by (induction xs) auto
  then show ?thesis by (simp add: session_count_def map_insert_def Let_def)
qed

lemma delete_key_count: "session_count (t\<lparr>tbl_map := AList.delete k (tbl_map t)\<rparr>) \<le> session_count t"
  by (simp add: session_count_def length_delete_le)

lemma task_step_count:
  assumes "janus_task_step env held svc t = Some (t', svc')"
  shows "session_count (j_sessions svc') \<le> session_count (j_sessions svc) \<or>
    (\<exists>req. t = CreateStore req) \<and> session_count (j_sessions svc') \<le> Suc (session_count (j_sessions svc))"
  using task_step_sessions(2) [OF assms] by (auto simp: map_insert_count_le delete_key_count dest: alters_session_count)

text \<open>A step stores at most what was pending, unless it has just passed the test.\<close>

lemma task_step_creating:
  assumes "janus_task_step env held svc t = Some (t', svc')"
  shows "session_count (j_sessions svc') + is_creating t' \<le> session_count (j_sessions svc) + is_creating t \<or>
    session_count (j_sessions svc) < j_max_guards svc \<and> j_sessions svc' = j_sessions svc \<and> is_creating t = 0 \<and> is_creating t' = 1"
proof (cases "\<exists>req. t = CreateStore req \<or> t = CreateCount req")
  case True
  with assms task_step_count [OF assms] show ?thesis
    by (auto simp: janus_steps is_creating_def split: if_splits prod.splits)
next
  case False
  with assms have "is_creating t' \<le> is_creating t"
    by (auto simp: janus_steps is_creating_def Let_def split: janus_task.splits if_splits option.splits list.splits prod.splits sum.splits)
  with False task_step_count [OF assms] show ?thesis by auto
qed

lemma task_step_wf:
  assumes "janus_task_step env held svc t = Some (t', svc')" "table_wf (j_sessions svc)"
  shows "table_wf (j_sessions svc')"
  using task_step_sessions(2) [OF assms(1)] assms(2) by (auto simp: alters_session_wf map_insert_wf delete_key_wf)

definition limit_inv :: "nat \<Rightarrow> nat \<Rightarrow> ('p, 'c) janus_machine \<Rightarrow> bool" where
  "limit_inv limit N m \<longleftrightarrow> table_wf (j_sessions (fst m)) \<and> j_max_guards (fst m) = limit \<and>
     session_count (j_sessions (fst m)) + creating (snd m) < limit + N"

lemma moves_limit:
  assumes "task_moves env acts m m'" and "limit_inv limit N m" and "creating (snd m') \<le> N"
  shows "limit_inv limit N m'"
  using assms
proof (induction rule: task_moves.induct)
  case (moves i ts svc t svc')
  have "creating (ts[i := t]) + is_creating (ts ! i) = creating ts + is_creating t"
    unfolding creating_def by (rule sum_list_map_update) fact
  with moves task_step_creating [OF moves(2)] show ?case
    by (auto simp: limit_inv_def task_step_sessions(1) task_step_wf)
next
  case (reads i ts t svc)
  with sum_list_map_update [of i ts is_creating t] show ?case by (simp add: limit_inv_def creating_def client_step_creating)
next
  case (leaves i ts t svc)
  with sum_list_map_update [of i ts is_creating t] client_step_creating(2) [OF leaves(3)] show ?case
    by (simp add: limit_inv_def creating_def)
qed

lemma step_within_limit: "step_within N acts m m' \<Longrightarrow> limit_inv limit N m \<Longrightarrow> limit_inv limit N m'"
  unfolding step_within_def
  by (auto elim!: daemon_step.cases intro: moves_limit)
    (auto simp: limit_inv_def creating_def is_creating_def is_janus_request_def split: janus_task.splits)

text \<open>
  C7: The limit under concurrency. From a fresh service, however requests arrive and their steps interleave,
  clients read or leave and the kernel answers: when at most \<open>N\<close> creations (at least one) are at any time
  between the test of the limit and the insertion, the service never holds more than \<open>max_guards + (N - 1)\<close>
  guards, and its table stays well-formed. One creation at a time keeps the limit.
\<close>

theorem concurrent_guard_limit:
  assumes "(step_within N acts)\<^sup>*\<^sup>* (janusd_new runtime node cluster max_guards audit, []) (svc, ts)" and "0 < N"
  shows "session_count (j_sessions svc) \<le> max_guards + (N - 1) \<and> table_wf (j_sessions svc)"
proof -
  have "limit_inv max_guards N (svc, ts)"
    using assms(1)
  proof (induction rule: rtranclp_induct)
    case base
    show ?case using \<open>0 < N\<close> by (simp add: limit_inv_def janusd_new_def creating_def session_count_def) (simp add: new_session_map_def)
  qed (rule step_within_limit)
  with \<open>0 < N\<close> show ?thesis by (auto simp: limit_inv_def)
qed

lemma within_arrives:
  "is_janus_request t \<Longrightarrow> creating (ts @ [t]) \<le> N \<Longrightarrow> (step_within N acts)\<^sup>*\<^sup>* (svc, ts @ [t]) m \<Longrightarrow>
   (step_within N acts)\<^sup>*\<^sup>* (svc, ts) m"
  by (rule converse_rtranclp_into_rtranclp) (auto simp: step_within_def intro: daemon_step.arrives)

lemma within_moves:
  "i < length ts \<Longrightarrow> janus_task_step env (list_ex reads_table ts) svc (ts ! i) = Some (t, svc') \<Longrightarrow> creating (ts[i := t]) \<le> N \<Longrightarrow>
   (step_within N acts)\<^sup>*\<^sup>* (svc', ts[i := t]) m \<Longrightarrow> (step_within N acts)\<^sup>*\<^sup>* (svc, ts) m"
  by (rule converse_rtranclp_into_rtranclp) (auto simp: step_within_def intro: daemon_step.works task_moves.moves)

text \<open>The bound is reached: a service for one guard ends up with two when two creations overlap.\<close>

theorem concurrent_guard_limit_witness:
  "\<exists>svc ts. (step_within 2 (\<lambda>_. False))\<^sup>*\<^sup>* (janusd_new None ''node'' ''cluster'' 1 NullAuditLogger, []) (svc, ts) \<and>
     session_count (j_sessions (svc :: (string, ref_lru) janusd)) = 1 + (2 - 1) \<and> table_wf (j_sessions svc)"
proof -
  let ?a = "example_request ''a''" and ?b = "example_request ''b''"
  let ?new = "janusd_new None ''node'' ''cluster'' 1 NullAuditLogger :: (string, ref_lru) janusd"
  let ?svc1 = "snd (create_guard_store example_fs 1000 ?a ?new)"
  let ?svc2 = "snd (create_guard_store example_fs 1000 ?b ?svc1)"
  let ?m = "(?svc2, [CreateRegister ?a 0, CreateRegister ?b 1])"
  note defs = janus_steps janusd_new_def new_session_map_def session_count_def session_exists_def reads_table_def
    creating_def is_creating_def is_janus_request_def create_guard_store_def map_insert_def example_env_def
  have ka: "cg_key ?a \<noteq> cg_key ?b" by (simp add: cg_key_def session_key_def example_request_def)
  have "(step_within 2 (\<lambda>_. False))\<^sup>*\<^sup>* (?new, []) ?m"
    apply (rule within_arrives [of "CreateCount ?a"], simp add: defs, simp add: defs)
    apply (rule within_arrives [of "CreateCount ?b"], simp add: defs, simp add: defs)
    apply (rule within_moves [of 0 _ example_env _ "CreateExists ?a" ?new], simp, simp add: defs, simp add: defs)
    apply (rule within_moves [of 1 _ example_env _ "CreateExists ?b" ?new], simp, simp add: defs, simp add: defs)
    apply (rule within_moves [of 0 _ example_env _ "CreateStore ?a" ?new], simp, simp add: defs, simp add: defs)
    apply (rule within_moves [of 1 _ example_env _ "CreateStore ?b" ?new], simp, simp add: defs, simp add: defs)
    apply (rule within_moves [of 0 _ example_env _ "CreateRegister ?a 0" ?svc1], simp, simp add: defs, simp add: defs)
    apply (rule within_moves [of 1 _ example_env _ "CreateRegister ?b 1" ?svc2], simp, simp add: defs, simp add: defs)
    apply simp
    done
  moreover from concurrent_guard_limit [OF this] have "table_wf (j_sessions ?svc2)" by simp
  moreover have "session_count (j_sessions ?svc2) = 1 + (2 - 1)"
    using ka by (simp add: defs)
  ultimately show ?thesis by blast
qed

subsection \<open>Progress\<close>

text \<open>How many steps a task has left, in two ranks: a stream of states knows its length when it opens.\<close>

definition steps_left :: "('p, 'c) janus_task \<Rightarrow> nat" where
  "steps_left t = (case t of
     CreateCount _ \<Rightarrow> 6 | CreateExists _ \<Rightarrow> 5 | CreateStore _ \<Rightarrow> 4 | CreateRegister _ _ \<Rightarrow> 3 | CreateBuild _ _ \<Rightarrow> 2
   | CreateReady _ _ _ \<Rightarrow> 1 | DestroyRemove _ _ _ \<Rightarrow> 3 | DestroySession _ \<Rightarrow> 2 | DestroyUnregister _ \<Rightarrow> 1
   | UpdateGet _ _ _ _ \<Rightarrow> 2 | UpdateLock _ _ _ \<Rightarrow> 1 | PolicyGet _ _ _ _ _ \<Rightarrow> 2 | PolicyLock _ _ _ _ \<Rightarrow> 1
   | MetricsRead _ \<Rightarrow> 1 | StateOpen _ _ \<Rightarrow> 1 | StateSend _ _ _ _ _ _ \<Rightarrow> 0 | StateClosed _ _ \<Rightarrow> 0 | Answered _ \<Rightarrow> 0
   | Dropped \<Rightarrow> 0)"

definition stream_left :: "('p, 'c) janus_task \<Rightarrow> nat" where
  "stream_left t = (case t of
     StateSend _ _ as connected buf _ \<Rightarrow> Suc (2 * length as + length buf + (if connected then 1 else 0))
   | StateClosed buf _ \<Rightarrow> length buf
   | _ \<Rightarrow> 0)"

definition is_finished :: "('p, 'c) janus_task \<Rightarrow> bool" where
  "is_finished t = (case t of Answered _ \<Rightarrow> True | Dropped \<Rightarrow> True | StateClosed buf _ \<Rightarrow> buf = [] | _ \<Rightarrow> False)"

definition machine_left :: "('p, 'c) janus_machine \<Rightarrow> nat \<times> nat" where
  "machine_left m = (sum_list (map steps_left (snd m)), sum_list (map stream_left (snd m)))"

lemma task_step_left:
  "janus_task_step env held svc t = Some (t', svc') \<Longrightarrow>
     steps_left t' < steps_left t \<or> steps_left t' = steps_left t \<and> stream_left t' < stream_left t"
  by (cases t) (auto simp: janus_steps steps_left_def stream_left_def Let_def
      split: if_splits option.splits list.splits prod.splits sum.splits)

lemma client_step_left:
  "client_reads t = Some t' \<Longrightarrow> steps_left t' = steps_left t \<and> stream_left t' < stream_left t"
  "client_leaves t = Some t' \<Longrightarrow> steps_left t' < steps_left t \<or> steps_left t' = steps_left t \<and> stream_left t' < stream_left t"
  by (auto simp: client_steps steps_left_def stream_left_def split: janus_task.splits list.splits bool.splits)

lemma update_left:
  assumes "i < length ts" and "steps_left t < steps_left (ts ! i) \<or> steps_left t = steps_left (ts ! i) \<and> stream_left t < stream_left (ts ! i)"
  shows "(machine_left (svc', ts[i := t]), machine_left (svc, ts)) \<in> less_than <*lex*> less_than"
  using sum_list_map_update [OF assms(1), of steps_left t] sum_list_map_update [OF assms(1), of stream_left t] assms(2)
  by (auto simp: machine_left_def)

lemma moves_left: "task_moves env acts m m' \<Longrightarrow> (machine_left m', machine_left m) \<in> less_than <*lex*> less_than"
  by (induction rule: task_moves.induct) (rule update_left, assumption, simp add: task_step_left client_step_left)+

text \<open>When nobody reads the table, every task goes on.\<close>

lemma task_goes_on:
  "\<not> is_finished t \<Longrightarrow> \<not> reads_table t \<Longrightarrow> (\<nexists>buf got. t = StateClosed buf got) \<Longrightarrow> \<exists>t' svc'. janus_task_step env False svc t = Some (t', svc')"
  by (cases t) (auto simp: janus_steps is_finished_def reads_table_def Let_def split: option.splits list.splits prod.splits sum.splits)

text \<open>A stream whose client acts goes on: it sends, or the client makes room.\<close>

lemma stream_goes_on:
  "reads_table t \<or> (\<exists>x buf got. t = StateClosed (x # buf) got) \<Longrightarrow>
     (\<exists>t' svc'. janus_task_step env held svc t = Some (t', svc')) \<or> (\<exists>t'. client_reads t = Some t')"
  by (auto simp: janus_steps client_reads_def reads_table_def STATE_CHANNEL_def Let_def split: janus_task.splits list.splits bool.splits)

lemma finished_stays:
  "is_finished t \<Longrightarrow> janus_task_step env held svc t = None" "is_finished t \<Longrightarrow> client_reads t = None"
  "is_finished t \<Longrightarrow> client_leaves t = None"
  by (cases t; simp add: is_finished_def janus_task_step_def janus_update_step_def client_steps)+

text \<open>
  The moves of a daemon whose clients read what they asked for; the clients in \<open>quits\<close> may give up, the others stay.
\<close>

inductive served_moves ::
  "('p, 'c) janus_env \<Rightarrow> (nat \<Rightarrow> bool) \<Rightarrow> ('p, 'c) janus_machine \<Rightarrow> ('p, 'c) janus_machine \<Rightarrow> bool"
  for env quits where
  serves: "i < length ts \<Longrightarrow> janus_task_step env (list_ex reads_table ts) svc (ts ! i) = Some (t, svc') \<Longrightarrow>
     served_moves env quits (svc, ts) (svc', ts[i := t])"
| consumes: "i < length ts \<Longrightarrow> client_reads (ts ! i) = Some t \<Longrightarrow> served_moves env quits (svc, ts) (svc, ts[i := t])"
| gives_up: "i < length ts \<Longrightarrow> quits i \<Longrightarrow> client_leaves (ts ! i) = Some t \<Longrightarrow> served_moves env quits (svc, ts) (svc, ts[i := t])"

abbreviation served_run :: "(nat \<Rightarrow> bool) \<Rightarrow> ('p, 'c) janus_machine \<Rightarrow> ('p, 'c) janus_machine \<Rightarrow> bool" where
  "served_run quits \<equiv> (\<lambda>m m'. \<exists>env. served_moves env quits m m')\<^sup>*\<^sup>*"

lemma served_task_moves: "served_moves env quits m m' \<Longrightarrow> task_moves env (\<lambda>_. True) m m'"
  by (induction rule: served_moves.induct) (auto intro: task_moves.intros)

lemma no_endless_run:
  fixes run :: "nat \<Rightarrow> ('p, 'c) janus_machine"
  shows "\<not> (\<forall>k. \<exists>env. task_moves env acts (run k) (run (Suc k)))"
proof
  assume "\<forall>k. \<exists>env. task_moves env acts (run k) (run (Suc k))"
  then have "(run (Suc k), run k) \<in> inv_image (less_than <*lex*> less_than) machine_left" for k using moves_left by fastforce
  moreover have "wf (inv_image (less_than <*lex*> less_than) (machine_left :: ('p, 'c) janus_machine \<Rightarrow> _))" by auto
  ultimately show False unfolding wf_iff_no_infinite_down_chain by blast
qed

lemma stuck_finished:
  assumes "\<nexists>env m'. served_moves env quits (svc, ts) m'" and "i < length ts"
  shows "is_finished (ts ! i)"
proof (rule ccontr)
  fix env :: "('p, 'c) janus_env"
  have stream: "\<not> reads_table (ts ! j) \<and> (\<nexists>x buf got. ts ! j = StateClosed (x # buf) got)" if "j < length ts" for j
    using stream_goes_on [of "ts ! j" undefined "list_ex reads_table ts" svc] that assms(1) by (meson served_moves.intros)
  then have "\<not> list_ex reads_table ts" by (auto simp: list_ex_iff in_set_conv_nth)
  moreover assume "\<not> is_finished (ts ! i)"
  ultimately obtain t' svc' where "janus_task_step undefined (list_ex reads_table ts) svc (ts ! i) = Some (t', svc')"
    using task_goes_on [of "ts ! i" undefined svc] stream [OF assms(2)] by (cases "ts ! i") (auto simp: is_finished_def neq_Nil_conv)
  with assms show False by (meson served_moves.intros)
qed

text \<open>The call that a task serves; a dropped one serves none.\<close>

datatype call = CallCreate | CallDestroy | CallUpdate | CallPolicy | CallMetrics | CallState | CallNone

definition call_of :: "('p, 'c) janus_task \<Rightarrow> call" where
  "call_of t = (case t of
     CreateCount _ \<Rightarrow> CallCreate | CreateExists _ \<Rightarrow> CallCreate | CreateStore _ \<Rightarrow> CallCreate | CreateRegister _ _ \<Rightarrow> CallCreate
   | CreateBuild _ _ \<Rightarrow> CallCreate | CreateReady _ _ _ \<Rightarrow> CallCreate
   | DestroyRemove _ _ _ \<Rightarrow> CallDestroy | DestroySession _ \<Rightarrow> CallDestroy | DestroyUnregister _ \<Rightarrow> CallDestroy
   | UpdateGet _ _ _ _ \<Rightarrow> CallUpdate | UpdateLock _ _ _ \<Rightarrow> CallUpdate
   | PolicyGet _ _ _ _ _ \<Rightarrow> CallPolicy | PolicyLock _ _ _ _ \<Rightarrow> CallPolicy | MetricsRead _ \<Rightarrow> CallMetrics
   | StateOpen _ _ \<Rightarrow> CallState | StateSend _ _ _ _ _ _ \<Rightarrow> CallState | StateClosed _ _ \<Rightarrow> CallState
   | Answered r \<Rightarrow> (case r of AnsCreate _ \<Rightarrow> CallCreate | AnsDestroy _ \<Rightarrow> CallDestroy | AnsUpdate _ \<Rightarrow> CallUpdate
       | AnsPolicy _ \<Rightarrow> CallPolicy | AnsMetrics _ \<Rightarrow> CallMetrics)
   | Dropped \<Rightarrow> CallNone)"

lemma call_of_step:
  "janus_task_step env held svc t = Some (t', svc') \<Longrightarrow> call_of t' = call_of t" "client_reads t = Some t' \<Longrightarrow> call_of t' = call_of t"
  by (cases t; auto simp: janus_steps call_of_def client_reads_def Let_def
      split: if_splits option.splits list.splits prod.splits sum.splits bool.splits)+

lemma served_run_calls:
  assumes "served_run quits (svc0, ts0) (svc, ts)"
  shows "length ts = length ts0 \<and> (\<forall>i<length ts. \<not> quits i \<longrightarrow> call_of (ts ! i) = call_of (ts0 ! i))"
  using assms
proof (induction rule: rtranclp_induct2)
  case (step svc ts svc' ts')
  from step(2) obtain env where "served_moves env quits (svc, ts) (svc', ts')" by blast
  from this step(3) show ?case by cases (auto simp: nth_list_update_if call_of_step)
qed simp

subsection \<open>What a stream of states delivers\<close>

definition session_id :: "guard_session_state session \<Rightarrow> string \<times> string \<times> string" where
  "session_id s = (s_name s, s_namespace s, s_pod_name s)"

definition state_id :: "guard_state \<Rightarrow> string \<times> string \<times> string" where
  "state_id g = (st_guard_name g, st_namespace g, st_pod_name g)"

lemma state_id_session [simp]: "state_id (session_to_guard_state s) = session_id s"
  by (simp add: state_id_def session_id_def session_to_guard_state_def)

text \<open>The sessions that match the request, by identity.\<close>

definition wanted :: "string \<Rightarrow> string \<Rightarrow> guard_session_state session list \<Rightarrow> (string \<times> string \<times> string) list" where
  "wanted n ns ss = map session_id (filter (state_matches n ns) ss)"

lemma alters_session_wanted:
  assumes "alters_session t t'"
  shows "wanted n ns (map (\<lambda>a. tbl_heap t' ! a) as) = wanted n ns (map (\<lambda>a. tbl_heap t ! a) as)"
proof -
  from assms obtain b f where f: "keeps_identity f" "t' = session_modify b f t" by (auto simp: alters_session_def)
  have "tbl_heap t' ! a \<in> {tbl_heap t ! a, f (tbl_heap t ! a)}" for a
    using f(2) by (cases "a = b"; cases "b < length (tbl_heap t)") (simp_all add: session_modify_def list_update_beyond)
  with f(1) have "session_id (tbl_heap t' ! a) = session_id (tbl_heap t ! a) \<and>
      state_matches n ns (tbl_heap t' ! a) = state_matches n ns (tbl_heap t ! a)" for a
    unfolding keeps_identity_def state_matches_def session_id_def by (metis empty_iff insert_iff)
  then show ?thesis by (induction as) (simp_all add: wanted_def)
qed

text \<open>Of a stream in progress: what was read, what is in the channel and what is still to visit make up the answer.\<close>

definition delivers ::
  "string \<Rightarrow> string \<Rightarrow> (string \<times> string \<times> string) list \<Rightarrow> ('p, 'c) janusd \<Rightarrow> ('p, 'c) janus_task \<Rightarrow> bool" where
  "delivers n ns ids svc t = (case t of
     StateSend n' ns' as connected buf got \<Rightarrow> n' = n \<and> ns' = ns \<and> connected \<and>
       ids = map state_id (got @ buf) @ wanted n ns (map (\<lambda>a. tbl_heap (j_sessions svc) ! a) as)
   | StateClosed buf got \<Rightarrow> ids = map state_id (got @ buf)
   | _ \<Rightarrow> False)"

lemma delivers_step:
  assumes "delivers n ns ids svc t" and "janus_task_step env held svc t = Some (t', svc')"
  shows "delivers n ns ids svc' t'"
  using assms by (auto simp: delivers_def janus_steps wanted_def Let_def split: janus_task.splits list.splits if_splits)

lemma delivers_reads: "delivers n ns ids svc t \<Longrightarrow> client_reads t = Some t' \<Longrightarrow> delivers n ns ids svc t'"
  by (auto simp: delivers_def client_reads_def split: janus_task.splits list.splits bool.splits)

lemma delivers_other:
  assumes "delivers n ns ids svc t" and "janus_task_step env held svc u = Some (u', svc')" and "reads_table t \<Longrightarrow> held"
  shows "delivers n ns ids svc' t"
proof (cases "reads_table t")
  case True
  with task_step_sessions(2) [OF assms(2)] assms(3) have "alters_session (j_sessions svc) (j_sessions svc')" by simp
  from alters_session_wanted [OF this] assms(1) show ?thesis by (auto simp: delivers_def split: janus_task.splits)
next
  case False
  with assms(1) show ?thesis by (auto simp: delivers_def reads_table_def split: janus_task.splits)
qed

text \<open>From the moment it is opened, a stream whose client stays delivers what was in the table then.\<close>

lemma served_stream:
  assumes "served_run quits (svc0, ts0) (svc, ts)" and "i < length ts0" and "\<not> quits i" and "ts0 ! i = StateOpen n ns"
  shows "ts ! i = StateOpen n ns \<or> (\<exists>svc1 ts1. served_run quits (svc0, ts0) (svc1, ts1) \<and> served_run quits (svc1, ts1) (svc, ts) \<and>
    ts1 ! i = StateOpen n ns \<and> delivers n ns (wanted n ns (live_sessions svc1)) svc (ts ! i))"
  using assms(1)
proof (induction rule: rtranclp_induct2)
  case refl
  with assms(4) show ?case by simp
next
  case (step svc ts svc' ts')
  from step(2) obtain env where mv: "served_moves env quits (svc, ts) (svc', ts')" by blast
  have len: "i < length ts" using served_run_calls [OF step(1)] assms(2) by simp
  have goes: "ts' ! i = ts ! i \<or> ts ! i = StateOpen n ns \<and> svc' = svc \<and>
      ts' ! i = StateSend n ns (map snd (tbl_map (j_sessions svc))) True [] [] \<or> ts ! i \<noteq> StateOpen n ns"
    using mv len assms(3) by cases (auto simp: nth_list_update_if janus_steps client_steps)
  have on: "delivers n ns ids svc' (ts' ! i)" if "delivers n ns ids svc (ts ! i)" for ids
    using mv
  proof cases
    case (serves j t)
    moreover have "reads_table (ts ! i) \<Longrightarrow> list_ex reads_table ts" using len by (auto simp: list_ex_length)
    ultimately show ?thesis using that delivers_step delivers_other len by (cases "i = j") (auto, blast+)
  next
    case (consumes j t)
    with that delivers_reads len show ?thesis by (cases "i = j") auto
  next
    case (gives_up j t)
    with that assms(3) show ?thesis by (cases "i = j") auto
  qed
  from step.IH show ?case
  proof (elim disjE exE conjE)
    assume opened: "ts ! i = StateOpen n ns"
    show ?thesis
    proof (cases "ts' ! i = StateOpen n ns")
      case False
      with goes opened have "svc' = svc" "ts' ! i = StateSend n ns (map snd (tbl_map (j_sessions svc))) True [] []" by auto
      then have "delivers n ns (wanted n ns (live_sessions svc)) svc' (ts' ! i)"
        by (simp add: delivers_def live_sessions_def o_def case_prod_unfold)
      with opened step(1,2) show ?thesis by (intro disjI2 exI [of _ svc] exI [of _ ts]) auto
    qed simp
  next
    fix svc1 ts1
    assume "served_run quits (svc0, ts0) (svc1, ts1)" "served_run quits (svc1, ts1) (svc, ts)" "ts1 ! i = StateOpen n ns"
      "delivers n ns (wanted n ns (live_sessions svc1)) svc (ts ! i)"
    with on step(2) show ?thesis by (intro disjI2 exI [of _ svc1] exI [of _ ts1]) (auto intro: rtranclp.rtrancl_into_rtrancl)
  qed
qed

text \<open>
  C8: Every client of janusd that stays gets its answer. Whatever requests are in the daemon and whatever their clients
  do, no run of their tasks goes on for ever without new requests. When the clients read their streams, the
  run can only end when every call whose client has not given up is complete: a creation, destruction, update or query
  of metrics has the answer of its call, and a stream of states is closed and read to its end, with one state, in the
  order of the table, for each matching guard that was in the table when the stream was opened.
\<close>

theorem janusd_requests_finish:
  fixes svc0 :: "('p, 'c) janusd"
  assumes "list_all is_janus_request ts0" and "served_run quits (svc0, ts0) (svc, ts)" and "\<nexists>env m'. served_moves env quits (svc, ts) m'"
  shows "(\<nexists>run :: nat \<Rightarrow> ('p, 'c) janus_machine. \<forall>k. \<exists>env. task_moves env acts (run k) (run (Suc k))) \<and>
    length ts = length ts0 \<and>
    (\<forall>i<length ts. \<not> quits i \<longrightarrow> call_of (ts ! i) = call_of (ts0 ! i) \<and>
      ((\<exists>r. ts ! i = Answered r) \<or>
       (\<exists>n ns svc1 ts1 got. ts0 ! i = StateOpen n ns \<and> ts ! i = StateClosed [] got \<and>
          served_run quits (svc0, ts0) (svc1, ts1) \<and> served_run quits (svc1, ts1) (svc, ts) \<and> ts1 ! i = StateOpen n ns \<and>
          map state_id got = wanted n ns (live_sessions svc1))))"
proof (intro conjI allI impI)
  note calls = served_run_calls [OF assms(2)]
  show "\<nexists>run :: nat \<Rightarrow> ('p, 'c) janus_machine. \<forall>k. \<exists>env. task_moves env acts (run k) (run (Suc k))" using no_endless_run by blast
  show "length ts = length ts0" using calls by simp
  fix i
  assume i: "i < length ts" "\<not> quits i"
  with calls show call: "call_of (ts ! i) = call_of (ts0 ! i)" by simp
  have req: "is_janus_request (ts0 ! i)" using assms(1) i calls by (simp add: list_all_length)
  then have "call_of (ts0 ! i) \<noteq> CallNone" by (auto simp: is_janus_request_def call_of_def split: janus_task.splits)
  with stuck_finished [OF assms(3) i(1)] call consider (answer) r where "ts ! i = Answered r" | (stream) got where "ts ! i = StateClosed [] got"
    by (cases "ts ! i") (auto simp: is_finished_def call_of_def)
  then show "(\<exists>r. ts ! i = Answered r) \<or>
       (\<exists>n ns svc1 ts1 got. ts0 ! i = StateOpen n ns \<and> ts ! i = StateClosed [] got \<and>
          served_run quits (svc0, ts0) (svc1, ts1) \<and> served_run quits (svc1, ts1) (svc, ts) \<and> ts1 ! i = StateOpen n ns \<and>
          map state_id got = wanted n ns (live_sessions svc1))"
  proof cases
    case (stream got)
    with call req obtain n ns where o: "ts0 ! i = StateOpen n ns"
      by (cases "ts0 ! i") (auto simp: call_of_def is_janus_request_def)
    from served_stream [OF assms(2) _ i(2) o] i calls stream obtain svc1 ts1 where
      "served_run quits (svc0, ts0) (svc1, ts1)" "served_run quits (svc1, ts1) (svc, ts)" "ts1 ! i = StateOpen n ns"
      "map state_id got = wanted n ns (live_sessions svc1)" by (auto simp: delivers_def)
    with o stream show ?thesis by blast
  qed simp
qed

subsection \<open>Tasks alone\<close>

text \<open>The moves of a daemon that has one task.\<close>

definition alone_runs :: "('p, 'c) janus_env \<Rightarrow> ('p, 'c) janusd \<times> ('p, 'c) janus_task \<Rightarrow> ('p, 'c) janusd \<times> ('p, 'c) janus_task \<Rightarrow> bool" where
  "alone_runs env c d \<longleftrightarrow> (task_moves env (\<lambda>_. True))\<^sup>*\<^sup>* (fst c, [snd c]) (fst d, [snd d])"

lemma alone_refl [simp]: "alone_runs env c c"
  by (simp add: alone_runs_def)

lemma alone_moves:
  "janus_task_step env (reads_table t) svc t = Some (t', svc') \<Longrightarrow> alone_runs env (svc', t') d \<Longrightarrow> alone_runs env (svc, t) d"
  using task_moves.moves [of 0 "[t]" env svc t' svc' "\<lambda>_. True"] by (auto simp: alone_runs_def intro: converse_rtranclp_into_rtranclp)

lemma alone_reads: "client_reads t = Some t' \<Longrightarrow> alone_runs env (svc, t') d \<Longrightarrow> alone_runs env (svc, t) d"
  using task_moves.reads [of 0 "[t]" "\<lambda>_. True" t' env svc] by (auto simp: alone_runs_def intro: converse_rtranclp_into_rtranclp)

lemmas alone_simps = janus_steps reads_table_def Let_def

lemma create_alone_runs:
  "alone_runs env (svc, CreateCount req) (case create_guard env req svc of (r, svc') \<Rightarrow> (svc', Answered (AnsCreate r)))"
proof (cases "create_guard_check req svc")
  case (Some st)
  then show ?thesis
    by (auto simp: create_guard_def create_guard_check_def alone_simps intro!: alone_moves [of _ "CreateCount req"]
        alone_moves [of _ "CreateExists req"] split: if_splits)
next
  case None
  obtain a svc1 where store: "create_guard_store (env_fs env) (env_now env) req svc = (a, svc1)" by fastforce
  let ?svc2 = "create_guard_register a svc1"
  have "alone_runs env (svc1, CreateRegister req a) d \<Longrightarrow> alone_runs env (svc, CreateCount req) d" for d
    using None store
    by (intro alone_moves [of _ "CreateCount req" _ "CreateExists req"] alone_moves [of _ "CreateExists req" _ "CreateStore req"]
        alone_moves [of _ "CreateStore req"]) (auto simp: create_guard_check_def alone_simps split: if_splits)
  moreover have "alone_runs env (svc1, CreateRegister req a) (case create_guard env req svc of (r, svc') \<Rightarrow> (svc', Answered (AnsCreate r)))"
  proof (cases "cg_paused req")
    case True
    then show ?thesis using None store
      by (intro alone_moves [of _ "CreateRegister req a"]) (auto simp: create_guard_def create_guard_insert_def alone_simps)
  next
    case False
    have "alone_runs env (?svc2, CreateBuild req a) (case create_guard env req svc of (r, svc') \<Rightarrow> (svc', Answered (AnsCreate r)))"
    proof (cases "create_guard_build env a ?svc2")
      case (Inl st)
      with None store False show ?thesis
        by (intro alone_moves [of _ "CreateBuild req a"]) (auto simp: create_guard_def create_guard_insert_def create_guard_start_def alone_simps)
    next
      case (Inr b)
      with None store False show ?thesis
        by (cases b, intro alone_moves [of _ "CreateBuild req a" _ "CreateReady req a b"] alone_moves [of _ "CreateReady req a b"])
          (auto simp: create_guard_def create_guard_insert_def create_guard_start_def alone_simps)
    qed
    with False show ?thesis by (intro alone_moves [of _ "CreateRegister req a"]) (auto simp: alone_simps)
  qed
  ultimately show ?thesis .
qed

lemma collector_name_sessions [simp]: "collector_name (svc\<lparr>j_sessions := t\<rparr>) = collector_name svc"
  by (rule ext) (simp add: collector_name_def)

lemma destroy_alone_runs:
  "alone_runs env (svc, DestroyRemove n ns p) (case destroy_guard n ns p svc of (r, svc') \<Rightarrow> (svc', Answered (AnsDestroy r)))"
proof (cases "session_get (session_key n ns p) (j_sessions svc)")
  case None
  then show ?thesis by (intro alone_moves [of _ "DestroyRemove n ns p"]) (auto simp: alone_simps destroy_guard_def session_remove_def)
next
  case (Some a)
  then show ?thesis
    by (intro alone_moves [of _ "DestroyRemove n ns p" _ "DestroySession a"] alone_moves [of _ "DestroySession a" _ "DestroyUnregister a"]
        alone_moves [of _ "DestroyUnregister a"])
      (auto simp: alone_simps destroy_guard_def session_remove_def stop_session_def)
qed

lemma update_alone_runs:
  "alone_runs env (svc, UpdateGet n ns p action) (case update_guard n ns p action svc of (r, svc') \<Rightarrow> (svc', Answered (AnsUpdate r)))"
  "alone_runs env (svc, PolicyGet n ns p deny allow) (case update_policy n ns p deny allow svc of (r, svc') \<Rightarrow> (svc', Answered (AnsPolicy r)))"
proof -
  let ?k = "session_key n ns p"
  show "alone_runs env (svc, UpdateGet n ns p action) (case update_guard n ns p action svc of (r, svc') \<Rightarrow> (svc', Answered (AnsUpdate r)))"
    by (cases "session_get ?k (j_sessions svc)"; rule alone_moves [of _ "UpdateGet n ns p action"])
      (auto simp: alone_simps update_guard_def intro!: alone_moves [of _ "UpdateLock _ _ _"] split: prod.splits)
  show "alone_runs env (svc, PolicyGet n ns p deny allow) (case update_policy n ns p deny allow svc of (r, svc') \<Rightarrow> (svc', Answered (AnsPolicy r)))"
    by (cases "session_get ?k (j_sessions svc)"; rule alone_moves [of _ "PolicyGet n ns p deny allow"])
      (auto simp: alone_simps update_policy_def intro!: alone_moves [of _ "PolicyLock _ _ _ _"] split: prod.splits)
qed

text \<open>A stream whose client takes every state as it comes.\<close>

lemma stream_alone_runs:
  "alone_runs env (svc, StateSend n ns as True [] got)
     (svc, StateClosed [] (got @ map session_to_guard_state (filter (state_matches n ns) (map (\<lambda>a. tbl_heap (j_sessions svc) ! a) as))))"
proof (induction as arbitrary: got)
  case Nil
  then show ?case by (intro alone_moves [of _ "StateSend n ns [] True [] got"]) (auto simp: alone_simps)
next
  case (Cons a as)
  let ?s = "tbl_heap (j_sessions svc) ! a" and ?t = "StateSend n ns (a # as) True [] got"
  show ?case
  proof (cases "state_matches n ns ?s")
    case True
    let ?g = "session_to_guard_state ?s"
    have "alone_runs env (svc, StateSend n ns as True [?g] got) d" if "alone_runs env (svc, StateSend n ns as True [] (got @ [?g])) d" for d
      by (rule alone_reads [OF _ that]) (simp add: client_reads_def)
    then show ?thesis using Cons.IH [of "got @ [?g]"] True
      by (intro alone_moves [of _ ?t _ "StateSend n ns as True [?g] got"]) (auto simp: alone_simps STATE_CHANNEL_def)
  next
    case False
    with Cons.IH [of got] show ?thesis
      by (intro alone_moves [of _ ?t _ "StateSend n ns as True [] got"]) (auto simp: alone_simps)
  qed
qed

lemma state_alone_runs:
  "alone_runs env (svc, StateOpen n ns) (svc, StateClosed [] (get_guard_state n ns (\<lambda>_. True) svc))"
proof -
  have send: "send_all (\<lambda>_. True) k xs = xs" for k and xs :: "guard_state list" by (induction xs arbitrary: k) simp_all
  have "get_guard_state n ns (\<lambda>_. True) svc =
      map session_to_guard_state (filter (state_matches n ns) (map (\<lambda>a. tbl_heap (j_sessions svc) ! a) (map snd (tbl_map (j_sessions svc)))))"
    by (simp add: get_guard_state_def send live_sessions_def state_matches_def [abs_def] o_def case_prod_unfold)
  with stream_alone_runs [of env svc n ns "map snd (tbl_map (j_sessions svc))" "[]"] show ?thesis
    by (intro alone_moves [of _ "StateOpen n ns"]) (auto simp: alone_simps)
qed

text \<open>
  The steps add up to the handlers: a check of the cuts, as both are made of the same parts. A request that is alone
  in the daemon has a run that ends with the answer and the service of its handler run as one, and in which a
  client that reads gets the whole stream of states: for \<open>CreateGuard\<close>,
  \<open>DestroyGuard\<close>, \<open>UpdateGuard\<close>, \<open>UpdatePolicy\<close> and \<open>GetGuardState\<close> of every service.
\<close>

theorem janus_tasks_refine_handlers:
  "alone_runs env (svc, CreateCount req) (case create_guard env req svc of (r, svc') \<Rightarrow> (svc', Answered (AnsCreate r))) \<and>
   alone_runs env (svc, DestroyRemove n ns p) (case destroy_guard n ns p svc of (r, svc') \<Rightarrow> (svc', Answered (AnsDestroy r))) \<and>
   alone_runs env (svc, UpdateGet n ns p action) (case update_guard n ns p action svc of (r, svc') \<Rightarrow> (svc', Answered (AnsUpdate r))) \<and>
   alone_runs env (svc, PolicyGet n ns p deny allow) (case update_policy n ns p deny allow svc of (r, svc') \<Rightarrow> (svc', Answered (AnsPolicy r))) \<and>
   alone_runs env (svc, StateOpen n ns) (svc, StateClosed [] (get_guard_state n ns (\<lambda>_. True) svc))"
  using create_alone_runs destroy_alone_runs update_alone_runs state_alone_runs by (intro conjI)

subsection \<open>A guard destroyed while it is created\<close>

text \<open>
  A guard can be destroyed while it is created, after its session is stored and before its metrics are registered:
  both requests succeed, the guard is gone, and its collector is registered for good. \<open>get_metrics\<close> reports
  it as an active guard from then on.
\<close>

lemma pair_moves:
  "janus_task_step env (reads_table t \<or> reads_table u) svc t = Some (t', svc') \<Longrightarrow>
     (task_moves env acts)\<^sup>*\<^sup>* (svc', [t', u]) m \<Longrightarrow> (task_moves env acts)\<^sup>*\<^sup>* (svc, [t, u]) m"
  "janus_task_step env (reads_table t \<or> reads_table u) svc u = Some (u', svc') \<Longrightarrow>
     (task_moves env acts)\<^sup>*\<^sup>* (svc', [t, u']) m \<Longrightarrow> (task_moves env acts)\<^sup>*\<^sup>* (svc, [t, u]) m"
  using task_moves.moves [of 0 "[t, u]" env svc t' svc' acts] task_moves.moves [of 1 "[t, u]" env svc u' svc' acts]
  by (auto intro: converse_rtranclp_into_rtranclp)

theorem destroyed_guard_stays_registered:
  assumes "table_wf (j_sessions svc)" and "create_guard_check req svc = None" and "cg_paused req"
  shows "\<exists>svc'. (task_moves env acts)\<^sup>*\<^sup>* (svc, [CreateCount req, DestroyRemove (cg_guard_name req) (cg_namespace req) (cg_pod_name req)])
      (svc', [Answered (AnsCreate (Inr (create_guard_response_of req 0))), Answered (AnsDestroy (Inr ()))]) \<and>
    session_lookup (j_sessions svc') = session_lookup (j_sessions svc) \<and>
    length (j_metrics_heap svc) \<in> set (collectors (j_metrics svc'))"
proof -
  let ?d = "DestroyRemove (cg_guard_name req) (cg_namespace req) (cg_pod_name req)" and ?a = "length (tbl_heap (j_sessions svc))"
  let ?m = "length (j_metrics_heap svc)"
  obtain svc1 pids where store: "create_guard_store (env_fs env) (env_now env) req svc = (?a, svc1)"
    and t1: "j_sessions svc1 = snd (map_insert (cg_key req) (new_guard_session (env_now env) req pids ?m) (j_sessions svc))"
    by (simp add: create_guard_store_def Let_def map_insert_def)
  let ?t3 = "snd (session_remove (cg_key req) (j_sessions svc1))"
  define svc2 where "svc2 = svc1\<lparr>j_sessions := (j_sessions svc1)\<lparr>tbl_map := AList.delete (cg_key req) (tbl_map (j_sessions svc1))\<rparr>\<rparr>"
  define svc4 where "svc4 = (let v = stop_session ?a svc2 in
    v\<lparr>j_metrics := agg_unregister (collector_name v) (s_name (tbl_heap (j_sessions v) ! ?a)) (j_metrics v)\<rparr>)"
  note simps = alone_simps cg_key_def
  have get: "session_get (cg_key req) (j_sessions svc1) = Some ?a" by (simp add: t1 session_get_def)
  have t4: "j_sessions svc4 = ?t3" using get by (simp add: svc4_def svc2_def stop_session_def session_remove_def Let_def)
  have "s_metrics (tbl_heap ?t3 ! ?a) = ?m"
    using get by (simp add: session_remove_def session_modify_def session_stop_def Let_def t1)
  then have "?m \<in> set (collectors (j_metrics (create_guard_register ?a svc4)))"
    by (simp add: create_guard_register_def t4 agg_register_def)
  moreover have "session_lookup (j_sessions svc) (cg_key req) = None" using assms(2) by (simp add: create_guard_check_None_iff)
  then have "session_lookup (j_sessions (create_guard_register ?a svc4)) = session_lookup (j_sessions svc)"
    using assms(1) by (auto simp: create_guard_register_def t4 t1 session_remove_lookup map_insert_lookup map_insert_wf)
  moreover have "(task_moves env acts)\<^sup>*\<^sup>* (svc, [CreateCount req, ?d]) (create_guard_register ?a svc4,
      [Answered (AnsCreate (Inr (create_guard_response_of req 0))), Answered (AnsDestroy (Inr ()))])"
    apply (rule pair_moves(1) [where t' = "CreateExists req" and svc' = svc])
     apply (use assms(2) in \<open>simp add: simps create_guard_check_None_iff\<close>)
    apply (rule pair_moves(1) [where t' = "CreateStore req" and svc' = svc])
     apply (use assms(2) in \<open>simp add: simps create_guard_check_None_iff session_exists_iff\<close>)
    apply (rule pair_moves(1) [where t' = "CreateRegister req ?a" and svc' = svc1])
     apply (use store in \<open>simp add: simps\<close>)
    apply (rule pair_moves(2) [where u' = "DestroySession ?a" and svc' = svc2])
     apply (use get in \<open>simp add: simps svc2_def\<close>)
    apply (rule pair_moves(2) [where u' = "DestroyUnregister ?a" and svc' = "stop_session ?a svc2"])
     apply (simp add: simps)
    apply (rule pair_moves(2) [where u' = "Answered (AnsDestroy (Inr ()))" and svc' = svc4])
     apply (simp add: simps svc4_def)
    apply (rule pair_moves(1) [OF _ rtranclp.rtrancl_refl])
    apply (use assms(3) in \<open>simp add: simps\<close>)
    done
  ultimately show ?thesis by blast
qed

theorem destroyed_guard_stays_registered_witness:
  "\<exists>svc'. (task_moves example_env (\<lambda>_. False))\<^sup>*\<^sup>* (example_service 5, [CreateCount (example_request ''a''), DestroyRemove ''g'' ''ns'' ''a''])
      (svc', [Answered (AnsCreate (Inr (create_guard_response_of (example_request ''a'') 0))), Answered (AnsDestroy (Inr ()))]) \<and>
    session_lookup (j_sessions svc') = Map.empty \<and> 0 \<in> set (collectors (j_metrics svc'))"
  using destroyed_guard_stays_registered [of "example_service 5" "example_request ''a''" example_env "\<lambda>_. False"]
  by (simp add: example_service_def janusd_new_def create_guard_check_None_iff session_count_def new_session_map_def
      session_lookup_def session_get_def example_request_def table_wf_def fun_eq_iff)

subsection \<open>A creation whose client gives up\<close>

text \<open>
  A creation is not undone when its client gives up. Dropped after it has stored the session, the handler leaves a
  session that counts as running, without a guard, without a mark and without metrics; the next request for it is
  refused.
\<close>

theorem dropped_create_leaves_session:
  assumes "table_wf (j_sessions svc)" and "create_guard_check req svc = None"
  shows "\<exists>svc' s. (task_moves env (\<lambda>_. True))\<^sup>*\<^sup>* (svc, [CreateCount req]) (svc', [Dropped]) \<and>
    session_lookup (j_sessions svc') (cg_key req) = Some s \<and> s_running s \<and> \<not> gss_marks_registered (s_state s) \<and>
    j_guard_tasks svc' = j_guard_tasks svc \<and> j_metrics svc' = j_metrics svc \<and> create_guard_check req svc' \<noteq> None"
proof -
  let ?a = "length (tbl_heap (j_sessions svc))"
  obtain svc1 pids where store: "create_guard_store (env_fs env) (env_now env) req svc = (?a, svc1)"
    and t1: "j_sessions svc1 = snd (map_insert (cg_key req) (new_guard_session (env_now env) req pids (length (j_metrics_heap svc))) (j_sessions svc))"
    and rest: "j_guard_tasks svc1 = j_guard_tasks svc" "j_metrics svc1 = j_metrics svc"
    by (simp add: create_guard_store_def Let_def map_insert_def)
  have "alone_runs env (svc1, CreateRegister req ?a) (svc1, Dropped)"
    using task_moves.leaves [of 0 "[CreateRegister req ?a]" "\<lambda>_. True" Dropped env svc1]
    by (auto simp: alone_runs_def client_leaves_def)
  then have "alone_runs env (svc, CreateCount req) (svc1, Dropped)"
    using assms(2) store
    by (intro alone_moves [of _ "CreateCount req" _ "CreateExists req"] alone_moves [of _ "CreateExists req" _ "CreateStore req"]
        alone_moves [of _ "CreateStore req"]) (auto simp: create_guard_check_def alone_simps split: if_splits)
  moreover have "session_lookup (j_sessions svc1) (cg_key req) = Some (new_guard_session (env_now env) req pids (length (j_metrics_heap svc)))"
    using assms(1) by (simp add: t1 map_insert_lookup)
  moreover from this have "create_guard_check req svc1 \<noteq> None" by (simp add: create_guard_check_None_iff)
  ultimately show ?thesis using rest
    by (intro exI [of _ svc1] exI conjI) (auto simp: alone_runs_def new_guard_session_def)
qed

theorem dropped_create_leaves_session_witness:
  "\<exists>svc' s. (task_moves example_env (\<lambda>_. True))\<^sup>*\<^sup>* (example_service 5, [CreateCount (example_request ''a'')]) (svc', [Dropped]) \<and>
    session_lookup (j_sessions svc') (cg_key (example_request ''a'')) = Some s \<and> s_running s \<and> \<not> gss_marks_registered (s_state s)"
  using dropped_create_leaves_session [of "example_service 5" "example_request ''a''" example_env]
  by (auto simp: example_service_def janusd_new_def create_guard_check_None_iff session_count_def new_session_map_def
      session_lookup_def session_get_def table_wf_def)

subsection \<open>A client that does not read\<close>

text \<open>A stream that waits for room in its channel.\<close>

definition stalled :: "('p, 'c) janusd \<Rightarrow> ('p, 'c) janus_task \<Rightarrow> bool" where
  "stalled svc t = (case t of
     StateSend n ns (a # as) True buf got \<Rightarrow>
       a < length (tbl_heap (j_sessions svc)) \<and> state_matches n ns (tbl_heap (j_sessions svc) ! a) \<and> length buf = STATE_CHANNEL
   | _ \<Rightarrow> False)"

lemma stalledE:
  assumes "stalled svc t"
  obtains n ns a as buf got where "t = StateSend n ns (a # as) True buf got" "a < length (tbl_heap (j_sessions svc))"
    "state_matches n ns (tbl_heap (j_sessions svc) ! a)" "length buf = STATE_CHANNEL"
  using assms by (auto simp: stalled_def split: janus_task.splits list.splits bool.splits)

lemma alters_session_matches:
  "alters_session t t' \<Longrightarrow> a < length (tbl_heap t) \<Longrightarrow>
     a < length (tbl_heap t') \<and> state_matches n ns (tbl_heap t' ! a) = state_matches n ns (tbl_heap t ! a)"
  by (auto simp: alters_session_def keeps_identity_def session_modify_def state_matches_def nth_list_update_if if_distrib cong: if_cong)

lemma alters_session_stalled: "alters_session (j_sessions svc) (j_sessions svc') \<Longrightarrow> stalled svc t \<Longrightarrow> stalled svc' t"
  by (erule stalledE) (simp add: stalled_def alters_session_matches)

lemma alters_session_map: "alters_session t t' \<Longrightarrow> tbl_map t' = tbl_map t"
  by (auto simp: alters_session_def)

lemma stalled_waits: "stalled svc t \<Longrightarrow> janus_task_step env held svc t = None" and stalled_reads_table: "stalled svc t \<Longrightarrow> reads_table t"
  by (auto elim!: stalledE simp: janus_steps reads_table_def)

definition blocked_by :: "nat \<Rightarrow> ('p, 'c) janus_task \<Rightarrow> (string \<times> nat) list \<Rightarrow> ('p, 'c) janus_machine \<Rightarrow> bool" where
  "blocked_by i t keys m \<longleftrightarrow> i < length (snd m) \<and> snd m ! i = t \<and> stalled (fst m) t \<and> tbl_map (j_sessions (fst m)) = keys"

lemma moves_blocked:
  assumes "task_moves env (\<lambda>j. j \<noteq> i) m m'" and "blocked_by i t keys m"
  shows "blocked_by i t keys m'"
  using assms
proof (induction rule: task_moves.induct)
  case (moves j ts svc t' svc')
  then have t: "stalled svc (ts ! i)" "i < length ts" "ts ! i = t" by (auto simp: blocked_by_def)
  then have held: "list_ex reads_table ts" by (auto simp: list_ex_length dest: stalled_reads_table)
  from t moves(2) have "i \<noteq> j" by (auto simp: stalled_waits)
  moreover from task_step_sessions(2) [OF moves(2)] held have "alters_session (j_sessions svc) (j_sessions svc')" by simp
  ultimately show ?case using moves(3) by (auto simp: blocked_by_def alters_session_map alters_session_stalled)
qed (auto simp: blocked_by_def)

lemma daemon_blocked: "daemon_step (\<lambda>j. j \<noteq> i) m m' \<Longrightarrow> blocked_by i t keys m \<Longrightarrow> blocked_by i t keys m'"
  by (erule daemon_step.cases)
    (auto simp: blocked_by_def nth_append dest: moves_blocked elim: alters_session_stalled [rotated])

lemma run_blocked: "(daemon_step (\<lambda>j. j \<noteq> i))\<^sup>*\<^sup>* m m' \<Longrightarrow> blocked_by i t keys m \<Longrightarrow> blocked_by i t keys m'"
  by (induction rule: rtranclp_induct) (auto intro: daemon_blocked)

text \<open>Without a client that reads, the task fills the channel.\<close>

lemma stream_fills:
  assumes "i < length ts" and "\<forall>a\<in>set as. a < length (tbl_heap (j_sessions svc))" and "length buf \<le> STATE_CHANNEL"
    and "STATE_CHANNEL < length buf + length (filter (\<lambda>a. state_matches n ns (tbl_heap (j_sessions svc) ! a)) as)"
  shows "\<exists>t. (task_moves env (\<lambda>_. False))\<^sup>*\<^sup>* (svc, ts[i := StateSend n ns as True buf got]) (svc, ts[i := t]) \<and> stalled svc t"
  using assms(2-4)
proof (induction as arbitrary: buf)
  case (Cons a as)
  let ?s = "tbl_heap (j_sessions svc) ! a" and ?ts = "ts[i := StateSend n ns (a # as) True buf got]"
  show ?case
  proof (cases "state_matches n ns ?s \<and> length buf = STATE_CHANNEL")
    case True
    with Cons.prems show ?thesis by (intro exI [of _ "StateSend n ns (a # as) True buf got"]) (auto simp: stalled_def)
  next
    case False
    define buf' where "buf' = (if state_matches n ns ?s then buf @ [session_to_guard_state ?s] else buf)"
    have "janus_task_step env (list_ex reads_table ?ts) svc (?ts ! i) = Some (StateSend n ns as True buf' got, svc)"
      using False Cons.prems(2) assms(1) by (auto simp: janus_steps Let_def buf'_def)
    from task_moves.moves [OF _ this] have "task_moves env (\<lambda>_. False) (svc, ?ts) (svc, ts[i := StateSend n ns as True buf' got])"
      using assms(1) by simp
    moreover have "\<exists>t. (task_moves env (\<lambda>_. False))\<^sup>*\<^sup>* (svc, ts[i := StateSend n ns as True buf' got]) (svc, ts[i := t]) \<and> stalled svc t"
      using Cons.prems False by (intro Cons.IH) (auto simp: buf'_def)
    ultimately show ?thesis by (meson converse_rtranclp_into_rtranclp)
  qed
qed simp

text \<open>
  C38: A client that stops reading blocks every guard. The task of \<open>get_guard_state\<close> holds the lock of the session
  table while it waits for room in the channel of 100 states: with more than 100 guards that match the request, a
  client that neither reads nor leaves brings the daemon to a state from which, whatever arrives and runs, no guard
  is added or removed any more.
\<close>

theorem silent_reader_freezes_guards:
  assumes "table_wf (j_sessions svc)" and "i < length ts" and "ts ! i = StateOpen n ns"
    and "STATE_CHANNEL < length (filter (state_matches n ns) (live_sessions svc))"
  shows "\<exists>ts'. (task_moves env (\<lambda>_. False))\<^sup>*\<^sup>* (svc, ts) (svc, ts') \<and>
    (\<forall>svc2 ts2. (daemon_step (\<lambda>j. j \<noteq> i))\<^sup>*\<^sup>* (svc, ts') (svc2, ts2) \<longrightarrow>
       tbl_map (j_sessions svc2) = tbl_map (j_sessions svc) \<and> ts2 ! i = ts' ! i \<and> reads_table (ts2 ! i))"
proof -
  let ?as = "map snd (tbl_map (j_sessions svc))"
  have as: "\<forall>a\<in>set ?as. a < length (tbl_heap (j_sessions svc))"
    using assms(1) by (auto simp: table_wf_def alist_wf_def ran_def) blast
  have "length (filter (\<lambda>a. state_matches n ns (tbl_heap (j_sessions svc) ! a)) ?as) =
      length (filter (state_matches n ns) (live_sessions svc))"
    by (simp add: live_sessions_def filter_map o_def case_prod_unfold)
  with stream_fills [OF assms(2) as, of "[]" n ns env "[]"] assms(4) obtain t where
    run: "(task_moves env (\<lambda>_. False))\<^sup>*\<^sup>* (svc, ts[i := StateSend n ns ?as True [] []]) (svc, ts[i := t])" and t: "stalled svc t"
    by (auto simp: STATE_CHANNEL_def)
  have "task_moves env (\<lambda>_. False) (svc, ts) (svc, ts[i := StateSend n ns ?as True [] []])"
    using assms(2,3) by (intro task_moves.moves) (auto simp: janus_steps)
  moreover have "blocked_by i t (tbl_map (j_sessions svc)) (svc, ts[i := t])"
    using t assms(2) by (simp add: blocked_by_def)
  from run_blocked [OF _ this] have "(daemon_step (\<lambda>j. j \<noteq> i))\<^sup>*\<^sup>* (svc, ts[i := t]) (svc2, ts2) \<longrightarrow>
       tbl_map (j_sessions svc2) = tbl_map (j_sessions svc) \<and> ts2 ! i = ts[i := t] ! i \<and> reads_table (ts2 ! i)" for svc2 ts2
    using assms(2) t by (auto simp: blocked_by_def stalled_reads_table)
  ultimately show ?thesis using run by (meson converse_rtranclp_into_rtranclp)
qed

text \<open>A service with \<open>k\<close> guards.\<close>

definition crowded_service :: "nat \<Rightarrow> (string, ref_lru) janusd" where
  "crowded_service k = (example_service k)\<lparr>j_sessions :=
     \<lparr>tbl_map = map (\<lambda>i. (replicate i CHR ''a'', i)) [0..<k],
      tbl_heap = replicate k (new_guard_session 0 (example_request ''a'') [] 0)\<rparr>\<rparr>"

lemma crowded_service_wf: "table_wf (j_sessions (crowded_service k))"
proof -
  let ?m = "map (\<lambda>i. (replicate i CHR ''a'', i)) [0..<k]"
  have inj: "inj_on (\<lambda>i. replicate i CHR ''a'') A" for A by (rule inj_onI) (metis length_replicate)
  have m: "x = replicate j CHR ''a'' \<and> j < k" if "map_of ?m x = Some j" for x j using map_of_SomeD [OF that] by auto
  have "j < k" if "j \<in> ran (map_of ?m)" for j using that m by (auto simp only: ran_def mem_Collect_eq)
  moreover have "inj_on (map_of ?m) (dom (map_of ?m))"
  proof (rule inj_onI)
    fix x y
    assume x: "x \<in> dom (map_of ?m)" and eq: "map_of ?m x = map_of ?m y"
    from domD [OF x] obtain j where "map_of ?m x = Some j" ..
    moreover from this have "map_of ?m y = Some j" by (simp only: eq)
    ultimately show "x = y" using m [of x j] m [of y j] by blast
  qed
  moreover have "distinct (map fst ?m)" by (simp add: o_def distinct_map inj)
  ultimately show ?thesis by (simp add: crowded_service_def table_wf_def alist_wf_def)
qed

lemma crowded_service_count:
  "session_count (j_sessions (crowded_service k)) = k"
  "length (filter (state_matches [] []) (live_sessions (crowded_service k))) = k"
proof -
  have all: "filter (state_matches [] []) xs = xs" for xs by (simp add: state_matches_def)
  show "length (filter (state_matches [] []) (live_sessions (crowded_service k))) = k"
    unfolding all by (simp add: crowded_service_def live_sessions_def)
qed (simp add: crowded_service_def session_count_def)

theorem silent_reader_freezes_guards_witness:
  "\<exists>ts'. (task_moves example_env (\<lambda>_. False))\<^sup>*\<^sup>* (crowded_service 101, [StateOpen [] []]) (crowded_service 101, ts') \<and>
    (\<forall>svc2 ts2. (daemon_step (\<lambda>j. j \<noteq> 0))\<^sup>*\<^sup>* (crowded_service 101, ts') (svc2, ts2) \<longrightarrow> session_count (j_sessions svc2) = 101)"
proof -
  have "\<exists>ts'. (task_moves example_env (\<lambda>_. False))\<^sup>*\<^sup>* (crowded_service 101, [StateOpen [] []]) (crowded_service 101, ts') \<and>
    (\<forall>svc2 ts2. (daemon_step (\<lambda>j. j \<noteq> 0))\<^sup>*\<^sup>* (crowded_service 101, ts') (svc2, ts2) \<longrightarrow>
       tbl_map (j_sessions svc2) = tbl_map (j_sessions (crowded_service 101)) \<and> ts2 ! 0 = ts' ! 0 \<and> reads_table (ts2 ! 0))"
    by (rule silent_reader_freezes_guards [where n = "[]" and ns = "[]"])
      (simp_all add: crowded_service_wf crowded_service_count STATE_CHANNEL_def)
  then show ?thesis using crowded_service_count(1) [of 101] unfolding session_count_def by metis
qed

text \<open>A query of metrics and a stream of one state, each with its client.\<close>

lemma served_then:
  "i < length ts \<Longrightarrow> janus_task_step example_env (list_ex reads_table ts) svc (ts ! i) = Some (t, svc') \<Longrightarrow>
     served_run quits (svc', ts[i := t]) m \<Longrightarrow> served_run quits (svc, ts) m"
  "i < length ts \<Longrightarrow> client_reads (ts ! i) = Some t \<Longrightarrow> served_run quits (svc, ts[i := t]) m \<Longrightarrow> served_run quits (svc, ts) m"
  by (auto intro: converse_rtranclp_into_rtranclp served_moves.serves served_moves.consumes)

theorem janusd_requests_finish_witness:
  "\<exists>svc ts got. served_run (\<lambda>_. False) (crowded_service 1, [MetricsRead [], StateOpen [] []]) (svc, ts) \<and>
     call_of (ts ! 0) = CallMetrics \<and> (\<exists>r. ts ! 0 = Answered r) \<and> ts ! 1 = StateClosed [] got \<and> length got = 1"
proof -
  let ?svc = "crowded_service 1" and ?g = "session_to_guard_state (tbl_heap (j_sessions (crowded_service 1)) ! 0)"
  let ?a = "Answered (AnsMetrics (get_metrics [] ?svc))"
  let ?reqs = "[MetricsRead [], StateOpen [] []] :: (string, ref_lru) janus_task list" and ?ts = "[?a, StateClosed [] [?g]] :: (string, ref_lru) janus_task list"
  have map: "tbl_map (j_sessions ?svc) = [([], 0)]" by (simp add: crowded_service_def)
  then have map': "tbl_map (j_sessions (crowded_service (Suc 0))) = [([], 0)]" by simp
  have m: "state_matches [] [] s" for s by (simp add: state_matches_def)
  note simps = janus_steps reads_table_def client_reads_def map map' m STATE_CHANNEL_def Let_def
  have run: "served_run (\<lambda>_. False) (?svc, ?reqs) (?svc, ?ts)"
    apply (rule served_then(1) [of 0 _ _ ?a ?svc], simp, simp add: simps)
    apply (rule served_then(1) [of 1 _ _ "StateSend [] [] [0] True [] []" ?svc], simp, simp add: simps)
    apply (rule served_then(1) [of 1 _ _ "StateSend [] [] [] True [?g] []" ?svc], simp, simp add: simps)
    apply (rule served_then(1) [of 1 _ _ "StateClosed [?g] []" ?svc], simp, simp add: simps)
    apply (rule served_then(2) [of 1 _ "StateClosed [] [?g]"], simp, simp add: simps)
    apply simp
    done
  have "\<not> served_moves env (\<lambda>_. False) (?svc, ?ts) m'" for env m'
    by (auto elim!: served_moves.cases simp: less_Suc_eq simps)
  then have stuck: "\<nexists>env m'. served_moves env (\<lambda>_. False) (?svc, ?ts) m'" by blast
  have "list_all is_janus_request ?reqs" by (simp add: is_janus_request_def)
  note fin = janusd_requests_finish [OF this run stuck, of "\<lambda>_. True", THEN conjunct2, THEN conjunct2, THEN spec, THEN mp, THEN mp, THEN conjunct1]
  have "call_of (?ts ! 0) = call_of (?reqs ! 0)" by (rule fin) simp_all
  with run show ?thesis by (intro exI [of _ ?svc] exI [of _ ?ts] exI [of _ "[?g]"]) (simp add: call_of_def)
qed

end
