(* ===== verification/Notify.thy ===== *)
theory Notify
  imports Rust_Text Watcher_Metrics
begin

section \<open>The inotify watcher of argusd\<close>

text \<open>
  \<open>argusd/src/notify.rs\<close>. The kernel and the file system are an argument, a record of what each call gives
  at that point; a directory is listed with everything below it (\<open>dir_entry\<close>), which is finite on every
  file system, so that the recursive registration is a recursion on the listing. The bit sets of \<open>nix\<close> are
  sets of flags; a watch descriptor is a number. A \<open>PathBuf\<close> as a key of a map compares by its
  components, so the map of paths is keyed by components. The event loop is a function of its inputs and
  returns what it sent down the channel. Logging and sleeping are left out.
\<close>

subsection \<open>Event types and flags\<close>

datatype event_type =
    EtAccess | EtAttrib | EtCloseWrite | EtCloseNoWrite | EtCreate | EtDelete | EtDeleteSelf | EtModify
  | EtMoveSelf | EtMovedFrom | EtMovedTo | EtOpen | EtUnknown

definition event_type_as_str :: "event_type \<Rightarrow> string" where
  "event_type_as_str e = (case e of
     EtAccess \<Rightarrow> ''access'' | EtAttrib \<Rightarrow> ''attrib'' | EtCloseWrite \<Rightarrow> ''closewrite''
   | EtCloseNoWrite \<Rightarrow> ''closenowrite'' | EtCreate \<Rightarrow> ''create'' | EtDelete \<Rightarrow> ''delete''
   | EtDeleteSelf \<Rightarrow> ''deleteself'' | EtModify \<Rightarrow> ''modify'' | EtMoveSelf \<Rightarrow> ''moveself''
   | EtMovedFrom \<Rightarrow> ''movedfrom'' | EtMovedTo \<Rightarrow> ''movedto'' | EtOpen \<Rightarrow> ''open'' | EtUnknown \<Rightarrow> ''unknown'')"

definition event_type_from_str :: "string \<Rightarrow> event_type" where
  "event_type_from_str str =
     (let s = to_lowercase str in
      if s = ''access'' then EtAccess
      else if s = ''attrib'' then EtAttrib
      else if s = ''closewrite'' \<or> s = ''close_write'' then EtCloseWrite
      else if s = ''closenowrite'' \<or> s = ''close_nowrite'' then EtCloseNoWrite
      else if s = ''create'' then EtCreate
      else if s = ''delete'' then EtDelete
      else if s = ''deleteself'' \<or> s = ''delete_self'' then EtDeleteSelf
      else if s = ''modify'' then EtModify
      else if s = ''moveself'' \<or> s = ''move_self'' then EtMoveSelf
      else if s = ''movedfrom'' \<or> s = ''moved_from'' then EtMovedFrom
      else if s = ''movedto'' \<or> s = ''moved_to'' then EtMovedTo
      else if s = ''open'' then EtOpen
      else EtUnknown)"

datatype in_flag =
    IN_ACCESS | IN_ATTRIB | IN_CLOSE_WRITE | IN_CLOSE_NOWRITE | IN_CREATE | IN_DELETE | IN_DELETE_SELF
  | IN_MODIFY | IN_MOVE_SELF | IN_MOVED_FROM | IN_MOVED_TO | IN_OPEN | IN_Q_OVERFLOW | IN_IGNORED | IN_ISDIR

definition IN_CLOSE :: "in_flag set" where
  "IN_CLOSE = {IN_CLOSE_WRITE, IN_CLOSE_NOWRITE}"

definition IN_MOVE :: "in_flag set" where
  "IN_MOVE = {IN_MOVED_FROM, IN_MOVED_TO}"

definition IN_ALL_EVENTS :: "in_flag set" where
  "IN_ALL_EVENTS = {IN_ACCESS, IN_ATTRIB, IN_CLOSE_WRITE, IN_CLOSE_NOWRITE, IN_CREATE, IN_DELETE,
     IN_DELETE_SELF, IN_MODIFY, IN_MOVE_SELF, IN_MOVED_FROM, IN_MOVED_TO, IN_OPEN}"

definition event_flags :: "string \<Rightarrow> in_flag set" where
  "event_flags event =
     (let e = to_lowercase event in
      if e = ''access'' then {IN_ACCESS}
      else if e = ''attrib'' then {IN_ATTRIB}
      else if e = ''closewrite'' then {IN_CLOSE_WRITE}
      else if e = ''closenowrite'' then {IN_CLOSE_NOWRITE}
      else if e = ''close'' then IN_CLOSE
      else if e = ''create'' then {IN_CREATE}
      else if e = ''delete'' then {IN_DELETE}
      else if e = ''deleteself'' then {IN_DELETE_SELF}
      else if e = ''modify'' then {IN_MODIFY}
      else if e = ''moveself'' then {IN_MOVE_SELF}
      else if e = ''movedfrom'' then {IN_MOVED_FROM}
      else if e = ''movedto'' then {IN_MOVED_TO}
      else if e = ''move'' then IN_MOVE
      else if e = ''open'' then {IN_OPEN}
      else if e = ''all'' then IN_ALL_EVENTS
      else {})"

definition events_to_flags :: "string list \<Rightarrow> in_flag set" where
  "events_to_flags events =
     (let flags = fold (\<lambda>e m. m \<union> event_flags e) events {}
      in if flags = {} then IN_ALL_EVENTS else flags)"

definition mask_to_event_type :: "in_flag set \<Rightarrow> event_type" where
  "mask_to_event_type m =
     (if IN_ACCESS \<in> m then EtAccess
      else if IN_ATTRIB \<in> m then EtAttrib
      else if IN_CLOSE_WRITE \<in> m then EtCloseWrite
      else if IN_CLOSE_NOWRITE \<in> m then EtCloseNoWrite
      else if IN_CREATE \<in> m then EtCreate
      else if IN_DELETE \<in> m then EtDelete
      else if IN_DELETE_SELF \<in> m then EtDeleteSelf
      else if IN_MODIFY \<in> m then EtModify
      else if IN_MOVE_SELF \<in> m then EtMoveSelf
      else if IN_MOVED_FROM \<in> m then EtMovedFrom
      else if IN_MOVED_TO \<in> m then EtMovedTo
      else if IN_OPEN \<in> m then EtOpen
      else EtUnknown)"

subsection \<open>Data\<close>

datatype notify_error =
    Inotify errno
  | NotifyIo string
  | PathNotFound string
  | MaxWatchesExceeded nat nat
  | KernelWatchLimitReached
  | QueueOverflow
  | InvalidWatchDescriptor nat
  | ChannelClosed

record file_event =
  f_event_type :: event_type
  f_path :: string
  f_filename :: "string option"
  f_is_dir :: bool
  f_cookie :: u32
  f_move_peer :: "string option"

record pending_move =
  pm_path :: string
  pm_filename :: "string option"
  pm_is_dir :: bool
  pm_timestamp :: nat

record proxy_target =
  configured_path :: string
  immediate_child :: string
  px_flags :: "in_flag set"

record move_pair_tracker =
  mp_pending :: "(u32 \<times> pending_move) list"
  mp_timeout :: nat

record watch_config =
  wc_paths :: "string list"
  wc_events :: "string list"
  wc_ignore_patterns :: "string list"
  wc_recursive :: bool
  wc_max_depth :: "u32 option"
  wc_skip_if_missing :: "bool list"

datatype watch_state = Running | Paused | Stopped

record watcher =
  w_watches :: "(nat \<times> string) list"
  w_path_to_wd :: "(string list \<times> nat) list"
  w_move_tracker :: move_pair_tracker
  w_running :: bool
  w_state :: watch_state
  w_max_watches :: nat
  w_metrics :: "watcher_metrics option"
  w_config :: "watch_config option"
  w_proxy_watches :: "(nat \<times> proxy_target list) list"

datatype dir_entry = DirEntry (entry_path: string) (entry_is_dir: bool) (entry_children: "dir_entry list option")

record notify_env =
  ne_init :: "errno + unit"
  ne_add_watch :: "string \<Rightarrow> in_flag set \<Rightarrow> errno + nat"
  ne_rm_watch :: "nat \<Rightarrow> errno + unit"
  ne_canonicalize :: "string \<Rightarrow> string option"
  ne_exists :: "string \<Rightarrow> bool"
  ne_is_dir :: "string \<Rightarrow> bool"
  ne_read_dir :: "string \<Rightarrow> dir_entry list option"
  ne_now :: nat

subsection \<open>Move pairs\<close>

definition MOVE_PAIR_TIMEOUT :: nat where
  "MOVE_PAIR_TIMEOUT = 2000000"

definition tracker_new :: "nat \<Rightarrow> move_pair_tracker" where
  "tracker_new timeout = \<lparr>mp_pending = [], mp_timeout = timeout\<rparr>"

definition record_moved_from ::
  "nat \<Rightarrow> u32 \<Rightarrow> string \<Rightarrow> string option \<Rightarrow> bool \<Rightarrow> move_pair_tracker \<Rightarrow> move_pair_tracker" where
  "record_moved_from now cookie path filename isdir t =
     (if cookie = 0 then t
      else t\<lparr>mp_pending := AList.update cookie
               \<lparr>pm_path = path, pm_filename = filename, pm_is_dir = isdir, pm_timestamp = now\<rparr> (mp_pending t)\<rparr>)"

definition match_moved_to :: "u32 \<Rightarrow> move_pair_tracker \<Rightarrow> pending_move option \<times> move_pair_tracker" where
  "match_moved_to cookie t =
     (if cookie = 0 then (None, t)
      else (map_of (mp_pending t) cookie, t\<lparr>mp_pending := AList.delete cookie (mp_pending t)\<rparr>))"

definition pending_expired :: "nat \<Rightarrow> nat \<Rightarrow> pending_move \<Rightarrow> bool" where
  "pending_expired now timeout v \<longleftrightarrow> now - pm_timestamp v > timeout"

text \<open>The expired cookies are collected first and then removed one by one.\<close>

fun remove_cookies :: "u32 list \<Rightarrow> (u32 \<times> pending_move) list \<Rightarrow> (u32 \<times> pending_move) list \<times> (u32 \<times> pending_move) list" where
  "remove_cookies [] m = ([], m)"
| "remove_cookies (k # ks) m =
     (let (out, m') = remove_cookies ks (AList.delete k m)
      in (case map_of m k of Some v \<Rightarrow> ((k, v) # out, m') | None \<Rightarrow> (out, m')))"

definition drain_expired :: "nat \<Rightarrow> move_pair_tracker \<Rightarrow> (u32 \<times> pending_move) list \<times> move_pair_tracker" where
  "drain_expired now t =
     (let expired = map fst (filter (\<lambda>(k, v). pending_expired now (mp_timeout t) v) (mp_pending t));
          (out, m) = remove_cookies expired (mp_pending t)
      in (out, t\<lparr>mp_pending := m\<rparr>))"

definition pending_count :: "move_pair_tracker \<Rightarrow> nat" where
  "pending_count t = length (mp_pending t)"

definition tracker_clear :: "move_pair_tracker \<Rightarrow> move_pair_tracker" where
  "tracker_clear t = t\<lparr>mp_pending := []\<rparr>"

subsection \<open>Watches\<close>

definition watcher_new :: "errno + unit \<Rightarrow> nat \<Rightarrow> notify_error + watcher" where
  "watcher_new init max_watches =
     (case init of
        Inl e \<Rightarrow> Inl (Inotify e)
      | Inr _ \<Rightarrow>
          Inr \<lparr>w_watches = [], w_path_to_wd = [], w_move_tracker = tracker_new MOVE_PAIR_TIMEOUT,
               w_running = False, w_state = Stopped, w_max_watches = max_watches, w_metrics = None,
               w_config = None, w_proxy_watches = []\<rparr>)"

definition with_metrics :: "errno + unit \<Rightarrow> nat \<Rightarrow> watcher_metrics \<Rightarrow> notify_error + watcher" where
  "with_metrics init max_watches m =
     (case watcher_new init max_watches of Inl e \<Rightarrow> Inl e | Inr w \<Rightarrow> Inr (w\<lparr>w_metrics := Some m\<rparr>))"

definition wtick :: "(watcher_metrics \<Rightarrow> watcher_metrics) \<Rightarrow> watcher \<Rightarrow> watcher" where
  "wtick f w = w\<lparr>w_metrics := map_option f (w_metrics w)\<rparr>"

definition canonical :: "notify_env \<Rightarrow> string \<Rightarrow> string" where
  "canonical env path = (case ne_canonicalize env path of Some p \<Rightarrow> p | None \<Rightarrow> path)"

definition add_watch ::
  "notify_env \<Rightarrow> string \<Rightarrow> in_flag set \<Rightarrow> watcher \<Rightarrow> (notify_error + nat) \<times> watcher" where
  "add_watch env path flags w =
     (if length (w_watches w) \<ge> w_max_watches w
      then (Inl (MaxWatchesExceeded (length (w_watches w)) (w_max_watches w)), w)
      else (case ne_add_watch env path flags of
              Inl e \<Rightarrow> (Inl (if e = ENOSPC then KernelWatchLimitReached else Inotify e), w)
            | Inr wd \<Rightarrow>
                (let c = canonical env path
                 in (Inr wd, wtick record_watch_added
                       (w\<lparr>w_watches := AList.update wd c (w_watches w),
                          w_path_to_wd := AList.update (path_components c) wd (w_path_to_wd w)\<rparr>)))))"

definition push_proxy :: "nat \<Rightarrow> proxy_target \<Rightarrow> watcher \<Rightarrow> watcher" where
  "push_proxy wd t w =
     w\<lparr>w_proxy_watches := AList.update wd
         ((case map_of (w_proxy_watches w) wd of Some ts \<Rightarrow> ts | None \<Rightarrow> []) @ [t]) (w_proxy_watches w)\<rparr>"

text \<open>
  The nearest ancestor that is a directory, with the component that follows it. The argument is the
  path's components from the last to the first; the root has no parent.
\<close>

fun nearest_ancestor :: "notify_env \<Rightarrow> string list \<Rightarrow> (string \<times> string) option" where
  "nearest_ancestor env [] = None"
| "nearest_ancestor env (c # rs) =
     (if c = ''/'' \<and> rs = [] then None
      else (let dir = path_of_components (rev rs) in
            if ne_exists env dir \<and> ne_is_dir env dir then Some (dir, c)
            else nearest_ancestor env rs))"

definition add_watch_or_proxy ::
  "notify_env \<Rightarrow> string \<Rightarrow> in_flag set \<Rightarrow> watcher \<Rightarrow> (notify_error + bool) \<times> watcher" where
  "add_watch_or_proxy env path flags w =
     (if ne_exists env path then
        (case add_watch env path flags w of (Inl e, w1) \<Rightarrow> (Inl e, w1) | (Inr _, w1) \<Rightarrow> (Inr True, w1))
      else (case nearest_ancestor env (rev (path_components path)) of
              None \<Rightarrow> (Inr False, w)
            | Some (dir, child) \<Rightarrow>
                (case add_watch env dir (flags \<union> {IN_CREATE, IN_MOVED_TO}) w of
                   (Inl e, w1) \<Rightarrow> (Inl e, w1)
                 | (Inr wd, w1) \<Rightarrow>
                     (Inr False, push_proxy wd
                        \<lparr>configured_path = path, immediate_child = child, px_flags = flags\<rparr> w1))))"

definition add_watch_for_path ::
  "notify_env \<Rightarrow> string \<Rightarrow> in_flag set \<Rightarrow> bool \<Rightarrow> watcher \<Rightarrow> (notify_error + unit) \<times> watcher" where
  "add_watch_for_path env path flags skip_if_missing w =
     (if skip_if_missing then
        (if ne_exists env path then
           (case add_watch env path flags w of (Inl e, w1) \<Rightarrow> (Inl e, w1) | (Inr _, w1) \<Rightarrow> (Inr (), w1))
         else (Inr (), w))
      else (case add_watch_or_proxy env path flags w of (Inl e, w1) \<Rightarrow> (Inl e, w1) | (Inr _, w1) \<Rightarrow> (Inr (), w1)))"

text \<open>\<open>remove\<close> of both maps; shared by \<open>remove_watch\<close> and \<open>handle_watch_removed\<close>.\<close>

definition drop_watch :: "nat \<Rightarrow> watcher \<Rightarrow> watcher" where
  "drop_watch wd w =
     (case map_of (w_watches w) wd of
        None \<Rightarrow> w
      | Some path \<Rightarrow> wtick record_watch_removed
          (w\<lparr>w_watches := AList.delete wd (w_watches w),
             w_path_to_wd := AList.delete (path_components path) (w_path_to_wd w)\<rparr>))"

definition remove_watch :: "notify_env \<Rightarrow> nat \<Rightarrow> watcher \<Rightarrow> (notify_error + unit) \<times> watcher" where
  "remove_watch env wd w =
     (case ne_rm_watch env wd of
        Inl e \<Rightarrow> if e \<noteq> EINVAL then (Inl (Inotify e), w) else (Inr (), drop_watch wd w)
      | Inr _ \<Rightarrow> (Inr (), drop_watch wd w))"

definition remove_watch_by_path :: "notify_env \<Rightarrow> string \<Rightarrow> watcher \<Rightarrow> (notify_error + unit) \<times> watcher" where
  "remove_watch_by_path env path w =
     (let c = path_components (canonical env path) in
      case map_of (w_path_to_wd w) c of
        None \<Rightarrow> (Inr (), w)
      | Some wd \<Rightarrow> remove_watch env wd (w\<lparr>w_path_to_wd := AList.delete c (w_path_to_wd w)\<rparr>))"

definition get_wd :: "notify_env \<Rightarrow> string \<Rightarrow> watcher \<Rightarrow> nat option" where
  "get_wd env path w = map_of (w_path_to_wd w) (path_components (canonical env path))"

definition is_watching :: "notify_env \<Rightarrow> string \<Rightarrow> watcher \<Rightarrow> bool" where
  "is_watching env path w \<longleftrightarrow> get_wd env path w \<noteq> None"

definition validate_watches :: "notify_env \<Rightarrow> watcher \<Rightarrow> (nat \<times> string) list" where
  "validate_watches env w = filter (\<lambda>(wd, path). \<not> ne_exists env path) (w_watches w)"

definition cleanup_stale_watches :: "notify_env \<Rightarrow> watcher \<Rightarrow> nat \<times> watcher" where
  "cleanup_stale_watches env w =
     (let stale = validate_watches env w
      in (length stale, fold (\<lambda>(wd, path) w. snd (remove_watch env wd w)) stale w))"

text \<open>
  The recursive registration: an entry's own listing is in the entry. A failure other than a limit is
  skipped together with the entry's subtree.
\<close>

definition is_limit_error :: "notify_error \<Rightarrow> bool" where
  "is_limit_error e = (case e of KernelWatchLimitReached \<Rightarrow> True | MaxWatchesExceeded _ _ \<Rightarrow> True | _ \<Rightarrow> False)"

function add_entries ::
  "notify_env \<Rightarrow> in_flag set \<Rightarrow> u32 \<Rightarrow> u32 \<Rightarrow> dir_entry list \<Rightarrow> watcher \<Rightarrow> (notify_error + unit) \<times> watcher" where
  "add_entries env flags max_depth depth [] w = (Inr (), w)"
| "add_entries env flags max_depth depth (DirEntry p isdir sub # es) w =
     (if isdir then
        (case add_watch env p flags w of
           (Inl e, w1) \<Rightarrow>
             if is_limit_error e then (Inl e, w1) else add_entries env flags max_depth depth es w1
         | (Inr _, w1) \<Rightarrow>
             (case (if max_depth > 0 \<and> depth + 1 \<ge> max_depth then (Inr (), w1)
                    else (case sub of
                            None \<Rightarrow> (Inr (), w1)
                          | Some xs \<Rightarrow> add_entries env flags max_depth (depth + 1) xs w1)) of
                (Inl e, w2) \<Rightarrow> (Inl e, w2)
              | (Inr _, w2) \<Rightarrow> add_entries env flags max_depth depth es w2))
      else add_entries env flags max_depth depth es w)"
  by pat_completeness auto
termination
  by (relation "measure (\<lambda>(env, flags, m, d, es, w). size_list size es)") auto

definition add_recursive_watches ::
  "notify_env \<Rightarrow> string \<Rightarrow> in_flag set \<Rightarrow> u32 \<Rightarrow> u32 \<Rightarrow> watcher \<Rightarrow> (notify_error + unit) \<times> watcher" where
  "add_recursive_watches env dir flags max_depth depth w =
     (if max_depth > 0 \<and> depth \<ge> max_depth then (Inr (), w)
      else (case ne_read_dir env dir of
              None \<Rightarrow> (Inr (), w)
            | Some es \<Rightarrow> add_entries env flags max_depth depth es w))"

subsection \<open>Registration\<close>

definition depth_limit :: "watch_config \<Rightarrow> u32" where
  "depth_limit config = (case wc_max_depth config of Some d \<Rightarrow> d | None \<Rightarrow> 0)"

fun add_paths ::
  "notify_env \<Rightarrow> watch_config \<Rightarrow> in_flag set \<Rightarrow> (string \<times> bool) list \<Rightarrow> nat \<Rightarrow> watcher
   \<Rightarrow> (notify_error + nat) \<times> watcher" where
  "add_paths env config flags [] added w = (Inr added, w)"
| "add_paths env config flags ((path, skip) # ps) added w =
     (case add_watch_for_path env path flags skip w of
        (Inl e, w1) \<Rightarrow> (Inl e, w1)
      | (Inr _, w1) \<Rightarrow>
          if wc_recursive config \<and> ne_is_dir env path then
            (case add_recursive_watches env path flags (depth_limit config) 0 w1 of
               (Inl e, w2) \<Rightarrow> (Inl e, w2)
             | (Inr _, w2) \<Rightarrow>
                 add_paths env config flags ps (added + 1 + (length (w_watches w2) - length (w_watches w1))) w2)
          else add_paths env config flags ps (added + 1) w1)"

definition update_active :: "watcher \<Rightarrow> watcher" where
  "update_active w = wtick (set_watches_active (of_nat (length (w_watches w)))) w"

definition add_watches :: "notify_env \<Rightarrow> watch_config \<Rightarrow> watcher \<Rightarrow> (notify_error + nat) \<times> watcher" where
  "add_watches env config w =
     (case add_paths env config (events_to_flags (wc_events config))
             (zip (wc_paths config) (wc_skip_if_missing config)) 0 (w\<lparr>w_config := Some config\<rparr>) of
        (Inl e, w1) \<Rightarrow> (Inl e, w1)
      | (Inr added, w1) \<Rightarrow> (Inr added, update_active w1))"

subsection \<open>Events\<close>

record inotify_event =
  ie_wd :: nat
  ie_mask :: "in_flag set"
  ie_cookie :: u32
  ie_name :: "string option"

text \<open>\<open>OsStr::to_str().unwrap_or_default()\<close>\<close>

definition os_to_str :: "string \<Rightarrow> string" where
  "os_to_str n = (if utf8_valid n then n else [])"

definition notify_process_event :: "notify_env \<Rightarrow> inotify_event \<Rightarrow> watcher \<Rightarrow> file_event list option \<times> watcher" where
  "notify_process_event env ev w =
     (case map_of (w_watches w) (ie_wd ev) of
        None \<Rightarrow> (None, w)
      | Some dir_path \<Rightarrow>
          (let filename = map_option os_to_str (ie_name ev);
               full_path = (case filename of Some n \<Rightarrow> path_join dir_path n | None \<Rightarrow> dir_path);
               et = mask_to_event_type (ie_mask ev);
               isdir = (IN_ISDIR \<in> ie_mask ev);
               plain = \<lparr>f_event_type = et, f_path = full_path, f_filename = filename, f_is_dir = isdir,
                        f_cookie = ie_cookie ev, f_move_peer = None\<rparr>
           in if et = EtMovedFrom then
                (None, w\<lparr>w_move_tracker := record_moved_from (ne_now env) (ie_cookie ev) full_path filename isdir
                           (w_move_tracker w)\<rparr>)
              else if et = EtMovedTo then
                (case match_moved_to (ie_cookie ev) (w_move_tracker w) of
                   (Some p, t) \<Rightarrow>
                     (Some [\<lparr>f_event_type = EtMovedFrom, f_path = pm_path p, f_filename = pm_filename p,
                             f_is_dir = pm_is_dir p, f_cookie = ie_cookie ev, f_move_peer = Some full_path\<rparr>,
                            \<lparr>f_event_type = EtMovedTo, f_path = full_path, f_filename = filename,
                             f_is_dir = isdir, f_cookie = ie_cookie ev, f_move_peer = Some (pm_path p)\<rparr>],
                      wtick record_move_pair_matched (w\<lparr>w_move_tracker := t\<rparr>))
                 | (None, t) \<Rightarrow> (Some [plain], w\<lparr>w_move_tracker := t\<rparr>))
              else (Some [plain], w)))"

text \<open>Events are counted before they are sent; a failed send ends the loop. \<open>n\<close> counts the sends.\<close>

fun send_events :: "(nat \<Rightarrow> bool) \<Rightarrow> nat \<Rightarrow> file_event list \<Rightarrow> watcher \<Rightarrow> bool \<times> file_event list \<times> watcher" where
  "send_events ok n [] w = (True, [], w)"
| "send_events ok n (e # es) w =
     (let w1 = wtick (record_event_typed (event_type_as_str (f_event_type e))) w in
      if ok n then (let (b, out, w2) = send_events ok (Suc n) es w1 in (b, e # out, w2))
      else (False, [], w1\<lparr>w_running := False\<rparr>))"

definition pending_event :: "u32 \<times> pending_move \<Rightarrow> file_event" where
  "pending_event kp =
     \<lparr>f_event_type = EtMovedFrom, f_path = pm_path (snd kp), f_filename = pm_filename (snd kp),
      f_is_dir = pm_is_dir (snd kp), f_cookie = fst kp, f_move_peer = None\<rparr>"

fun emit_pending ::
  "(nat \<Rightarrow> bool) \<Rightarrow> nat \<Rightarrow> (u32 \<times> pending_move) list \<Rightarrow> watcher
   \<Rightarrow> (notify_error + unit) \<times> file_event list \<times> watcher" where
  "emit_pending ok n [] w = (Inr (), [], w)"
| "emit_pending ok n (kp # kps) w =
     (let w1 = wtick record_move_pair_timeout w in
      if ok n then (let (r, out, w2) = emit_pending ok (Suc n) kps w1 in (r, pending_event kp # out, w2))
      else (Inl ChannelClosed, [], w1))"

definition emit_expired_moves ::
  "nat \<Rightarrow> (nat \<Rightarrow> bool) \<Rightarrow> watcher \<Rightarrow> (notify_error + unit) \<times> file_event list \<times> watcher" where
  "emit_expired_moves now ok w =
     (let (expired, t) = drain_expired now (w_move_tracker w)
      in emit_pending ok 0 expired (w\<lparr>w_move_tracker := t\<rparr>))"

definition handle_watch_removed :: "nat \<Rightarrow> watcher \<Rightarrow> watcher" where
  "handle_watch_removed wd w = drop_watch wd w"

subsection \<open>Proxy watches\<close>

text \<open>\<open>target.strip_prefix(child)\<close> and the first component of what is left.\<close>

definition next_component :: "string \<Rightarrow> string \<Rightarrow> string option" where
  "next_component child target =
     (let cs = path_components child; ts = path_components target in
      if take (length cs) ts = cs \<and> length cs < length ts then Some (ts ! length cs) else None)"

definition promote_proxy ::
  "notify_env \<Rightarrow> string option \<Rightarrow> string \<Rightarrow> proxy_target \<Rightarrow> watcher \<Rightarrow> watcher" where
  "promote_proxy env ancestor name proxy w =
     (let target = configured_path proxy in
      if ne_exists env target then
        (case add_watch env target (px_flags proxy) w of
           (Inr _, w1) \<Rightarrow>
             (case w_config w1 of
                Some config \<Rightarrow>
                  if ne_is_dir env target \<and> wc_recursive config
                  then snd (add_recursive_watches env target (px_flags proxy) (depth_limit config) 0 w1)
                  else w1
              | None \<Rightarrow> w1)
         | (Inl _, w1) \<Rightarrow> w1)
      else (case ancestor of
              None \<Rightarrow> w
            | Some anc \<Rightarrow>
                (let child_path = path_join anc (os_to_str name) in
                 if ne_is_dir env child_path then
                   (case next_component child_path target of
                      None \<Rightarrow> w
                    | Some next_child \<Rightarrow>
                        (case add_watch env child_path (px_flags proxy \<union> {IN_CREATE, IN_MOVED_TO}) w of
                           (Inr wd, w1) \<Rightarrow>
                             push_proxy wd \<lparr>configured_path = configured_path proxy,
                                            immediate_child = next_child, px_flags = px_flags proxy\<rparr> w1
                         | (Inl _, w1) \<Rightarrow> w1))
                 else w)))"

definition check_proxy_promotion :: "notify_env \<Rightarrow> inotify_event \<Rightarrow> watcher \<Rightarrow> watcher" where
  "check_proxy_promotion env ev w =
     (if IN_CREATE \<notin> ie_mask ev \<and> IN_MOVED_TO \<notin> ie_mask ev then w
      else (case ie_name ev of
              None \<Rightarrow> w
            | Some name \<Rightarrow>
                (case map_of (w_proxy_watches w) (ie_wd ev) of
                   None \<Rightarrow> w
                 | Some proxies \<Rightarrow>
                     (let promotions = filter (\<lambda>p. immediate_child p = name) proxies;
                          remaining = filter (\<lambda>p. immediate_child p \<noteq> name) proxies
                      in if promotions = [] then w
                         else (let w1 = w\<lparr>w_proxy_watches :=
                                  (if remaining = [] then AList.delete (ie_wd ev) (w_proxy_watches w)
                                   else AList.update (ie_wd ev) remaining (w_proxy_watches w))\<rparr>
                               in fold (promote_proxy env (map_of (w_watches w1) (ie_wd ev)) name)
                                    promotions w1)))))"

subsection \<open>Overflow\<close>

definition readd_path :: "notify_env \<Rightarrow> watch_config \<Rightarrow> string \<times> bool \<Rightarrow> watcher \<Rightarrow> watcher" where
  "readd_path env config ps w =
     (let flags = events_to_flags (wc_events config);
          w1 = snd (add_watch_for_path env (fst ps) flags (snd ps) w)
      in if wc_recursive config \<and> ne_is_dir env (fst ps)
         then snd (add_recursive_watches env (fst ps) flags (depth_limit config) 0 w1)
         else w1)"

definition clear_watches :: "watcher \<Rightarrow> watcher" where
  "clear_watches w = w\<lparr>w_watches := [], w_path_to_wd := [], w_move_tracker := tracker_clear (w_move_tracker w),
     w_proxy_watches := []\<rparr>"

definition handle_overflow :: "notify_env \<Rightarrow> watch_config \<Rightarrow> watcher \<Rightarrow> (notify_error + unit) \<times> watcher" where
  "handle_overflow env config w =
     (case ne_init env of
        Inl e \<Rightarrow> (Inl (Inotify e), w)
      | Inr _ \<Rightarrow>
          (Inr (), update_active
             (fold (readd_path env config) (zip (wc_paths config) (wc_skip_if_missing config)) (clear_watches w))))"

subsection \<open>The event loop\<close>

definition dispatch_single_event ::
  "notify_env \<Rightarrow> (nat \<Rightarrow> bool) \<Rightarrow> watch_config \<Rightarrow> inotify_event \<Rightarrow> watcher
   \<Rightarrow> (notify_error + bool) \<times> file_event list \<times> watcher" where
  "dispatch_single_event env ok config ev w =
     (if IN_Q_OVERFLOW \<in> ie_mask ev then
        (case handle_overflow env config (wtick wm_record_queue_overflow w) of
           (Inl e, w1) \<Rightarrow> (Inl e, [], w1)
         | (Inr _, w1) \<Rightarrow> (Inr True, [], w1))
      else if IN_IGNORED \<in> ie_mask ev then (Inr True, [], handle_watch_removed (ie_wd ev) w)
      else (case notify_process_event env ev (check_proxy_promotion env ev w) of
              (None, w1) \<Rightarrow> (Inr True, [], w1)
            | (Some es, w1) \<Rightarrow> (let (b, out, w2) = send_events ok 0 es w1 in (Inr b, out, w2))))"

record inotify_input =
  ii_env :: notify_env
  ii_send_ok :: "nat \<Rightarrow> bool"
  ii_event :: inotify_event

fun dispatch_events ::
  "watch_config \<Rightarrow> inotify_input list \<Rightarrow> watcher \<Rightarrow> (notify_error + bool) \<times> file_event list \<times> watcher" where
  "dispatch_events config [] w = (Inr True, [], w)"
| "dispatch_events config (i # is) w =
     (case dispatch_single_event (ii_env i) (ii_send_ok i) config (ii_event i) w of
        (Inr True, out, w1) \<Rightarrow> (let (r, out', w2) = dispatch_events config is w1 in (r, out @ out', w2))
      | (r, out, w1) \<Rightarrow> (r, out, w1))"

definition read_and_dispatch_events ::
  "watch_config \<Rightarrow> errno + inotify_input list \<Rightarrow> watcher
   \<Rightarrow> (notify_error + bool) \<times> file_event list \<times> watcher" where
  "read_and_dispatch_events config rd w =
     (case rd of
        Inr is \<Rightarrow> dispatch_events config is w
      | Inl e \<Rightarrow> if e = EAGAIN then (Inr True, [], w) else (Inr True, [], wtick wm_record_error w))"

record loop_input =
  li_now :: nat
  li_send_ok :: "nat \<Rightarrow> bool"
  li_read :: "errno + inotify_input list"

fun event_loop_inner ::
  "watch_config \<Rightarrow> loop_input list \<Rightarrow> watcher \<Rightarrow> (notify_error + unit) \<times> file_event list \<times> watcher" where
  "event_loop_inner config [] w = (Inr (), [], w)"
| "event_loop_inner config (l # ls) w =
     (if w_running w then
        (case emit_expired_moves (li_now l) (li_send_ok l) w of
           (Inl e, out, w1) \<Rightarrow> (Inl e, out, w1)
         | (Inr _, out, w1) \<Rightarrow>
             (case read_and_dispatch_events config (li_read l) w1 of
                (Inl e, out', w2) \<Rightarrow> (Inl e, out @ out', w2)
              | (Inr b, out', w2) \<Rightarrow>
                  if b then (let (r, out'', w3) = event_loop_inner config ls w2 in (r, out @ out' @ out'', w3))
                  else (Inr (), out @ out', w2)))
      else (Inr (), [], w))"

text \<open>
  The common part of \<open>run_event_loop\<close> and \<open>watch\<close>. A list of inputs holds the turns of the loop so far: with
  the list used up and the flag still set the loop has not returned. After an error the state stays
  \<open>Running\<close>.
\<close>

definition run_started ::
  "watch_config \<Rightarrow> loop_input list \<Rightarrow> watcher \<Rightarrow> (notify_error + unit) \<times> file_event list \<times> watcher" where
  "run_started config ls w =
     (case event_loop_inner config ls w of
        (Inl e, out, w1) \<Rightarrow> (Inl e, out, w1)
      | (Inr _, out, w1) \<Rightarrow> (Inr (), out, if w_running w1 then w1 else w1\<lparr>w_state := Stopped\<rparr>))"

definition run_event_loop ::
  "loop_input list \<Rightarrow> watcher \<Rightarrow> (notify_error + unit) \<times> file_event list \<times> watcher" where
  "run_event_loop ls w =
     (case w_config w of
        None \<Rightarrow> (Inl (NotifyIo ''no config - call add_watches first''), [], w)
      | Some config \<Rightarrow> run_started config ls (w\<lparr>w_running := True, w_state := Running\<rparr>))"

definition watch ::
  "notify_env \<Rightarrow> watch_config \<Rightarrow> loop_input list \<Rightarrow> watcher
   \<Rightarrow> (notify_error + unit) \<times> file_event list \<times> watcher" where
  "watch env config ls w =
     (case add_paths env config (events_to_flags (wc_events config))
             (zip (wc_paths config) (wc_skip_if_missing config)) 0 (w\<lparr>w_config := Some config\<rparr>) of
        (Inl e, w1) \<Rightarrow> (Inl e, [], w1)
      | (Inr _, w1) \<Rightarrow> run_started config ls (update_active (w1\<lparr>w_running := True, w_state := Running\<rparr>)))"

definition watcher_stop :: "watcher \<Rightarrow> watcher" where
  "watcher_stop w = w\<lparr>w_running := False\<rparr>"

text \<open>The results of the \<open>rm_watch\<close> calls are ignored.\<close>

definition watcher_pause :: "watcher \<Rightarrow> (notify_error + watch_config) \<times> watcher" where
  "watcher_pause w =
     (case w_config w of Some c \<Rightarrow> Inr c | None \<Rightarrow> Inl (NotifyIo ''no config stored''),
      (clear_watches (watcher_stop w))\<lparr>w_state := Paused\<rparr>)"

definition watcher_resume ::
  "notify_env \<Rightarrow> loop_input list \<Rightarrow> watcher \<Rightarrow> (notify_error + unit) \<times> file_event list \<times> watcher" where
  "watcher_resume env ls w =
     (case w_config w of
        None \<Rightarrow> (Inl (NotifyIo ''no config stored''), [], w)
      | Some config \<Rightarrow>
          (case ne_init env of
             Inl e \<Rightarrow> (Inl (Inotify e), [], w)
           | Inr _ \<Rightarrow> watch env config ls w))"

end
