(* ===== verification/Notify_Props.thy ===== *)
theory Notify_Props
  imports Notify
begin

section \<open>Properties of the inotify watcher\<close>

text \<open>
  The invariant of a watcher and that every operation, the event loop included, keeps it; move pairs;
  proxy watches; pause and overflow.
\<close>

subsection \<open>The invariant\<close>

text \<open>
  The limit is \<open>N\<close>, the maps have unique keys, at most \<open>N\<close> directories are watched, and no pending move has the
  cookie 0.
\<close>

definition watcher_wf :: "nat \<Rightarrow> watcher \<Rightarrow> bool" where
  "watcher_wf N w \<longleftrightarrow> alist_wf (w_watches w) \<and> alist_wf (w_path_to_wd w) \<and> alist_wf (w_proxy_watches w) \<and>
     alist_wf (mp_pending (w_move_tracker w)) \<and> map_of (mp_pending (w_move_tracker w)) 0 = None \<and>
     w_max_watches w = N \<and> length (w_watches w) \<le> N"

lemma wtick_frame [frame, simp]:
  "w_watches (wtick f w) = w_watches w" "w_path_to_wd (wtick f w) = w_path_to_wd w"
  "w_move_tracker (wtick f w) = w_move_tracker w" "w_running (wtick f w) = w_running w"
  "w_state (wtick f w) = w_state w" "w_max_watches (wtick f w) = w_max_watches w"
  "w_config (wtick f w) = w_config w" "w_proxy_watches (wtick f w) = w_proxy_watches w"
  "w_metrics (wtick f w) = map_option f (w_metrics w)"
  by (simp_all add: wtick_def)

lemma watcher_wf_wtick [simp]: "watcher_wf N (wtick f w) = watcher_wf N w"
  by (simp add: watcher_wf_def)

lemma watcher_wf_fields [simp]:
  "watcher_wf N (w\<lparr>w_running := b\<rparr>) = watcher_wf N w" "watcher_wf N (w\<lparr>w_state := s\<rparr>) = watcher_wf N w"
  "watcher_wf N (w\<lparr>w_config := c\<rparr>) = watcher_wf N w" "watcher_wf N (w\<lparr>w_metrics := m\<rparr>) = watcher_wf N w"
  by (simp_all add: watcher_wf_def)

lemma watcher_new_wf: "watcher_new init N = Inr w \<Longrightarrow> watcher_wf N w"
  by (auto simp: watcher_new_def watcher_wf_def tracker_new_def split: sum.splits)

lemma add_watch_wf [simp]: "watcher_wf N w \<Longrightarrow> watcher_wf N (snd (add_watch env p flags w))"
  by (auto simp: add_watch_def watcher_wf_def Let_def alist_length_update split: sum.splits)

lemma add_watch_wfD: "add_watch env p flags w = (r, w') \<Longrightarrow> watcher_wf N w \<Longrightarrow> watcher_wf N w'"
  using add_watch_wf [of N w env p flags] by simp

lemma add_watch_Inr_iff:
  "fst (add_watch env p flags w) = Inr wd \<longleftrightarrow>
     length (w_watches w) < w_max_watches w \<and> ne_add_watch env p flags = Inr wd"
  by (auto simp: add_watch_def Let_def split: sum.splits)

lemma push_proxy_wf [simp]: "watcher_wf N w \<Longrightarrow> watcher_wf N (push_proxy wd t w)"
  by (simp add: push_proxy_def watcher_wf_def)

lemma drop_watch_wf [simp]: "watcher_wf N w \<Longrightarrow> watcher_wf N (drop_watch wd w)"
  using le_trans [OF alist_length_delete_le]
  by (auto simp: drop_watch_def watcher_wf_def split: option.splits)

lemma remove_watch_wf [simp]: "watcher_wf N w \<Longrightarrow> watcher_wf N (snd (remove_watch env wd w))"
  by (auto simp: remove_watch_def split: sum.splits)

lemma remove_watch_by_path_wf [simp]: "watcher_wf N w \<Longrightarrow> watcher_wf N (snd (remove_watch_by_path env p w))"
proof -
  assume "watcher_wf N w"
  then have "watcher_wf N (w\<lparr>w_path_to_wd := AList.delete c (w_path_to_wd w)\<rparr>)" for c
    by (simp add: watcher_wf_def)
  with \<open>watcher_wf N w\<close> show ?thesis by (simp add: remove_watch_by_path_def Let_def split: option.splits)
qed

lemma cleanup_stale_watches_wf [simp]: "watcher_wf N w \<Longrightarrow> watcher_wf N (snd (cleanup_stale_watches env w))"
proof -
  have "watcher_wf N w \<Longrightarrow> watcher_wf N (fold (\<lambda>(wd, path) w. snd (remove_watch env wd w)) xs w)" for xs
    by (induction xs arbitrary: w) (auto simp: split_beta)
  then show "watcher_wf N w \<Longrightarrow> ?thesis" by (simp add: cleanup_stale_watches_def Let_def)
qed

lemma clear_watches_wf [simp]: "watcher_wf N w \<Longrightarrow> watcher_wf N (clear_watches w)"
  by (simp add: clear_watches_def watcher_wf_def tracker_clear_def)

subsection \<open>What registration keeps\<close>

text \<open>
  Registration, promotion of proxies and recovery from an overflow reach the watcher through a few
  primitives only: what these keep, all of them keep.
\<close>

locale registration_invariant =
  fixes P :: "watcher \<Rightarrow> bool"
  assumes add_watch_inv: "P w \<Longrightarrow> P (snd (add_watch env p flags w))"
    and push_proxy_inv: "P w \<Longrightarrow> P (push_proxy wd t w)"
    and clear_watches_inv: "P w \<Longrightarrow> P (clear_watches w)"
    and proxy_delete_inv: "P w \<Longrightarrow> P (w\<lparr>w_proxy_watches := AList.delete k (w_proxy_watches w)\<rparr>)"
    and proxy_update_inv: "P w \<Longrightarrow> P (w\<lparr>w_proxy_watches := AList.update k v (w_proxy_watches w)\<rparr>)"
    and wtick_inv: "P w \<Longrightarrow> P (wtick g w)"
begin

lemma add_watch_invD: "add_watch env p flags w = (r, w') \<Longrightarrow> P w \<Longrightarrow> P w'"
  using add_watch_inv [of w env p flags] by simp

lemma add_watch_or_proxy_inv: "P w \<Longrightarrow> P (snd (add_watch_or_proxy env p flags w))"
  by (auto simp: add_watch_or_proxy_def split: prod.splits sum.splits option.splits
      dest: add_watch_invD intro: push_proxy_inv)

lemma add_watch_or_proxy_invD: "add_watch_or_proxy env p flags w = (r, w') \<Longrightarrow> P w \<Longrightarrow> P w'"
  using add_watch_or_proxy_inv [of w env p flags] by simp

lemma add_watch_for_path_inv: "P w \<Longrightarrow> P (snd (add_watch_for_path env p flags skip w))"
  by (auto simp: add_watch_for_path_def split: prod.splits sum.splits
      dest: add_watch_invD add_watch_or_proxy_invD)

lemma add_entries_inv: "P w \<Longrightarrow> P (snd (add_entries env flags m d es w))"
proof (induction env flags m d es w rule: add_entries.induct)
  case (2 env flags m d p isdir sub es w)
  obtain r w1 where a: "add_watch env p flags w = (r, w1)" by fastforce
  then have w1: "P w1" using "2.prems" by (rule add_watch_invD)
  show ?case
  proof (cases isdir)
    case True
    show ?thesis
    proof (cases r)
      case (Inl e)
      with 2(1) [OF True a [unfolded Inl, symmetric]] w1 True a Inl show ?thesis by auto
    next
      case (Inr wd)
      define sub_result where "sub_result = (if m > 0 \<and> d + 1 \<ge> m then (Inr (), w1)
          else (case sub of None \<Rightarrow> (Inr (), w1) | Some xs \<Rightarrow> add_entries env flags m (d + 1) xs w1))"
      have "P (snd sub_result)"
        using 2(2) [OF True a [unfolded Inr, symmetric]] w1
        by (auto simp: sub_result_def split: option.splits)
      moreover obtain r2 w2 where r2: "sub_result = (r2, w2)" by fastforce
      ultimately have "P w2" by simp
      with 2(3) [OF True a [unfolded Inr, symmetric]] r2 True a Inr show ?thesis
        by (cases r2) (auto simp: sub_result_def)
    qed
  next
    case False
    with 2(4) "2.prems" show ?thesis by simp
  qed
qed simp

lemma add_recursive_watches_inv: "P w \<Longrightarrow> P (snd (add_recursive_watches env dir flags m d w))"
  by (auto simp: add_recursive_watches_def add_entries_inv split: option.splits)

lemma add_paths_inv: "P w \<Longrightarrow> P (snd (add_paths env config flags ps n w))"
proof (induction env config flags ps n w rule: add_paths.induct)
  case (2 env config flags p skip ps added w)
  obtain r w1 where a: "add_watch_for_path env p flags skip w = (r, w1)" by fastforce
  then have w1: "P w1" using add_watch_for_path_inv [OF "2.prems", of env p flags skip] by simp
  obtain r2 w2 where b: "add_recursive_watches env p flags (depth_limit config) 0 w1 = (r2, w2)" by fastforce
  then have w2: "P w2"
    using add_recursive_watches_inv [OF w1, of env p flags "depth_limit config" 0] by simp
  show ?case
  proof (cases r)
    case (Inr u)
    note ih = "2.IH" [OF a [unfolded Inr, symmetric]]
    show ?thesis
    proof (cases "wc_recursive config \<and> ne_is_dir env p")
      case True
      with ih(1) [OF _ True b [symmetric]] a b w1 w2 Inr show ?thesis by (cases r2) auto
    qed (use ih(2) a w1 Inr in auto)
  qed (use a w1 in simp)
qed simp

lemma add_paths_invD: "add_paths env config flags ps n w = (r, w') \<Longrightarrow> P w \<Longrightarrow> P w'"
  using add_paths_inv [of w env config flags ps n] by simp

lemma update_active_inv: "P w \<Longrightarrow> P (update_active w)"
  by (simp add: update_active_def wtick_inv)

lemma readd_path_inv: "P w \<Longrightarrow> P (readd_path env config ps w)"
  by (simp add: readd_path_def Let_def add_watch_for_path_inv add_recursive_watches_inv)

lemma handle_overflow_inv: "P w \<Longrightarrow> P (snd (handle_overflow env config w))"
proof -
  have "P w \<Longrightarrow> P (fold (readd_path env config) ps w)" for ps w
    by (induction ps arbitrary: w) (simp_all add: readd_path_inv)
  then show "P w \<Longrightarrow> ?thesis"
    by (simp add: handle_overflow_def clear_watches_inv update_active_inv split: sum.splits)
qed

lemma promote_proxy_inv: "P w \<Longrightarrow> P (promote_proxy env anc name p w)"
  by (auto simp: promote_proxy_def Let_def split: option.splits prod.splits sum.splits dest: add_watch_invD
      intro: push_proxy_inv add_recursive_watches_inv)

lemma check_proxy_promotion_inv: "P w \<Longrightarrow> P (check_proxy_promotion env ev w)"
proof -
  assume P: "P w"
  have "P w' \<Longrightarrow> P (fold (promote_proxy env anc name) ps w')" for anc name ps w'
    by (induction ps arbitrary: w') (simp_all add: promote_proxy_inv)
  with P show ?thesis
    by (simp add: check_proxy_promotion_def Let_def proxy_delete_inv proxy_update_inv split: option.splits)
qed

end

interpretation wf: registration_invariant "watcher_wf N" for N
  by unfold_locales (simp_all, simp_all add: watcher_wf_def)

text \<open>The running flag, the state and the configuration are not touched.\<close>

lemma add_watch_frame [frame, simp]:
  "w_running (snd (add_watch env p flags w)) = w_running w" "w_state (snd (add_watch env p flags w)) = w_state w"
  "w_config (snd (add_watch env p flags w)) = w_config w"
  by (auto simp: add_watch_def Let_def split: sum.splits)

interpretation control: registration_invariant "\<lambda>w. w_running w = b \<and> w_state w = s \<and> w_config w = c" for b s c
  by unfold_locales (simp_all add: push_proxy_def clear_watches_def)

lemmas add_watch_for_path_wf [simp] = wf.add_watch_for_path_inv
lemmas add_recursive_watches_wf [simp] = wf.add_recursive_watches_inv
lemmas add_paths_wf [simp] = wf.add_paths_inv
lemmas add_paths_wfD = wf.add_paths_invD
lemmas handle_overflow_wf [simp] = wf.handle_overflow_inv
lemmas check_proxy_promotion_wf [simp] = wf.check_proxy_promotion_inv

lemma update_active_wf [simp]: "watcher_wf N (update_active w) = watcher_wf N w"
  by (simp add: update_active_def)

lemma add_watches_wf [simp]: "watcher_wf N w \<Longrightarrow> watcher_wf N (snd (add_watches env config w))"
  by (auto simp: add_watches_def split: prod.splits sum.splits dest: add_paths_wfD)

subsection \<open>The event loop keeps the invariant\<close>

text \<open>The invariant of the tracker alone, which the events of the loop change.\<close>

lemma watcher_wf_tracker:
  "watcher_wf N w \<Longrightarrow> alist_wf (mp_pending t) \<Longrightarrow> map_of (mp_pending t) 0 = None \<Longrightarrow>
   watcher_wf N (w\<lparr>w_move_tracker := t\<rparr>)"
  by (simp add: watcher_wf_def)

lemma notify_process_event_wf [simp]: "watcher_wf N w \<Longrightarrow> watcher_wf N (snd (notify_process_event env ev w))"
  by (auto simp: notify_process_event_def Let_def watcher_wf_def record_moved_from_def match_moved_to_def
      update_conv' delete_conv' split: option.splits prod.splits if_splits)

lemma send_events_wf [simp]: "watcher_wf N w \<Longrightarrow> watcher_wf N (snd (snd (send_events ok n es w)))"
  by (induction ok n es w rule: send_events.induct) (auto simp: Let_def split_beta)

lemma remove_cookies_wf:
  "alist_wf m \<Longrightarrow> alist_wf (snd (remove_cookies ks m)) \<and>
     map_of (snd (remove_cookies ks m)) = (\<lambda>k. if k \<in> set ks then None else map_of m k)"
proof (induction ks m rule: remove_cookies.induct)
  case (2 k ks m)
  then show ?case
    by (auto simp: split_beta Let_def delete_conv' fun_eq_iff split: option.splits)
qed simp

lemma drain_expired_wf:
  assumes "alist_wf (mp_pending t)" "map_of (mp_pending t) 0 = None"
  shows "alist_wf (mp_pending (snd (drain_expired now t))) \<and> map_of (mp_pending (snd (drain_expired now t))) 0 = None"
  using remove_cookies_wf [OF assms(1)] assms(2) by (simp add: drain_expired_def Let_def split_beta)

lemma emit_pending_wf [simp]: "watcher_wf N w \<Longrightarrow> watcher_wf N (snd (snd (emit_pending ok n kps w)))"
  by (induction ok n kps w rule: emit_pending.induct) (auto simp: Let_def split_beta)

lemma emit_expired_moves_wf [simp]: "watcher_wf N w \<Longrightarrow> watcher_wf N (snd (snd (emit_expired_moves now ok w)))"
proof -
  assume wf: "watcher_wf N w"
  then have "alist_wf (mp_pending (w_move_tracker w))" "map_of (mp_pending (w_move_tracker w)) 0 = None"
    by (simp_all add: watcher_wf_def)
  from drain_expired_wf [OF this] wf show ?thesis
    by (auto simp: emit_expired_moves_def Let_def split_beta intro!: emit_pending_wf watcher_wf_tracker)
qed

lemma loop_wfD:
  "handle_overflow env config w = (r, w') \<Longrightarrow> watcher_wf N w \<Longrightarrow> watcher_wf N w'"
  "notify_process_event env ev w = (es, w') \<Longrightarrow> watcher_wf N w \<Longrightarrow> watcher_wf N w'"
  "send_events ok n fs w = (b, out, w') \<Longrightarrow> watcher_wf N w \<Longrightarrow> watcher_wf N w'"
  using handle_overflow_wf [where N = N and w = w and env = env and config = config] notify_process_event_wf [of N w env ev] send_events_wf [of N w ok n fs]
  by auto

lemma dispatch_single_event_wf [simp]:
  "watcher_wf N w \<Longrightarrow> watcher_wf N (snd (snd (dispatch_single_event env ok config ev w)))"
  by (auto simp: dispatch_single_event_def handle_watch_removed_def Let_def
      split: prod.splits sum.splits option.splits dest: loop_wfD [where N = N])

lemma dispatch_single_event_wfD:
  "dispatch_single_event env ok config ev w = (r, out, w') \<Longrightarrow> watcher_wf N w \<Longrightarrow> watcher_wf N w'"
  using dispatch_single_event_wf [of N w env ok config ev] by simp

lemma dispatch_events_wf [simp]: "watcher_wf N w \<Longrightarrow> watcher_wf N (snd (snd (dispatch_events config is w)))"
proof (induction config "is" w rule: dispatch_events.induct)
  case (2 config i "is" w)
  obtain r out w1 where d: "dispatch_single_event (ii_env i) (ii_send_ok i) config (ii_event i) w = (r, out, w1)"
    by (metis prod_cases3)
  then have w1: "watcher_wf N w1" using "2.prems" by (rule dispatch_single_event_wfD)
  show ?case
  proof (cases "r = Inr True")
    case True
    with "2.IH" [OF d [symmetric]] d w1 show ?thesis by (simp add: split_beta)
  qed (use d w1 in \<open>auto split: sum.splits bool.splits\<close>)
qed simp

lemma read_and_dispatch_events_wf [simp]:
  "watcher_wf N w \<Longrightarrow> watcher_wf N (snd (snd (read_and_dispatch_events config rd w)))"
  by (auto simp: read_and_dispatch_events_def split: sum.splits)

lemma event_loop_inner_wf [simp]: "watcher_wf N w \<Longrightarrow> watcher_wf N (snd (snd (event_loop_inner config ls w)))"
proof (induction ls arbitrary: w)
  case (Cons l ls)
  obtain r out w1 where e: "emit_expired_moves (li_now l) (li_send_ok l) w = (r, out, w1)" by (metis prod_cases3)
  then have w1: "watcher_wf N w1" using emit_expired_moves_wf [OF Cons.prems, of "li_now l" "li_send_ok l"] by simp
  obtain r2 out2 w2 where d: "read_and_dispatch_events config (li_read l) w1 = (r2, out2, w2)" by (metis prod_cases3)
  then have w2: "watcher_wf N w2" using read_and_dispatch_events_wf [OF w1, of config "li_read l"] by simp
  from Cons.IH [OF w2] Cons.prems e d w1 w2 show ?case
    by (auto simp: split_beta Let_def split: sum.splits)
qed simp

lemma run_started_wf [simp]: "watcher_wf N w \<Longrightarrow> watcher_wf N (snd (snd (run_started config ls w)))"
proof -
  assume "watcher_wf N w"
  then have "watcher_wf N (snd (snd (event_loop_inner config ls w)))" by simp
  then show ?thesis by (cases "event_loop_inner config ls w") (auto simp: run_started_def split: sum.splits)
qed

lemma run_event_loop_wf [simp]: "watcher_wf N w \<Longrightarrow> watcher_wf N (snd (snd (run_event_loop ls w)))"
  by (simp add: run_event_loop_def split: option.splits)

lemma watch_wf [simp]: "watcher_wf N w \<Longrightarrow> watcher_wf N (snd (snd (watch env config ls w)))"
  by (auto simp: watch_def split: prod.splits sum.splits intro!: run_started_wf dest: add_paths_wfD)

lemma watcher_pause_wf [simp]: "watcher_wf N w \<Longrightarrow> watcher_wf N (snd (watcher_pause w))"
  by (simp add: watcher_pause_def watcher_stop_def)

lemma watcher_resume_wf [simp]: "watcher_wf N w \<Longrightarrow> watcher_wf N (snd (snd (watcher_resume env ls w)))"
  by (simp add: watcher_resume_def split: option.splits sum.splits)

subsection \<open>A loop that nothing stops\<close>

text \<open>As long as the channel is open and the kernel can reinitialise, only \<open>stop\<close> and \<open>pause\<close> end the loop.\<close>

definition healthy_input :: "loop_input \<Rightarrow> bool" where
  "healthy_input l \<longleftrightarrow> (\<forall>i. li_send_ok l i) \<and>
     (case li_read l of
        Inr is \<Rightarrow> list_all (\<lambda>i. (\<forall>k. ii_send_ok i k) \<and> ne_init (ii_env i) = Inr ()) is
      | Inl _ \<Rightarrow> True)"

lemma notify_process_event_control [simp]:
  "w_running (snd (notify_process_event env ev w)) = w_running w"
  "w_config (snd (notify_process_event env ev w)) = w_config w"
  by (auto simp: notify_process_event_def Let_def split: option.splits prod.splits)

lemma send_events_running:
  "(\<And>i. ok i) \<Longrightarrow> fst (send_events ok n es w) \<and> w_running (snd (snd (send_events ok n es w))) = w_running w \<and>
     w_config (snd (snd (send_events ok n es w))) = w_config w"
  by (induction ok n es w rule: send_events.induct) (auto simp: Let_def split_beta)

lemma emit_expired_running:
  assumes "\<And>i. ok i"
  shows "fst (emit_expired_moves now ok w) = Inr () \<and> w_running (snd (snd (emit_expired_moves now ok w))) = w_running w \<and>
    w_config (snd (snd (emit_expired_moves now ok w))) = w_config w"
proof -
  have "fst (emit_pending ok n kps w) = Inr () \<and> w_running (snd (snd (emit_pending ok n kps w))) = w_running w \<and>
      w_config (snd (snd (emit_pending ok n kps w))) = w_config w" for n kps w
    using assms by (induction ok n kps w rule: emit_pending.induct) (auto simp: Let_def split_beta)
  then show ?thesis by (simp add: emit_expired_moves_def Let_def split_beta)
qed

lemma dispatch_single_event_running:
  assumes "\<And>i. ok i" "ne_init env = Inr ()"
  shows "fst (dispatch_single_event env ok config ev w) = Inr True \<and>
    w_running (snd (snd (dispatch_single_event env ok config ev w))) = w_running w \<and>
    w_config (snd (snd (dispatch_single_event env ok config ev w))) = w_config w"
proof -
  let ?w = "wtick wm_record_queue_overflow w"
  have o: "fst (handle_overflow env config ?w) = Inr ()" using assms(2) by (simp add: handle_overflow_def)
  have o2: "w_running (snd (handle_overflow env config ?w)) = w_running w"
    "w_config (snd (handle_overflow env config ?w)) = w_config w"
    using control.handle_overflow_inv [of ?w "w_running w" "w_state w" "w_config w" env config] by simp_all
  have p: "w_running (check_proxy_promotion env ev w) = w_running w"
    "w_config (check_proxy_promotion env ev w) = w_config w"
    using control.check_proxy_promotion_inv [of w "w_running w" "w_state w" "w_config w" env ev] by simp_all
  obtain es w1 where n: "notify_process_event env ev (check_proxy_promotion env ev w) = (es, w1)" by fastforce
  then have n2: "w_running w1 = w_running w" "w_config w1 = w_config w"
    using notify_process_event_control [of env ev "check_proxy_promotion env ev w"] p by simp_all
  have d: "w_running (drop_watch wd w) = w_running w" "w_config (drop_watch wd w) = w_config w" for wd
    by (simp_all add: drop_watch_def split: option.splits)
  show ?thesis
    using o o2 n n2 d send_events_running [of ok 0 _ w1] assms(1)
    by (auto simp: dispatch_single_event_def handle_watch_removed_def Let_def split_beta split: sum.splits option.splits)
qed

lemma dispatch_events_running:
  "list_all (\<lambda>i. (\<forall>k. ii_send_ok i k) \<and> ne_init (ii_env i) = Inr ()) is \<Longrightarrow>
   fst (dispatch_events config is w) = Inr True \<and> w_running (snd (snd (dispatch_events config is w))) = w_running w \<and>
   w_config (snd (snd (dispatch_events config is w))) = w_config w"
proof (induction config "is" w rule: dispatch_events.induct)
  case (2 config i "is" w)
  have "fst (dispatch_single_event (ii_env i) (ii_send_ok i) config (ii_event i) w) = Inr True \<and>
      w_running (snd (snd (dispatch_single_event (ii_env i) (ii_send_ok i) config (ii_event i) w))) = w_running w \<and>
      w_config (snd (snd (dispatch_single_event (ii_env i) (ii_send_ok i) config (ii_event i) w))) = w_config w"
    using "2.prems" by (intro dispatch_single_event_running) simp_all
  then obtain out w1 where d: "dispatch_single_event (ii_env i) (ii_send_ok i) config (ii_event i) w = (Inr True, out, w1)"
    "w_running w1 = w_running w" "w_config w1 = w_config w" by (metis prod.collapse snd_conv)
  with "2.IH" [OF d(1) [symmetric]] "2.prems" show ?case by (simp add: split_beta)
qed simp

lemma event_loop_running:
  assumes "list_all healthy_input ls" and "w_running w"
  shows "fst (event_loop_inner config ls w) = Inr () \<and> w_running (snd (snd (event_loop_inner config ls w))) \<and>
    w_config (snd (snd (event_loop_inner config ls w))) = w_config w"
  using assms
proof (induction ls arbitrary: w)
  case (Cons l ls)
  then have h: "\<And>i. li_send_ok l i" by (simp add: healthy_input_def)
  obtain r out w1 where e: "emit_expired_moves (li_now l) (li_send_ok l) w = (r, out, w1)" by (metis prod_cases3)
  then have e2: "r = Inr ()" "w_running w1" "w_config w1 = w_config w"
    using emit_expired_running [where ok = "li_send_ok l" and now = "li_now l" and w = w] h Cons.prems by simp_all
  obtain b out2 w2 where d: "read_and_dispatch_events config (li_read l) w1 = (b, out2, w2)" by (metis prod_cases3)
  have "b = Inr True \<and> w_running w2 = w_running w1 \<and> w_config w2 = w_config w1"
  proof (cases "li_read l")
    case (Inl err)
    with d show ?thesis by (auto simp: read_and_dispatch_events_def split: if_splits)
  next
    case (Inr "is")
    with d Cons.prems dispatch_events_running [of "is" config w1] show ?thesis
      by (simp add: read_and_dispatch_events_def healthy_input_def)
  qed
  with Cons.IH [of w2] Cons.prems e e2 d show ?case by (simp add: split_beta Let_def)
qed simp

subsection \<open>Runs of a watcher\<close>

datatype watcher_op =
    OpAddWatches notify_env watch_config
  | OpRemoveWatch notify_env nat
  | OpRemoveByPath notify_env string
  | OpCleanup notify_env
  | OpRunLoop "loop_input list"
  | OpWatch notify_env watch_config "loop_input list"
  | OpPause
  | OpResume notify_env "loop_input list"

definition watcher_step :: "watcher_op \<Rightarrow> watcher \<Rightarrow> watcher" where
  "watcher_step x w = (case x of
     OpAddWatches env c \<Rightarrow> snd (add_watches env c w)
   | OpRemoveWatch env wd \<Rightarrow> snd (remove_watch env wd w)
   | OpRemoveByPath env p \<Rightarrow> snd (remove_watch_by_path env p w)
   | OpCleanup env \<Rightarrow> snd (cleanup_stale_watches env w)
   | OpRunLoop ls \<Rightarrow> snd (snd (run_event_loop ls w))
   | OpWatch env c ls \<Rightarrow> snd (snd (watch env c ls w))
   | OpPause \<Rightarrow> snd (watcher_pause w)
   | OpResume env ls \<Rightarrow> snd (snd (watcher_resume env ls w)))"

lemma watcher_step_wf: "watcher_wf N w \<Longrightarrow> watcher_wf N (watcher_step x w)"
  by (simp add: watcher_step_def split: watcher_op.splits)

lemma watcher_run_wf: "watcher_wf N w \<Longrightarrow> watcher_wf N (fold watcher_step xs w)"
  by (induction xs arbitrary: w) (simp_all add: watcher_step_wf)

subsection \<open>Recursive registration\<close>

text \<open>The directories of a listing that the depth limit lets through, in the order they are met.\<close>

function listed_dirs :: "u32 \<Rightarrow> u32 \<Rightarrow> dir_entry list \<Rightarrow> string list" where
  "listed_dirs m d [] = []"
| "listed_dirs m d (DirEntry p isdir sub # es) =
     (if isdir then
        p # (if m > 0 \<and> d + 1 \<ge> m then []
             else (case sub of None \<Rightarrow> [] | Some xs \<Rightarrow> listed_dirs m (d + 1) xs)) @ listed_dirs m d es
      else listed_dirs m d es)"
  by pat_completeness auto
termination
  by (relation "measure (\<lambda>(m, d, es). size_list size es)") auto

lemma add_watch_paths:
  "add_watch env p flags w = (Inr wd, w1) \<Longrightarrow>
     map_of (w_path_to_wd w1) = (map_of (w_path_to_wd w))(path_components (canonical env p) \<mapsto> wd)"
  by (auto simp: add_watch_def Let_def update_conv' split: if_splits sum.splits)

lemma add_watch_no_kernel_error:
  assumes "\<And>p f. \<exists>wd. ne_add_watch env p f = Inr wd" and "add_watch env p flags w = (Inl e, w1)"
  shows "is_limit_error e"
proof -
  obtain wd where "ne_add_watch env p flags = Inr wd" using assms(1) by blast
  with assms(2) show ?thesis by (auto simp: add_watch_def is_limit_error_def Let_def split: if_splits)
qed

lemma add_entries_paths:
  assumes "\<And>p f. \<exists>wd. ne_add_watch env p f = Inr wd"
  shows "add_entries env flags m d es w = (Inr (), w') \<Longrightarrow>
    dom (map_of (w_path_to_wd w')) =
      dom (map_of (w_path_to_wd w)) \<union> (path_components \<circ> canonical env) ` set (listed_dirs m d es)"
proof (induction m d es arbitrary: w w' rule: listed_dirs.induct)
  case (2 m d p isdir sub es)
  show ?case
  proof (cases isdir)
    case True
    obtain r w1 where a: "add_watch env p flags w = (r, w1)" by fastforce
    obtain wd where r: "r = Inr wd"
      using "2.prems" a True add_watch_no_kernel_error [OF assms] by (cases r) (auto split: if_splits)
    define sub_result where "sub_result = (if m > 0 \<and> d + 1 \<ge> m then (Inr (), w1)
        else (case sub of None \<Rightarrow> (Inr (), w1) | Some xs \<Rightarrow> add_entries env flags m (d + 1) xs w1))"
    obtain r2 w2 where s: "sub_result = (r2, w2)" by fastforce
    have r2: "r2 = Inr ()" and rest: "add_entries env flags m d es w2 = (Inr (), w')"
      using "2.prems" True a r s by (auto simp: sub_result_def split: sum.splits)
    have "dom (map_of (w_path_to_wd w2)) = dom (map_of (w_path_to_wd w1)) \<union>
        (path_components \<circ> canonical env) ` set (if m > 0 \<and> d + 1 \<ge> m then []
             else (case sub of None \<Rightarrow> [] | Some xs \<Rightarrow> listed_dirs m (d + 1) xs))"
      using s r2 "2.IH"(1) [OF True] unfolding sub_result_def
      by (auto split: if_splits option.splits)
    with "2.IH"(2) [OF True rest] add_watch_paths [OF a [unfolded r]] True show ?thesis
      by (auto simp: image_Un split: if_splits)
  qed (use 2 in simp)
qed simp

text \<open>No registration forgets a path or touches the pending moves.\<close>

definition extends :: "watcher \<Rightarrow> watcher \<Rightarrow> bool" where
  "extends w w' \<longleftrightarrow> dom (map_of (w_path_to_wd w)) \<subseteq> dom (map_of (w_path_to_wd w')) \<and>
     w_move_tracker w' = w_move_tracker w \<and> w_proxy_watches w' = w_proxy_watches w"

lemma extends_refl [simp]: "extends w w"
  by (simp add: extends_def)

lemma extends_trans: "extends a b \<Longrightarrow> extends b c \<Longrightarrow> extends a c"
  by (auto simp: extends_def)

lemma add_watch_extends: "add_watch env p flags w = (r, w1) \<Longrightarrow> extends w w1"
  by (auto simp: add_watch_def Let_def update_conv' extends_def split: if_splits sum.splits)

lemma add_entries_extends: "extends w (snd (add_entries env flags m d es w))"
proof (induction env flags m d es w rule: add_entries.induct)
  case (2 env flags m d p isdir sub es w)
  obtain r w1 where a: "add_watch env p flags w = (r, w1)" by fastforce
  note e1 = add_watch_extends [OF a]
  show ?case
  proof (cases isdir)
    case True
    show ?thesis
    proof (cases r)
      case (Inl e)
      with 2(1) [OF True a [unfolded Inl, symmetric]] e1 True a show ?thesis
        by (auto intro: extends_trans)
    next
      case (Inr wd)
      define sub_result where "sub_result = (if m > 0 \<and> d + 1 \<ge> m then (Inr (), w1)
          else (case sub of None \<Rightarrow> (Inr (), w1) | Some xs \<Rightarrow> add_entries env flags m (d + 1) xs w1))"
      obtain r2 w2 where s: "sub_result = (r2, w2)" by fastforce
      have "extends w1 (snd sub_result)"
        using 2(2) [OF True a [unfolded Inr, symmetric]] by (auto simp: sub_result_def split: option.splits)
      with s e1 have "extends w w2" by (auto intro: extends_trans)
      with 2(3) [OF True a [unfolded Inr, symmetric]] s True a Inr show ?thesis
        by (cases r2) (auto simp: sub_result_def intro: extends_trans)
    qed
  qed (use 2(4) in simp)
qed simp

lemma add_recursive_watches_extends: "extends w (snd (add_recursive_watches env dir flags m d w))"
  using add_entries_extends by (simp add: add_recursive_watches_def split: option.splits)

subsection \<open>Draining the tracker\<close>

lemma remove_cookies_filter:
  assumes "distinct (map fst ys)" "\<forall>(k, v)\<in>set ys. map_of m k = Some v"
  shows "remove_cookies (map fst ys) m = (ys, filter (\<lambda>kv. fst kv \<notin> fst ` set ys) m)"
  using assms
proof (induction ys arbitrary: m)
  case (Cons y ys)
  obtain k v where y: "y = (k, v)" by fastforce
  have "\<forall>(k', v')\<in>set ys. map_of (AList.delete k m) k' = Some v'"
    using Cons.prems y by (force simp: delete_conv')
  then have "remove_cookies (map fst ys) (AList.delete k m)
      = (ys, filter (\<lambda>kv. fst kv \<notin> fst ` set ys) (AList.delete k m))"
    using Cons.prems(1) by (intro Cons.IH) auto
  moreover have "filter (\<lambda>kv. fst kv \<notin> fst ` set ys) (AList.delete k m)
      = filter (\<lambda>kv. fst kv \<notin> insert k (fst ` set ys)) m"
    by (auto simp: AList.delete_eq intro: filter_cong)
  ultimately show ?case using Cons.prems(2) y by simp
qed simp

lemma drain_expired_eq:
  assumes "alist_wf (mp_pending t)"
  shows "drain_expired now t =
    (filter (\<lambda>kv. pending_expired now (mp_timeout t) (snd kv)) (mp_pending t),
     t\<lparr>mp_pending := filter (\<lambda>kv. \<not> pending_expired now (mp_timeout t) (snd kv)) (mp_pending t)\<rparr>)"
proof -
  let ?P = "\<lambda>kv :: u32 \<times> pending_move. pending_expired now (mp_timeout t) (snd kv)"
  let ?ys = "filter ?P (mp_pending t)"
  have d: "distinct (map fst (mp_pending t))" using assms by (simp add: alist_wf_def)
  then have "distinct (map fst ?ys)" by (simp add: distinct_map_filter)
  moreover have "\<forall>(k, v)\<in>set ?ys. map_of (mp_pending t) k = Some v" using assms by (auto simp: alist_in_set_lookup)
  ultimately have r: "remove_cookies (map fst ?ys) (mp_pending t)
      = (?ys, filter (\<lambda>kv. fst kv \<notin> fst ` set ?ys) (mp_pending t))"
    by (rule remove_cookies_filter)
  have "fst kv \<notin> fst ` set ?ys \<longleftrightarrow> \<not> ?P kv" if "kv \<in> set (mp_pending t)" for kv
  proof
    assume "\<not> ?P kv"
    show "fst kv \<notin> fst ` set ?ys"
    proof
      assume "fst kv \<in> fst ` set ?ys"
      then obtain z where z: "z \<in> set (mp_pending t)" "?P z" "fst z = fst kv" by auto
      with d that have "z = kv" by (auto simp: distinct_map inj_on_def)
      with z \<open>\<not> ?P kv\<close> show False by simp
    qed
  qed (use that in \<open>auto intro: rev_image_eqI\<close>)
  then have "filter (\<lambda>kv. fst kv \<notin> fst ` set ?ys) (mp_pending t) = filter (\<lambda>kv. \<not> ?P kv) (mp_pending t)"
    by (rule filter_cong [OF refl])
  with r show ?thesis by (simp add: drain_expired_def Let_def case_prod_beta')
qed

subsection \<open>Proxies\<close>

lemma promote_proxy_watches_target:
  assumes "ne_exists env (configured_path t)" and "fst (add_watch env (configured_path t) (px_flags t) w) = Inr wd"
  shows "is_watching env (configured_path t) (promote_proxy env anc name t w) \<and>
         w_proxy_watches (promote_proxy env anc name t w) = w_proxy_watches w"
proof -
  obtain w1 where a: "add_watch env (configured_path t) (px_flags t) w = (Inr wd, w1)"
    using assms(2) by (cases "add_watch env (configured_path t) (px_flags t) w") auto
  have "extends w1 (promote_proxy env anc name t w)"
    using assms(1) a add_recursive_watches_extends [of w1 env "configured_path t" "px_flags t" _ 0]
    by (auto simp: promote_proxy_def Let_def split: option.splits)
  with add_watch_paths [OF a] add_watch_extends [OF a] show ?thesis
    by (auto simp: extends_def is_watching_def get_wd_def)
qed

lemma nearest_ancestor_spec:
  "nearest_ancestor env (rev cs) = Some (dir, c) \<Longrightarrow>
     \<exists>k<length cs. dir = path_of_components (take k cs) \<and> c = cs ! k \<and> ne_exists env dir \<and> ne_is_dir env dir \<and>
       (\<forall>j. k < j \<and> j < length cs \<longrightarrow>
          \<not> (ne_exists env (path_of_components (take j cs)) \<and> ne_is_dir env (path_of_components (take j cs))))"
proof (induction cs rule: rev_induct)
  case (snoc x xs)
  show ?case
  proof (cases "ne_exists env (path_of_components xs) \<and> ne_is_dir env (path_of_components xs)")
    case True
    with snoc.prems show ?thesis
      by (intro exI [of _ "length xs"]) (auto simp: Let_def split: if_splits)
  next
    case False
    with snoc.prems have "nearest_ancestor env (rev xs) = Some (dir, c)"
      by (auto simp: Let_def split: if_splits)
    from snoc.IH [OF this] obtain k where k: "k < length xs" "dir = path_of_components (take k xs)" "c = xs ! k"
      "ne_exists env dir" "ne_is_dir env dir"
      "\<forall>j. k < j \<and> j < length xs \<longrightarrow>
          \<not> (ne_exists env (path_of_components (take j xs)) \<and> ne_is_dir env (path_of_components (take j xs)))"
      by blast
    with False show ?thesis
      by (intro exI [of _ k]) (auto simp: nth_append less_Suc_eq)
  qed
qed simp

subsection \<open>Properties\<close>

text \<open>
  C10: The limit on watches. From a new watcher, over every sequence of registrations (recursive ones
  included), removals, event loops with their proxy promotions and overflow recoveries, pauses and
  resumes, whatever the kernel and the file system answer, the watcher never holds more than
  \<open>max_watches\<close> watches.
\<close>

theorem watcher_limit:
  assumes "watcher_new init limit = Inr w"
  shows "length (w_watches (fold watcher_step ops w)) \<le> limit"
  using watcher_run_wf [OF watcher_new_wf [OF assms], of ops] by (simp add: watcher_wf_def)

definition plain_watcher :: "nat \<Rightarrow> watcher" where
  "plain_watcher n =
     \<lparr>w_watches = [], w_path_to_wd = [], w_move_tracker = tracker_new MOVE_PAIR_TIMEOUT, w_running = False,
      w_state = Stopped, w_max_watches = n, w_metrics = None, w_config = None, w_proxy_watches = []\<rparr>"

definition plain_env :: notify_env where
  "plain_env =
     \<lparr>ne_init = Inr (), ne_add_watch = (\<lambda>p f. Inr (length p)), ne_rm_watch = (\<lambda>_. Inr ()),
      ne_canonicalize = Some, ne_exists = (\<lambda>p. p \<noteq> ''/d/new''), ne_is_dir = (\<lambda>p. p = ''/d''),
      ne_read_dir = (\<lambda>_. Some [DirEntry ''/d/x'' True (Some [DirEntry ''/d/x/y'' True None])]), ne_now = 0\<rparr>"

definition plain_config :: watch_config where
  "plain_config = \<lparr>wc_paths = [''/d''], wc_events = [''modify''], wc_ignore_patterns = [], wc_recursive = True,
     wc_max_depth = Some 1, wc_skip_if_missing = [False]\<rparr>"

theorem watcher_limit_witness:
  "length (w_watches (fold watcher_step [OpAddWatches plain_env plain_config, OpPause] (plain_watcher 1))) \<le> 1"
  by (rule watcher_limit [of "Inr ()"]) (simp add: watcher_new_def plain_watcher_def)

text \<open>
  C18: Recursive registration is complete. When the kernel accepts every watch and \<open>add_recursive_watches\<close>
  returns without a limit error, exactly the directories of the tree down to the depth limit (all of
  them when it is 0) have been added to the watched paths.
\<close>

theorem recursive_watches_complete:
  assumes "\<forall>p f. \<exists>wd. ne_add_watch env p f = Inr wd" and "ne_read_dir env dir = Some es"
    and "add_recursive_watches env dir flags m 0 w = (Inr (), w')"
  shows "dom (map_of (w_path_to_wd w')) =
    dom (map_of (w_path_to_wd w)) \<union> (path_components \<circ> canonical env) ` set (listed_dirs m 0 es)"
proof -
  have "\<not> (0 < m \<and> m \<le> 0)" by auto
  then have "add_entries env flags m 0 es w = (Inr (), w')"
    using assms(2,3) by (auto simp: add_recursive_watches_def split: if_splits)
  then show ?thesis using add_entries_paths [of env flags m 0 es w w'] assms(1) by blast
qed

theorem recursive_watches_complete_witness:
  "dom (map_of (w_path_to_wd (snd (add_recursive_watches plain_env ''/d'' {IN_MODIFY} 1 0 (plain_watcher 5)))))
     = {[''/'', ''d'', ''x'']}"
proof -
  have "fst (add_recursive_watches plain_env ''/d'' {IN_MODIFY} 1 0 (plain_watcher 5)) = Inr ()"
    by (simp add: add_recursive_watches_def plain_env_def add_watch_def plain_watcher_def Let_def canonical_def)
  then obtain w' where w': "add_recursive_watches plain_env ''/d'' {IN_MODIFY} 1 0 (plain_watcher 5) = (Inr (), w')"
    by (cases "add_recursive_watches plain_env ''/d'' {IN_MODIFY} 1 0 (plain_watcher 5)") auto
  have "\<forall>p f. \<exists>wd. ne_add_watch plain_env p f = Inr wd" by (simp add: plain_env_def)
  moreover have "ne_read_dir plain_env ''/d'' = Some [DirEntry ''/d/x'' True (Some [DirEntry ''/d/x/y'' True None])]"
    by (simp add: plain_env_def)
  ultimately have "dom (map_of (w_path_to_wd w')) = dom (map_of (w_path_to_wd (plain_watcher 5))) \<union>
      (path_components \<circ> canonical plain_env) `
        set (listed_dirs 1 0 [DirEntry ''/d/x'' True (Some [DirEntry ''/d/x/y'' True None])])"
    using w' by (rule recursive_watches_complete)
  then have "dom (map_of (w_path_to_wd w')) = {[''/'', ''d'', ''x'']}"
    by (simp add: plain_watcher_def canonical_def plain_env_def path_components_def path_has_root_def
        starts_with_def Let_def)
  with w' show ?thesis by simp
qed

text \<open>
  Event names and kernel flags agree: the name of every event type is read back as that type, and a
  watch configured for that name asks the kernel for exactly the flag that is reported as that type.
\<close>

theorem event_type_roundtrip:
  "event_type_from_str (event_type_as_str e) = e \<and>
   (e = EtUnknown \<or>
     (\<exists>fl. events_to_flags [event_type_as_str e] = {fl} \<and> mask_to_event_type {fl} = e))"
proof (cases e)
qed (simp_all add: event_type_from_str_def event_type_as_str_def Let_def to_lowercase_def ascii_lower_def
    events_to_flags_def event_flags_def mask_to_event_type_def)

text \<open>What the event loop may do between the two halves of a move: handle other events, or look for expired moves.\<close>

datatype between = Handles notify_env inotify_event | LooksForExpired nat "nat \<Rightarrow> bool"

fun between_step :: "between \<Rightarrow> watcher \<Rightarrow> watcher" where
  "between_step (Handles env ev) w = snd (notify_process_event env ev w)"
| "between_step (LooksForExpired now ok) w = snd (snd (emit_expired_moves now ok w))"

text \<open>No other move has the cookie, and the move recorded at \<open>t\<close> is not yet older than the timeout.\<close>

fun leaves_move :: "u32 \<Rightarrow> nat \<Rightarrow> nat \<Rightarrow> between \<Rightarrow> bool" where
  "leaves_move c t timeout (Handles env ev) \<longleftrightarrow>
     (mask_to_event_type (ie_mask ev) \<in> {EtMovedFrom, EtMovedTo} \<longrightarrow> ie_cookie ev \<noteq> c)"
| "leaves_move c t timeout (LooksForExpired now ok) \<longleftrightarrow> now - t \<le> timeout"

lemma emit_pending_frame:
  "w_watches (snd (snd (emit_pending ok n kps w))) = w_watches w \<and> w_move_tracker (snd (snd (emit_pending ok n kps w))) = w_move_tracker w"
  by (induction ok n kps w rule: emit_pending.induct) (simp_all add: Let_def split_beta)

lemma between_keeps:
  assumes "watcher_wf N w" and "map_of (mp_pending (w_move_tracker w)) c = Some p"
    and "leaves_move c (pm_timestamp p) (mp_timeout (w_move_tracker w)) b"
  shows "watcher_wf N (between_step b w) \<and> w_watches (between_step b w) = w_watches w \<and>
    mp_timeout (w_move_tracker (between_step b w)) = mp_timeout (w_move_tracker w) \<and>
    map_of (mp_pending (w_move_tracker (between_step b w))) c = Some p"
proof (cases b)
  case (Handles env ev)
  with assms notify_process_event_wf [OF assms(1), of env ev] show ?thesis
    by (auto simp: notify_process_event_def record_moved_from_def match_moved_to_def update_conv' delete_conv' Let_def
        split: option.splits prod.splits if_splits)
next
  case (LooksForExpired now ok)
  have wf: "alist_wf (mp_pending (w_move_tracker w))" using assms(1) by (simp add: watcher_wf_def)
  let ?live = "filter (\<lambda>kv. \<not> pending_expired now (mp_timeout (w_move_tracker w)) (snd kv)) (mp_pending (w_move_tracker w))"
  have "(c, p) \<in> set (mp_pending (w_move_tracker w))" using assms(2) by (rule map_of_SomeD)
  with assms(3) LooksForExpired have "(c, p) \<in> set ?live" by (simp add: pending_expired_def)
  moreover have "distinct (map fst ?live)" using wf by (simp add: alist_wf_def distinct_map_filter)
  ultimately have "map_of ?live c = Some p" by simp
  with LooksForExpired emit_expired_moves_wf [OF assms(1), of now ok] show ?thesis
    by (simp add: emit_expired_moves_def drain_expired_eq [OF wf] emit_pending_frame Let_def split_beta)
qed

lemma between_keeps_all:
  assumes "watcher_wf N w" and "map_of (mp_pending (w_move_tracker w)) c = Some p"
    and "\<forall>b\<in>set bs. leaves_move c (pm_timestamp p) (mp_timeout (w_move_tracker w)) b"
  shows "w_watches (fold between_step bs w) = w_watches w \<and> map_of (mp_pending (w_move_tracker (fold between_step bs w))) c = Some p"
  using assms
proof (induction bs arbitrary: w)
  case (Cons b bs)
  with between_keeps [of N w c p b] Cons.IH [of "between_step b w"] show ?case by simp
qed simp

text \<open>
  C12: A rename inside the watched tree is reported as a pair. After a moved-from event of a named entry of a watched
  directory, whatever other events \<open>process_event\<close> handles and whenever the loop looks for expired moves (recovery from an overflow,
  which clears the table, apart), provided no other move has the
  cookie and none of these looks comes later than the timeout: the moved-to event with the same
  non-zero cookie in a watched directory gives both halves together, each naming the other's path, where the
  moved-from event alone gave none. The move is then no longer pending, and all others are as before.
\<close>

theorem move_pair_reported:
  assumes "watcher_wf N w" and "map_of (w_watches w) (ie_wd ev1) = Some d1" and "map_of (w_watches w) (ie_wd ev2) = Some d2"
    and "mask_to_event_type (ie_mask ev1) = EtMovedFrom" and "mask_to_event_type (ie_mask ev2) = EtMovedTo"
    and "ie_name ev1 = Some n1" and "ie_name ev2 = Some n2"
    and "ie_cookie ev1 = ie_cookie ev2" and "ie_cookie ev1 \<noteq> 0"
    and "notify_process_event env1 ev1 w = (r1, w1)"
    and "\<forall>b\<in>set bs. leaves_move (ie_cookie ev1) (ne_now env1) (mp_timeout (w_move_tracker w)) b"
    and "notify_process_event env2 ev2 (fold between_step bs w1) = (r2, w2)"
  shows "r1 = None \<and>
    map_option (map (\<lambda>f. (f_event_type f, f_path f, f_move_peer f))) r2 =
      Some [(EtMovedFrom, path_join d1 (os_to_str n1), Some (path_join d2 (os_to_str n2))),
            (EtMovedTo, path_join d2 (os_to_str n2), Some (path_join d1 (os_to_str n1)))] \<and>
    map_of (mp_pending (w_move_tracker w2)) = (map_of (mp_pending (w_move_tracker (fold between_step bs w1))))(ie_cookie ev1 := None)"
proof -
  let ?p = "\<lparr>pm_path = path_join d1 (os_to_str n1), pm_filename = Some (os_to_str n1), pm_is_dir = IN_ISDIR \<in> ie_mask ev1, pm_timestamp = ne_now env1\<rparr>"
  have w1: "r1 = None" "w_watches w1 = w_watches w" "mp_timeout (w_move_tracker w1) = mp_timeout (w_move_tracker w)"
    "map_of (mp_pending (w_move_tracker w1)) (ie_cookie ev1) = Some ?p"
    using assms(2,4,6,9,10) by (auto simp: notify_process_event_def record_moved_from_def update_conv' Let_def)
  have "watcher_wf N w1" using notify_process_event_wf [OF assms(1), of env1 ev1] assms(10) by simp
  from between_keeps_all [OF this w1(4), of bs] w1 assms(11) have
    "w_watches (fold between_step bs w1) = w_watches w" "map_of (mp_pending (w_move_tracker (fold between_step bs w1))) (ie_cookie ev1) = Some ?p"
    by simp_all
  with assms(3,5,7,8,9,12) w1(1) show ?thesis
    by (auto simp: notify_process_event_def match_moved_to_def delete_conv' Let_def)
qed

theorem move_pair_reported_witness:
  "map_option length (fst (notify_process_event plain_env
      \<lparr>ie_wd = 1, ie_mask = {IN_MOVED_TO}, ie_cookie = 7, ie_name = Some ''b''\<rparr>
      (fold between_step [Handles plain_env \<lparr>ie_wd = 1, ie_mask = {IN_MOVED_FROM}, ie_cookie = 8, ie_name = Some ''c''\<rparr>,
          LooksForExpired 1 (\<lambda>_. True)]
        (snd (notify_process_event plain_env
          \<lparr>ie_wd = 1, ie_mask = {IN_MOVED_FROM}, ie_cookie = 7, ie_name = Some ''a''\<rparr>
          ((plain_watcher 5)\<lparr>w_watches := [(1, ''/d'')]\<rparr>)))))) = Some 2"
proof -
  let ?w = "(plain_watcher 5)\<lparr>w_watches := [(1, ''/d'')]\<rparr>"
  let ?bs = "[Handles plain_env \<lparr>ie_wd = 1, ie_mask = {IN_MOVED_FROM}, ie_cookie = 8, ie_name = Some ''c''\<rparr>, LooksForExpired 1 (\<lambda>_. True)]"
  let ?e1 = "\<lparr>ie_wd = 1, ie_mask = {IN_MOVED_FROM}, ie_cookie = 7, ie_name = Some ''a''\<rparr>"
  let ?e2 = "\<lparr>ie_wd = 1, ie_mask = {IN_MOVED_TO}, ie_cookie = 7, ie_name = Some ''b''\<rparr>"
  obtain r1 w1 where p1: "notify_process_event plain_env ?e1 ?w = (r1, w1)" by fastforce
  obtain r2 w2 where p2: "notify_process_event plain_env ?e2 (fold between_step ?bs w1) = (r2, w2)" by fastforce
  have wf: "watcher_wf 5 ?w" by (simp add: plain_watcher_def watcher_wf_def alist_wf_def tracker_new_def watcher_new_def)
  have "\<forall>b\<in>set ?bs. leaves_move (ie_cookie ?e1) (ne_now plain_env) (mp_timeout (w_move_tracker ?w)) b"
    by (simp add: plain_env_def plain_watcher_def watcher_new_def tracker_new_def MOVE_PAIR_TIMEOUT_def)
  from move_pair_reported [OF wf _ _ _ _ _ _ _ _ p1 this p2] have
    "map_option (map (\<lambda>f. (f_event_type f, f_path f, f_move_peer f))) r2 =
      Some [(EtMovedFrom, path_join ''/d'' (os_to_str ''a''), Some (path_join ''/d'' (os_to_str ''b''))),
            (EtMovedTo, path_join ''/d'' (os_to_str ''b''), Some (path_join ''/d'' (os_to_str ''a'')))]"
    by (simp add: mask_to_event_type_def)
  then obtain fs where "r2 = Some fs" "length fs = 2"
    by (cases r2) (auto dest: arg_cong [where f = length])
  with p1 p2 show ?thesis by simp
qed

text \<open>
  C13: A move out of the watched tree is reported after the timeout. Once expired, \<open>emit_expired_moves\<close> sends
  exactly the pending moves that are older than the timeout, each once and as a moved-from event without
  a peer, keeps the younger ones pending, and counts one timeout each.
\<close>

theorem expired_moves_emitted:
  assumes "watcher_wf N w" and "\<forall>i. ok i" and "w_metrics w = Some m"
    and "emit_expired_moves now ok w = (r, out, w')"
  shows "r = Inr () \<and>
    out = map pending_event (filter (\<lambda>kv. now - pm_timestamp (snd kv) > mp_timeout (w_move_tracker w))
                               (mp_pending (w_move_tracker w))) \<and>
    mp_pending (w_move_tracker w') = filter (\<lambda>kv. \<not> now - pm_timestamp (snd kv) > mp_timeout (w_move_tracker w))
                               (mp_pending (w_move_tracker w)) \<and>
    (\<exists>m'. w_metrics w' = Some m' \<and> wm_move_pairs_timeout m' = wm_move_pairs_timeout m + of_nat (length out))"
proof -
  have wf: "alist_wf (mp_pending (w_move_tracker w))" using assms(1) by (simp add: watcher_wf_def)
  have emit: "emit_pending ok n kps v = (Inr (), map pending_event kps, (wtick record_move_pair_timeout ^^ length kps) v)" for n kps v
    using assms(2) by (induction ok n kps v rule: emit_pending.induct)
      (simp_all add: Let_def funpow_swap1)
  have tick: "w_metrics v = Some m \<Longrightarrow>
      w_move_tracker ((wtick record_move_pair_timeout ^^ k) v) = w_move_tracker v \<and>
      (\<exists>m'. w_metrics ((wtick record_move_pair_timeout ^^ k) v) = Some m' \<and>
        wm_move_pairs_timeout m' = wm_move_pairs_timeout m + of_nat k)" for v k
    by (induction k) (auto simp: record_move_pair_timeout_def algebra_simps)
  show ?thesis
    using assms(3,4) tick [of "w\<lparr>w_move_tracker := snd (drain_expired now (w_move_tracker w))\<rparr>"]
    by (auto simp: emit_expired_moves_def drain_expired_eq [OF wf] emit Let_def pending_expired_def)
qed

theorem expired_moves_emitted_witness:
  "fst (snd (emit_expired_moves 5000000 (\<lambda>_. True)
     ((plain_watcher 5)\<lparr>w_metrics := Some (watcher_metrics_new 0 ''w''),
       w_move_tracker := record_moved_from 1000000 9 ''/d/a'' (Some ''a'') False (tracker_new MOVE_PAIR_TIMEOUT)\<rparr>)))
   = [\<lparr>f_event_type = EtMovedFrom, f_path = ''/d/a'', f_filename = Some ''a'', f_is_dir = False, f_cookie = 9,
       f_move_peer = None\<rparr>]"
proof -
  let ?w = "(plain_watcher 5)\<lparr>w_metrics := Some (watcher_metrics_new 0 ''w''),
       w_move_tracker := record_moved_from 1000000 9 ''/d/a'' (Some ''a'') False (tracker_new MOVE_PAIR_TIMEOUT)\<rparr>"
  obtain r out w' where e: "emit_expired_moves 5000000 (\<lambda>_. True) ?w = (r, out, w')" by (metis prod_cases3)
  have "watcher_wf 5 ?w"
    by (simp add: watcher_wf_def plain_watcher_def record_moved_from_def tracker_new_def alist_wf_def)
  from expired_moves_emitted [OF this _ _ e] e show ?thesis
    by (simp add: record_moved_from_def tracker_new_def MOVE_PAIR_TIMEOUT_def pending_event_def)
qed

text \<open>
  A moved-from event whose cookie is 0 disappears: it is neither kept for pairing nor reported, and the
  watcher, its pending moves included, is left exactly as it was.
\<close>

theorem moved_from_without_cookie_lost:
  assumes "mask_to_event_type (ie_mask ev) = EtMovedFrom" and "ie_cookie ev = 0"
  shows "notify_process_event env ev w = (None, w)"
  using assms by (simp add: notify_process_event_def record_moved_from_def Let_def split: option.splits)

theorem moved_from_without_cookie_lost_witness:
  "notify_process_event plain_env \<lparr>ie_wd = 1, ie_mask = {IN_MOVED_FROM}, ie_cookie = 0, ie_name = Some ''a''\<rparr>
     ((plain_watcher 5)\<lparr>w_watches := [(1, ''/d'')]\<rparr>) = (None, (plain_watcher 5)\<lparr>w_watches := [(1, ''/d'')]\<rparr>)"
  by (rule moved_from_without_cookie_lost) (simp_all add: mask_to_event_type_def)

text \<open>
  A missing path is watched through its nearest existing ancestor. For a path that does not exist the
  watcher asks the kernel to watch the closest ancestor directory that does, with the creation and
  moved-to flags added, and remembers the target with the name of the component that has to appear.
\<close>

theorem missing_path_proxied:
  assumes "\<not> ne_exists env path" and "add_watch_or_proxy env path flags w = (Inr b, w')"
    and "nearest_ancestor env (rev (path_components path)) \<noteq> None"
  shows "\<exists>k<length (path_components path). \<exists>wd ts.
    (let dir = path_of_components (take k (path_components path)) in
     ne_exists env dir \<and> ne_is_dir env dir \<and>
     (\<forall>j. k < j \<and> j < length (path_components path) \<longrightarrow>
        \<not> (ne_exists env (path_of_components (take j (path_components path))) \<and>
           ne_is_dir env (path_of_components (take j (path_components path))))) \<and>
     ne_add_watch env dir (flags \<union> {IN_CREATE, IN_MOVED_TO}) = Inr wd \<and>
     map_of (w_proxy_watches w') wd = Some ts \<and>
     \<lparr>configured_path = path, immediate_child = path_components path ! k, px_flags = flags\<rparr> \<in> set ts)"
proof -
  obtain dir c where n: "nearest_ancestor env (rev (path_components path)) = Some (dir, c)"
    using assms(3) by auto
  from nearest_ancestor_spec [OF n] obtain k where k: "k < length (path_components path)"
    "dir = path_of_components (take k (path_components path))" "c = path_components path ! k"
    "ne_exists env dir" "ne_is_dir env dir"
    "\<forall>j. k < j \<and> j < length (path_components path) \<longrightarrow>
        \<not> (ne_exists env (path_of_components (take j (path_components path))) \<and>
           ne_is_dir env (path_of_components (take j (path_components path))))" by blast
  obtain r w1 where a: "add_watch env dir (flags \<union> {IN_CREATE, IN_MOVED_TO}) w = (r, w1)" by fastforce
  obtain wd where r: "r = Inr wd" and w': "w' = push_proxy wd
      \<lparr>configured_path = path, immediate_child = c, px_flags = flags\<rparr> w1"
    using assms(1,2) n a by (cases r) (auto simp: add_watch_or_proxy_def)
  have "ne_add_watch env dir (flags \<union> {IN_CREATE, IN_MOVED_TO}) = Inr wd"
    using a r add_watch_Inr_iff [of env dir "flags \<union> {IN_CREATE, IN_MOVED_TO}" w wd] by simp
  moreover obtain ts where "map_of (w_proxy_watches w') wd = Some ts"
    "\<lparr>configured_path = path, immediate_child = c, px_flags = flags\<rparr> \<in> set ts"
    by (simp add: w' push_proxy_def update_conv')
  ultimately show ?thesis
    using k by (intro exI [of _ k] conjI exI [of _ wd] exI [of _ ts]) (simp_all add: Let_def)
qed

theorem missing_path_proxied_witness:
  "\<exists>wd ts. map_of (w_proxy_watches (snd (add_watch_or_proxy plain_env ''/d/new'' {IN_MODIFY} (plain_watcher 5)))) wd
      = Some ts \<and> ts \<noteq> []"
proof -
  have comp: "path_components ''/d/new'' = [''/'', ''d'', ''new'']"
    by (simp add: path_components_def path_has_root_def starts_with_def Let_def)
  have near: "nearest_ancestor plain_env (rev (path_components ''/d/new'')) = Some (''/d'', ''new'')"
    by (simp add: comp plain_env_def path_of_components_def Let_def)
  have miss: "\<not> ne_exists plain_env ''/d/new''" by (simp add: plain_env_def)
  have "fst (add_watch_or_proxy plain_env ''/d/new'' {IN_MODIFY} (plain_watcher 5)) = Inr False"
    using miss near by (simp add: add_watch_or_proxy_def add_watch_def plain_watcher_def Let_def plain_env_def)
  then obtain w' where a: "add_watch_or_proxy plain_env ''/d/new'' {IN_MODIFY} (plain_watcher 5) = (Inr False, w')"
    by (cases "add_watch_or_proxy plain_env ''/d/new'' {IN_MODIFY} (plain_watcher 5)") auto
  from missing_path_proxied [OF miss a] near a show ?thesis by (fastforce simp: Let_def)
qed

text \<open>
  A created path is promoted to a direct watch. When the awaited component appears under a proxied
  ancestor (created or moved there) and the target now exists, the kernel accepts it and a watch is
  free, then the target is watched itself and no longer waited for.
\<close>

theorem created_target_promoted:
  assumes "IN_CREATE \<in> ie_mask ev \<or> IN_MOVED_TO \<in> ie_mask ev" and "ie_name ev = Some (immediate_child t)"
    and "map_of (w_proxy_watches w) (ie_wd ev) = Some [t]" and "ne_exists env (configured_path t)"
    and "length (w_watches w) < w_max_watches w" and "ne_add_watch env (configured_path t) (px_flags t) = Inr wd"
  shows "is_watching env (configured_path t) (check_proxy_promotion env ev w) \<and>
         map_of (w_proxy_watches (check_proxy_promotion env ev w)) (ie_wd ev) = None"
proof -
  let ?w1 = "w\<lparr>w_proxy_watches := AList.delete (ie_wd ev) (w_proxy_watches w)\<rparr>"
  have "fst (add_watch env (configured_path t) (px_flags t) ?w1) = Inr wd"
    using assms(5,6) by (simp add: add_watch_Inr_iff)
  from promote_proxy_watches_target [OF assms(4) this, of "map_of (w_watches w) (ie_wd ev)" "immediate_child t"]
  show ?thesis using assms(1-3) by (auto simp: check_proxy_promotion_def Let_def delete_conv')
qed

theorem created_target_promoted_witness:
  "is_watching (plain_env\<lparr>ne_exists := \<lambda>_. True\<rparr>) ''/d/new'' (check_proxy_promotion (plain_env\<lparr>ne_exists := \<lambda>_. True\<rparr>)
     \<lparr>ie_wd = 2, ie_mask = {IN_CREATE}, ie_cookie = 0, ie_name = Some ''new''\<rparr>
     ((plain_watcher 5)\<lparr>w_proxy_watches := [(2, [\<lparr>configured_path = ''/d/new'', immediate_child = ''new'', px_flags = {}\<rparr>])]\<rparr>))"
  using created_target_promoted [of "\<lparr>ie_wd = 2, ie_mask = {IN_CREATE}, ie_cookie = 0, ie_name = Some ''new''\<rparr>"
      "\<lparr>configured_path = ''/d/new'', immediate_child = ''new'', px_flags = {}\<rparr>"
      "(plain_watcher 5)\<lparr>w_proxy_watches := [(2, [\<lparr>configured_path = ''/d/new'', immediate_child = ''new'', px_flags = {}\<rparr>])]\<rparr>"
      "plain_env\<lparr>ne_exists := \<lambda>_. True\<rparr>" 6]
  by (simp add: plain_env_def plain_watcher_def)

text \<open>
  Pausing drops every watch, every pending move and every proxy and keeps the configuration for the
  resume; the metrics, however, keep the old number of active watches.
\<close>

theorem pause_clears:
  assumes "w_config w = Some config" and "w_metrics w = Some m"
  shows "fst (watcher_pause w) = Inr config \<and>
    (let w' = snd (watcher_pause w) in
     w_watches w' = [] \<and> w_path_to_wd w' = [] \<and> w_proxy_watches w' = [] \<and> mp_pending (w_move_tracker w') = [] \<and>
     \<not> w_running w' \<and> w_state w' = Paused \<and> w_config w' = Some config \<and>
     map_option wm_watches_active (w_metrics w') = Some (wm_watches_active m))"
  using assms by (simp add: watcher_pause_def clear_watches_def watcher_stop_def tracker_clear_def Let_def)

theorem pause_clears_witness:
  "map_option wm_watches_active (w_metrics (snd (watcher_pause
     ((plain_watcher 5)\<lparr>w_config := Some plain_config, w_watches := [(1, ''/d'')],
        w_metrics := Some (record_watch_added (watcher_metrics_new 0 ''w''))\<rparr>)))) = Some 1"
  using pause_clears [of "(plain_watcher 5)\<lparr>w_config := Some plain_config, w_watches := [(1, ''/d'')],
        w_metrics := Some (record_watch_added (watcher_metrics_new 0 ''w''))\<rparr>" plain_config
      "record_watch_added (watcher_metrics_new 0 ''w'')"]
  by (simp add: metrics_defs Let_def)

lemma add_watch_for_path_tracker [frame, simp]:
  "w_move_tracker (snd (add_watch_for_path env p flags skip w)) = w_move_tracker w"
proof -
  have "w_move_tracker (push_proxy wd t v) = w_move_tracker v" for wd t v by (simp add: push_proxy_def)
  moreover have "w_move_tracker (snd (add_watch env q f v)) = w_move_tracker v" for q f v
    using add_watch_extends [of env q f v] by (cases "add_watch env q f v") (auto simp: extends_def)
  ultimately show ?thesis
    by (auto simp: add_watch_for_path_def add_watch_or_proxy_def split: prod.splits sum.splits option.splits)
       (metis snd_conv)+
qed

lemma readd_path_tracker [frame, simp]: "w_move_tracker (readd_path env config ps w) = w_move_tracker w"
  using add_recursive_watches_extends
  by (simp add: readd_path_def Let_def extends_def)

text \<open>
  A queue overflow discards the pending moves. Recovery from an overflow reports nothing and forgets every
  moved-from event that still waited for its other half, expired or not: it is never sent.
\<close>

theorem overflow_discards_pending:
  assumes "IN_Q_OVERFLOW \<in> ie_mask ev" and "ne_init env = Inr ()"
    and "dispatch_single_event env ok config ev w = (r, out, w')"
  shows "r = Inr True \<and> out = [] \<and> mp_pending (w_move_tracker w') = []"
proof -
  have "w_move_tracker (fold (readd_path env config) ps v) = w_move_tracker v" for ps v
    by (induction ps arbitrary: v) simp_all
  with assms show ?thesis
    by (auto simp: dispatch_single_event_def handle_overflow_def update_active_def clear_watches_def tracker_clear_def)
qed

theorem overflow_discards_pending_witness:
  "mp_pending (w_move_tracker (snd (snd (dispatch_single_event plain_env (\<lambda>_. True) plain_config
     \<lparr>ie_wd = 0, ie_mask = {IN_Q_OVERFLOW}, ie_cookie = 0, ie_name = None\<rparr>
     ((plain_watcher 5)\<lparr>w_move_tracker := record_moved_from 0 9 ''/d/a'' None False (tracker_new 1)\<rparr>))))) = []"
proof -
  let ?ev = "\<lparr>ie_wd = 0, ie_mask = {IN_Q_OVERFLOW}, ie_cookie = 0, ie_name = None\<rparr>"
  let ?w = "(plain_watcher 5)\<lparr>w_move_tracker := record_moved_from 0 9 ''/d/a'' None False (tracker_new 1)\<rparr>"
  obtain r out w' where d: "dispatch_single_event plain_env (\<lambda>_. True) plain_config ?ev ?w = (r, out, w')"
    by (metis prod_cases3)
  from overflow_discards_pending [OF _ _ d] d show ?thesis by (simp add: plain_env_def)
qed

text \<open>
  A stale descriptor can hide a live watch. When a watched file was replaced and registered again, two
  descriptors stand for one path; the kernel's removal notice for the old one also deletes the path's
  entry, so that the path counts as not watched although its new watch is still there.
\<close>

theorem stale_removal_hides_live_watch:
  assumes "map_of (w_watches w) old = Some p" and "map_of (w_watches w) new = Some p" and "old \<noteq> new"
    and "canonical env p = p"
  shows "map_of (w_watches (handle_watch_removed old w)) new = Some p \<and>
         \<not> is_watching env p (handle_watch_removed old w)"
  using assms by (simp add: handle_watch_removed_def drop_watch_def is_watching_def get_wd_def delete_conv')

theorem stale_removal_hides_live_watch_witness:
  "\<not> is_watching plain_env ''/d/f'' (handle_watch_removed 1
     ((plain_watcher 5)\<lparr>w_watches := [(1, ''/d/f''), (2, ''/d/f'')], w_path_to_wd := [([''/'', ''d'', ''f''], 2)]\<rparr>))"
  using stale_removal_hides_live_watch [of "(plain_watcher 5)\<lparr>w_watches := [(1, ''/d/f''), (2, ''/d/f'')],
      w_path_to_wd := [([''/'', ''d'', ''f''], 2)]\<rparr>" 1 "''/d/f''" 2 plain_env]
  by (simp add: canonical_def plain_env_def)

end
