(* ===== verification/Argus_Service.thy ===== *)
theory Argus_Service
  imports Notify Session Broadcast Container_Runtime Grpc
begin

section \<open>The gRPC service of argusd\<close>

text \<open>
  \<open>argusd/src/service.rs\<close>. As in the service of janusd, shared objects live in heaps: the sessions in the
  table, the \<open>Arc<WatcherMetrics>\<close> in \<open>a_metrics_heap\<close> and the \<open>Arc<Mutex<Watcher>>\<close> in \<open>a_watchers\<close>. A watcher
  works on the shared counters: its metrics are loaded from the heap before an operation and stored back
  after it. The task spawned for a watcher locks it for as long as its event loop runs; \<open>a_loops\<close> lists the
  watchers whose lock is held that way. A handler that waits for such a lock is \<open>Blocked\<close>, with the state
  it left behind; \<open>destroy_watch_continue\<close> is the rest of the one handler that has changed state before it waits.
  The lock of the session, which a waiting handler holds as well, is not modelled. The field
  \<open>process_info\<close> of an event, never set, is left out. The kernel, the file system, the clocks and the text of
  I/O and watcher errors are the environment.
\<close>

subsection \<open>Messages\<close>

definition inotify_event_to_string :: "i32 \<Rightarrow> string" where
  "inotify_event_to_string n =
     (if n = 1 then ''access'' else if n = 2 then ''attrib'' else if n = 3 then ''closewrite''
      else if n = 4 then ''closenowrite'' else if n = 5 then ''create'' else if n = 6 then ''delete''
      else if n = 7 then ''deleteself'' else if n = 8 then ''modify'' else if n = 9 then ''moveself''
      else if n = 10 then ''movedfrom'' else if n = 11 then ''movedto'' else if n = 12 then ''open''
      else if n = 99 then ''all'' else [])"

definition file_event_type_to_proto :: "event_type \<Rightarrow> i32" where
  "file_event_type_to_proto e = (case e of
     EtAccess \<Rightarrow> 1 | EtAttrib \<Rightarrow> 2 | EtCloseWrite \<Rightarrow> 3 | EtCloseNoWrite \<Rightarrow> 4 | EtCreate \<Rightarrow> 5 | EtDelete \<Rightarrow> 6
   | EtDeleteSelf \<Rightarrow> 7 | EtModify \<Rightarrow> 8 | EtMoveSelf \<Rightarrow> 9 | EtMovedFrom \<Rightarrow> 10 | EtMovedTo \<Rightarrow> 11 | EtOpen \<Rightarrow> 12
   | EtUnknown \<Rightarrow> 0)"

record watch_subject =
  ws_paths :: "string list"
  ws_events :: "i32 list"
  ws_ignore :: "string list"
  ws_recursive :: bool
  ws_max_depth :: i32
  ws_only_dir :: bool
  ws_follow_move :: bool
  ws_tags :: "(string \<times> string) list"
  ws_skip_if_missing :: bool

record proto_file_event =
  pf_timestamp :: "timestamp option"
  pf_watcher_name :: string
  pf_namespace :: string
  pf_node_name :: string
  pf_pod_name :: string
  pf_container_id :: string
  pf_event_type :: i32
  pf_path :: string
  pf_filename :: string
  pf_is_directory :: bool
  pf_inode :: u64
  pf_tags :: "(string \<times> string) list"
  pf_cluster_name :: string

record create_watch_request =
  cw_watcher_name :: string
  cw_namespace :: string
  cw_node_name :: string
  cw_pod_name :: string
  cw_container_ids :: "string list"
  cw_pids :: "i32 list"
  cw_subjects :: "watch_subject list"
  cw_log_format :: string
  cw_paused :: bool

record create_watch_response =
  cwr_watch_id :: string
  cwr_node_name :: string
  cwr_pod_name :: string
  cwr_watched_paths :: i32
  cwr_paused :: bool
  cwr_watches_ready :: bool

record proto_watch_state =
  pws_watcher_name :: string
  pws_namespace :: string
  pws_node_name :: string
  pws_pod_name :: string
  pws_pids :: "i32 list"
  pws_watch_descriptors :: i32
  pws_created_at :: "timestamp option"
  pws_subjects :: "watch_subject list"
  pws_log_format :: string
  pws_paused :: bool
  pws_watches_ready :: bool
  pws_ready_at :: "timestamp option"
  pws_active_watch_descriptors :: i32

record proto_watch_metrics =
  pwm_watcher_name :: string
  pwm_namespace :: string
  pwm_event_counts :: "(string \<times> i64) list"
  pwm_queue_overflows :: i64

record argus_metrics_response =
  amr_active_watches :: i32
  amr_total_watch_descriptors :: i32
  amr_events_processed :: i64
  amr_watch_metrics :: "proto_watch_metrics list"

record update_watch_response =
  uw_watch_id :: string
  uw_paused :: bool
  uw_watched_paths :: i32

datatype 'r reply = Reply "grpc_status + 'r" | Blocked

subsection \<open>State\<close>

record watch_session_state =
  wss_subjects :: "watch_subject list"
  wss_log_format :: string
  wss_watch_descriptors :: u64
  wss_event_tx :: bool
  wss_watcher :: "nat option"
  wss_typed_metrics :: nat
  wss_watch_config :: "watch_config option"
  wss_watches_ready :: bool
  wss_ready_at :: "int option"

record argusd =
  a_node_name :: string
  a_cluster_name :: string
  a_max_watches :: nat
  a_sessions :: "watch_session_state session_table"
  a_metrics :: "nat metrics_aggregator"
  a_metrics_heap :: "watcher_metrics list"
  a_runtime :: "container_runtime option"
  a_watchers :: "watcher list"
  a_loops :: "nat list"

record argus_env =
  ar_fs :: file_system
  ar_host_root_path :: "string option"
  ar_now :: int
  ar_instant :: nat
  ar_notify :: notify_env
  ar_show_io :: "io_error \<Rightarrow> string"
  ar_show_notify :: "notify_error \<Rightarrow> string"

definition argusd_new :: "file_system \<Rightarrow> string option \<Rightarrow> string \<Rightarrow> string \<Rightarrow> nat \<Rightarrow> argusd" where
  "argusd_new fs host_root_path node cluster max_watches =
     \<lparr>a_node_name = node, a_cluster_name = cluster, a_max_watches = max_watches, a_sessions = new_session_map,
      a_metrics = aggregator_new node, a_metrics_heap = [], a_runtime = detect_runtime fs host_root_path,
      a_watchers = [], a_loops = []\<rparr>"

definition file_event_filterable :: "proto_file_event filterable" where
  "file_event_filterable =
     \<lparr>filter_name = pf_watcher_name, filter_namespace = pf_namespace,
      filter_event_type = (\<lambda>e. inotify_event_to_string (pf_event_type e))\<rparr>"

subsection \<open>Configuration of a watch\<close>

definition resolve_with :: "argus_env \<Rightarrow> container_runtime \<Rightarrow> string \<Rightarrow> grpc_status + u32" where
  "resolve_with env rt cid =
     (case resolve_pid (ar_fs env) rt cid of
        Inr pid \<Rightarrow> Inr pid
      | Inl e \<Rightarrow> Inl (StatusNotFound (''Failed to resolve container PID: '' @ show_runtime_error (ar_show_io env) e)))"

definition resolve_container_pid :: "argus_env \<Rightarrow> argusd \<Rightarrow> string \<Rightarrow> grpc_status + u32" where
  "resolve_container_pid env svc cid =
     (case runtime_for_container (ar_fs env) (ar_host_root_path env) cid of
        Inr rt \<Rightarrow> resolve_with env rt cid
      | Inl _ \<Rightarrow>
          (case a_runtime svc of
             None \<Rightarrow> Inl (FailedPrecondition ''No container runtime available'')
           | Some rt \<Rightarrow> resolve_with env rt cid))"

text \<open>\<open>strip_prefix('/')\<close> takes off one slash only.\<close>

definition full_path_of :: "string \<Rightarrow> string \<Rightarrow> string" where
  "full_path_of container_root path =
     (case strip_prefix path ''/'' of
        Some stripped \<Rightarrow> path_join container_root stripped
      | None \<Rightarrow> path_join container_root path)"

definition add_subject :: "string \<Rightarrow> watch_subject \<Rightarrow> watch_config \<Rightarrow> watch_config" where
  "add_subject container_root s c =
     c\<lparr>wc_paths := wc_paths c @ map (full_path_of container_root) (ws_paths s),
       wc_events := wc_events c @ filter (\<lambda>e. e \<noteq> []) (map inotify_event_to_string (ws_events s)),
       wc_ignore_patterns := wc_ignore_patterns c @ ws_ignore s,
       wc_recursive := (wc_recursive c \<or> ws_recursive s),
       wc_max_depth := (if 0 < sint (ws_max_depth s) then Some (ws_max_depth s) else wc_max_depth c),
       wc_skip_if_missing := wc_skip_if_missing c @ map (\<lambda>_. ws_skip_if_missing s) (ws_paths s)\<rparr>"

definition build_watch_config ::
  "argus_env \<Rightarrow> argusd \<Rightarrow> watch_subject list \<Rightarrow> string \<Rightarrow> grpc_status + watch_config" where
  "build_watch_config env svc subjects cid =
     (case a_runtime svc of
        None \<Rightarrow> Inl (FailedPrecondition ''No container runtime'')
      | Some rt \<Rightarrow>
          (case resolve_container_pid env svc cid of
             Inl st \<Rightarrow> Inl st
           | Inr pid \<Rightarrow>
               (let c = fold (add_subject (resolve_container_root rt pid)) subjects
                          \<lparr>wc_paths = [], wc_events = [], wc_ignore_patterns = [], wc_recursive = False,
                           wc_max_depth = None, wc_skip_if_missing = []\<rparr>
                in Inr (if wc_events c = [] then c\<lparr>wc_events := [''all'']\<rparr> else c))))"

subsection \<open>Forwarding\<close>

record file_forwarding_context =
  ffc_container_id :: string
  ffc_node_name :: string
  ffc_cluster_name :: string
  ffc_container_root :: string

definition display_path_of :: "string \<Rightarrow> string \<Rightarrow> string" where
  "display_path_of container_root path =
     (let rs = path_components container_root; ps = path_components path in
      if take (length rs) ps = rs then path_join ''/'' (path_of_components (drop (length rs) ps)) else path)"

definition forward_file_event ::
  "int \<Rightarrow> file_forwarding_context \<Rightarrow> watch_session_state session \<Rightarrow> file_event \<Rightarrow> proto_file_event" where
  "forward_file_event now ctx s e =
     \<lparr>pf_timestamp = to_timestamp now, pf_watcher_name = s_name s, pf_namespace = s_namespace s,
      pf_node_name = ffc_node_name ctx, pf_pod_name = s_pod_name s, pf_container_id = ffc_container_id ctx,
      pf_event_type = file_event_type_to_proto (f_event_type e),
      pf_path = from_utf8_lossy (display_path_of (ffc_container_root ctx) (f_path e)),
      pf_filename = (case f_filename e of Some n \<Rightarrow> n | None \<Rightarrow> []), pf_is_directory = f_is_dir e,
      pf_inode = 0, pf_tags = [], pf_cluster_name = ffc_cluster_name ctx\<rparr>"

text \<open>
  The forwarding task: for every event of its channel it awaits the lock of the session, builds the message from the session
  it finds, and broadcasts it. \<open>None\<close> is a lock that is never granted: the task stays at that event.
\<close>

record file_forwarding_input =
  ffi_event :: file_event
  ffi_session :: "watch_session_state session option"
  ffi_now :: int

fun file_forwarding_task :: "file_forwarding_context \<Rightarrow> file_forwarding_input list \<Rightarrow> proto_file_event list" where
  "file_forwarding_task ctx [] = []"
| "file_forwarding_task ctx (i # is) =
     (case ffi_session i of
        None \<Rightarrow> []
      | Some s \<Rightarrow> forward_file_event (ffi_now i) ctx s (ffi_event i) # file_forwarding_task ctx is)"

subsection \<open>Creation\<close>

definition cw_key :: "create_watch_request \<Rightarrow> string" where
  "cw_key req = session_key (cw_watcher_name req) (cw_namespace req) (cw_pod_name req)"

definition request_pids :: "argus_env \<Rightarrow> argusd \<Rightarrow> create_watch_request \<Rightarrow> i32 list" where
  "request_pids env svc req =
     (let pids = List.map_filter
            (\<lambda>cid. case resolve_container_pid env svc cid of Inr pid \<Rightarrow> Some pid | Inl _ \<Rightarrow> None) (cw_container_ids req)
      in if pids = [] then cw_pids req else pids)"

definition new_watch_session :: "argus_env \<Rightarrow> create_watch_request \<Rightarrow> i32 list \<Rightarrow> nat \<Rightarrow> watch_session_state session" where
  "new_watch_session env req pids m =
     session_new (ar_now env) (cw_key req) (cw_watcher_name req) (cw_namespace req) (cw_node_name req)
       (cw_pod_name req) (cw_container_ids req) pids (cw_paused req) m
       \<lparr>wss_subjects = cw_subjects req, wss_log_format = cw_log_format req, wss_watch_descriptors = 0,
        wss_event_tx = False, wss_watcher = None, wss_typed_metrics = m, wss_watch_config = None,
        wss_watches_ready = False, wss_ready_at = None\<rparr>"

definition modify_state ::
  "nat \<Rightarrow> (watch_session_state \<Rightarrow> watch_session_state) \<Rightarrow> argusd \<Rightarrow> argusd" where
  "modify_state a f svc =
     svc\<lparr>a_sessions := session_modify a (\<lambda>s. s\<lparr>s_state := f (s_state s)\<rparr>) (a_sessions svc)\<rparr>"

text \<open>The shared counters after an operation of the watcher.\<close>

definition store_metrics :: "nat \<Rightarrow> watcher \<Rightarrow> argusd \<Rightarrow> argusd" where
  "store_metrics m w svc =
     (case w_metrics w of
        Some x \<Rightarrow> svc\<lparr>a_metrics_heap := (a_metrics_heap svc)[m := x]\<rparr>
      | None \<Rightarrow> svc)"

definition register_watches_synchronously ::
  "argus_env \<Rightarrow> watch_config \<Rightarrow> nat \<Rightarrow> nat \<Rightarrow> watcher \<Rightarrow> argusd \<Rightarrow> bool \<times> watcher \<times> argusd" where
  "register_watches_synchronously env config a m w svc =
     (case add_watches (ar_notify env) config w of
        (Inr wd_count, w1) \<Rightarrow>
          (True, w1, modify_state a (\<lambda>s. s\<lparr>wss_watches_ready := True, wss_ready_at := Some (ar_now env),
                        wss_watch_descriptors := of_nat wd_count\<rparr>) (store_metrics m w1 svc))
      | (Inl _, w1) \<Rightarrow> (False, w1, store_metrics m w1 svc))"

text \<open>The body of the loop over containers; the first components count the paths and remember readiness.\<close>

definition watch_container ::
  "argus_env \<Rightarrow> create_watch_request \<Rightarrow> nat \<Rightarrow> string \<Rightarrow> i32 \<times> bool \<times> argusd \<Rightarrow> i32 \<times> bool \<times> argusd" where
  "watch_container env req a cid acc =
     (case acc of (watched_paths, ready, svc) \<Rightarrow>
       (case build_watch_config env svc (cw_subjects req) cid of
          Inl _ \<Rightarrow> (watched_paths, ready, svc)
        | Inr config \<Rightarrow>
            (let n = watched_paths + of_nat (length (wc_paths config));
                 m = wss_typed_metrics (s_state (tbl_heap (a_sessions svc) ! a))
             in (case with_metrics (ne_init (ar_notify env)) (a_max_watches svc) (a_metrics_heap svc ! m) of
                   Inl _ \<Rightarrow> (n, ready, svc)
                 | Inr w \<Rightarrow>
                     (case register_watches_synchronously env config a m w svc of
                        (ok, w1, svc1) \<Rightarrow>
                          (n, ready \<or> ok,
                           modify_state a (\<lambda>s. s\<lparr>wss_watcher := Some (length (a_watchers svc1)),
                               wss_event_tx := True, wss_watch_config := Some config\<rparr>)
                             (svc1\<lparr>a_watchers := a_watchers svc1 @ [w1]\<rparr>)))))))"

definition create_watch_register :: "argus_env \<Rightarrow> create_watch_request \<Rightarrow> argusd \<Rightarrow> nat \<times> argusd" where
  "create_watch_register env req svc =
     (let m = length (a_metrics_heap svc)
      in (m, svc\<lparr>a_metrics_heap := a_metrics_heap svc @ [watcher_metrics_new (ar_instant env) (cw_key req)],
                 a_metrics := agg_register m (a_metrics svc)\<rparr>))"

definition create_watch ::
  "argus_env \<Rightarrow> create_watch_request \<Rightarrow> argusd \<Rightarrow> (grpc_status + create_watch_response) \<times> argusd" where
  "create_watch env req svc =
     (if session_exists (cw_key req) (a_sessions svc)
      then (Inl (StatusAlreadyExists (''Watch already exists: '' @ cw_key req)), svc)
      else
        (let pids = request_pids env svc req;
             (m, svc1) = create_watch_register env req svc
         in (case session_insert (a_max_watches svc1) (cw_key req) (new_watch_session env req pids m) (a_sessions svc1) of
               Inl e \<Rightarrow> (Inl (ResourceExhausted (show_session_error e)), svc1)
             | Inr (a, tbl) \<Rightarrow>
                 (let svc2 = svc1\<lparr>a_sessions := tbl\<rparr>;
                      (watched_paths, ready, svc3) =
                        (if cw_paused req then (0, False, svc2)
                         else fold (watch_container env req a) (cw_container_ids req) (0, False, svc2))
                  in (Inr \<lparr>cwr_watch_id = cw_key req, cwr_node_name = cw_node_name req,
                           cwr_pod_name = cw_pod_name req, cwr_watched_paths = watched_paths,
                           cwr_paused = cw_paused req, cwr_watches_ready = ready\<rparr>,
                      svc3)))))"

text \<open>
  The spawned task of a watcher. When it first runs it takes the lock and enters the event loop; it keeps
  the lock until the loop returns. A turn runs the loop on the inputs \<open>ls\<close>, with the
  watcher's counters at the address \<open>m\<close>, and gives the events it sent.
\<close>

definition load_metrics :: "nat \<Rightarrow> argusd \<Rightarrow> watcher \<Rightarrow> watcher" where
  "load_metrics m svc w = w\<lparr>w_metrics := Some (a_metrics_heap svc ! m)\<rparr>"

definition loop_starts :: "nat \<Rightarrow> argusd \<Rightarrow> argusd" where
  "loop_starts w svc =
     (if w \<in> set (a_loops svc) then svc
      else (case run_event_loop [] (a_watchers svc ! w) of
              (Inl _, _, _) \<Rightarrow> svc
            | (Inr _, _, w1) \<Rightarrow> svc\<lparr>a_watchers := (a_watchers svc)[w := w1], a_loops := w # a_loops svc\<rparr>))"

definition loop_turn :: "loop_input list \<Rightarrow> nat \<Rightarrow> nat \<Rightarrow> argusd \<Rightarrow> file_event list \<times> argusd" where
  "loop_turn ls m w svc =
     (case w_config (a_watchers svc ! w) of
        None \<Rightarrow> ([], svc)
      | Some config \<Rightarrow>
          if w \<notin> set (a_loops svc) then ([], svc)
          else (case run_started config ls (load_metrics m svc (a_watchers svc ! w)) of
                  (r, out, w1) \<Rightarrow>
                    (out, store_metrics m w1
                       (svc\<lparr>a_watchers := (a_watchers svc)[w := w1],
                            a_loops := (if r = Inr () \<and> w_running w1 then a_loops svc
                                        else removeAll w (a_loops svc))\<rparr>))))"

subsection \<open>Destruction\<close>

text \<open>The part of the handler after it has the lock of the watcher, if there is one.\<close>

definition destroy_watch_finish :: "string \<Rightarrow> nat \<Rightarrow> argusd \<Rightarrow> argusd" where
  "destroy_watch_finish watch_id a svc =
     (let svc1 = (case wss_watcher (s_state (tbl_heap (a_sessions svc) ! a)) of
                    None \<Rightarrow> svc
                  | Some w \<Rightarrow> svc\<lparr>a_watchers := (a_watchers svc)[w := watcher_stop (a_watchers svc ! w)]\<rparr>)
      in svc1\<lparr>a_metrics := agg_unregister (\<lambda>m. wm_watcher_name (a_metrics_heap svc1 ! m)) watch_id (a_metrics svc1)\<rparr>)"

text \<open>The handler waits for the lock of the watcher of the session.\<close>

definition watcher_locked :: "nat \<Rightarrow> argusd \<Rightarrow> bool" where
  "watcher_locked a svc \<longleftrightarrow>
     (case wss_watcher (s_state (tbl_heap (a_sessions svc) ! a)) of None \<Rightarrow> False | Some w \<Rightarrow> w \<in> set (a_loops svc))"

definition destroy_watch :: "string \<Rightarrow> string \<Rightarrow> string \<Rightarrow> argusd \<Rightarrow> unit reply \<times> argusd" where
  "destroy_watch watcher_name ns pod svc =
     (let watch_id = session_key watcher_name ns pod in
      case session_remove watch_id (a_sessions svc) of
        (None, tbl) \<Rightarrow> (Reply (Inr ()), svc\<lparr>a_sessions := tbl\<rparr>)
      | (Some a, tbl) \<Rightarrow>
          (let svc1 = svc\<lparr>a_sessions := tbl\<rparr> in
           if watcher_locked a svc1 then (Blocked, svc1)
           else (Reply (Inr ()), destroy_watch_finish watch_id a svc1)))"

text \<open>A handler that was waiting goes on once the lock is free.\<close>

definition destroy_watch_continue :: "string \<Rightarrow> nat \<Rightarrow> argusd \<Rightarrow> unit reply \<times> argusd" where
  "destroy_watch_continue watch_id a svc =
     (if watcher_locked a svc then (Blocked, svc) else (Reply (Inr ()), destroy_watch_finish watch_id a svc))"

subsection \<open>Queries\<close>

definition live_watch_sessions :: "argusd \<Rightarrow> watch_session_state session list" where
  "live_watch_sessions svc = map (\<lambda>(k, a). tbl_heap (a_sessions svc) ! a) (tbl_map (a_sessions svc))"

definition session_to_watch_state :: "watch_session_state session \<Rightarrow> proto_watch_state" where
  "session_to_watch_state s =
     \<lparr>pws_watcher_name = s_name s, pws_namespace = s_namespace s, pws_node_name = s_node_name s,
      pws_pod_name = s_pod_name s, pws_pids = s_pids s,
      pws_watch_descriptors = ucast (wss_watch_descriptors (s_state s)),
      pws_created_at = to_timestamp (s_created_at s), pws_subjects = wss_subjects (s_state s),
      pws_log_format = wss_log_format (s_state s), pws_paused = s_paused s,
      pws_watches_ready = wss_watches_ready (s_state s),
      pws_ready_at = Option.bind (wss_ready_at (s_state s)) to_timestamp,
      pws_active_watch_descriptors = ucast (wss_watch_descriptors (s_state s))\<rparr>"

definition get_watch_state :: "string \<Rightarrow> string \<Rightarrow> (nat \<Rightarrow> bool) \<Rightarrow> argusd \<Rightarrow> proto_watch_state list" where
  "get_watch_state watcher_name ns connected svc =
     stream_from_iter connected
       (map session_to_watch_state
         (filter (\<lambda>s. \<not> (watcher_name \<noteq> [] \<and> s_name s \<noteq> watcher_name) \<and> \<not> (ns \<noteq> [] \<and> s_namespace s \<noteq> ns))
           (live_watch_sessions svc)))"

definition stream_filter_of :: "string \<Rightarrow> string \<Rightarrow> i32 list \<Rightarrow> stream_filter" where
  "stream_filter_of watcher_name ns event_types =
     (let f0 = stream_filter_new;
          f1 = (if watcher_name \<noteq> [] then with_name watcher_name f0 else f0);
          f2 = (if ns \<noteq> [] then with_namespace ns f1 else f1)
      in if event_types \<noteq> []
         then with_event_types (filter (\<lambda>s. s \<noteq> []) (map inotify_event_to_string event_types)) f2
         else f2)"

definition stream_events ::
  "string \<Rightarrow> string \<Rightarrow> i32 list \<Rightarrow> (nat \<Rightarrow> bool) \<Rightarrow> proto_file_event recv_result list \<Rightarrow> proto_file_event list" where
  "stream_events watcher_name ns event_types connected rs =
     filtered_broadcast_stream file_event_filterable (stream_filter_of watcher_name ns event_types)
       (\<lambda>e. e) connected rs"

definition custom_or_zero :: "string \<Rightarrow> metrics_snapshot \<Rightarrow> u64" where
  "custom_or_zero k s = (case map_of (ms_custom s) k of Some v \<Rightarrow> v | None \<Rightarrow> 0)"

definition argus_get_metrics :: "nat \<Rightarrow> string \<Rightarrow> argusd \<Rightarrow> argus_metrics_response outcome" where
  "argus_get_metrics now watcher_name svc =
     (let snapshots = collect_all (\<lambda>m. wm_snapshot now (a_metrics_heap svc ! m)) (a_metrics svc);
          totals = agg_totals (a_metrics svc)
      in case checked_sum_signed 0 (map (\<lambda>s. ucast (custom_or_zero ''watches_active'' s)) snapshots) of
           Panicked \<Rightarrow> Panicked
         | Returned descriptors \<Rightarrow>
         Returned
         \<lparr>amr_active_watches = ucast (at_active_sessions totals),
          amr_total_watch_descriptors = descriptors,
          amr_events_processed = at_events_total totals,
          amr_watch_metrics = map (\<lambda>s.
            \<lparr>pwm_watcher_name = ms_name s, pwm_namespace = [], pwm_event_counts = ms_custom s,
             pwm_queue_overflows = custom_or_zero ''queue_overflows'' s\<rparr>)
            (filter (\<lambda>s. watcher_name = [] \<or> str_contains watcher_name (ms_name s)) snapshots)\<rparr>)"

subsection \<open>Updates\<close>

definition set_paused :: "nat \<Rightarrow> bool \<Rightarrow> argusd \<Rightarrow> argusd" where
  "set_paused a b svc = svc\<lparr>a_sessions := session_modify a (\<lambda>s. s\<lparr>s_paused := b\<rparr>) (a_sessions svc)\<rparr>"

definition pause_watch :: "argus_env \<Rightarrow> string \<Rightarrow> nat \<Rightarrow> argusd \<Rightarrow> update_watch_response reply \<times> argusd" where
  "pause_watch env key a svc =
     (let s = tbl_heap (a_sessions svc) ! a;
          resp = \<lparr>uw_watch_id = key, uw_paused = True, uw_watched_paths = 0\<rparr>
      in if s_paused s then (Reply (Inl (FailedPrecondition ''Watch is already paused'')), svc)
         else (case wss_watcher (s_state s) of
                 None \<Rightarrow> (Reply (Inr resp), set_paused a True svc)
               | Some w \<Rightarrow>
                   if w \<in> set (a_loops svc) then (Blocked, svc)
                   else (case watcher_pause (a_watchers svc ! w) of
                           (Inl e, w1) \<Rightarrow>
                             (Reply (Inl (Internal (''Failed to pause watcher: '' @ ar_show_notify env e))),
                              svc\<lparr>a_watchers := (a_watchers svc)[w := w1]\<rparr>)
                         | (Inr _, w1) \<Rightarrow>
                             (Reply (Inr resp), set_paused a True (svc\<lparr>a_watchers := (a_watchers svc)[w := w1]\<rparr>)))))"

text \<open>
  \<open>resume\<close> awaits the watcher's \<open>watch\<close>, whose event loop consumes \<open>ls\<close>: as long as the loop is running the
  handler has not answered.
\<close>

definition resume_watch ::
  "argus_env \<Rightarrow> loop_input list \<Rightarrow> string \<Rightarrow> nat \<Rightarrow> argusd \<Rightarrow> update_watch_response reply \<times> argusd" where
  "resume_watch env ls key a svc =
     (let s = tbl_heap (a_sessions svc) ! a in
      if \<not> s_paused s then (Reply (Inl (FailedPrecondition ''Watch is not paused'')), svc)
      else (case wss_watcher (s_state s) of
              None \<Rightarrow> (Reply (Inl (Internal ''No watcher available for resume'')), svc)
            | Some w \<Rightarrow>
                if \<not> wss_event_tx (s_state s)
                then (Reply (Inl (Internal ''No event channel available for resume'')), svc)
                else if w \<in> set (a_loops svc) then (Blocked, svc)
                else (let m = wss_typed_metrics (s_state s) in
                      case watcher_resume (ar_notify env) ls (load_metrics m svc (a_watchers svc ! w)) of
                        (Inl e, _, w1) \<Rightarrow>
                          (Reply (Inl (Internal (''Failed to resume watcher: '' @ ar_show_notify env e))),
                           store_metrics m w1 (svc\<lparr>a_watchers := (a_watchers svc)[w := w1]\<rparr>))
                      | (Inr _, _, w1) \<Rightarrow>
                          (let svc1 = store_metrics m w1 (svc\<lparr>a_watchers := (a_watchers svc)[w := w1]\<rparr>) in
                           if w_running w1 then (Blocked, svc1\<lparr>a_loops := w # a_loops svc1\<rparr>)
                           else (Reply (Inr \<lparr>uw_watch_id = key, uw_paused = False,
                                    uw_watched_paths = (case wss_watch_config (s_state s) of
                                      Some c \<Rightarrow> of_nat (length (wc_paths c)) | None \<Rightarrow> 0)\<rparr>),
                                 set_paused a False svc1)))))"

definition update_watch ::
  "argus_env \<Rightarrow> loop_input list \<Rightarrow> string \<Rightarrow> string \<Rightarrow> string \<Rightarrow> i32 \<Rightarrow> argusd
   \<Rightarrow> update_watch_response reply \<times> argusd" where
  "update_watch env ls watcher_name ns pod action svc =
     (let key = session_key watcher_name ns pod in
      case session_get key (a_sessions svc) of
        None \<Rightarrow> (Reply (Inl (StatusNotFound (''Watch not found: '' @ key))), svc)
      | Some a \<Rightarrow>
          (case update_action_of action of
             UaPause \<Rightarrow> pause_watch env key a svc
           | UaResume \<Rightarrow> resume_watch env ls key a svc
           | UaUnspecified \<Rightarrow> (Reply (Inl (InvalidArgument ''Action must be PAUSE or RESUME'')), svc)))"

end
