(* ===== verification/Argus_Props.thy ===== *)
theory Argus_Props
  imports Argus_Service Notify_Props
begin

section \<open>Properties of the argusd service\<close>

text \<open>
  The requests of argusd as the steps of a session service, the paths it builds and reports, what its
  handlers do when an event loop holds the lock of its watcher, and what its metrics and streams show.
\<close>

subsection \<open>Requests as steps\<close>

datatype argus_request =
    CreateWatch create_watch_request
  | DestroyWatch string string string
  | UpdateWatch "loop_input list" string string string i32
  | DestroyContinues string nat
  | LoopStarts nat
  | LoopTurn "loop_input list" nat nat

definition argus_step :: "argus_env \<Rightarrow> argus_request \<Rightarrow> argusd \<Rightarrow> argusd" where
  "argus_step env r svc = (case r of
     CreateWatch req \<Rightarrow> snd (create_watch env req svc)
   | DestroyWatch n ns p \<Rightarrow> snd (destroy_watch n ns p svc)
   | UpdateWatch ls n ns p a \<Rightarrow> snd (update_watch env ls n ns p a svc)
   | DestroyContinues k a \<Rightarrow> snd (destroy_watch_continue k a svc)
   | LoopStarts w \<Rightarrow> loop_starts w svc
   | LoopTurn ls m w \<Rightarrow> snd (loop_turn ls m w svc))"

lemma store_metrics_fields [frame, simp]:
  "a_sessions (store_metrics m w svc) = a_sessions svc" "a_max_watches (store_metrics m w svc) = a_max_watches svc"
  "a_metrics (store_metrics m w svc) = a_metrics svc" "a_loops (store_metrics m w svc) = a_loops svc"
  "a_watchers (store_metrics m w svc) = a_watchers svc"
  by (simp_all add: store_metrics_def split: option.splits)

lemma modify_state_fields [frame, simp]:
  "a_max_watches (modify_state a f svc) = a_max_watches svc" "a_metrics (modify_state a f svc) = a_metrics svc"
  "a_loops (modify_state a f svc) = a_loops svc" "a_watchers (modify_state a f svc) = a_watchers svc"
  "a_metrics_heap (modify_state a f svc) = a_metrics_heap svc"
  by (simp_all add: modify_state_def)

text \<open>What the handlers may change of a service: fields of sessions, watchers and counters.\<close>

definition same_shape :: "argusd \<Rightarrow> argusd \<Rightarrow> bool" where
  "same_shape svc svc' \<longleftrightarrow> tbl_map (a_sessions svc') = tbl_map (a_sessions svc) \<and>
     length (tbl_heap (a_sessions svc')) = length (tbl_heap (a_sessions svc)) \<and>
     a_max_watches svc' = a_max_watches svc \<and> a_metrics svc' = a_metrics svc"

lemma same_shape_refl [simp]: "same_shape svc svc"
  by (simp add: same_shape_def)

lemma same_shape_trans: "same_shape a b \<Longrightarrow> same_shape b c \<Longrightarrow> same_shape a c"
  by (simp add: same_shape_def)

lemma same_shape_modify_state [simp]: "same_shape svc (modify_state a f svc)"
  by (simp add: same_shape_def modify_state_def session_modify_def)

lemma same_shape_store_metrics [simp]: "same_shape svc (store_metrics m w svc)"
  by (simp add: same_shape_def)

lemma same_shape_set_paused [simp]: "same_shape svc (set_paused a b svc)"
  by (simp add: same_shape_def set_paused_def session_modify_def)

lemma same_shape_watchers [simp]:
  "same_shape svc (svc'\<lparr>a_watchers := ws\<rparr>) = same_shape svc svc'"
  "same_shape svc (svc'\<lparr>a_loops := ls\<rparr>) = same_shape svc svc'"
  by (simp_all add: same_shape_def)

lemma same_shape_wf:
  "same_shape svc svc' \<Longrightarrow> table_wf (a_sessions svc') = table_wf (a_sessions svc) \<and>
     session_count (a_sessions svc') = session_count (a_sessions svc)"
  by (simp add: same_shape_def table_wf_def session_count_def)

lemma register_watches_shape:
  "same_shape svc (snd (snd (register_watches_synchronously env config a m w svc)))"
  by (auto simp: register_watches_synchronously_def split: prod.splits sum.splits
      intro: same_shape_trans [OF same_shape_store_metrics same_shape_modify_state])

lemma watch_container_shape: "same_shape (snd (snd acc)) (snd (snd (watch_container env req a cid acc)))"
proof -
  obtain n b svc where acc: "acc = (n, b, svc)" by (cases acc) auto
  have reg: "same_shape svc (modify_state a f (snd (snd (register_watches_synchronously env config a m w svc))\<lparr>a_watchers := ws\<rparr>))"
    for f config m w ws
  proof -
    let ?v = "snd (snd (register_watches_synchronously env config a m w svc))"
    have "same_shape svc (?v\<lparr>a_watchers := ws\<rparr>)" using register_watches_shape by simp
    then show ?thesis using same_shape_modify_state by (rule same_shape_trans)
  qed
  then show ?thesis
    by (auto simp: acc watch_container_def Let_def split_beta split: sum.splits)
qed

lemma watch_containers_shape:
  "same_shape (snd (snd acc)) (snd (snd (fold (watch_container env req a) cids acc)))"
proof (induction cids arbitrary: acc)
  case (Cons c cids)
  show ?case using same_shape_trans [OF watch_container_shape Cons.IH] by simp
qed simp

lemma create_watch_cases:
  "\<exists>svc1. same_shape (snd (create_watch_register env req svc)) svc1 \<and>
     (snd (create_watch env req svc) = svc \<or> snd (create_watch env req svc) = svc1 \<or>
      (session_count (a_sessions svc) < a_max_watches svc \<and> session_lookup (a_sessions svc) (cw_key req) = None \<and>
       (\<exists>s. same_shape ((snd (create_watch_register env req svc))\<lparr>a_sessions := snd (map_insert (cw_key req) s (a_sessions svc))\<rparr>)
          (snd (create_watch env req svc)))))"
proof -
  let ?svc1 = "snd (create_watch_register env req svc)"
  have f: "a_sessions ?svc1 = a_sessions svc" "a_max_watches ?svc1 = a_max_watches svc"
    by (simp_all add: create_watch_register_def Let_def)
  show ?thesis
  proof (cases "session_exists (cw_key req) (a_sessions svc)")
    case True
    then show ?thesis by (auto simp: create_watch_def intro: exI [of _ ?svc1])
  next
    case ne: False
    define s where "s = new_watch_session env req (request_pids env svc req) (fst (create_watch_register env req svc))"
    show ?thesis
    proof (cases "session_insert (a_max_watches ?svc1) (cw_key req) s (a_sessions ?svc1)")
      case (Inl e)
      with ne show ?thesis
        by (auto simp: create_watch_def Let_def split_beta s_def intro!: exI [of _ ?svc1])
    next
      case (Inr p)
      then have p: "p = map_insert (cw_key req) s (a_sessions svc)" and cnt: "session_count (a_sessions svc) < a_max_watches svc"
        by (auto simp: session_insert_def f split: if_splits)
      let ?svc2 = "?svc1\<lparr>a_sessions := snd p\<rparr>"
      have "same_shape ?svc2 (snd (create_watch env req svc))"
        using ne Inr watch_containers_shape [of "(0, False, ?svc2)" env req "fst p" "cw_container_ids req"]
        by (simp add: create_watch_def Let_def split_beta s_def)
      with ne cnt p show ?thesis
        by (intro exI [of _ ?svc1]) (auto simp: session_exists_iff)
    qed
  qed
qed

lemma pause_watch_shape: "same_shape svc (snd (pause_watch env key a svc))"
  by (auto simp: pause_watch_def Let_def split: option.splits prod.splits sum.splits
      intro: same_shape_trans [OF _ same_shape_set_paused])

lemma resume_watch_shape: "same_shape svc (snd (resume_watch env ls key a svc))"
proof -
  have 1: "same_shape svc (store_metrics m w (svc\<lparr>a_watchers := ws\<rparr>))" for m w ws
    using same_shape_trans [of svc "svc\<lparr>a_watchers := ws\<rparr>"] by simp
  then have "same_shape svc (set_paused a b (store_metrics m w (svc\<lparr>a_watchers := ws\<rparr>)))" for b m w ws
    using same_shape_trans same_shape_set_paused by blast
  with 1 show ?thesis
    by (auto simp: resume_watch_def Let_def split: option.splits prod.splits sum.splits)
qed

lemma update_watch_shape: "same_shape svc (snd (update_watch env ls n ns p a svc))"
  using pause_watch_shape resume_watch_shape
  by (simp add: update_watch_def Let_def split: option.splits update_action.splits)

lemma destroy_watch_finish_fields [simp]:
  "a_sessions (destroy_watch_finish k a svc) = a_sessions svc"
  "a_max_watches (destroy_watch_finish k a svc) = a_max_watches svc"
  by (simp_all add: destroy_watch_finish_def Let_def split: option.splits)

lemma destroy_watch_fields [simp]:
  "a_sessions (snd (destroy_watch n ns p svc)) = snd (session_remove (session_key n ns p) (a_sessions svc))"
  "a_max_watches (snd (destroy_watch n ns p svc)) = a_max_watches svc"
  "a_sessions (snd (destroy_watch_continue k a svc)) = a_sessions svc"
  "a_max_watches (snd (destroy_watch_continue k a svc)) = a_max_watches svc"
  by (auto simp: destroy_watch_def destroy_watch_continue_def Let_def split: prod.splits option.splits)

lemma loop_fields [simp]:
  "a_sessions (loop_starts w svc) = a_sessions svc" "a_max_watches (loop_starts w svc) = a_max_watches svc"
  "a_metrics (loop_starts w svc) = a_metrics svc"
  "a_sessions (snd (loop_turn ls m w svc)) = a_sessions svc"
  "a_max_watches (snd (loop_turn ls m w svc)) = a_max_watches svc"
  "a_metrics (snd (loop_turn ls m w svc)) = a_metrics svc"
  by (simp_all add: loop_starts_def loop_turn_def split: prod.splits sum.splits option.splits)

lemma create_watch_register_fields [simp]:
  "a_sessions (snd (create_watch_register env req svc)) = a_sessions svc"
  "a_max_watches (snd (create_watch_register env req svc)) = a_max_watches svc"
  "a_metrics (snd (create_watch_register env req svc)) = agg_register (length (a_metrics_heap svc)) (a_metrics svc)"
  by (simp_all add: create_watch_register_def Let_def)

lemma create_watch_session:
  assumes "table_wf (a_sessions svc)"
  shows "table_wf (a_sessions (snd (create_watch env req svc))) \<and>
    a_max_watches (snd (create_watch env req svc)) = a_max_watches svc \<and>
    (session_count (a_sessions svc) \<le> a_max_watches svc \<longrightarrow>
       session_count (a_sessions (snd (create_watch env req svc))) \<le> a_max_watches svc)"
proof -
  let ?new = "snd (create_watch env req svc)"
  consider "?new = svc" | "same_shape (snd (create_watch_register env req svc)) ?new"
    | s where "session_count (a_sessions svc) < a_max_watches svc" "session_lookup (a_sessions svc) (cw_key req) = None"
      "same_shape ((snd (create_watch_register env req svc))\<lparr>a_sessions := snd (map_insert (cw_key req) s (a_sessions svc))\<rparr>) ?new"
    using create_watch_cases [of env req svc] by auto
  then show ?thesis
  proof cases
    case 2
    with same_shape_wf [OF 2] assms show ?thesis by (simp add: same_shape_def)
  next
    case 3
    with same_shape_wf [OF 3(3)] map_insert_wf [OF assms, of "cw_key req" s] map_insert_count [OF assms 3(2), of s]
    show ?thesis by (simp add: same_shape_def)
  qed (use assms in simp)
qed

interpretation argus: session_service a_sessions a_max_watches argus_step
proof
  fix env r and svc :: argusd
  show "a_max_watches (argus_step env r svc) = a_max_watches svc"
  proof (cases r)
    case (CreateWatch req)
    with create_watch_cases [of env req svc] show ?thesis by (auto simp: argus_step_def same_shape_def)
  next
    case (UpdateWatch ls n ns p a)
    with update_watch_shape [of svc env ls n ns p a] show ?thesis by (simp add: argus_step_def same_shape_def)
  qed (simp_all add: argus_step_def)
next
  fix env r and svc :: argusd
  assume wf: "table_wf (a_sessions svc)"
  then show "table_wf (a_sessions (argus_step env r svc))"
    using create_watch_session [OF wf, of env] same_shape_wf [OF update_watch_shape]
    by (auto simp: argus_step_def session_remove_wf split: argus_request.splits)
next
  fix env r and svc :: argusd
  assume wf: "table_wf (a_sessions svc)" and le: "session_count (a_sessions svc) \<le> a_max_watches svc"
  then show "session_count (a_sessions (argus_step env r svc)) \<le> a_max_watches svc"
    using create_watch_session [OF wf, of env] same_shape_wf [OF update_watch_shape]
      le_trans [OF session_remove_count le]
    by (auto simp: argus_step_def split: argus_request.splits)
qed

subsection \<open>The aggregator\<close>

text \<open>Only registration and unregistration reach it.\<close>

definition agg_quiet :: "nat metrics_aggregator \<Rightarrow> bool" where
  "agg_quiet a \<longleftrightarrow> agg_ok a \<and> agg_total_events a = 0"

lemma agg_quiet_ops [simp]:
  "agg_quiet (aggregator_new n)" "agg_quiet a \<Longrightarrow> agg_quiet (agg_register m a)"
  "agg_quiet a \<Longrightarrow> agg_quiet (agg_unregister nm n a)"
  by (simp_all add: agg_quiet_def) (simp_all add: aggregator_new_def agg_register_def agg_unregister_def)

lemma agg_quiet_finish [simp]: "agg_quiet (a_metrics svc) \<Longrightarrow> agg_quiet (a_metrics (destroy_watch_finish k a svc))"
  by (simp add: destroy_watch_finish_def Let_def split: option.splits)

lemma create_watch_metrics:
  "a_metrics (snd (create_watch env req svc)) \<in>
     {a_metrics svc, agg_register (length (a_metrics_heap svc)) (a_metrics svc)}"
  using create_watch_cases [of env req svc] by (auto simp: same_shape_def)

lemma agg_quiet_step: "agg_quiet (a_metrics svc) \<Longrightarrow> agg_quiet (a_metrics (argus_step env r svc))"
proof (cases r)
  case (CreateWatch req)
  assume "agg_quiet (a_metrics svc)"
  with CreateWatch create_watch_metrics [of env req svc] show ?thesis by (auto simp: argus_step_def)
next
  case (DestroyWatch n ns p)
  assume "agg_quiet (a_metrics svc)"
  with DestroyWatch show ?thesis
    by (auto simp: argus_step_def destroy_watch_def Let_def split: prod.splits option.splits)
next
  case (DestroyContinues k a)
  assume "agg_quiet (a_metrics svc)"
  with DestroyContinues show ?thesis by (simp add: argus_step_def destroy_watch_continue_def)
next
  case (UpdateWatch ls n ns p a)
  assume "agg_quiet (a_metrics svc)"
  with UpdateWatch update_watch_shape [of svc env ls n ns p a] show ?thesis
    by (simp add: argus_step_def same_shape_def)
qed (simp_all add: argus_step_def)

lemma agg_quiet_run:
  "agg_quiet (a_metrics svc) \<Longrightarrow> agg_quiet (a_metrics (fold (\<lambda>(env, r). argus_step env r) rs svc))"
  by (induction rs arbitrary: svc) (simp_all add: agg_quiet_step split_def)

subsection \<open>The limit\<close>

text \<open>
  C11: The limit on watches. After every sequence of requests to a fresh argusd, each answered by the kernel, the file system
  and the clock in its own way and interleaved in any way with event loops that start and end, at most \<open>max_watches\<close> sessions exist, the table is well-formed, the
  reported number of active watches is the number of registered collectors, and the reported number of
  processed events is 0: nothing in the service ever counts an event (the handler answers unless the sum of
  the descriptors overflows).
\<close>

theorem argus_watch_limit:
  "(let svc = fold (\<lambda>(env, r). argus_step env r) rs (argusd_new fs host_root node cluster max_watches)
    in session_count (a_sessions svc) \<le> max_watches \<and> table_wf (a_sessions svc) \<and>
       pred_outcome (\<lambda>r. amr_active_watches r = of_nat (length (collectors (a_metrics svc))) \<and> amr_events_processed r = 0)
         (argus_get_metrics now name svc))"
proof -
  define new where "new = argusd_new fs host_root node cluster max_watches"
  define svc where "svc = fold (\<lambda>(env, r). argus_step env r) rs new"
  have wf: "table_wf (a_sessions new)" and le: "session_count (a_sessions new) \<le> a_max_watches new"
    and max: "a_max_watches new = max_watches" and "agg_quiet (a_metrics new)"
    by (simp_all add: new_def argusd_new_def session_count_def) (simp add: new_session_map_def)
  then have "agg_quiet (a_metrics svc)" unfolding svc_def by (intro agg_quiet_run)
  then have "pred_outcome (\<lambda>r. amr_active_watches r = of_nat (length (collectors (a_metrics svc))) \<and> amr_events_processed r = 0)
      (argus_get_metrics now name svc)"
    by (auto simp: argus_get_metrics_def Let_def agg_totals_def agg_quiet_def agg_ok_def ucast_of_nat_32
        split: outcome.splits)
  with argus.run_bounded [OF wf le, of rs] max show ?thesis
    by (simp add: svc_def new_def)
qed

text \<open>
  A rejected watch leaves its collector behind. The counters are registered before the session is
  inserted: a request for a new key that the full table rejects with \<open>resource_exhausted\<close> keeps the table as
  it was and adds one collector, so the reported number of active watches grows.
\<close>

theorem rejected_watch_leaks_collector:
  assumes "\<not> session_exists (cw_key req) (a_sessions svc)" and "a_max_watches svc \<le> session_count (a_sessions svc)"
  shows "(\<exists>msg. fst (create_watch env req svc) = Inl (ResourceExhausted msg)) \<and>
    a_sessions (snd (create_watch env req svc)) = a_sessions svc \<and>
    length (collectors (a_metrics (snd (create_watch env req svc)))) = Suc (length (collectors (a_metrics svc))) \<and>
    at_active_sessions (agg_totals (a_metrics (snd (create_watch env req svc)))) = agg_active_sessions (a_metrics svc) + 1"
proof -
  have "create_watch env req svc =
      (Inl (ResourceExhausted (show_session_error (MaxSessionsReached (a_max_watches svc)))),
       snd (create_watch_register env req svc))"
    using assms by (simp add: create_watch_def create_watch_register_def session_insert_def Let_def)
  then show ?thesis
    by (simp add: agg_register_def agg_totals_def Let_def)
qed

definition no_files :: file_system where
  "no_files = \<lparr>fs_read = (\<lambda>_. Inl IoNotFound), fs_read_link = (\<lambda>_. Inl IoNotFound), fs_exists = (\<lambda>_. False),
     fs_is_dir = (\<lambda>_. False)\<rparr>"

definition some_watch :: create_watch_request where
  "some_watch = \<lparr>cw_watcher_name = ''w'', cw_namespace = ''n'', cw_node_name = ''o'', cw_pod_name = ''p'',
     cw_container_ids = [], cw_pids = [], cw_subjects = [], cw_log_format = [], cw_paused = False\<rparr>"

theorem rejected_watch_leaks_collector_witness:
  "length (collectors (a_metrics (snd (create_watch undefined some_watch
     (argusd_new no_files None ''o'' ''c'' 0))))) = 1"
  using rejected_watch_leaks_collector [of some_watch "argusd_new no_files None ''o'' ''c'' 0" undefined]
  by (simp add: argusd_new_def new_session_map_def session_exists_def session_count_def aggregator_new_def)

subsection \<open>Paths\<close>









text \<open>
  A doubled slash leaves the container. Only one leading slash is taken off, and joining an absolute path
  replaces the base: a configured path \<open>//p\<close> is watched as \<open>/p\<close> in the file system of the daemon, for every
  container, where the common library's resolver would stay below the container's root.
\<close>

theorem double_slash_escapes_root:
  "full_path_of root (''//'' @ p) = ''/'' @ p \<and>
   starts_with (resolve_container_path rt pid (''//'' @ p)) (resolve_container_root rt pid)"
proof -
  have "resolve_container_path rt pid (''//'' @ p) =
      resolve_container_root rt pid @ ''/'' @ trim_start_char (CHR ''/'') (''//'' @ p)"
    unfolding resolve_container_path_def by (rule path_join_relative) (simp_all add: resolve_container_root_def)
  then show ?thesis
    by (simp add: full_path_of_def strip_prefix_def starts_with_def path_join_def path_has_root_def)
qed

lemma add_subjects_fields:
  "wc_paths (fold (add_subject root) ss c) = wc_paths c @ concat (map (\<lambda>s. map (full_path_of root) (ws_paths s)) ss)"
  "wc_skip_if_missing (fold (add_subject root) ss c) =
     wc_skip_if_missing c @ concat (map (\<lambda>s. map (\<lambda>_. ws_skip_if_missing s) (ws_paths s)) ss)"
  "wc_recursive (fold (add_subject root) ss c) \<longleftrightarrow> wc_recursive c \<or> (\<exists>s\<in>set ss. ws_recursive s)"
  by (induction ss arbitrary: c) (simp_all add: add_subject_def disj_assoc)

text \<open>
  A watch's configuration. When one is built for a container, its paths are the subjects' paths below
  \<open>/proc/<pid>/root\<close>, in order, each with the skip flag of its own subject at the same index; it is recursive
  for all of them as soon as one subject is; and it never has an empty list of events.
\<close>

theorem build_watch_config_spec:
  assumes "build_watch_config env svc subjects cid = Inr c"
  shows "\<exists>rt pid. a_runtime svc = Some rt \<and> resolve_container_pid env svc cid = Inr pid \<and>
    zip (wc_paths c) (wc_skip_if_missing c) =
      concat (map (\<lambda>s. map (\<lambda>p. (full_path_of (resolve_container_root rt pid) p, ws_skip_if_missing s)) (ws_paths s))
        subjects) \<and>
    length (wc_paths c) = length (wc_skip_if_missing c) \<and>
    (wc_recursive c \<longleftrightarrow> (\<exists>s\<in>set subjects. ws_recursive s)) \<and> wc_events c \<noteq> []"
proof -
  obtain rt pid where r: "a_runtime svc = Some rt" "resolve_container_pid env svc cid = Inr pid"
    using assms by (auto simp: build_watch_config_def split: option.splits sum.splits)
  let ?root = "resolve_container_root rt pid"
  have z: "zip (concat (map (\<lambda>s. map f (ws_paths s)) ss)) (concat (map (\<lambda>s. map (\<lambda>_. ws_skip_if_missing s) (ws_paths s)) ss)) =
      concat (map (\<lambda>s. map (\<lambda>p. (f p, ws_skip_if_missing s)) (ws_paths s)) ss)"
    and l: "length (concat (map (\<lambda>s. map f (ws_paths s)) ss)) =
      length (concat (map (\<lambda>s. map (\<lambda>_. ws_skip_if_missing s) (ws_paths s)) ss))" for f :: "string \<Rightarrow> string" and ss
    by (induction ss) (simp_all add: zip_map_map zip_same_conv_map)
  have "wc_paths c = concat (map (\<lambda>s. map (full_path_of ?root) (ws_paths s)) subjects)"
    "wc_skip_if_missing c = concat (map (\<lambda>s. map (\<lambda>_. ws_skip_if_missing s) (ws_paths s)) subjects)"
    "wc_recursive c \<longleftrightarrow> (\<exists>s\<in>set subjects. ws_recursive s)" "wc_events c \<noteq> []"
    using assms r add_subjects_fields [of ?root subjects]
    by (auto simp: build_watch_config_def Let_def split: if_splits)
  with r z [of "full_path_of ?root" subjects] l [of "full_path_of ?root" subjects] show ?thesis by auto
qed

definition pid_file_env :: argus_env where
  "pid_file_env =
     \<lparr>ar_fs = \<lparr>fs_read = (\<lambda>_. Inr (''42'' @ [CHR 0x0A])), fs_read_link = (\<lambda>_. Inl IoNotFound), fs_exists = (\<lambda>_. True),
        fs_is_dir = (\<lambda>_. True)\<rparr>, ar_host_root_path = None, ar_now = 0, ar_instant = 0,
      ar_notify = \<lparr>ne_init = Inr (), ne_add_watch = (\<lambda>p f. Inr (length p)), ne_rm_watch = (\<lambda>_. Inr ()),
        ne_canonicalize = Some, ne_exists = (\<lambda>_. True), ne_is_dir = (\<lambda>_. True), ne_read_dir = (\<lambda>_. Some []),
        ne_now = 0\<rparr>,
      ar_show_io = (\<lambda>_. []), ar_show_notify = (\<lambda>_. [])\<rparr>"

definition some_subject :: watch_subject where
  "some_subject = \<lparr>ws_paths = [''/a''], ws_events = [], ws_ignore = [], ws_recursive = False, ws_max_depth = 0,
     ws_only_dir = False, ws_follow_move = False, ws_tags = [], ws_skip_if_missing = True\<rparr>"

definition fresh_argusd :: argusd where
  "fresh_argusd = argusd_new (ar_fs pid_file_env) None ''o'' ''c'' 4"

lemma pid_file_resolves:
  "runtime_for_container (ar_fs pid_file_env) None ''containerd://ab'' = Inr (ContainerdRuntime ''/host'')"
  "resolve_pid (ar_fs pid_file_env) (ContainerdRuntime ''/host'') ''containerd://ab'' = Inr 42"
proof -
  have "show_u32 42 = ''42''" by (simp add: show_u32_def show_nat.simps)
  moreover have "safe_id ''ab''" by (simp add: safe_id_def is_ascii_alphanumeric_def Let_def)
  ultimately have "containerd_resolve_pid (ar_fs pid_file_env) ''/host'' ''containerd://ab'' = Inr 42"
    using containerd.resolve_roundtrip [of "''ab''" "ar_fs pid_file_env" "''/host''" 42 "[CHR 0x0A]"]
    by (simp add: pid_file_env_def CONTAINERD_PREFIX_def)
  then show "resolve_pid (ar_fs pid_file_env) (ContainerdRuntime ''/host'') ''containerd://ab'' = Inr 42"
    by (simp add: resolve_pid_def)
  show "runtime_for_container (ar_fs pid_file_env) None ''containerd://ab'' = Inr (ContainerdRuntime ''/host'')"
    by (simp add: runtime_for_container_def detect_runtime_type_def CONTAINERD_PREFIX_def starts_with_def
        detect_host_root_def pid_file_env_def)
qed

lemma fresh_argusd_resolves:
  "resolve_container_pid pid_file_env fresh_argusd ''containerd://ab'' = Inr 42"
proof -
  have "ar_host_root_path pid_file_env = None" by (simp add: pid_file_env_def)
  with pid_file_resolves show ?thesis by (simp add: resolve_container_pid_def resolve_with_def)
qed

lemma pid_file_path: "full_path_of (resolve_container_root rt 42) ''/a'' = ''/proc/42/root/a''"
  by (simp add: full_path_of_def strip_prefix_def starts_with_def path_join_def path_has_root_def
      resolve_container_root_def show_u32_def show_nat.simps)

lemma fresh_argusd_runtime: "a_runtime fresh_argusd = Some (ContainerdRuntime ''/host'')"
  by code_simp

theorem build_watch_config_spec_witness:
  "\<exists>c. build_watch_config pid_file_env fresh_argusd [some_subject] ''containerd://ab'' = Inr c \<and>
     zip (wc_paths c) (wc_skip_if_missing c) = [(''/proc/42/root/a'', True)] \<and> wc_events c \<noteq> []"
proof -
  obtain c where c: "build_watch_config pid_file_env fresh_argusd [some_subject] ''containerd://ab'' = Inr c"
    by (simp add: build_watch_config_def fresh_argusd_resolves fresh_argusd_runtime Let_def)
  from build_watch_config_spec [OF c] pid_file_path
  have "zip (wc_paths c) (wc_skip_if_missing c) = [(''/proc/42/root/a'', True)]" "wc_events c \<noteq> []"
    by (auto simp: fresh_argusd_resolves some_subject_def)
  with c show ?thesis by blast
qed

subsection \<open>Waiting for the event loop\<close>

lemma remove_watch_session:
  assumes "session_get k t = Some a" and "a < length (tbl_heap t)" and "wss_watcher (s_state (tbl_heap t ! a)) = Some w"
  obtains tbl where "session_remove k t = (Some a, tbl)" "wss_watcher (s_state (tbl_heap tbl ! a)) = Some w"
    "session_get k tbl = None"
proof
  show "session_remove k t = (Some a, snd (session_remove k t))"
    using assms(1) by (simp add: session_remove_def Let_def)
  show "wss_watcher (s_state (tbl_heap (snd (session_remove k t)) ! a)) = Some w"
    using assms by (simp add: session_remove_def Let_def session_modify_def session_stop_def)
  show "session_get k (snd (session_remove k t)) = None"
    using assms(1) by (simp add: session_remove_def Let_def) (simp add: session_get_def delete_conv')
qed

lemma loop_turn_keeps_lock:
  assumes "list_all healthy_input ls" and "w \<in> set (a_loops svc)" and "w < length (a_watchers svc)"
    and "w_running (a_watchers svc ! w)"
  shows "w \<in> set (a_loops (snd (loop_turn ls m w svc))) \<and> length (a_watchers (snd (loop_turn ls m w svc))) = length (a_watchers svc) \<and>
    w_running (a_watchers (snd (loop_turn ls m w svc)) ! w)"
proof (cases "w_config (a_watchers svc ! w)")
  case (Some config)
  let ?w = "load_metrics m svc (a_watchers svc ! w)"
  have "w_running ?w" using assms(4) by (simp add: load_metrics_def)
  then have e: "fst (event_loop_inner config ls ?w) = Inr () \<and> w_running (snd (snd (event_loop_inner config ls ?w)))"
    using event_loop_running [OF assms(1)] by blast
  then have "fst (run_started config ls ?w) = Inr () \<and> w_running (snd (snd (run_started config ls ?w)))"
    by (auto simp: run_started_def split: prod.splits sum.splits)
  with Some assms show ?thesis by (auto simp: loop_turn_def split: prod.splits)
qed (use assms in \<open>simp add: loop_turn_def\<close>)

lemma loop_turns_keep_lock:
  assumes "list_all (list_all healthy_input) lss" and "w \<in> set (a_loops svc)" and "w < length (a_watchers svc)"
    and "w_running (a_watchers svc ! w)"
  shows "w \<in> set (a_loops (fold (\<lambda>ls. snd \<circ> loop_turn ls m w) lss svc)) \<and>
    a_sessions (fold (\<lambda>ls. snd \<circ> loop_turn ls m w) lss svc) = a_sessions svc \<and>
    a_metrics (fold (\<lambda>ls. snd \<circ> loop_turn ls m w) lss svc) = a_metrics svc"
  using assms
proof (induction lss arbitrary: svc)
  case (Cons ls lss)
  with loop_turn_keeps_lock [of ls w svc m] show ?case by simp
qed simp

text \<open>
  C36: Destroying a running watch never completes. The task of a watcher holds its lock for as long as its
  event loop runs. \<open>destroy_watch\<close> of its session removes the session from the table and then waits for that
  lock to stop the watcher; but as long as the channel is open and inotify can be reinitialised nothing
  else ends the loop. However many turns the loop makes, the handler is still waiting, the watcher is
  running and its collector registered, and the session is gone, so that a second request answers at once
  and does nothing. A pause waits in the same way.
\<close>

theorem destroy_never_completes:
  assumes "session_get (session_key n ns p) (a_sessions svc) = Some a" and "a < length (tbl_heap (a_sessions svc))"
    and "wss_watcher (s_state (tbl_heap (a_sessions svc) ! a)) = Some w" and "w \<in> set (a_loops svc)"
    and "w < length (a_watchers svc)" and "w_running (a_watchers svc ! w)"
    and "\<not> s_paused (tbl_heap (a_sessions svc) ! a)"
    and "list_all (list_all healthy_input) lss"
    and "svc' = fold (\<lambda>ls. snd \<circ> loop_turn ls m w) lss (snd (destroy_watch n ns p svc))"
  shows "fst (destroy_watch n ns p svc) = Blocked \<and>
    fst (destroy_watch_continue (session_key n ns p) a svc') = Blocked \<and>
    a_metrics svc' = a_metrics svc \<and> fst (destroy_watch n ns p svc') = Reply (Inr ()) \<and>
    update_watch env ls n ns p 1 svc = (Blocked, svc)"
proof -
  let ?k = "session_key n ns p"
  obtain tbl where rm: "session_remove ?k (a_sessions svc) = (Some a, tbl)"
    and w: "wss_watcher (s_state (tbl_heap tbl ! a)) = Some w" and gone: "session_get ?k tbl = None"
    using assms(1-3) by (rule remove_watch_session)
  have d: "destroy_watch n ns p svc = (Blocked, svc\<lparr>a_sessions := tbl\<rparr>)"
    using assms(4) w by (simp add: destroy_watch_def Let_def rm watcher_locked_def)
  have s': "w \<in> set (a_loops svc')" "a_sessions svc' = tbl" "a_metrics svc' = a_metrics svc"
    using loop_turns_keep_lock [OF assms(8), of w "svc\<lparr>a_sessions := tbl\<rparr>" m] assms(4-6,9) d by simp_all
  then have "fst (destroy_watch_continue ?k a svc') = Blocked"
    using w by (simp add: destroy_watch_continue_def watcher_locked_def)
  moreover have "fst (destroy_watch n ns p svc') = Reply (Inr ())"
    using gone s' by (simp add: destroy_watch_def Let_def session_remove_def)
  moreover have "update_watch env ls n ns p 1 svc = (Blocked, svc)"
    using assms by (simp add: update_watch_def update_action_of_def pause_watch_def Let_def)
  ultimately show ?thesis using d s' by simp
qed

definition looping_argusd :: argusd where
  "looping_argusd = fresh_argusd\<lparr>
     a_sessions := \<lparr>tbl_map = [(session_key ''w'' ''n'' ''p'', 0)],
       tbl_heap = [(new_watch_session pid_file_env some_watch [] 0)
         \<lparr>s_state := (s_state (new_watch_session pid_file_env some_watch [] 0))\<lparr>wss_watcher := Some 0\<rparr>\<rparr>]\<rparr>,
     a_watchers := [\<lparr>w_watches = [(3, ''/a'')], w_path_to_wd = [], w_move_tracker = tracker_new MOVE_PAIR_TIMEOUT,
       w_running = True, w_state = Running, w_max_watches = 4, w_metrics = None,
       w_config = Some \<lparr>wc_paths = [''/a''], wc_events = [''all''], wc_ignore_patterns = [], wc_recursive = False,
         wc_max_depth = None, wc_skip_if_missing = [False]\<rparr>, w_proxy_watches = []\<rparr>],
     a_loops := [0]\<rparr>"

theorem destroy_never_completes_witness:
  "fst (destroy_watch ''w'' ''n'' ''p'' looping_argusd) = Blocked \<and>
   fst (destroy_watch_continue (session_key ''w'' ''n'' ''p'') 0 (snd (loop_turn
     [\<lparr>li_now = 0, li_send_ok = (\<lambda>_. True), li_read = Inl EAGAIN\<rparr>] 0 0
     (snd (destroy_watch ''w'' ''n'' ''p'' looping_argusd))))) = Blocked"
  using destroy_never_completes [of "''w''" "''n''" "''p''" looping_argusd 0 0
      "[[\<lparr>li_now = 0, li_send_ok = (\<lambda>_. True), li_read = Inl EAGAIN\<rparr>]]" _ 0 pid_file_env "[]"]
  by (simp add: looping_argusd_def session_get_def new_watch_session_def session_new_def some_watch_def
      healthy_input_def)

text \<open>
  A watch destroyed while its loop does not hold the lock is cleaned up: the handler answers, the session
  is gone, the watcher's flag is cleared and the first collector with the watch's id is unregistered. But a
  loop that takes the lock only afterwards sets the flag again and runs.
\<close>

theorem destroy_idle_watch:
  assumes "session_get (session_key n ns p) (a_sessions svc) = Some a" and "a < length (tbl_heap (a_sessions svc))"
    and "wss_watcher (s_state (tbl_heap (a_sessions svc) ! a)) = Some w" and "w \<notin> set (a_loops svc)"
    and "w < length (a_watchers svc)" and "w_config (a_watchers svc ! w) \<noteq> None"
    and "svc' = snd (destroy_watch n ns p svc)"
  shows "fst (destroy_watch n ns p svc) = Reply (Inr ()) \<and>
    session_get (session_key n ns p) (a_sessions svc') = None \<and> \<not> w_running (a_watchers svc' ! w) \<and>
    a_metrics svc' = agg_unregister (\<lambda>m. wm_watcher_name (a_metrics_heap svc ! m)) (session_key n ns p) (a_metrics svc) \<and>
    w_running (a_watchers (loop_starts w svc') ! w) \<and> w \<in> set (a_loops (loop_starts w svc'))"
proof -
  let ?k = "session_key n ns p"
  obtain tbl where rm: "session_remove ?k (a_sessions svc) = (Some a, tbl)"
    and w: "wss_watcher (s_state (tbl_heap tbl ! a)) = Some w" and gone: "session_get ?k tbl = None"
    using assms(1-3) by (rule remove_watch_session)
  have d: "destroy_watch n ns p svc = (Reply (Inr ()), svc')"
    "svc' = destroy_watch_finish ?k a (svc\<lparr>a_sessions := tbl\<rparr>)"
    using assms(4,7) w by (simp_all add: destroy_watch_def Let_def rm watcher_locked_def)
  have f: "a_watchers svc' = (a_watchers svc)[w := watcher_stop (a_watchers svc ! w)]" "a_loops svc' = a_loops svc"
    "a_sessions svc' = tbl"
    "a_metrics svc' = agg_unregister (\<lambda>m. wm_watcher_name (a_metrics_heap svc ! m)) ?k (a_metrics svc)"
    using w by (simp_all add: d(2) destroy_watch_finish_def Let_def)
  show ?thesis
    using f d(1) gone assms(4-6)
    by (auto simp: watcher_stop_def loop_starts_def run_event_loop_def run_started_def)
qed

theorem destroy_idle_watch_witness:
  "fst (destroy_watch ''w'' ''n'' ''p'' (looping_argusd\<lparr>a_loops := []\<rparr>)) = Reply (Inr ()) \<and>
   w_running (a_watchers (loop_starts 0 (snd (destroy_watch ''w'' ''n'' ''p'' (looping_argusd\<lparr>a_loops := []\<rparr>)))) ! 0)"
  using destroy_idle_watch [of "''w''" "''n''" "''p''" "looping_argusd\<lparr>a_loops := []\<rparr>" 0 0]
  by (simp add: looping_argusd_def session_get_def new_watch_session_def session_new_def some_watch_def)

subsection \<open>Streams\<close>

text \<open>The numbers that name one event type, and the numbers the forwarding task reports.\<close>

definition event_type_code :: "i32 \<Rightarrow> bool" where
  "event_type_code n \<longleftrightarrow> n \<in> {1, 2, 3, 4, 5, 6, 7, 8, 9, 10, 11, 12}"

lemma file_event_type_to_proto_code:
  "file_event_type_to_proto e = 0 \<or> event_type_code (file_event_type_to_proto e)"
  by (cases e) (simp_all add: file_event_type_to_proto_def event_type_code_def)

lemma inotify_event_to_string_inj:
  assumes "event_type_code n" and "event_type_code m \<or> m \<in> {0, 99}"
  shows "inotify_event_to_string n \<noteq> [] \<and>
    (inotify_event_to_string n = inotify_event_to_string m \<longleftrightarrow> n = m)"
proof -
  from assms(2) have m: "m \<in> {0, 99, 1, 2, 3, 4, 5, 6, 7, 8, 9, 10, 11, 12}" by (auto simp: event_type_code_def)
  have n: "n \<in> {1, 2, 3, 4, 5, 6, 7, 8, 9, 10, 11, 12}" using assms(1) by (simp add: event_type_code_def)
  have "\<forall>n\<in>{1, 2, 3, 4, 5, 6, 7, 8, 9, 10, 11, 12}. \<forall>m\<in>{0, 99, 1, 2, 3, 4, 5, 6, 7, 8, 9, 10, 11, 12}.
      inotify_event_to_string n \<noteq> [] \<and> (inotify_event_to_string n = inotify_event_to_string m \<longleftrightarrow> n = m)"
    by code_simp
  with n m show ?thesis by blast
qed

text \<open>
  What a watch subscriber receives. With no event types in the request, or with types that each name one
  kind of event, the stream delivers exactly the events of that watcher and namespace (an empty name means
  any) whose type is listed, in order, until the client disconnects after \<open>k\<close> of them. But a request for
  the type \<open>ALL\<close> delivers nothing at all: no event carries that type.
\<close>

theorem stream_events_delivers:
  assumes "list_all event_type_code types"
    and "\<forall>e\<in>set (received rs). \<exists>t. pf_event_type e = file_event_type_to_proto t"
    and "\<forall>i<k. connected i" and "\<not> connected k"
  shows "stream_events watcher_name ns types connected rs =
      take k (filter (\<lambda>e. watcher_name \<in> {[], pf_watcher_name e} \<and> ns \<in> {[], pf_namespace e} \<and>
          (types = [] \<or> pf_event_type e \<in> set types)) (received rs)) \<and>
    stream_events watcher_name ns [99] connected rs = []"
proof -
  have ev: "event_type_code (pf_event_type e) \<or> pf_event_type e = 0" if "e \<in> set (received rs)" for e
    using that assms(2) file_event_type_to_proto_code by fastforce
  have ts: "filter (\<lambda>s. s \<noteq> []) (map inotify_event_to_string types) = map inotify_event_to_string types"
    using assms(1) inotify_event_to_string_inj [of _ 0] by (auto simp: list_all_iff filter_id_conv)
  have mem: "inotify_event_to_string (pf_event_type e) \<in> inotify_event_to_string ` set types \<longleftrightarrow> pf_event_type e \<in> set types"
    if "e \<in> set (received rs)" for e
    using assms(1) ev [OF that] inotify_event_to_string_inj by (fastforce simp: list_all_iff image_iff)
  have all: "inotify_event_to_string (pf_event_type e) \<noteq> ''all''" if "e \<in> set (received rs)" for e
    using ev [OF that] inotify_event_to_string_inj [of "pf_event_type e" 99]
    by (auto simp: inotify_event_to_string_def event_type_code_def)
  have "filter (filter_matches file_event_filterable (stream_filter_of watcher_name ns types)) (received rs) =
      filter (\<lambda>e. watcher_name \<in> {[], pf_watcher_name e} \<and> ns \<in> {[], pf_namespace e} \<and>
          (types = [] \<or> pf_event_type e \<in> set types)) (received rs)"
    using mem ts by (intro filter_cong refl) (auto simp: filter_matches_iff file_event_filterable_def
        stream_filter_of_def stream_filter_new_def with_name_def with_namespace_def with_event_types_def Let_def)
  moreover have "filter (filter_matches file_event_filterable (stream_filter_of watcher_name ns [99])) (received rs) = []"
    using all by (auto simp: filter_empty_conv filter_matches_iff file_event_filterable_def stream_filter_of_def
        stream_filter_new_def with_name_def with_namespace_def with_event_types_def Let_def inotify_event_to_string_def)
  ultimately show ?thesis
    using send_all_take [of k connected 0] assms(3,4)
    by (simp add: stream_events_def filtered_broadcast_stream_def stream_loop_send_all)
qed

definition some_file_event :: "event_type \<Rightarrow> proto_file_event" where
  "some_file_event t = forward_file_event 0
     \<lparr>ffc_container_id = ''c'', ffc_node_name = ''o'', ffc_cluster_name = ''k'', ffc_container_root = ''/r''\<rparr>
     (new_watch_session pid_file_env some_watch [] 0)
     \<lparr>f_event_type = t, f_path = ''/r/a'', f_filename = None, f_is_dir = False, f_cookie = 0,
      f_move_peer = None\<rparr>"

lemma some_file_event_fields:
  "pf_event_type (some_file_event t) = file_event_type_to_proto t" "pf_watcher_name (some_file_event t) = ''w''"
  by (simp_all add: some_file_event_def forward_file_event_def new_watch_session_def some_watch_def session_new_def)

theorem stream_events_delivers_witness:
  "stream_events ''w'' [] [8] (\<lambda>i. i < 5) (map (\<lambda>t. RecvOk (some_file_event t)) [EtModify, EtOpen, EtModify]) =
     [some_file_event EtModify, some_file_event EtModify]"
  using stream_events_delivers [of "[8]" "map (\<lambda>t. RecvOk (some_file_event t)) [EtModify, EtOpen, EtModify]" 5
      "\<lambda>i. i < 5" "''w''" "[]"]
  by (simp add: event_type_code_def some_file_event_fields file_event_type_to_proto_def exI [of _ EtModify]
      exI [of _ EtOpen])

end
