(* ===== verification/Argus_Pipeline.thy ===== *)
theory Argus_Pipeline
  imports Argus_Props
begin

section \<open>From a change in a container to its report\<close>

text \<open>
  The parts of argusd put together: the configured path is watched below the container's root (\<open>Argus_Service\<close>), the
  watcher turns what the kernel reports into events (\<open>Notify\<close>), the forwarding task strips the root again
  and a subscriber gets the events from its stream (\<open>Broadcast\<close>). The last part shows which field of a watch
  configuration none of this looks at.
\<close>

subsection \<open>Paths below a watched directory\<close>







subsection \<open>What a watch reports\<close>
















subsection \<open>Patterns to ignore\<close>

text \<open>A watcher whose configuration has other patterns to ignore.\<close>

definition with_ignored :: "string list \<Rightarrow> watcher \<Rightarrow> watcher" where
  "with_ignored ps w = w\<lparr>w_config := map_option (\<lambda>c. c\<lparr>wc_ignore_patterns := ps\<rparr>) (w_config w)\<rparr>"

lemma with_ignored_sel [simp]:
  "w_watches (with_ignored ps w) = w_watches w" "w_max_watches (with_ignored ps w) = w_max_watches w"
  "w_path_to_wd (with_ignored ps w) = w_path_to_wd w" "w_proxy_watches (with_ignored ps w) = w_proxy_watches w"
  "w_move_tracker (with_ignored ps w) = w_move_tracker w" "w_metrics (with_ignored ps w) = w_metrics w"
  "w_running (with_ignored ps w) = w_running w" "w_state (with_ignored ps w) = w_state w"
  "w_config (with_ignored ps w) = map_option (\<lambda>c. c\<lparr>wc_ignore_patterns := ps\<rparr>) (w_config w)"
  by (simp_all add: with_ignored_def)

lemma with_ignored_upd [simp]:
  "(with_ignored ps w)\<lparr>w_watches := a\<rparr> = with_ignored ps (w\<lparr>w_watches := a\<rparr>)"
  "(with_ignored ps w)\<lparr>w_path_to_wd := b\<rparr> = with_ignored ps (w\<lparr>w_path_to_wd := b\<rparr>)"
  "(with_ignored ps w)\<lparr>w_proxy_watches := c\<rparr> = with_ignored ps (w\<lparr>w_proxy_watches := c\<rparr>)"
  "(with_ignored ps w)\<lparr>w_move_tracker := d\<rparr> = with_ignored ps (w\<lparr>w_move_tracker := d\<rparr>)"
  "(with_ignored ps w)\<lparr>w_metrics := e\<rparr> = with_ignored ps (w\<lparr>w_metrics := e\<rparr>)"
  "(with_ignored ps w)\<lparr>w_running := f\<rparr> = with_ignored ps (w\<lparr>w_running := f\<rparr>)"
  "(with_ignored ps w)\<lparr>w_state := g\<rparr> = with_ignored ps (w\<lparr>w_state := g\<rparr>)"
  by (simp_all add: with_ignored_def)

lemma wtick_ignored [simp]: "wtick f (with_ignored ps w) = with_ignored ps (wtick f w)"
  by (simp add: wtick_def)

lemma push_proxy_ignored [simp]: "push_proxy wd t (with_ignored ps w) = with_ignored ps (push_proxy wd t w)"
  by (simp add: push_proxy_def)

lemma drop_watch_ignored [simp]: "drop_watch wd (with_ignored ps w) = with_ignored ps (drop_watch wd w)"
  by (simp add: drop_watch_def split: option.splits)

lemma update_active_ignored [simp]: "update_active (with_ignored ps w) = with_ignored ps (update_active w)"
  by (simp add: update_active_def)

lemma clear_watches_ignored [simp]: "clear_watches (with_ignored ps w) = with_ignored ps (clear_watches w)"
  by (simp add: clear_watches_def)

lemma add_watch_ignored [simp]: "add_watch env p fl (with_ignored ps w) = apsnd (with_ignored ps) (add_watch env p fl w)"
  by (simp add: add_watch_def Let_def split: sum.splits)

lemma add_watch_or_proxy_ignored [simp]:
  "add_watch_or_proxy env p fl (with_ignored ps w) = apsnd (with_ignored ps) (add_watch_or_proxy env p fl w)"
  by (simp add: add_watch_or_proxy_def split: sum.splits option.splits prod.splits)

lemma add_watch_for_path_ignored [simp]:
  "add_watch_for_path env p fl b (with_ignored ps w) = apsnd (with_ignored ps) (add_watch_for_path env p fl b w)"
  by (simp add: add_watch_for_path_def split: sum.splits prod.splits)

lemma add_entries_ignored [simp]:
  "add_entries env fl m d es (with_ignored ps w) = apsnd (with_ignored ps) (add_entries env fl m d es w)"
  by (induction env fl m d es w rule: add_entries.induct) (auto split: sum.splits prod.splits option.splits)

lemma add_recursive_ignored [simp]:
  "add_recursive_watches env p fl m d (with_ignored ps w) = apsnd (with_ignored ps) (add_recursive_watches env p fl m d w)"
  by (simp add: add_recursive_watches_def split: option.splits)

lemma add_paths_ignored [simp]:
  "add_paths env (c\<lparr>wc_ignore_patterns := ps\<rparr>) fl qs n (with_ignored ps w) = apsnd (with_ignored ps) (add_paths env c fl qs n w)"
  by (induction env c fl qs n w rule: add_paths.induct) (auto simp: depth_limit_def split: sum.splits prod.splits)

lemma readd_path_ignored [simp]:
  "readd_path env (c\<lparr>wc_ignore_patterns := ps\<rparr>) q (with_ignored ps w) = with_ignored ps (readd_path env c q w)"
  by (simp add: readd_path_def Let_def depth_limit_def)

lemma handle_overflow_ignored [simp]:
  "handle_overflow env (c\<lparr>wc_ignore_patterns := ps\<rparr>) (with_ignored ps w) = apsnd (with_ignored ps) (handle_overflow env c w)"
proof -
  have "fold (readd_path env (c\<lparr>wc_ignore_patterns := ps\<rparr>)) qs (with_ignored ps v) = with_ignored ps (fold (readd_path env c) qs v)" for qs v
    by (induction qs arbitrary: v) simp_all
  then show ?thesis by (simp add: handle_overflow_def split: sum.splits)
qed

lemma check_proxy_ignored [simp]:
  "check_proxy_promotion env ev (with_ignored ps w) = with_ignored ps (check_proxy_promotion env ev w)"
proof -
  have one: "promote_proxy env anc name q (with_ignored ps v) = with_ignored ps (promote_proxy env anc name q v)" for anc name q v
    by (simp add: promote_proxy_def Let_def depth_limit_def split: sum.splits prod.splits option.splits)
  have "fold (promote_proxy env anc name) qs (with_ignored ps v) = with_ignored ps (fold (promote_proxy env anc name) qs v)" for anc name qs v
    by (induction qs arbitrary: v) (simp_all add: one)
  then show ?thesis by (simp add: check_proxy_promotion_def Let_def split: option.splits)
qed

lemma process_event_ignored [simp]:
  "notify_process_event env ev (with_ignored ps w) = apsnd (with_ignored ps) (notify_process_event env ev w)"
  by (simp add: notify_process_event_def Let_def split: option.splits prod.splits)

lemma send_events_ignored [simp]:
  "send_events ok n es (with_ignored ps w) = apsnd (apsnd (with_ignored ps)) (send_events ok n es w)"
  by (induction ok n es w rule: send_events.induct) (auto simp: Let_def split: prod.splits)

lemma emit_pending_ignored [simp]:
  "emit_pending ok n ms (with_ignored ps w) = apsnd (apsnd (with_ignored ps)) (emit_pending ok n ms w)"
  by (induction ok n ms w rule: emit_pending.induct) (auto simp: Let_def split: prod.splits)

lemma dispatch_ignored [simp]:
  "dispatch_single_event env ok (c\<lparr>wc_ignore_patterns := ps\<rparr>) ev (with_ignored ps w) =
     apsnd (apsnd (with_ignored ps)) (dispatch_single_event env ok c ev w)"
  by (simp add: dispatch_single_event_def handle_watch_removed_def Let_def split: prod.splits sum.splits option.splits)

lemma dispatch_events_ignored [simp]:
  "dispatch_events (c\<lparr>wc_ignore_patterns := ps\<rparr>) is (with_ignored ps w) = apsnd (apsnd (with_ignored ps)) (dispatch_events c is w)"
  by (induction c "is" w rule: dispatch_events.induct) (auto simp: Let_def split: prod.splits sum.splits bool.splits)

lemma event_loop_ignored [simp]:
  "event_loop_inner (c\<lparr>wc_ignore_patterns := ps\<rparr>) ls (with_ignored ps w) = apsnd (apsnd (with_ignored ps)) (event_loop_inner c ls w)"
  by (induction c ls w rule: event_loop_inner.induct)
    (auto simp: emit_expired_moves_def read_and_dispatch_events_def Let_def split: prod.splits sum.splits)

lemma run_started_ignored [simp]:
  "run_started (c\<lparr>wc_ignore_patterns := ps\<rparr>) ls (with_ignored ps w) = apsnd (apsnd (with_ignored ps)) (run_started c ls w)"
  by (simp add: run_started_def split: prod.splits sum.splits)

text \<open>
  C27: The patterns to ignore have no effect. A watch registers the same paths, returns the same result and sends the
  same events, in the same order, whatever its configuration gives as patterns to ignore.
\<close>

theorem ignore_patterns_unused:
  "watch env (config\<lparr>wc_ignore_patterns := ps\<rparr>) ls w = apsnd (apsnd (with_ignored ps)) (watch env config ls w)"
proof -
  have c: "w\<lparr>w_config := Some (config\<lparr>wc_ignore_patterns := ps\<rparr>)\<rparr> = with_ignored ps (w\<lparr>w_config := Some config\<rparr>)"
    by (simp add: with_ignored_def)
  show ?thesis unfolding watch_def c by (simp split: prod.splits sum.splits)
qed

end
