(* ===== verification/Argus_Locks.thy ===== *)
theory Argus_Locks
  imports Argus_Props
begin

section \<open>The handlers of argusd under concurrency\<close>

text \<open>
  The handlers of \<open>argusd/src/service.rs\<close> as tasks that await locks: the lock of the session table (shared or
  exclusive), the lock of a session and the lock of a watcher, which its event loop holds. A handler runs
  in the steps between the points where it holds a lock while it awaits another one; a lock taken and
  released without an await in between is one step, which is possible when nobody holds it across an await.
  Who holds what follows from where the tasks stand. Waiting queues are left out, so more steps are possible
  here than with the fair locks of tokio.
\<close>

subsection \<open>Tasks\<close>

datatype argus_task =
    GetStart string string
  | GetAt string string "nat list" "proto_watch_state list"
  | UpdateStart string string string i32
  | UpdateAt string nat i32
  | UpdateWaits string nat i32 nat
  | UpdateResumes string nat nat
  | CreateStart create_watch_request
  | CreateInsert create_watch_request "i32 list" nat
  | CreateAt create_watch_request nat "string list" i32 bool
  | DestroyStart string string string
  | DestroyStop string nat
  | DestroyAt string nat
  | DestroyWaits string nat
  | GetDone "proto_watch_state list"
  | UpdateDone "grpc_status + update_watch_response"
  | CreateDone "grpc_status + create_watch_response"
  | DestroyDone
  | GaveUp

record argus_machine =
  am_svc :: argusd
  am_tasks :: "argus_task list"

definition holds_table :: "argus_task \<Rightarrow> bool" where
  "holds_table t = (case t of GetAt _ _ _ _ \<Rightarrow> True | _ \<Rightarrow> False)"

definition holds_session :: "nat \<Rightarrow> argus_task \<Rightarrow> bool" where
  "holds_session a t = (case t of UpdateWaits _ b _ _ \<Rightarrow> a = b | UpdateResumes _ b _ \<Rightarrow> a = b | DestroyWaits _ b \<Rightarrow> a = b
     | _ \<Rightarrow> False)"

text \<open>What a task sees of the locks that the other tasks hold: whether the table is read, and the sessions.\<close>

record lock_view =
  lv_table :: bool
  lv_session :: "nat \<Rightarrow> bool"

definition locks_of :: "argus_task list \<Rightarrow> lock_view" where
  "locks_of ts = \<lparr>lv_table = list_ex holds_table ts, lv_session = (\<lambda>a. list_ex (holds_session a) ts)\<rparr>"

subsection \<open>The steps of a handler\<close>

text \<open>A step of a task: its next position and the service, or \<^const>\<open>None\<close> while it has to wait.\<close>

definition get_state_step :: "lock_view \<Rightarrow> argusd \<Rightarrow> argus_task \<Rightarrow> (argus_task \<times> argusd) option" where
  "get_state_step lv svc t = (case t of
     GetStart n ns \<Rightarrow> Some (GetAt n ns (map snd (tbl_map (a_sessions svc))) [], svc)
   | GetAt n ns [] acc \<Rightarrow> Some (GetDone acc, svc)
   | GetAt n ns (a # as) acc \<Rightarrow>
       if lv_session lv a then None
       else (let s = tbl_heap (a_sessions svc) ! a in
             Some (GetAt n ns as (if (n \<noteq> [] \<and> s_name s \<noteq> n) \<or> (ns \<noteq> [] \<and> s_namespace s \<noteq> ns) then acc
                                  else acc @ [session_to_watch_state s]), svc))
   | _ \<Rightarrow> None)"

definition update_action_step ::
  "argus_env \<Rightarrow> loop_input list \<Rightarrow> string \<Rightarrow> nat \<Rightarrow> i32 \<Rightarrow> argusd \<Rightarrow> update_watch_response reply \<times> argusd" where
  "update_action_step env ls key a action svc = (case update_action_of action of
     UaPause \<Rightarrow> pause_watch env key a svc
   | UaResume \<Rightarrow> resume_watch env ls key a svc
   | UaUnspecified \<Rightarrow> (Reply (Inl (InvalidArgument ''Action must be PAUSE or RESUME'')), svc))"

definition update_locked_step ::
  "argus_env \<Rightarrow> loop_input list \<Rightarrow> string \<Rightarrow> nat \<Rightarrow> i32 \<Rightarrow> argusd \<Rightarrow> (argus_task \<times> argusd) option" where
  "update_locked_step env ls key a action svc =
     (let wt = wss_watcher (s_state (tbl_heap (a_sessions svc) ! a)) in
      case update_action_step env ls key a action svc of
        (Reply r, svc') \<Rightarrow> Some (UpdateDone r, svc')
      | (Blocked, svc') \<Rightarrow>
          Some (if watcher_locked a svc then UpdateWaits key a action (the wt) else UpdateResumes key a (the wt), svc'))"

definition update_step ::
  "argus_env \<Rightarrow> loop_input list \<Rightarrow> notify_error option \<Rightarrow> lock_view \<Rightarrow> argusd \<Rightarrow> argus_task \<Rightarrow> (argus_task \<times> argusd) option" where
  "update_step env ls failed lv svc t = (case t of
     UpdateStart n ns p action \<Rightarrow>
       (let key = session_key n ns p in
        case session_get key (a_sessions svc) of
          None \<Rightarrow> Some (UpdateDone (Inl (StatusNotFound (''Watch not found: '' @ key))), svc)
        | Some a \<Rightarrow> Some (UpdateAt key a action, svc))
   | UpdateAt key a action \<Rightarrow> if lv_session lv a then None else update_locked_step env ls key a action svc
   | UpdateWaits key a action w \<Rightarrow>
       if w \<in> set (a_loops svc) then None else update_locked_step env ls key a action svc
   | UpdateResumes key a w \<Rightarrow>
       if w \<in> set (a_loops svc) then None
       else (case failed of
         Some e \<Rightarrow> Some (UpdateDone (Inl (Internal (''Failed to resume watcher: '' @ ar_show_notify env e))), svc)
       | None \<Rightarrow> Some (UpdateDone (Inr \<lparr>uw_watch_id = key, uw_paused = False,
              uw_watched_paths = (case wss_watch_config (s_state (tbl_heap (a_sessions svc) ! a)) of
                Some c \<Rightarrow> of_nat (length (wc_paths c)) | None \<Rightarrow> 0)\<rparr>), set_paused a False svc))
   | _ \<Rightarrow> None)"

definition create_step :: "argus_env \<Rightarrow> lock_view \<Rightarrow> argusd \<Rightarrow> argus_task \<Rightarrow> (argus_task \<times> argusd) option" where
  "create_step env lv svc t = (case t of
     CreateStart req \<Rightarrow>
       if session_exists (cw_key req) (a_sessions svc)
       then Some (CreateDone (Inl (StatusAlreadyExists (''Watch already exists: '' @ cw_key req))), svc)
       else (let pids = request_pids env svc req; (m, svc') = create_watch_register env req svc in
             Some (CreateInsert req pids m, svc'))
   | CreateInsert req pids m \<Rightarrow>
       if lv_table lv then None
       else (case session_insert (a_max_watches svc) (cw_key req) (new_watch_session env req pids m) (a_sessions svc) of
               Inl e \<Rightarrow> Some (CreateDone (Inl (ResourceExhausted (show_session_error e))), svc)
             | Inr (a, tbl) \<Rightarrow>
                 Some (CreateAt req a (if cw_paused req then [] else cw_container_ids req) 0 False, svc\<lparr>a_sessions := tbl\<rparr>))
   | CreateAt req a [] n ready \<Rightarrow>
       Some (CreateDone (Inr \<lparr>cwr_watch_id = cw_key req, cwr_node_name = cw_node_name req, cwr_pod_name = cw_pod_name req,
               cwr_watched_paths = n, cwr_paused = cw_paused req, cwr_watches_ready = ready\<rparr>), svc)
   | CreateAt req a (c # cs) n ready \<Rightarrow>
       if lv_session lv a then None
       else (let (n', ready', svc') = watch_container env req a c (n, ready, svc) in Some (CreateAt req a cs n' ready', svc'))
   | _ \<Rightarrow> None)"

definition destroy_step :: "lock_view \<Rightarrow> argusd \<Rightarrow> argus_task \<Rightarrow> (argus_task \<times> argusd) option" where
  "destroy_step lv svc t = (case t of
     DestroyStart n ns p \<Rightarrow>
       if lv_table lv then None
       else (let key = session_key n ns p; tbl = a_sessions svc in
             case session_get key tbl of
               None \<Rightarrow> Some (DestroyDone, svc\<lparr>a_sessions := tbl\<lparr>tbl_map := AList.delete key (tbl_map tbl)\<rparr>\<rparr>)
             | Some a \<Rightarrow> Some (DestroyStop key a, svc\<lparr>a_sessions := tbl\<lparr>tbl_map := AList.delete key (tbl_map tbl)\<rparr>\<rparr>))
   | DestroyStop key a \<Rightarrow>
       if lv_session lv a then None
       else Some (DestroyAt key a, svc\<lparr>a_sessions := session_modify a session_stop (a_sessions svc)\<rparr>)
   | DestroyAt key a \<Rightarrow>
       if lv_session lv a then None
       else (case destroy_watch_continue key a svc of
               (Blocked, _) \<Rightarrow> Some (DestroyWaits key a, svc)
             | (Reply _, svc') \<Rightarrow> Some (DestroyDone, svc'))
   | DestroyWaits key a \<Rightarrow>
       (case destroy_watch_continue key a svc of
          (Blocked, _) \<Rightarrow> None
        | (Reply _, svc') \<Rightarrow> Some (DestroyDone, svc'))
   | _ \<Rightarrow> None)"

definition task_step ::
  "argus_env \<Rightarrow> loop_input list \<Rightarrow> notify_error option \<Rightarrow> lock_view \<Rightarrow> argusd \<Rightarrow> argus_task \<Rightarrow> (argus_task \<times> argusd) option" where
  "task_step env ls failed lv svc t = (case t of
     GetStart _ _ \<Rightarrow> get_state_step lv svc t
   | GetAt _ _ _ _ \<Rightarrow> get_state_step lv svc t
   | CreateStart _ \<Rightarrow> create_step env lv svc t
   | CreateInsert _ _ _ \<Rightarrow> create_step env lv svc t
   | CreateAt _ _ _ _ _ \<Rightarrow> create_step env lv svc t
   | DestroyStart _ _ _ \<Rightarrow> destroy_step lv svc t
   | DestroyStop _ _ \<Rightarrow> destroy_step lv svc t
   | DestroyAt _ _ \<Rightarrow> destroy_step lv svc t
   | DestroyWaits _ _ \<Rightarrow> destroy_step lv svc t
   | _ \<Rightarrow> update_step env ls failed lv svc t)"

subsection \<open>The machine\<close>

text \<open>A request that arrives is a task at its start.\<close>

definition is_request :: "argus_task \<Rightarrow> bool" where
  "is_request t = (case t of GetStart _ _ \<Rightarrow> True | UpdateStart _ _ _ _ \<Rightarrow> True | CreateStart _ \<Rightarrow> True | DestroyStart _ _ _ \<Rightarrow> True
     | _ \<Rightarrow> False)"

text \<open>
  A step of the machine: a request arrives, a task that need not wait goes on, a client outside \<open>patient\<close> gives up
  and its handler is dropped with the locks it holds, the task of a watcher starts its event loop, or a running
  loop makes a turn on inputs that satisfy \<open>ok\<close>.
\<close>

inductive machine_step :: "nat set \<Rightarrow> (loop_input list \<Rightarrow> bool) \<Rightarrow> argus_machine \<Rightarrow> argus_machine \<Rightarrow> bool"
  for patient :: "nat set" and ok :: "loop_input list \<Rightarrow> bool" where
  arrive: "is_request t \<Longrightarrow> machine_step patient ok m (m\<lparr>am_tasks := am_tasks m @ [t]\<rparr>)"
| go_on: "i < length (am_tasks m) \<Longrightarrow> task_step env ls failed (locks_of (am_tasks m)) (am_svc m) (am_tasks m ! i) = Some (t, svc) \<Longrightarrow>
     machine_step patient ok m (m\<lparr>am_svc := svc, am_tasks := (am_tasks m)[i := t]\<rparr>)"
| gives_up: "i \<notin> patient \<Longrightarrow> machine_step patient ok m (m\<lparr>am_tasks := (am_tasks m)[i := GaveUp]\<rparr>)"
| loop_start: "machine_step patient ok m (m\<lparr>am_svc := loop_starts w (am_svc m)\<rparr>)"
| loop_runs: "ok ls \<Longrightarrow> machine_step patient ok m (m\<lparr>am_svc := snd (loop_turn ls k w (am_svc m))\<rparr>)"

inductive_cases machine_stepE: "machine_step patient ok m m'"

lemmas handler_steps = get_state_step_def update_step_def update_locked_step_def create_step_def destroy_step_def

subsection \<open>Tasks alone\<close>

text \<open>A task that nobody disturbs: the steps with free locks until it is done.\<close>

definition free_locks :: lock_view where
  "free_locks = \<lparr>lv_table = False, lv_session = (\<lambda>_. False)\<rparr>"

inductive alone :: "argus_env \<Rightarrow> loop_input list \<Rightarrow> argus_task \<times> argusd \<Rightarrow> argus_task \<times> argusd \<Rightarrow> bool" for env ls where
  alone_refl: "alone env ls c c"
| alone_step: "task_step env ls None free_locks (snd c) (fst c) = Some c' \<Longrightarrow> alone env ls c' d \<Longrightarrow> alone env ls c d"

lemma alone_trans: "alone env ls c d \<Longrightarrow> alone env ls d e \<Longrightarrow> alone env ls c e"
  by (induction rule: alone.induct) (auto intro: alone.intros)

lemma alone_one: "task_step env ls None free_locks svc t = Some c' \<Longrightarrow> alone env ls (t, svc) c'"
  by (auto intro: alone.intros)

lemma get_alone:
  "alone env ls (GetAt n ns as acc, svc)
     (GetDone (acc @ map session_to_watch_state
        (filter (\<lambda>s. \<not> (n \<noteq> [] \<and> s_name s \<noteq> n) \<and> \<not> (ns \<noteq> [] \<and> s_namespace s \<noteq> ns))
          (map (\<lambda>a. tbl_heap (a_sessions svc) ! a) as))), svc)"
proof (induction as arbitrary: acc)
  case Nil
  then show ?case by (intro alone_one) (simp add: task_step_def get_state_step_def)
next
  case (Cons a as)
  let ?s = "tbl_heap (a_sessions svc) ! a"
  let ?acc = "if (n \<noteq> [] \<and> s_name ?s \<noteq> n) \<or> (ns \<noteq> [] \<and> s_namespace ?s \<noteq> ns) then acc else acc @ [session_to_watch_state ?s]"
  have "task_step env ls None free_locks svc (GetAt n ns (a # as) acc) = Some (GetAt n ns as ?acc, svc)"
    by (simp add: task_step_def get_state_step_def free_locks_def Let_def)
  note step = alone_trans [OF alone_one [OF this] Cons.IH]
  let ?f = "\<lambda>as. map session_to_watch_state (filter (\<lambda>s. \<not> (n \<noteq> [] \<and> s_name s \<noteq> n) \<and> \<not> (ns \<noteq> [] \<and> s_namespace s \<noteq> ns))
        (map (\<lambda>a. tbl_heap (a_sessions svc) ! a) as))"
  have "?acc @ ?f as = acc @ ?f (a # as)" by auto
  with step show ?case by (simp only:)
qed

lemma create_alone:
  "alone env ls (CreateAt req a cs n ready, svc)
     (case fold (watch_container env req a) cs (n, ready, svc) of (n', ready', svc') \<Rightarrow>
        (CreateDone (Inr \<lparr>cwr_watch_id = cw_key req, cwr_node_name = cw_node_name req, cwr_pod_name = cw_pod_name req,
           cwr_watched_paths = n', cwr_paused = cw_paused req, cwr_watches_ready = ready'\<rparr>), svc'))"
proof (induction cs arbitrary: n ready svc)
  case Nil
  then show ?case by (auto intro!: alone_one simp: task_step_def create_step_def)
next
  case (Cons c cs)
  obtain n' ready' svc' where w: "watch_container env req a c (n, ready, svc) = (n', ready', svc')" by (rule prod_cases3)
  then have "task_step env ls None free_locks svc (CreateAt req a (c # cs) n ready) = Some (CreateAt req a cs n' ready', svc')"
    by (simp add: task_step_def create_step_def free_locks_def)
  then show ?case using Cons.IH [of n' ready' svc'] w by (auto intro: alone_step)
qed

lemma get_refines:
  "alone env ls (GetStart n ns, svc) (GetDone (get_watch_state n ns (\<lambda>_. True) svc), svc)"
proof (rule alone_step)
  show "task_step env ls None free_locks (snd (GetStart n ns, svc)) (fst (GetStart n ns, svc)) =
      Some (GetAt n ns (map snd (tbl_map (a_sessions svc))) [], svc)"
    by (simp add: task_step_def get_state_step_def)
  have "send_all (\<lambda>_. True) k xs = xs" for k and xs :: "proto_watch_state list" by (induction xs arbitrary: k) simp_all
  then show "alone env ls (GetAt n ns (map snd (tbl_map (a_sessions svc))) [], svc)
      (GetDone (get_watch_state n ns (\<lambda>_. True) svc), svc)"
    using get_alone [of env ls n ns "map snd (tbl_map (a_sessions svc))" "[]" svc]
    by (simp add: get_watch_state_def stream_from_iter_def live_watch_sessions_def o_def case_prod_unfold)
qed

lemma create_refines:
  "alone env ls (CreateStart req, svc) (case create_watch env req svc of (r, svc') \<Rightarrow> (CreateDone r, svc'))"
proof (cases "session_exists (cw_key req) (a_sessions svc)")
  case True
  then show ?thesis by (auto intro!: alone_one simp: task_step_def create_step_def create_watch_def)
next
  case False
  let ?pids = "request_pids env svc req"
  obtain m svc1 where r: "create_watch_register env req svc = (m, svc1)" by fastforce
  have start: "alone env ls (CreateStart req, svc) (CreateInsert req ?pids m, svc1)"
    using False r by (intro alone_one) (simp add: task_step_def create_step_def)
  show ?thesis
  proof (cases "session_insert (a_max_watches svc1) (cw_key req) (new_watch_session env req ?pids m) (a_sessions svc1)")
    case (Inl e)
    then have "alone env ls (CreateInsert req ?pids m, svc1) (CreateDone (Inl (ResourceExhausted (show_session_error e))), svc1)"
      by (intro alone_one) (simp add: task_step_def create_step_def free_locks_def)
    with False r Inl show ?thesis by (simp add: create_watch_def alone_trans [OF start])
  next
    case (Inr x)
    obtain a tbl where x: "x = (a, tbl)" by fastforce
    let ?cs = "if cw_paused req then [] else cw_container_ids req"
    have "alone env ls (CreateInsert req ?pids m, svc1) (CreateAt req a ?cs 0 False, svc1\<lparr>a_sessions := tbl\<rparr>)"
      using Inr x by (intro alone_one) (simp add: task_step_def create_step_def free_locks_def)
    then have "alone env ls (CreateStart req, svc) (case fold (watch_container env req a) ?cs (0, False, svc1\<lparr>a_sessions := tbl\<rparr>) of
        (n', ready', svc') \<Rightarrow> (CreateDone (Inr \<lparr>cwr_watch_id = cw_key req, cwr_node_name = cw_node_name req,
           cwr_pod_name = cw_pod_name req, cwr_watched_paths = n', cwr_paused = cw_paused req, cwr_watches_ready = ready'\<rparr>), svc'))"
      using create_alone by (blast intro: alone_trans start)
    with False r Inr x show ?thesis by (cases "cw_paused req") (auto simp: create_watch_def split: prod.splits)
  qed
qed

lemma destroy_refines:
  "case destroy_watch n ns p svc of
    (Reply _, svc') \<Rightarrow> alone env ls (DestroyStart n ns p, svc) (DestroyDone, svc')
  | (Blocked, svc') \<Rightarrow> \<exists>a. alone env ls (DestroyStart n ns p, svc) (DestroyWaits (session_key n ns p) a, svc')"
proof -
  let ?k = "session_key n ns p"
  show ?thesis
  proof (cases "session_get ?k (a_sessions svc)")
    case None
    then show ?thesis
      by (auto intro!: alone_one simp: task_step_def destroy_step_def free_locks_def destroy_watch_def session_remove_def Let_def)
  next
    case (Some a)
    let ?t1 = "(a_sessions svc)\<lparr>tbl_map := AList.delete ?k (tbl_map (a_sessions svc))\<rparr>"
    let ?svc2 = "svc\<lparr>a_sessions := session_modify a session_stop ?t1\<rparr>"
    have rm: "session_remove ?k (a_sessions svc) = (Some a, session_modify a session_stop ?t1)"
      using Some by (simp add: session_remove_def Let_def session_modify_def)
    have "alone env ls (DestroyStart n ns p, svc) (DestroyStop ?k a, svc\<lparr>a_sessions := ?t1\<rparr>)"
      using Some by (intro alone_one) (simp add: task_step_def destroy_step_def free_locks_def Let_def)
    moreover have "alone env ls (DestroyStop ?k a, svc\<lparr>a_sessions := ?t1\<rparr>) (DestroyAt ?k a, ?svc2)"
      by (intro alone_one) (simp add: task_step_def destroy_step_def free_locks_def)
    ultimately have go: "alone env ls (DestroyStart n ns p, svc) (DestroyAt ?k a, ?svc2)" by (rule alone_trans)
    have "alone env ls (DestroyAt ?k a, ?svc2)
        (if watcher_locked a ?svc2 then (DestroyWaits ?k a, ?svc2) else (DestroyDone, destroy_watch_finish ?k a ?svc2))"
      by (auto intro!: alone_one simp: task_step_def destroy_step_def free_locks_def destroy_watch_continue_def)
    with go have "alone env ls (DestroyStart n ns p, svc)
        (if watcher_locked a ?svc2 then (DestroyWaits ?k a, ?svc2) else (DestroyDone, destroy_watch_finish ?k a ?svc2))"
      by (rule alone_trans)
    then show ?thesis by (auto simp: destroy_watch_def rm Let_def split: if_splits)
  qed
qed

lemma update_refines:
  "case update_watch env ls n ns p action svc of
    (Reply r, svc') \<Rightarrow> alone env ls (UpdateStart n ns p action, svc) (UpdateDone r, svc')
  | (Blocked, _) \<Rightarrow> True"
proof -
  let ?k = "session_key n ns p"
  show ?thesis
  proof (cases "session_get ?k (a_sessions svc)")
    case None
    then show ?thesis by (auto intro!: alone_one simp: task_step_def update_step_def update_watch_def)
  next
    case (Some a)
    then have u: "update_watch env ls n ns p action svc = update_action_step env ls ?k a action svc"
      by (simp add: update_watch_def update_action_step_def Let_def)
    have "alone env ls (UpdateStart n ns p action, svc) (UpdateAt ?k a action, svc)"
      using Some by (intro alone_one) (simp add: task_step_def update_step_def)
    moreover have "alone env ls (UpdateAt ?k a action, svc) (UpdateDone r, svc')"
      if "update_action_step env ls ?k a action svc = (Reply r, svc')" for r svc'
      using that by (intro alone_one) (simp add: task_step_def update_step_def update_locked_step_def free_locks_def)
    ultimately show ?thesis by (auto simp: u split: prod.splits reply.splits intro: alone_trans)
  qed
qed

text \<open>
  The steps add up to the handlers: a check of the cuts, as both are made of the same parts. A request whose task
  meets no held lock has a run that ends with the answer and the service of the handler run as one: this holds for \<open>GetWatchState\<close>, \<open>CreateWatch\<close> and \<open>DestroyWatch\<close> of every
  service, and for \<open>UpdateWatch\<close> whenever the handler answers.
\<close>

theorem tasks_refine_handlers:
  "alone env ls (GetStart n ns, svc) (GetDone (get_watch_state n ns (\<lambda>_. True) svc), svc) \<and>
   alone env ls (CreateStart req, svc) (case create_watch env req svc of (r, svc') \<Rightarrow> (CreateDone r, svc')) \<and>
   (case destroy_watch n ns p svc of
      (Reply _, svc') \<Rightarrow> alone env ls (DestroyStart n ns p, svc) (DestroyDone, svc')
    | (Blocked, svc') \<Rightarrow> \<exists>a. alone env ls (DestroyStart n ns p, svc) (DestroyWaits (session_key n ns p) a, svc')) \<and>
   (case update_watch env ls n ns p action svc of
      (Reply r, svc') \<Rightarrow> alone env ls (UpdateStart n ns p action, svc) (UpdateDone r, svc')
    | (Blocked, _) \<Rightarrow> True)"
  using get_refines create_refines destroy_refines update_refines by (intro conjI)

subsection \<open>Lock-up\<close>

definition loop_alive :: "nat \<Rightarrow> argusd \<Rightarrow> bool" where
  "loop_alive w svc \<longleftrightarrow> w \<in> set (a_loops svc) \<and> w < length (a_watchers svc) \<and> w_running (a_watchers svc ! w)"

lemma loop_alive_fields [simp]:
  "loop_alive w (svc\<lparr>a_sessions := tbl\<rparr>) = loop_alive w svc" "loop_alive w (svc\<lparr>a_metrics := y\<rparr>) = loop_alive w svc"
  "loop_alive w (svc\<lparr>a_metrics_heap := x\<rparr>) = loop_alive w svc"
  "loop_alive w (set_paused a b svc) = loop_alive w svc" "loop_alive w (store_metrics m v svc) = loop_alive w svc"
  "loop_alive w (modify_state a f svc) = loop_alive w svc"
  by (simp_all add: loop_alive_def set_paused_def)

lemma loop_alive_watchers [simp]:
  "v \<notin> set (a_loops svc) \<Longrightarrow> a_watchers svc = ws \<Longrightarrow> loop_alive w svc \<Longrightarrow> loop_alive w (svc\<lparr>a_watchers := ws[v := x]\<rparr>)"
  "a_watchers svc = ws \<Longrightarrow> loop_alive w svc \<Longrightarrow> loop_alive w (svc\<lparr>a_watchers := ws @ [x]\<rparr>)"
  "a_loops svc = ls \<Longrightarrow> loop_alive w svc \<Longrightarrow> loop_alive w (svc\<lparr>a_loops := v # ls\<rparr>)"
  by (auto simp: loop_alive_def nth_append) (metis nth_list_update_neq)

text \<open>No handler touches a watcher whose loop runs.\<close>

lemma watch_container_alive:
  "loop_alive w (snd (snd acc)) \<Longrightarrow> loop_alive w (snd (snd (watch_container env req a c acc)))"
  by (auto simp: watch_container_def register_watches_synchronously_def Let_def split: sum.splits prod.splits)

lemma pause_watch_alive: "loop_alive w svc \<Longrightarrow> loop_alive w (snd (pause_watch env key a svc))"
  by (auto simp: pause_watch_def Let_def split: option.splits prod.splits sum.splits)

lemma resume_watch_alive: "loop_alive w svc \<Longrightarrow> loop_alive w (snd (resume_watch env ls key a svc))"
  by (auto simp: resume_watch_def Let_def split: option.splits prod.splits sum.splits)

lemma update_action_alive: "loop_alive w svc \<Longrightarrow> loop_alive w (snd (update_action_step env ls key a action svc))"
  by (simp add: update_action_step_def pause_watch_alive resume_watch_alive split: update_action.split)

lemma destroy_continue_alive: "loop_alive w svc \<Longrightarrow> loop_alive w (snd (destroy_watch_continue key a svc))"
  by (auto simp: destroy_watch_continue_def destroy_watch_finish_def watcher_locked_def Let_def split: option.splits)

lemma update_locked_alive:
  "update_locked_step env ls key a action svc = Some (u, v) \<Longrightarrow> loop_alive w svc \<Longrightarrow> loop_alive w v"
  using update_action_alive [of w svc env ls key a action]
  by (auto simp: update_locked_step_def Let_def split: prod.splits reply.splits)

text \<open>The steps of the four handlers, one after the other.\<close>

lemma handler_step_alive:
  "get_state_step lv svc t = Some (t', svc') \<Longrightarrow> loop_alive w svc \<Longrightarrow> loop_alive w svc'"
  "update_step env ls failed lv svc t = Some (t', svc') \<Longrightarrow> loop_alive w svc \<Longrightarrow> loop_alive w svc'"
  "create_step env lv svc t = Some (t', svc') \<Longrightarrow> loop_alive w svc \<Longrightarrow> loop_alive w svc'"
  "destroy_step lv svc t = Some (t', svc') \<Longrightarrow> loop_alive w svc \<Longrightarrow> loop_alive w svc'"
proof -
  show "get_state_step lv svc t = Some (t', svc') \<Longrightarrow> loop_alive w svc \<Longrightarrow> loop_alive w svc'"
    by (auto simp: get_state_step_def Let_def split: argus_task.splits list.splits if_splits)
  show "update_step env ls failed lv svc t = Some (t', svc') \<Longrightarrow> loop_alive w svc \<Longrightarrow> loop_alive w svc'"
    by (auto simp: update_step_def Let_def update_locked_alive split: argus_task.splits option.splits if_splits)
  show "loop_alive w svc'" if "create_step env lv svc t = Some (t', svc')" "loop_alive w svc"
  proof -
    have "loop_alive w v" if "watch_container env req a c (n, b, svc) = (n', b', v)" for req a c n b n' b' v
      using that watch_container_alive [of w "(n, b, svc)" env req a c] \<open>loop_alive w svc\<close> by simp
    with that show ?thesis
      by (auto simp: create_step_def create_watch_register_def Let_def
          split: argus_task.splits list.splits if_splits sum.splits prod.splits)
  qed
  show "loop_alive w svc'" if "destroy_step lv svc t = Some (t', svc')" "loop_alive w svc"
  proof -
    have "loop_alive w v" if "destroy_watch_continue key a svc = (r, v)" for key a r v
      using that destroy_continue_alive [OF \<open>loop_alive w svc\<close>, of key a] by simp
    with that show ?thesis
      by (auto simp: destroy_step_def Let_def split: argus_task.splits if_splits option.splits prod.splits reply.splits)
  qed
qed

lemma task_step_alive:
  "task_step env ls failed lv svc t = Some (t', svc') \<Longrightarrow> loop_alive w svc \<Longrightarrow> loop_alive w svc'"
  by (auto simp: task_step_def handler_step_alive split: argus_task.splits)

lemma machine_step_alive:
  assumes "machine_step {i, j} (list_all healthy_input) m m'" and "loop_alive w (am_svc m)"
  shows "loop_alive w (am_svc m')"
  using assms
proof (cases rule: machine_step.cases)
  case (go_on i env ls failed t svc)
  then show ?thesis using assms(2) task_step_alive by auto
next
  case (loop_start v)
  have "loop_alive w (loop_starts v (am_svc m))"
  proof (cases "v \<in> set (a_loops (am_svc m))")
    case False
    then show ?thesis
      using assms(2) by (auto simp: loop_starts_def split: sum.splits prod.splits)
  qed (use assms(2) in \<open>simp add: loop_starts_def\<close>)
  with loop_start show ?thesis by simp
next
  case (loop_runs ls k v)
  have "loop_alive w (snd (loop_turn ls k v (am_svc m)))"
  proof (cases "v = w")
    case True
    with loop_turn_keeps_lock [OF loop_runs(2), of w "am_svc m" k] assms(2) show ?thesis by (simp add: loop_alive_def)
  next
    case False
    with assms(2) show ?thesis
      by (auto simp: loop_turn_def loop_alive_def split: option.splits prod.splits)
  qed
  with loop_runs show ?thesis by simp
qed simp_all

text \<open>As long as somebody reads the table, no step changes which sessions it holds.\<close>

lemma loop_steps_sessions [simp]:
  "a_sessions (loop_starts w svc) = a_sessions svc" "a_sessions (snd (loop_turn ls k w svc)) = a_sessions svc"
  by (auto simp: loop_starts_def loop_turn_def split: option.splits sum.splits prod.splits)

lemma task_step_map:
  assumes "task_step env ls failed lv svc t = Some (t', svc')" and "lv_table lv"
  shows "tbl_map (a_sessions svc') = tbl_map (a_sessions svc)"
proof -
  have shape: "tbl_map (a_sessions v) = tbl_map (a_sessions svc)" if "same_shape svc v" for v
    using that by (simp add: same_shape_def)
  have upd: "tbl_map (a_sessions v) = tbl_map (a_sessions svc)" if "update_locked_step env ls key a action svc = Some (u, v)" for key a action u v
    using that pause_watch_shape [of svc env key a] resume_watch_shape [of svc env ls key a]
    by (auto simp: update_locked_step_def update_action_step_def same_shape_def Let_def
        split: prod.splits reply.splits update_action.splits)
  have con: "tbl_map (a_sessions v) = tbl_map (a_sessions svc)" if "watch_container env req a c (n, b, svc) = (n', b', v)" for req a c n b n' b' v
  proof (rule shape)
    show "same_shape svc v" using that watch_container_shape [of "(n, b, svc)" env req a c] by simp
  qed
  have des: "a_sessions v = a_sessions svc" if "destroy_watch_continue key a svc = (r, v)" for key a r v
    using that by (auto simp: destroy_watch_continue_def destroy_watch_finish_def Let_def split: if_splits option.splits)
  have "get_state_step lv svc t = Some (t', svc') \<Longrightarrow> ?thesis"
    by (auto simp: get_state_step_def Let_def split: argus_task.splits list.splits if_splits)
  moreover have "update_step env ls failed lv svc t = Some (t', svc') \<Longrightarrow> ?thesis"
    by (auto simp: update_step_def set_paused_def session_modify_def Let_def split: argus_task.splits option.splits if_splits dest: upd)
  moreover have "create_step env lv svc t = Some (t', svc') \<Longrightarrow> ?thesis"
    using assms(2) by (auto simp: create_step_def create_watch_register_def Let_def
        split: argus_task.splits list.splits if_splits sum.splits prod.splits dest: con)
  moreover have "destroy_step lv svc t = Some (t', svc') \<Longrightarrow> ?thesis"
    using assms(2) by (auto simp: destroy_step_def session_modify_def Let_def
        split: argus_task.splits if_splits option.splits prod.splits reply.splits dest: des)
  ultimately show ?thesis using assms(1) by (auto simp: task_step_def split: argus_task.splits)
qed

definition awaits_table :: "argus_task \<Rightarrow> bool" where
  "awaits_table t = (case t of CreateInsert _ _ _ \<Rightarrow> True | DestroyStart _ _ _ \<Rightarrow> True | _ \<Rightarrow> False)"

text \<open>
  An update of session \<open>a\<close> (task \<open>i\<close>) holds the lock of the session and waits for the watcher \<open>w\<close> of a running loop,
  and a query (task \<open>j\<close>) holds the lock of the table and has session \<open>a\<close> still before it.
\<close>

definition locked_up :: "nat \<Rightarrow> nat \<Rightarrow> argus_task \<Rightarrow> nat \<Rightarrow> nat \<Rightarrow> string \<Rightarrow> string \<Rightarrow> argus_machine \<Rightarrow> bool" where
  "locked_up i j upd a w n ns m \<longleftrightarrow>
     i < length (am_tasks m) \<and> j < length (am_tasks m) \<and> am_tasks m ! i = upd \<and>
     (\<exists>key action. upd = UpdateWaits key a action w) \<and> loop_alive w (am_svc m) \<and>
     (\<exists>as acc. am_tasks m ! j = GetAt n ns as acc \<and> a \<in> set as)"

lemma locked_up_locks:
  assumes "locked_up i j upd a w n ns m"
  shows "lv_table (locks_of (am_tasks m))" and "lv_session (locks_of (am_tasks m)) a"
proof -
  obtain key action as acc where "i < length (am_tasks m)" "am_tasks m ! i = UpdateWaits key a action w"
    "j < length (am_tasks m)" "am_tasks m ! j = GetAt n ns as acc"
    using assms by (auto simp: locked_up_def)
  then have "UpdateWaits key a action w \<in> set (am_tasks m)" "GetAt n ns as acc \<in> set (am_tasks m)" by (metis nth_mem)+
  then show "lv_table (locks_of (am_tasks m))" "lv_session (locks_of (am_tasks m)) a"
    by (force simp: locks_of_def list_ex_iff holds_table_def holds_session_def)+
qed

lemma locked_up_task:
  assumes l: "locked_up i j upd a w n ns m" and s: "task_step env ls failed (locks_of (am_tasks m)) (am_svc m) (am_tasks m ! k) = Some (t, svc)"
  shows "k \<noteq> i" and "\<not> awaits_table (am_tasks m ! k)" and "k = j \<Longrightarrow> \<exists>as acc. t = GetAt n ns as acc \<and> a \<in> set as"
proof -
  note locks = locked_up_locks [OF l]
  show "k \<noteq> i"
    using l s by (auto simp: locked_up_def task_step_def update_step_def loop_alive_def)
  show "\<not> awaits_table (am_tasks m ! k)"
    using s locks(1) by (auto simp: awaits_table_def task_step_def create_step_def destroy_step_def split: argus_task.splits)
  show "\<exists>as acc. t = GetAt n ns as acc \<and> a \<in> set as" if "k = j"
  proof -
    obtain as acc where g: "am_tasks m ! j = GetAt n ns as acc" "a \<in> set as" using l by (auto simp: locked_up_def)
    then obtain b bs where "as = b # bs" by (cases as) auto
    with g s locks(2) that show ?thesis
      by (auto simp: task_step_def get_state_step_def Let_def split: if_splits)
  qed
qed

text \<open>A task that waits for the table gets no further.\<close>

definition held_back :: "argus_task list \<Rightarrow> argus_task list \<Rightarrow> bool" where
  "held_back ts ts' \<longleftrightarrow> length ts \<le> length ts' \<and>
     (\<forall>k<length ts. awaits_table (ts ! k) \<or> ts ! k = GaveUp \<longrightarrow> ts' ! k \<in> {ts ! k, GaveUp})"

lemma held_back_refl [simp]: "held_back ts ts"
  by (simp add: held_back_def)

lemma held_back_trans: "held_back xs ys \<Longrightarrow> held_back ys zs \<Longrightarrow> held_back xs zs"
  unfolding held_back_def by (metis empty_iff insert_iff order_less_le_trans le_trans)

lemma held_back_update:
  "ts ! i \<noteq> GaveUp \<and> \<not> awaits_table (ts ! i) \<or> t = GaveUp \<Longrightarrow> held_back ts (ts[i := t])"
  by (auto simp: held_back_def nth_list_update_if)

lemma gave_up_step: "task_step env ls failed lv svc GaveUp = None"
  by (simp add: task_step_def update_step_def)

lemma locked_up_step:
  assumes "machine_step {i, j} (list_all healthy_input) m m'" and l: "locked_up i j upd a w n ns m"
  shows "locked_up i j upd a w n ns m' \<and> tbl_map (a_sessions (am_svc m')) = tbl_map (a_sessions (am_svc m)) \<and>
    held_back (am_tasks m) (am_tasks m')"
proof -
  have alive: "loop_alive w (am_svc m')"
    using machine_step_alive [OF assms(1)] l by (simp add: locked_up_def)
  from assms(1) show ?thesis
  proof (cases rule: machine_step.cases)
    case (arrive t)
    with l show ?thesis by (auto simp: locked_up_def held_back_def nth_append)
  next
    case (go_on k env ls failed t svc)
    note t = locked_up_task [OF l go_on(3)]
    have "tbl_map (a_sessions svc) = tbl_map (a_sessions (am_svc m))"
      using task_step_map [OF go_on(3) locked_up_locks(1) [OF l]] .
    moreover have "held_back (am_tasks m) ((am_tasks m)[k := t])"
      using t(2) go_on(3) by (intro held_back_update) (auto simp: gave_up_step)
    ultimately show ?thesis
      using l t alive go_on by (cases "k = j") (auto simp: locked_up_def)
  next
    case (gives_up k)
    with l show ?thesis by (auto simp: locked_up_def held_back_update)
  qed (use l alive in \<open>auto simp: locked_up_def\<close>)
qed

text \<open>
  C37: One pause and one query lock argusd up. When an update has taken the lock of a session and waits for the
  watcher whose event loop runs, and a \<open>GetWatchState\<close> has taken the shared lock of the table and has that
  session still to visit, then, however the tasks go on and whatever requests arrive, as long as the channels are
  open and these two clients do not give up: neither is ever answered, the table of sessions never changes again,
  and no creation or destruction that needs it gets any further, except by giving up.
\<close>

theorem argusd_locks_up:
  assumes "(machine_step {i, j} (list_all healthy_input))\<^sup>*\<^sup>* m m'" and "locked_up i j upd a w n ns m"
  shows "locked_up i j upd a w n ns m' \<and> tbl_map (a_sessions (am_svc m')) = tbl_map (a_sessions (am_svc m)) \<and>
    held_back (am_tasks m) (am_tasks m')"
  using assms
proof (induction rule: rtranclp_induct)
  case (step m1 m2)
  then have IH: "locked_up i j upd a w n ns m1" by blast
  from locked_up_step [OF step.hyps(2) IH] step.IH [OF step.prems] show ?case by (auto intro: held_back_trans)
qed simp

text \<open>The lock-up is reached from a service with one running watch by one pause and one query.\<close>

lemma lock_up_reached:
  "\<exists>m. (machine_step {0, 1} (list_all healthy_input))\<^sup>*\<^sup>* \<lparr>am_svc = looping_argusd, am_tasks = []\<rparr> m \<and>
     locked_up 0 1 (UpdateWaits (session_key ''w'' ''n'' ''p'') 0 1 0) 0 0 [] [] m"
proof -
  let ?k = "session_key ''w'' ''n'' ''p''"
  let ?m = "\<lambda>ts. \<lparr>am_svc = looping_argusd, am_tasks = ts\<rparr>"
  let ?step = "machine_step {0, 1} (list_all healthy_input)"
  have arrive: "?step (?m ts) (?m (ts @ [t]))" if "is_request t" for ts t
    using machine_step.arrive [OF that, of "{0, 1}" "list_all healthy_input" "?m ts"] by simp
  have go: "?step (?m ts) (?m (ts[i := t]))"
    if "i < length ts" "task_step undefined [] None (locks_of ts) looping_argusd (ts ! i) = Some (t, looping_argusd)" for ts i t
    using machine_step.go_on [of i "?m ts" undefined "[]" None t looping_argusd "{0, 1}" "list_all healthy_input"] that by simp
  have svc: "tbl_map (a_sessions looping_argusd) = [(?k, 0)]" "a_loops looping_argusd = [0]"
    "wss_watcher (s_state (tbl_heap (a_sessions looping_argusd) ! 0)) = Some 0"
    "\<not> s_paused (tbl_heap (a_sessions looping_argusd) ! 0)"
    by (simp_all add: looping_argusd_def new_watch_session_def session_new_def some_watch_def)
  have s1: "?step (?m []) (?m [UpdateStart ''w'' ''n'' ''p'' 1])"
    using arrive [of "UpdateStart ''w'' ''n'' ''p'' 1" "[]"] by (simp add: is_request_def)
  have s2: "?step (?m [UpdateStart ''w'' ''n'' ''p'' 1]) (?m [UpdateAt ?k 0 1])"
    using go [of 0 "[UpdateStart ''w'' ''n'' ''p'' 1]" "UpdateAt ?k 0 1"] svc
    by (simp add: task_step_def update_step_def session_get_def)
  have s3: "?step (?m [UpdateAt ?k 0 1]) (?m [UpdateWaits ?k 0 1 0])"
    using go [of 0 "[UpdateAt ?k 0 1]" "UpdateWaits ?k 0 1 0"] svc
    by (simp add: task_step_def update_step_def update_locked_step_def update_action_step_def update_action_of_def
        pause_watch_def locks_of_def holds_session_def watcher_locked_def Let_def)
  have s4: "?step (?m [UpdateWaits ?k 0 1 0]) (?m [UpdateWaits ?k 0 1 0, GetStart [] []])"
    using arrive [of "GetStart [] []" "[UpdateWaits ?k 0 1 0]"] by (simp add: is_request_def)
  have s5: "?step (?m [UpdateWaits ?k 0 1 0, GetStart [] []]) (?m [UpdateWaits ?k 0 1 0, GetAt [] [] [0] []])"
    using go [of 1 "[UpdateWaits ?k 0 1 0, GetStart [] []]" "GetAt [] [] [0] []"] svc
    by (simp add: task_step_def get_state_step_def)
  have "?step\<^sup>*\<^sup>* (?m []) (?m [UpdateWaits ?k 0 1 0, GetAt [] [] [0] []])"
    using s1 s2 s3 s4 s5 by (meson converse_rtranclp_into_rtranclp rtranclp.rtrancl_refl)
  moreover have "loop_alive 0 looping_argusd" by (simp add: loop_alive_def looping_argusd_def)
  ultimately show ?thesis by (intro exI conjI) (assumption, simp add: locked_up_def)
qed

theorem argusd_locks_up_witness:
  "\<exists>m m'. (machine_step {0, 1} (list_all healthy_input))\<^sup>*\<^sup>* \<lparr>am_svc = looping_argusd, am_tasks = []\<rparr> m \<and>
     am_tasks m' = am_tasks m @ [DestroyStart ''w'' ''n'' ''p''] \<and>
     locked_up 0 1 (UpdateWaits (session_key ''w'' ''n'' ''p'') 0 1 0) 0 0 [] [] m' \<and>
     tbl_map (a_sessions (am_svc m')) = tbl_map (a_sessions (am_svc m))"
proof -
  obtain m where m: "(machine_step {0, 1} (list_all healthy_input))\<^sup>*\<^sup>* \<lparr>am_svc = looping_argusd, am_tasks = []\<rparr> m"
    "locked_up 0 1 (UpdateWaits (session_key ''w'' ''n'' ''p'') 0 1 0) 0 0 [] [] m"
    using lock_up_reached by blast
  let ?m' = "m\<lparr>am_tasks := am_tasks m @ [DestroyStart ''w'' ''n'' ''p'']\<rparr>"
  have "(machine_step {0, 1} (list_all healthy_input))\<^sup>*\<^sup>* m ?m'"
    by (intro r_into_rtranclp machine_step.arrive) (simp add: is_request_def)
  from argusd_locks_up [OF this m(2)] m(1) show ?thesis
    by (intro exI [of _ m] exI [of _ ?m']) simp
qed

end
