(* ===== verification/Ebpf_Types.thy ===== *)
theory Ebpf_Types
  imports Rust_Text Argus_Service
begin

section \<open>Types shared by the eBPF programs and the daemons\<close>

text \<open>
  \<open>common/src/ebpf/types/src/lib.rs\<close> and the conversions in \<open>janusd/src/ebpf/events.rs\<close> and
  \<open>argusd/src/ebpf/events.rs\<close>. A byte array \<open>[u8; N]\<close> is a byte string of length \<open>N\<close>; the structures are what
  the kernel side writes into the ring buffer and the process cache.
\<close>

abbreviation nul :: char where "nul \<equiv> CHR 0x00"

definition MAX_PATH_LEN :: nat where "MAX_PATH_LEN = 256"
definition MAX_COMM_LEN :: nat where "MAX_COMM_LEN = 16"
definition MAX_CONTAINER_ID_LEN :: nat where "MAX_CONTAINER_ID_LEN = 64"
definition MAX_EXE_LEN :: nat where "MAX_EXE_LEN = 128"
definition MAX_CMDLINE_LEN :: nat where "MAX_CMDLINE_LEN = 128"
definition MAX_CWD_LEN :: nat where "MAX_CWD_LEN = 128"

lemmas buffer_sizes = MAX_PATH_LEN_def MAX_COMM_LEN_def MAX_CONTAINER_ID_LEN_def MAX_EXE_LEN_def
  MAX_CMDLINE_LEN_def MAX_CWD_LEN_def

subsection \<open>Event types\<close>

datatype file_event_type =
    FetCreate | FetModify | FetDelete | FetRename | FetOpenWrite | FetAttrib | FetAccess | FetOpenRead

definition file_event_type_code :: "file_event_type \<Rightarrow> u32" where
  "file_event_type_code t = (case t of
     FetCreate \<Rightarrow> 1 | FetModify \<Rightarrow> 2 | FetDelete \<Rightarrow> 3 | FetRename \<Rightarrow> 4 | FetOpenWrite \<Rightarrow> 5 | FetAttrib \<Rightarrow> 6
   | FetAccess \<Rightarrow> 7 | FetOpenRead \<Rightarrow> 8)"

definition file_event_type_from_u32 :: "u32 \<Rightarrow> file_event_type option" where
  "file_event_type_from_u32 n =
     (if n = 1 then Some FetCreate else if n = 2 then Some FetModify else if n = 3 then Some FetDelete
      else if n = 4 then Some FetRename else if n = 5 then Some FetOpenWrite else if n = 6 then Some FetAttrib
      else if n = 7 then Some FetAccess else if n = 8 then Some FetOpenRead else None)"

definition file_event_type_as_str :: "file_event_type \<Rightarrow> string" where
  "file_event_type_as_str t = (case t of
     FetCreate \<Rightarrow> ''create'' | FetModify \<Rightarrow> ''modify'' | FetDelete \<Rightarrow> ''delete'' | FetRename \<Rightarrow> ''rename''
   | FetOpenWrite \<Rightarrow> ''open_write'' | FetAttrib \<Rightarrow> ''attrib'' | FetAccess \<Rightarrow> ''access'' | FetOpenRead \<Rightarrow> ''open_read'')"

definition is_fim_event :: "file_event_type \<Rightarrow> bool" where
  "is_fim_event t \<longleftrightarrow> t \<in> {FetCreate, FetModify, FetDelete, FetRename, FetAttrib, FetOpenWrite}"

definition is_access_event :: "file_event_type \<Rightarrow> bool" where
  "is_access_event t \<longleftrightarrow> t \<in> {FetAccess, FetOpenRead, FetOpenWrite}"

subsection \<open>File events\<close>

record kernel_file_event =
  ke_event_type :: u32
  ke_pid :: u32
  ke_tgid :: u32
  ke_uid :: u32
  ke_gid :: u32
  ke_timestamp_ns :: u64
  ke_path :: string
  ke_comm :: string
  ke_container_id :: string

definition kernel_file_event_default :: kernel_file_event where
  "kernel_file_event_default =
     \<lparr>ke_event_type = 0, ke_pid = 0, ke_tgid = 0, ke_uid = 0, ke_gid = 0, ke_timestamp_ns = 0,
      ke_path = replicate MAX_PATH_LEN nul, ke_comm = replicate MAX_COMM_LEN nul,
      ke_container_id = replicate MAX_CONTAINER_ID_LEN nul\<rparr>"

text \<open>The bytes before the first NUL, all of them if there is none, read as UTF-8 or replaced.\<close>

definition buffer_str :: "string \<Rightarrow> string \<Rightarrow> string" where
  "buffer_str invalid buf = (let s = takeWhile (\<lambda>b. b \<noteq> nul) buf in if utf8_valid s then s else invalid)"

definition invalid_utf8 :: string where
  "invalid_utf8 = ''<invalid utf8>''"

definition ke_path_str :: "kernel_file_event \<Rightarrow> string" where
  "ke_path_str e = buffer_str invalid_utf8 (ke_path e)"

definition ke_comm_str :: "kernel_file_event \<Rightarrow> string" where
  "ke_comm_str e = buffer_str invalid_utf8 (ke_comm e)"

definition ke_container_id_str :: "kernel_file_event \<Rightarrow> string" where
  "ke_container_id_str e = buffer_str [] (ke_container_id e)"

definition ke_has_container_id :: "kernel_file_event \<Rightarrow> bool" where
  "ke_has_container_id e \<longleftrightarrow> ke_container_id e ! 0 \<noteq> nul"

definition ke_file_event_type :: "kernel_file_event \<Rightarrow> file_event_type option" where
  "ke_file_event_type e = file_event_type_from_u32 (ke_event_type e)"

subsection \<open>The process cache\<close>

record process_cache_entry =
  pc_tgid :: u32
  pc_ppid :: u32
  pc_uid :: u32
  pc_gid :: u32
  pc_exec_timestamp_ns :: u64
  pc_exe :: string
  pc_cmdline :: string
  pc_cwd :: string
  pc_comm :: string

definition process_cache_entry_default :: process_cache_entry where
  "process_cache_entry_default =
     \<lparr>pc_tgid = 0, pc_ppid = 0, pc_uid = 0, pc_gid = 0, pc_exec_timestamp_ns = 0,
      pc_exe = replicate MAX_EXE_LEN nul, pc_cmdline = replicate MAX_CMDLINE_LEN nul,
      pc_cwd = replicate MAX_CWD_LEN nul, pc_comm = replicate MAX_COMM_LEN nul\<rparr>"

definition pc_exe_str :: "process_cache_entry \<Rightarrow> string" where
  "pc_exe_str e = buffer_str invalid_utf8 (pc_exe e)"

definition pc_cmdline_str :: "process_cache_entry \<Rightarrow> string" where
  "pc_cmdline_str e = buffer_str invalid_utf8 (pc_cmdline e)"

definition pc_cmdline_vec :: "process_cache_entry \<Rightarrow> string list" where
  "pc_cmdline_vec e = filter (\<lambda>s. s \<noteq> []) (split_on (CHR '' '') (pc_cmdline_str e))"

definition pc_cwd_str :: "process_cache_entry \<Rightarrow> string" where
  "pc_cwd_str e = buffer_str invalid_utf8 (pc_cwd e)"

definition pc_comm_str :: "process_cache_entry \<Rightarrow> string" where
  "pc_comm_str e = buffer_str invalid_utf8 (pc_comm e)"

definition pc_has_exe :: "process_cache_entry \<Rightarrow> bool" where
  "pc_has_exe e \<longleftrightarrow> pc_exe e ! 0 \<noteq> nul"

definition pc_has_cmdline :: "process_cache_entry \<Rightarrow> bool" where
  "pc_has_cmdline e \<longleftrightarrow> pc_cmdline e ! 0 \<noteq> nul"

definition pc_has_cwd :: "process_cache_entry \<Rightarrow> bool" where
  "pc_has_cwd e \<longleftrightarrow> pc_cwd e ! 0 \<noteq> nul"

subsection \<open>The daemons' events\<close>

record ebpf_access_event =
  xa_event_type :: file_event_type
  xa_path :: string
  xa_pid :: u32
  xa_tgid :: u32
  xa_uid :: u32
  xa_gid :: u32
  xa_comm :: string
  xa_timestamp_ns :: u64

definition access_event_of_kernel :: "kernel_file_event \<Rightarrow> ebpf_access_event" where
  "access_event_of_kernel e =
     \<lparr>xa_event_type = (case file_event_type_from_u32 (ke_event_type e) of Some t \<Rightarrow> t | None \<Rightarrow> FetAccess),
      xa_path = ke_path_str e, xa_pid = ke_pid e, xa_tgid = ke_tgid e, xa_uid = ke_uid e, xa_gid = ke_gid e,
      xa_comm = ke_comm_str e, xa_timestamp_ns = ke_timestamp_ns e\<rparr>"

definition xa_event_type_str :: "ebpf_access_event \<Rightarrow> string" where
  "xa_event_type_str e = file_event_type_as_str (xa_event_type e)"

definition xa_has_process_info :: "ebpf_access_event \<Rightarrow> bool" where
  "xa_has_process_info e \<longleftrightarrow> xa_pid e > 0"

record ebpf_file_event =
  xf_event_type :: file_event_type
  xf_path :: string
  xf_pid :: u32
  xf_comm :: string
  xf_timestamp_ns :: u64

definition file_event_of_kernel :: "kernel_file_event \<Rightarrow> ebpf_file_event" where
  "file_event_of_kernel e =
     \<lparr>xf_event_type = (case file_event_type_from_u32 (ke_event_type e) of Some t \<Rightarrow> t | None \<Rightarrow> FetModify),
      xf_path = ke_path_str e, xf_pid = ke_pid e, xf_comm = ke_comm_str e, xf_timestamp_ns = ke_timestamp_ns e\<rparr>"

definition xf_event_type_str :: "ebpf_file_event \<Rightarrow> string" where
  "xf_event_type_str e = file_event_type_as_str (xf_event_type e)"

text \<open>The numbers of \<open>InotifyEvent\<close>: Create 5, Modify 8, Delete 6, MovedTo 11, Attrib 2, CloseWrite 3.\<close>

definition to_inotify_event :: "ebpf_file_event \<Rightarrow> i32" where
  "to_inotify_event e = (case xf_event_type e of
     FetCreate \<Rightarrow> 5 | FetModify \<Rightarrow> 8 | FetDelete \<Rightarrow> 6 | FetRename \<Rightarrow> 11 | FetAttrib \<Rightarrow> 2 | FetOpenWrite \<Rightarrow> 3
   | _ \<Rightarrow> 8)"

text \<open>\<open>rsplit('/').next()\<close>: what follows the last slash.\<close>

definition file_name_of :: "string \<Rightarrow> string" where
  "file_name_of p = rev (takeWhile (\<lambda>c. c \<noteq> CHR ''/'') (rev p))"

definition xf_to_proto ::
  "ebpf_file_event \<Rightarrow> string \<Rightarrow> string \<Rightarrow> string \<Rightarrow> string \<Rightarrow> string \<Rightarrow> string \<Rightarrow> proto_file_event" where
  "xf_to_proto e node_name cluster_name watcher_name namespace pod_name container_id =
     \<lparr>pf_timestamp = Some \<lparr>seconds = xf_timestamp_ns e div 1000000000,
                           nanos = ucast (xf_timestamp_ns e mod 1000000000)\<rparr>,
      pf_watcher_name = watcher_name, pf_namespace = namespace, pf_node_name = node_name,
      pf_pod_name = pod_name, pf_container_id = container_id, pf_event_type = to_inotify_event e,
      pf_path = xf_path e, pf_filename = file_name_of (xf_path e), pf_is_directory = False, pf_inode = 0,
      pf_tags = [], pf_cluster_name = cluster_name\<rparr>"

subsection \<open>Lemmas\<close>

lemma event_type_code_roundtrip: "file_event_type_from_u32 (file_event_type_code t) = Some t"
  by (cases t) (simp_all add: file_event_type_from_u32_def file_event_type_code_def)

lemma event_type_code_complete: "file_event_type_from_u32 n = Some t \<longleftrightarrow> n = file_event_type_code t"
proof
  assume "file_event_type_from_u32 n = Some t"
  then show "n = file_event_type_code t"
    by (auto simp: file_event_type_from_u32_def file_event_type_code_def split: if_splits)
qed (simp add: event_type_code_roundtrip)

lemma takeWhile_nul_padded:
  "nul \<notin> set s \<Longrightarrow> takeWhile (\<lambda>b. b \<noteq> nul) (s @ nul # r) = s"
  "nul \<notin> set s \<Longrightarrow> takeWhile (\<lambda>b. b \<noteq> nul) s = s"
  by (induction s) auto

end
