(* ===== verification/Ebpf_Kernel.thy ===== *)
theory Ebpf_Kernel
  imports Ebpf_Types
begin

section \<open>The eBPF programs\<close>

text \<open>
  \<open>common/src/ebpf/kernel/src\<close> (\<open>filtering.rs\<close>, \<open>helpers.rs\<close>, \<open>path.rs\<close>, \<open>task.rs\<close>, \<open>process.rs\<close>, \<open>offsets.rs\<close>) and the
  LSM programs \<open>janusd/ebpf/src/main.rs\<close> and \<open>argusd/ebpf/src/main.rs\<close>. Pointers are 64-bit words, 0 is null, and
  kernel memory is an argument: what \<open>bpf_probe_read_kernel\<close> gives for a pointer-sized value, a 32-bit value
  or a byte at an address, \<open>None\<close> when the read fails. A program sees one memory while it runs. The loops, all
  bounded for the verifier, count their remaining turns down. What the helpers return for the current
  task, and whether the ring buffer has room, is the context of a run. Of a hash map only the presence of
  a key matters: it is the list of its keys.
\<close>

subsection \<open>Memory and context\<close>

record kernel_mem =
  km_ptr :: "u64 \<Rightarrow> u64 option"
  km_u32 :: "u64 \<Rightarrow> u32 option"
  km_u8 :: "u64 \<Rightarrow> char option"

record bpf_context =
  bc_pid_tgid :: u64
  bc_uid_gid :: u64
  bc_ktime :: u64
  bc_comm :: "string option"
  bc_task :: u64
  bc_mem :: kernel_mem
  bc_scratch :: bool
  bc_ring_room :: "kernel_file_event list \<Rightarrow> bool"

record bpf_maps =
  bm_events :: "kernel_file_event list"
  bm_prefixes :: "string list"
  bm_ignored :: "string list"
  bm_filter_enabled :: "u32 option"
  bm_deny :: "string list"
  bm_process_cache :: "(u32 \<times> process_cache_entry) list"

subsection \<open>Paths\<close>

definition MAX_DEPTH :: nat where "MAX_DEPTH = 20"
definition MAX_NAME :: nat where "MAX_NAME = 32"

fun scan_name :: "kernel_mem \<Rightarrow> u64 \<Rightarrow> nat \<Rightarrow> nat \<Rightarrow> nat" where
  "scan_name m p ni 0 = ni"
| "scan_name m p ni (Suc k) =
     (case km_u8 m (p + of_nat ni) of
        None \<Rightarrow> ni
      | Some b \<Rightarrow> if b = nul then ni else scan_name m p (Suc ni) k)"

text \<open>
  An array is a list of its size. The programs test an index before they use it; a write out of range, which the
  verifier would not admit, would leave the list as it is, so sizes alone say nothing about these tests.
\<close>

fun copy_name :: "kernel_mem \<Rightarrow> u64 \<Rightarrow> nat \<Rightarrow> nat \<Rightarrow> nat \<Rightarrow> string \<Rightarrow> string" where
  "copy_name m p pos ci 0 out = out"
| "copy_name m p pos ci (Suc k) out =
     (if pos + ci \<ge> MAX_PATH_LEN then out
      else copy_name m p pos (Suc ci) k
             (out[pos + ci := (case km_u8 m (p + of_nat ci) of Some b \<Rightarrow> b | None \<Rightarrow> nul)]))"

text \<open>The walk towards the root; the path is written backwards from the end of the buffer.\<close>

fun walk_dentries :: "kernel_mem \<Rightarrow> nat \<Rightarrow> u64 \<Rightarrow> nat \<times> string \<Rightarrow> nat \<times> string" where
  "walk_dentries m 0 cur st = st"
| "walk_dentries m (Suc d) cur (pos, out) =
     (if cur = 0 then (pos, out)
      else (case (km_ptr m (cur + 24), km_ptr m (cur + 40)) of
              (Some parent, Some name_ptr) \<Rightarrow>
                if parent = cur \<or> parent = 0 then (pos, out)
                else if name_ptr = 0 then (pos, out)
                else (let nlen = scan_name m name_ptr 0 MAX_NAME in
                      if nlen = 0 then (pos, out)
                      else if pos < nlen + 1 then (pos, out)
                      else (let pos1 = pos - nlen;
                                out1 = copy_name m name_ptr pos1 0 (min nlen MAX_NAME) out;
                                pos2 = pos1 - 1
                            in walk_dentries m d parent (pos2, out1[pos2 := CHR ''/''])))
            | _ \<Rightarrow> (pos, out)))"

fun shift_down :: "nat \<Rightarrow> nat \<Rightarrow> nat \<Rightarrow> string \<Rightarrow> string" where
  "shift_down pos mi 0 out = out"
| "shift_down pos mi (Suc k) out =
     (if pos + mi \<ge> MAX_PATH_LEN then out else shift_down pos (Suc mi) k (out[mi := out ! (pos + mi)]))"

definition extract_path_from_dentry :: "kernel_mem \<Rightarrow> u64 \<Rightarrow> string \<Rightarrow> nat \<times> string" where
  "extract_path_from_dentry m dentry out =
     (if dentry = 0 then (0, out)
      else (case walk_dentries m MAX_DEPTH dentry (MAX_PATH_LEN, out) of
              (pos, out1) \<Rightarrow>
                if pos = MAX_PATH_LEN then (1, out1[0 := CHR ''/'', 1 := nul])
                else (let len = MAX_PATH_LEN - pos;
                          out2 = shift_down pos 0 (min len MAX_PATH_LEN) out1
                      in (len, if len < MAX_PATH_LEN then out2[len := nul] else out2))))"

definition extract_path_from_file :: "kernel_mem \<Rightarrow> u64 \<Rightarrow> string \<Rightarrow> nat \<times> string" where
  "extract_path_from_file m file out =
     (if file = 0 then (0, out)
      else (case km_ptr m (file + 24) of
              None \<Rightarrow> (0, out)
            | Some dentry \<Rightarrow> extract_path_from_dentry m dentry out))"

definition extract_path_with_name :: "kernel_mem \<Rightarrow> u64 \<Rightarrow> u64 \<Rightarrow> string \<Rightarrow> nat \<times> string" where
  "extract_path_with_name m dir dentry out = extract_path_from_dentry m dentry out"

subsection \<open>Filtering and submission\<close>

text \<open>\<open>[0u8; 128]\<close> with the first \<open>n\<close> bytes of the path copied in.\<close>

definition prefix_key :: "nat \<Rightarrow> string \<Rightarrow> string" where
  "prefix_key n path = take (min n 128) path @ replicate (128 - min n 128) nul"

definition should_emit_event :: "string \<Rightarrow> bpf_maps \<Rightarrow> bool" where
  "should_emit_event path maps =
     (if (case bm_filter_enabled maps of Some n \<Rightarrow> n | None \<Rightarrow> 0) = 0 then True
      else if path \<in> set (bm_ignored maps) then False
      else (let path_len = length (takeWhile (\<lambda>b. b \<noteq> nul) path) in
            list_ex (\<lambda>prefix_len. prefix_len \<le> path_len \<and> prefix_key prefix_len path \<in> set (bm_prefixes maps))
              [128, 64, 32, 16, 8]))"

definition populate_process_info :: "bpf_context \<Rightarrow> kernel_file_event \<Rightarrow> kernel_file_event" where
  "populate_process_info ctx e =
     (let e1 = e\<lparr>ke_tgid := ucast (drop_bit 32 (bc_pid_tgid ctx)), ke_pid := ucast (bc_pid_tgid ctx),
                 ke_uid := ucast (bc_uid_gid ctx), ke_gid := ucast (drop_bit 32 (bc_uid_gid ctx)),
                 ke_timestamp_ns := bc_ktime ctx\<rparr>
      in (case bc_comm ctx of
            Some comm \<Rightarrow>
              (let len = min (length comm) MAX_COMM_LEN
               in e1\<lparr>ke_comm := take len comm @ drop len (ke_comm e1)\<rparr>)
          | None \<Rightarrow> e1))"

definition submit_event :: "bpf_context \<Rightarrow> kernel_file_event \<Rightarrow> bpf_maps \<Rightarrow> bpf_maps" where
  "submit_event ctx e maps =
     (if bc_ring_room ctx (bm_events maps) then maps\<lparr>bm_events := bm_events maps @ [e]\<rparr> else maps)"

definition submit_event_filtered :: "bpf_context \<Rightarrow> kernel_file_event \<Rightarrow> bpf_maps \<Rightarrow> bpf_maps" where
  "submit_event_filtered ctx e maps =
     (if ke_path e ! 0 \<noteq> nul \<and> \<not> should_emit_event (ke_path e) maps then maps else submit_event ctx e maps)"

subsection \<open>The task\<close>

definition TASK_REAL_PARENT_OFFSET :: u64 where "TASK_REAL_PARENT_OFFSET = 2336"
definition TASK_TGID_OFFSET :: u64 where "TASK_TGID_OFFSET = 2284"
definition TASK_MM_OFFSET :: u64 where "TASK_MM_OFFSET = 2104"
definition TASK_FS_OFFSET :: u64 where "TASK_FS_OFFSET = 2656"
definition MM_ARG_START_OFFSET :: u64 where "MM_ARG_START_OFFSET = 360"
definition MM_ARG_END_OFFSET :: u64 where "MM_ARG_END_OFFSET = 368"
definition FS_PWD_OFFSET :: u64 where "FS_PWD_OFFSET = 32"
definition PATH_DENTRY_OFFSET :: u64 where "PATH_DENTRY_OFFSET = 8"
definition MAX_CMDLINE_READ :: nat where "MAX_CMDLINE_READ = 128"

definition extract_ppid :: "bpf_context \<Rightarrow> u32" where
  "extract_ppid ctx =
     (if bc_task ctx = 0 then 0
      else (case km_ptr (bc_mem ctx) (bc_task ctx + TASK_REAL_PARENT_OFFSET) of
              None \<Rightarrow> 0
            | Some parent \<Rightarrow>
                if parent = 0 then 0
                else (case km_u32 (bc_mem ctx) (parent + TASK_TGID_OFFSET) of Some tgid \<Rightarrow> tgid | None \<Rightarrow> 0)))"

text \<open>The copy of the first \<open>copy_len\<close> bytes and the final NUL.\<close>

definition copy_cwd :: "nat \<Rightarrow> string \<Rightarrow> string \<Rightarrow> string" where
  "copy_cwd copy_len path_buf out =
     (let out1 = take copy_len path_buf @ drop copy_len out
      in if copy_len < MAX_CWD_LEN then out1[copy_len := nul] else out1)"

definition extract_cwd :: "bpf_context \<Rightarrow> string \<Rightarrow> nat \<times> string" where
  "extract_cwd ctx out =
     (if bc_task ctx = 0 then (0, out)
      else (case km_ptr (bc_mem ctx) (bc_task ctx + TASK_FS_OFFSET) of
              None \<Rightarrow> (0, out)
            | Some fs \<Rightarrow>
                if fs = 0 then (0, out)
                else (case km_ptr (bc_mem ctx) (fs + (FS_PWD_OFFSET + PATH_DENTRY_OFFSET)) of
                        None \<Rightarrow> (0, out)
                      | Some pwd_dentry \<Rightarrow>
                          if pwd_dentry = 0 then (0, out)
                          else (let (len, path_buf) =
                                      extract_path_from_dentry (bc_mem ctx) pwd_dentry (replicate 256 nul);
                                    copy_len = min len (MAX_CWD_LEN - 1)
                                in (copy_len, copy_cwd copy_len path_buf out)))))"

text \<open>The copy loop of the command line: \<open>k\<close> turns are left, \<open>i\<close> is the next byte, \<open>pos\<close> the next place.\<close>

fun copy_cmdline :: "kernel_mem \<Rightarrow> u64 \<Rightarrow> nat \<Rightarrow> nat \<Rightarrow> nat \<Rightarrow> nat \<Rightarrow> string \<Rightarrow> nat \<times> string" where
  "copy_cmdline m arg_start read_len 0 i pos out = (pos, out)"
| "copy_cmdline m arg_start read_len (Suc k) i pos out =
     (if i \<ge> read_len \<or> pos \<ge> MAX_CMDLINE_LEN - 1 then (pos, out)
      else (case km_u8 m (arg_start + of_nat i) of
              None \<Rightarrow> (pos, out)
            | Some b \<Rightarrow>
                if b = nul then
                  (if i + 1 < read_len
                   then copy_cmdline m arg_start read_len k (Suc i) (Suc pos) (out[pos := CHR '' ''])
                   else copy_cmdline m arg_start read_len k (Suc i) pos out)
                else copy_cmdline m arg_start read_len k (Suc i) (Suc pos) (out[pos := b])))"

definition extract_cmdline :: "bpf_context \<Rightarrow> string \<Rightarrow> nat \<times> string" where
  "extract_cmdline ctx out =
     (if bc_task ctx = 0 then (0, out)
      else (case km_ptr (bc_mem ctx) (bc_task ctx + TASK_MM_OFFSET) of
              None \<Rightarrow> (0, out)
            | Some mm \<Rightarrow>
                if mm = 0 then (0, out)
                else (case (km_ptr (bc_mem ctx) (mm + MM_ARG_START_OFFSET), km_ptr (bc_mem ctx) (mm + MM_ARG_END_OFFSET)) of
                        (Some arg_start, Some arg_end) \<Rightarrow>
                          if arg_start = 0 \<or> arg_end = 0 \<or> arg_end \<le> arg_start then (0, out)
                          else (let read_len = min (unat (arg_end - arg_start)) MAX_CMDLINE_READ;
                                    (pos, out1) = copy_cmdline (bc_mem ctx) arg_start read_len read_len 0 0 out
                                in (pos, if pos < MAX_CMDLINE_LEN then out1[pos := nul] else out1))
                      | _ \<Rightarrow> (0, out))))"

fun copy_exe :: "kernel_mem \<Rightarrow> u64 \<Rightarrow> nat \<Rightarrow> nat \<Rightarrow> string \<Rightarrow> nat \<times> string" where
  "copy_exe m p 0 i out = (i, out)"
| "copy_exe m p (Suc k) i out =
     (case km_u8 m (p + of_nat i) of
        None \<Rightarrow> (i, out)
      | Some b \<Rightarrow> if b = nul then (i, out) else copy_exe m p k (Suc i) (out[i := b]))"

definition extract_exe_from_bprm :: "kernel_mem \<Rightarrow> u64 \<Rightarrow> string \<Rightarrow> nat \<times> string" where
  "extract_exe_from_bprm m filename_ptr out =
     (if filename_ptr = 0 then (0, out)
      else (let (len, out1) = copy_exe m filename_ptr (MAX_EXE_LEN - 1) 0 out
            in (len, if len < MAX_EXE_LEN then out1[len := nul] else out1)))"

subsection \<open>The process cache\<close>

text \<open>
  \<open>cache_insert\<close> stands for the insertion of the LRU map: the new map (it may have evicted entries), or \<open>None\<close> when the
  kernel refuses it, which the handler ignores. \<open>filename\<close> is the field at offset 16 of the tracepoint's record, \<open>None\<close> when it
  cannot be read. \<open>exec_entry\<close> is the entry the handler fills.
\<close>

type_synonym cache = "(u32 \<times> process_cache_entry) list"

definition exec_entry :: "u64 option \<Rightarrow> bpf_context \<Rightarrow> process_cache_entry" where
  "exec_entry filename ctx =
     (let e0 = process_cache_entry_default;
          e1 = e0\<lparr>pc_tgid := ucast (drop_bit 32 (bc_pid_tgid ctx)), pc_ppid := extract_ppid ctx,
                  pc_uid := ucast (bc_uid_gid ctx), pc_gid := ucast (drop_bit 32 (bc_uid_gid ctx)),
                  pc_exec_timestamp_ns := bc_ktime ctx\<rparr>;
          e2 = (case bc_comm ctx of
                  Some comm \<Rightarrow> (let len = min (length comm) MAX_COMM_LEN
                                in e1\<lparr>pc_comm := take len comm @ drop len (pc_comm e1)\<rparr>)
                | None \<Rightarrow> e1);
          p = (case filename of Some a \<Rightarrow> a | None \<Rightarrow> 0);
          e3 = (if p \<noteq> 0 then e2\<lparr>pc_exe := snd (extract_exe_from_bprm (bc_mem ctx) p (pc_exe e2))\<rparr> else e2)
      in e3\<lparr>pc_cmdline := snd (extract_cmdline ctx (pc_cmdline e3)),
            pc_cwd := snd (extract_cwd ctx (pc_cwd e3))\<rparr>)"

definition handle_exec ::
  "(u32 \<Rightarrow> process_cache_entry \<Rightarrow> cache \<Rightarrow> cache option) \<Rightarrow> u64 option \<Rightarrow> bpf_context \<Rightarrow> bpf_maps \<Rightarrow> bpf_maps" where
  "handle_exec cache_insert filename ctx maps =
     (if \<not> bc_scratch ctx then maps
      else (let e = exec_entry filename ctx
            in (case cache_insert (pc_tgid e) e (bm_process_cache maps) of
                  Some c \<Rightarrow> maps\<lparr>bm_process_cache := c\<rparr>
                | None \<Rightarrow> maps)))"

definition handle_exit :: "bpf_context \<Rightarrow> bpf_maps \<Rightarrow> bpf_maps" where
  "handle_exit ctx maps =
     (let tgid = ucast (drop_bit 32 (bc_pid_tgid ctx)) :: u32; pid = ucast (bc_pid_tgid ctx) :: u32
      in if pid = tgid then maps\<lparr>bm_process_cache := AList.delete tgid (bm_process_cache maps)\<rparr> else maps)"

definition lookup_process_cache :: "bpf_context \<Rightarrow> bpf_maps \<Rightarrow> process_cache_entry option" where
  "lookup_process_cache ctx maps = map_of (bm_process_cache maps) (ucast (drop_bit 32 (bc_pid_tgid ctx)))"

subsection \<open>The hooks of janusd\<close>

definition EACCES :: i32 where "EACCES = 13"
definition MAY_WRITE :: i32 where "MAY_WRITE = 2"

text \<open>A fresh event of the given type with the current task's identity.\<close>

definition new_event :: "file_event_type \<Rightarrow> bpf_context \<Rightarrow> kernel_file_event" where
  "new_event t ctx = populate_process_info ctx (kernel_file_event_default\<lparr>ke_event_type := file_event_type_code t\<rparr>)"

definition janus_file_open :: "bpf_context \<Rightarrow> u64 \<Rightarrow> bpf_maps \<Rightarrow> i32 \<times> bpf_maps" where
  "janus_file_open ctx file maps =
     (if \<not> bc_scratch ctx then (0, maps)
      else (let e = new_event FetOpenRead ctx;
                e1 = e\<lparr>ke_path := snd (extract_path_from_file (bc_mem ctx) file (ke_path e))\<rparr>
            in if ke_path e1 ! 0 \<noteq> nul \<and> ke_path e1 \<in> set (bm_deny maps)
               then (- EACCES, submit_event_filtered ctx
                       (e1\<lparr>ke_event_type := file_event_type_code FetAccess\<rparr>) maps)
               else (0, submit_event_filtered ctx e1 maps)))"

definition janus_file_permission :: "bpf_context \<Rightarrow> u64 \<Rightarrow> i32 \<Rightarrow> bpf_maps \<Rightarrow> i32 \<times> bpf_maps" where
  "janus_file_permission ctx file access maps =
     (if \<not> bc_scratch ctx then (0, maps)
      else (let e = new_event (if and access MAY_WRITE \<noteq> 0 then FetOpenWrite else FetAccess) ctx;
                e1 = e\<lparr>ke_path := snd (extract_path_from_file (bc_mem ctx) file (ke_path e))\<rparr>
            in (if ke_path e1 ! 0 \<noteq> nul \<and> ke_path e1 \<in> set (bm_deny maps) then - EACCES else 0,
                submit_event_filtered ctx e1 maps)))"

subsection \<open>The hooks of argusd\<close>

definition argus_inode_create :: "bpf_context \<Rightarrow> u64 \<Rightarrow> bpf_maps \<Rightarrow> bpf_maps" where
  "argus_inode_create ctx dentry maps =
     (if \<not> bc_scratch ctx then maps
      else (let e = new_event FetCreate ctx
            in submit_event_filtered ctx
                 (e\<lparr>ke_path := snd (extract_path_from_dentry (bc_mem ctx) dentry (ke_path e))\<rparr>) maps))"

definition argus_inode_unlink :: "bpf_context \<Rightarrow> u64 \<Rightarrow> bpf_maps \<Rightarrow> bpf_maps" where
  "argus_inode_unlink ctx dentry maps =
     (if \<not> bc_scratch ctx then maps
      else (let e = new_event FetDelete ctx
            in submit_event_filtered ctx
                 (e\<lparr>ke_path := snd (extract_path_from_dentry (bc_mem ctx) dentry (ke_path e))\<rparr>) maps))"

text \<open>The second path is extracted into the buffer that holds the first.\<close>

definition argus_inode_rename :: "bpf_context \<Rightarrow> u64 \<Rightarrow> u64 \<Rightarrow> bpf_maps \<Rightarrow> bpf_maps" where
  "argus_inode_rename ctx old_dentry new_dentry maps =
     (if \<not> bc_scratch ctx then maps
      else (let e = new_event FetRename ctx;
                e1 = e\<lparr>ke_path := snd (extract_path_from_dentry (bc_mem ctx) old_dentry (ke_path e))\<rparr>;
                maps1 = submit_event_filtered ctx e1 maps;
                e2 = e1\<lparr>ke_event_type := file_event_type_code FetCreate,
                        ke_path := snd (extract_path_from_dentry (bc_mem ctx) new_dentry (ke_path e1))\<rparr>
            in submit_event_filtered ctx e2 maps1))"

definition argus_file_open :: "bpf_context \<Rightarrow> u64 \<Rightarrow> bpf_maps \<Rightarrow> bpf_maps" where
  "argus_file_open ctx file maps =
     (if \<not> bc_scratch ctx then maps
      else (let e = new_event FetOpenWrite ctx
            in submit_event_filtered ctx
                 (e\<lparr>ke_path := snd (extract_path_from_file (bc_mem ctx) file (ke_path e))\<rparr>) maps))"

end
