(* ===== verification/Ebpf_Loader.thy ===== *)
theory Ebpf_Loader
  imports Ebpf_Kernel Audit_Log
begin

section \<open>The eBPF loader\<close>

text \<open>
  \<open>common/src/ebpf/loader.rs\<close> and the support test of \<open>common/src/ebpf/mod.rs\<close>. The library \<open>aya\<close> is a parameter:
  \<open>aya_api\<close> holds what its calls return. A loaded object has programs and maps by name; a map is its contents
  together with the type it was declared with, and the kernel's hooks see the same contents through
  \<open>maps_view\<close>. The values of the path maps are always 1: such a map is the list of its keys. An item of the
  ring buffer is a list of bytes with the layout of \<open>#[repr(C)] FileEvent\<close>.
\<close>

subsection \<open>Errors and the library\<close>

datatype ebpf_error =
    EbLoad string
  | EbAttach string
  | EbMap string
  | NotSupported
  | MissingCapabilities
  | BytecodeRead string string
  | ChannelClosed

definition show_ebpf_error :: "ebpf_error \<Rightarrow> string" where
  "show_ebpf_error e = (case e of
     EbLoad m \<Rightarrow> ''Failed to load eBPF program: '' @ m
   | EbAttach m \<Rightarrow> ''Failed to attach LSM program: '' @ m
   | EbMap m \<Rightarrow> ''Failed to access map: '' @ m
   | NotSupported \<Rightarrow> ''eBPF not supported on this kernel (requires 5.7+ with BTF)''
   | MissingCapabilities \<Rightarrow> ''Missing required capabilities (need CAP_BPF + CAP_PERFMON or CAP_SYS_ADMIN)''
   | BytecodeRead p s \<Rightarrow> ''Failed to read eBPF bytecode from '' @ p @ '': '' @ s
   | ChannelClosed \<Rightarrow> ''Event channel closed'')"

text \<open>A path map with the size of its keys, the flag map, the ring buffer, the process cache, any other.\<close>

datatype bpf_map =
    PathMap nat "string list"
  | FlagMap "u32 option"
  | RingMap
  | CacheMap "(u32 \<times> process_cache_entry) list"
  | OtherMap

datatype program_kind = LsmProgram | TracePointProgram | OtherProgram

record ebpf_object =
  eo_programs :: "(string \<times> program_kind) list"
  eo_maps :: "(string \<times> bpf_map) list"
  eo_attached :: "string list"

record aya_api =
  ay_show_io :: "io_error \<Rightarrow> string"
  ay_btf :: "string + unit"
  ay_load :: "string \<Rightarrow> string + ebpf_object"
  ay_load_program :: "string \<Rightarrow> string + unit"
  ay_attach_program :: "string \<Rightarrow> string + unit"
  ay_type_error :: "string \<Rightarrow> string"
  ay_insert :: "string \<Rightarrow> string \<Rightarrow> string list \<Rightarrow> string + string list"
  ay_remove :: "string \<Rightarrow> string \<Rightarrow> string list \<Rightarrow> string + string list"
  ay_set_flag :: "u32 \<Rightarrow> string + unit"
  ay_get :: "u32 \<Rightarrow> (u32 \<times> process_cache_entry) list \<Rightarrow> string option + process_cache_entry"

text \<open>The maps as the programs see them; \<open>prefix_map\<close> is the name of the prefix map.\<close>

definition path_keys :: "string \<Rightarrow> ebpf_object \<Rightarrow> string list" where
  "path_keys name obj = (case map_of (eo_maps obj) name of Some (PathMap _ ks) \<Rightarrow> ks | _ \<Rightarrow> [])"

definition maps_view :: "string \<Rightarrow> kernel_file_event list \<Rightarrow> ebpf_object \<Rightarrow> bpf_maps" where
  "maps_view prefix_map events obj =
     \<lparr>bm_events = events, bm_prefixes = path_keys prefix_map obj, bm_ignored = path_keys ''IGNORED_PATHS'' obj,
      bm_filter_enabled = (case map_of (eo_maps obj) ''FILTER_ENABLED'' of Some (FlagMap v) \<Rightarrow> v | _ \<Rightarrow> None),
      bm_deny = path_keys ''DENY_PATHS'' obj,
      bm_process_cache = (case map_of (eo_maps obj) ''PROCESS_CACHE'' of Some (CacheMap c) \<Rightarrow> c | _ \<Rightarrow> [])\<rparr>"

subsection \<open>Kernel support\<close>

definition check_kernel_version :: "file_system \<Rightarrow> u32 \<Rightarrow> u32 \<Rightarrow> bool" where
  "check_kernel_version fs required_major required_minor =
     (case read_to_string fs ''/proc/sys/kernel/osrelease'' of
        Inl _ \<Rightarrow> False
      | Inr release \<Rightarrow>
          (let parts = split_on (CHR ''.'') (str_trim release) in
           if length parts \<ge> 2 then
             (case (parse_u32 (parts ! 0), parse_u32 (parts ! 1)) of
                (Some major, Some minor) \<Rightarrow>
                  major > required_major \<or> (major = required_major \<and> minor \<ge> required_minor)
              | _ \<Rightarrow> False)
           else False))"

definition is_ebpf_supported :: "file_system \<Rightarrow> bool" where
  "is_ebpf_supported fs \<longleftrightarrow> check_kernel_version fs 5 7 \<and> fs_exists fs ''/sys/kernel/btf/vmlinux''"

subsection \<open>Loading and attaching\<close>

definition attach_lsm_program :: "aya_api \<Rightarrow> string \<Rightarrow> ebpf_object \<Rightarrow> ebpf_error + ebpf_object" where
  "attach_lsm_program ay name obj =
     (case map_of (eo_programs obj) name of
        None \<Rightarrow> Inl (EbAttach (''Program '' @ [CHR 0x27] @ name @ [CHR 0x27] @ '' not found in bytecode''))
      | Some kind \<Rightarrow>
          if kind \<noteq> LsmProgram
          then Inl (EbAttach ([CHR 0x27] @ name @ [CHR 0x27] @ '' is not an LSM program: '' @ ay_type_error ay name))
          else (case ay_load_program ay name of
                  Inl e \<Rightarrow> Inl (EbAttach (''Failed to load '' @ [CHR 0x27] @ name @ [CHR 0x27] @ '': '' @ e))
                | Inr _ \<Rightarrow>
                    (case ay_attach_program ay name of
                       Inl e \<Rightarrow> Inl (EbAttach (''Failed to attach '' @ [CHR 0x27] @ name @ [CHR 0x27] @ '': '' @ e))
                     | Inr _ \<Rightarrow> Inr (obj\<lparr>eo_attached := eo_attached obj @ [name]\<rparr>))))"

fun attach_programs :: "aya_api \<Rightarrow> string list \<Rightarrow> ebpf_object \<Rightarrow> ebpf_error + ebpf_object" where
  "attach_programs ay [] obj = Inr obj"
| "attach_programs ay (name # names) obj =
     (case attach_lsm_program ay name obj of
        Inl e \<Rightarrow> Inl e
      | Inr obj1 \<Rightarrow> attach_programs ay names obj1)"

definition load_with_programs ::
  "aya_api \<Rightarrow> file_system \<Rightarrow> string \<Rightarrow> string list \<Rightarrow> ebpf_error + ebpf_object" where
  "load_with_programs ay fs bytecode programs =
     (if \<not> is_ebpf_supported fs then Inl NotSupported
      else (case ay_btf ay of
              Inl e \<Rightarrow> Inl (EbLoad e)
            | Inr _ \<Rightarrow>
                (case ay_load ay bytecode of
                   Inl e \<Rightarrow> Inl (EbLoad e)
                 | Inr obj \<Rightarrow> attach_programs ay programs obj)))"

definition load_from_path ::
  "aya_api \<Rightarrow> file_system \<Rightarrow> string \<Rightarrow> string list \<Rightarrow> ebpf_error + ebpf_object" where
  "load_from_path ay fs path programs =
     (case fs_read fs path of
        Inl e \<Rightarrow> Inl (BytecodeRead path (ay_show_io ay e))
      | Inr bytecode \<Rightarrow> load_with_programs ay fs bytecode programs)"

definition attach_tracepoint_if_exists :: "aya_api \<Rightarrow> string \<Rightarrow> ebpf_object \<Rightarrow> (ebpf_error + unit) \<times> ebpf_object" where
  "attach_tracepoint_if_exists ay name obj =
     (case map_of (eo_programs obj) name of
        None \<Rightarrow> (Inr (), obj)
      | Some kind \<Rightarrow>
          if kind \<noteq> TracePointProgram
          then (Inl (EbAttach (name @ '' is not a tracepoint: '' @ ay_type_error ay name)), obj)
          else (case ay_load_program ay name of
                  Inl e \<Rightarrow> (Inl (EbAttach (''Failed to load '' @ name @ '': '' @ e)), obj)
                | Inr _ \<Rightarrow>
                    (case ay_attach_program ay name of
                       Inl e \<Rightarrow> (Inl (EbAttach (''Failed to attach '' @ name @ '': '' @ e)), obj)
                     | Inr _ \<Rightarrow> (Inr (), obj\<lparr>eo_attached := eo_attached obj @ [name]\<rparr>))))"

definition attach_process_tracepoints :: "aya_api \<Rightarrow> ebpf_object \<Rightarrow> (ebpf_error + unit) \<times> ebpf_object" where
  "attach_process_tracepoints ay obj =
     (case attach_tracepoint_if_exists ay ''sched_process_exec'' obj of
        (Inl e, obj1) \<Rightarrow> (Inl e, obj1)
      | (Inr _, obj1) \<Rightarrow> attach_tracepoint_if_exists ay ''sched_process_exit'' obj1)"

subsection \<open>The event loop\<close>

definition to_ne_bytes_u64 :: "bool \<Rightarrow> u64 \<Rightarrow> u8 list" where
  "to_ne_bytes_u64 little w =
     (let bs = map (\<lambda>i. ucast (drop_bit (8 * i) w)) [0..<8] in if little then bs else rev bs)"

definition from_ne_bytes_u64 :: "bool \<Rightarrow> u8 list \<Rightarrow> u64" where
  "from_ne_bytes_u64 little bs =
     foldr (\<lambda>b acc. ucast b OR push_bit 8 acc) (if little then bs else rev bs) 0"

text \<open>The bytes of the structure, as the kernel writes them, and its size.\<close>

definition file_event_bytes :: "bool \<Rightarrow> kernel_file_event \<Rightarrow> u8 list" where
  "file_event_bytes little e =
     to_ne_bytes_u32 little (ke_event_type e) @ to_ne_bytes_u32 little (ke_pid e) @
     to_ne_bytes_u32 little (ke_tgid e) @ to_ne_bytes_u32 little (ke_uid e) @
     to_ne_bytes_u32 little (ke_gid e) @ to_ne_bytes_u32 little 0 @
     to_ne_bytes_u64 little (ke_timestamp_ns e) @
     string_bytes (ke_path e) @ string_bytes (ke_comm e) @ string_bytes (ke_container_id e)"

definition FILE_EVENT_SIZE :: nat where
  "FILE_EVENT_SIZE = 32 + MAX_PATH_LEN + MAX_COMM_LEN + MAX_CONTAINER_ID_LEN"

definition bytes_string :: "u8 list \<Rightarrow> string" where
  "bytes_string bs = map (\<lambda>b. char_of (unat b)) bs"

definition read_file_event :: "bool \<Rightarrow> u8 list \<Rightarrow> kernel_file_event" where
  "read_file_event little d =
     \<lparr>ke_event_type = from_ne_bytes_u32 little (take 4 d),
      ke_pid = from_ne_bytes_u32 little (take 4 (drop 4 d)),
      ke_tgid = from_ne_bytes_u32 little (take 4 (drop 8 d)),
      ke_uid = from_ne_bytes_u32 little (take 4 (drop 12 d)),
      ke_gid = from_ne_bytes_u32 little (take 4 (drop 16 d)),
      ke_timestamp_ns = from_ne_bytes_u64 little (take 8 (drop 24 d)),
      ke_path = bytes_string (take MAX_PATH_LEN (drop 32 d)),
      ke_comm = bytes_string (take MAX_COMM_LEN (drop (32 + MAX_PATH_LEN) d)),
      ke_container_id = bytes_string (take MAX_CONTAINER_ID_LEN (drop (32 + MAX_PATH_LEN + MAX_COMM_LEN) d))\<rparr>"

text \<open>\<open>take_map("EVENTS")\<close> removes the map from the object, so the loop can be started once.\<close>

definition start_event_loop :: "aya_api \<Rightarrow> ebpf_object \<Rightarrow> (ebpf_error + unit) \<times> ebpf_object" where
  "start_event_loop ay obj =
     (case map_of (eo_maps obj) ''EVENTS'' of
        None \<Rightarrow> (Inl (EbMap ''EVENTS map not found in eBPF program''), obj)
      | Some m \<Rightarrow>
          (let obj1 = obj\<lparr>eo_maps := AList.delete ''EVENTS'' (eo_maps obj)\<rparr> in
           if m = RingMap then (Inr (), obj1)
           else (Inl (EbMap (''EVENTS is not a ring buffer: '' @ ay_type_error ay ''EVENTS'')), obj1)))"

text \<open>
  The polling task on the items it reads, in order, whichever turn it reads them in; \<open>open n\<close> tells whether
  the channel still has a receiver when the \<open>n\<close>-th event is sent. The result is what was sent and whether the
  task still runs.
\<close>

fun event_loop :: "bool \<Rightarrow> (nat \<Rightarrow> bool) \<Rightarrow> nat \<Rightarrow> u8 list list \<Rightarrow> kernel_file_event list \<times> bool" where
  "event_loop little is_open n [] = ([], True)"
| "event_loop little is_open n (data # items) =
     (if length data \<ge> FILE_EVENT_SIZE then
        (if is_open n
         then (case event_loop little is_open (Suc n) items of (es, r) \<Rightarrow> (read_file_event little data # es, r))
         else ([], False))
      else event_loop little is_open n items)"

subsection \<open>The filter maps\<close>

definition path_to_key :: "nat \<Rightarrow> string \<Rightarrow> string" where
  "path_to_key n path = take n path @ replicate (n - length path) nul"

definition get_hash_map_mut :: "aya_api \<Rightarrow> nat \<Rightarrow> string \<Rightarrow> ebpf_object \<Rightarrow> ebpf_error + string list" where
  "get_hash_map_mut ay n name obj =
     (case map_of (eo_maps obj) name of
        None \<Rightarrow> Inl (EbMap (name @ '' map not found''))
      | Some (PathMap k keys) \<Rightarrow>
          if k = n then Inr keys else Inl (EbMap (name @ '' is not a HashMap: '' @ ay_type_error ay name))
      | Some _ \<Rightarrow> Inl (EbMap (name @ '' is not a HashMap: '' @ ay_type_error ay name)))"

definition set_filter_enabled :: "aya_api \<Rightarrow> bool \<Rightarrow> ebpf_object \<Rightarrow> (ebpf_error + unit) \<times> ebpf_object" where
  "set_filter_enabled ay enabled obj =
     (case map_of (eo_maps obj) ''FILTER_ENABLED'' of
        None \<Rightarrow> (Inl (EbMap ''FILTER_ENABLED map not found''), obj)
      | Some (FlagMap _) \<Rightarrow>
          (let v = (if enabled then 1 else 0) in
           case ay_set_flag ay v of
             Inl e \<Rightarrow> (Inl (EbMap (''Failed to update FILTER_ENABLED: '' @ e)), obj)
           | Inr _ \<Rightarrow> (Inr (), obj\<lparr>eo_maps := AList.update ''FILTER_ENABLED'' (FlagMap (Some v)) (eo_maps obj)\<rparr>))
      | Some _ \<Rightarrow> (Inl (EbMap (''FILTER_ENABLED is not a HashMap: '' @ ay_type_error ay ''FILTER_ENABLED'')), obj))"

text \<open>The insertion or removal of one key: the map, the library's call, the text of its failure.\<close>

definition update_path_map ::
  "(string \<Rightarrow> string \<Rightarrow> string list \<Rightarrow> string + string list) \<Rightarrow> aya_api \<Rightarrow> nat \<Rightarrow> string \<Rightarrow> string \<Rightarrow> string
   \<Rightarrow> ebpf_object \<Rightarrow> (ebpf_error + unit) \<times> ebpf_object" where
  "update_path_map call ay n name what path obj =
     (case get_hash_map_mut ay n name obj of
        Inl e \<Rightarrow> (Inl e, obj)
      | Inr keys \<Rightarrow>
          (case call name (path_to_key n path) keys of
             Inl e \<Rightarrow> (Inl (EbMap (what @ [CHR 0x27] @ path @ [CHR 0x27] @ '': '' @ e)), obj)
           | Inr keys1 \<Rightarrow> (Inr (), obj\<lparr>eo_maps := AList.update name (PathMap n keys1) (eo_maps obj)\<rparr>)))"

definition add_watched_prefix :: "aya_api \<Rightarrow> string \<Rightarrow> string \<Rightarrow> ebpf_object \<Rightarrow> (ebpf_error + unit) \<times> ebpf_object" where
  "add_watched_prefix ay pre map_name obj =
     update_path_map (ay_insert ay) ay 128 map_name ''Failed to add prefix '' pre obj"

definition remove_watched_prefix :: "aya_api \<Rightarrow> string \<Rightarrow> string \<Rightarrow> ebpf_object \<Rightarrow> (ebpf_error + unit) \<times> ebpf_object" where
  "remove_watched_prefix ay pre map_name obj =
     update_path_map (ay_remove ay) ay 128 map_name ''Failed to remove prefix '' pre obj"

definition add_ignored_path :: "aya_api \<Rightarrow> string \<Rightarrow> ebpf_object \<Rightarrow> (ebpf_error + unit) \<times> ebpf_object" where
  "add_ignored_path ay path obj =
     update_path_map (ay_insert ay) ay 256 ''IGNORED_PATHS'' ''Failed to add ignored path '' path obj"

definition remove_ignored_path :: "aya_api \<Rightarrow> string \<Rightarrow> ebpf_object \<Rightarrow> (ebpf_error + unit) \<times> ebpf_object" where
  "remove_ignored_path ay path obj =
     update_path_map (ay_remove ay) ay 256 ''IGNORED_PATHS'' ''Failed to remove ignored path '' path obj"

definition add_deny_path :: "aya_api \<Rightarrow> string \<Rightarrow> ebpf_object \<Rightarrow> (ebpf_error + unit) \<times> ebpf_object" where
  "add_deny_path ay path obj =
     update_path_map (ay_insert ay) ay 256 ''DENY_PATHS'' ''Failed to add deny path '' path obj"

definition remove_deny_path :: "aya_api \<Rightarrow> string \<Rightarrow> ebpf_object \<Rightarrow> (ebpf_error + unit) \<times> ebpf_object" where
  "remove_deny_path ay path obj =
     update_path_map (ay_remove ay) ay 256 ''DENY_PATHS'' ''Failed to remove deny path '' path obj"

text \<open>A loop over paths that stops at the first error and keeps what was done before it.\<close>

fun for_paths ::
  "(string \<Rightarrow> ebpf_object \<Rightarrow> (ebpf_error + unit) \<times> ebpf_object) \<Rightarrow> string list \<Rightarrow> ebpf_object
   \<Rightarrow> (ebpf_error + unit) \<times> ebpf_object" where
  "for_paths f [] obj = (Inr (), obj)"
| "for_paths f (p # ps) obj =
     (case f p obj of
        (Inl e, obj1) \<Rightarrow> (Inl e, obj1)
      | (Inr _, obj1) \<Rightarrow> for_paths f ps obj1)"

definition sync_watched_prefixes ::
  "aya_api \<Rightarrow> string list \<Rightarrow> string \<Rightarrow> ebpf_object \<Rightarrow> (ebpf_error + unit) \<times> ebpf_object" where
  "sync_watched_prefixes ay ps map_name obj =
     for_paths (\<lambda>p. add_watched_prefix ay p map_name) ps obj"

subsection \<open>The process cache\<close>

definition get_cached_process :: "aya_api \<Rightarrow> u32 \<Rightarrow> ebpf_object \<Rightarrow> ebpf_error + process_cache_entry option" where
  "get_cached_process ay tgid obj =
     (case map_of (eo_maps obj) ''PROCESS_CACHE'' of
        None \<Rightarrow> Inl (EbMap ''PROCESS_CACHE map not found'')
      | Some (CacheMap c) \<Rightarrow>
          (case ay_get ay tgid c of
             Inr entry \<Rightarrow> Inr (Some entry)
           | Inl None \<Rightarrow> Inr None
           | Inl (Some e) \<Rightarrow> Inl (EbMap (''Failed to lookup process '' @ show_u32 tgid @ '': '' @ e)))
      | Some _ \<Rightarrow> Inl (EbMap (''PROCESS_CACHE is not a HashMap: '' @ ay_type_error ay ''PROCESS_CACHE'')))"

definition has_process_cache :: "ebpf_object \<Rightarrow> bool" where
  "has_process_cache obj \<longleftrightarrow> map_of (eo_maps obj) ''PROCESS_CACHE'' \<noteq> None"

subsection \<open>The contract of the path maps\<close>

text \<open>
  What is documented of a BPF hash map: an insertion fails only when the map is full and the key new, a
  removal fails exactly if the key is missing, and nothing but that key changes.
\<close>

locale path_map_contract =
  fixes ay :: aya_api
    and capacity :: "string \<Rightarrow> nat"
  assumes insert_ok: "k \<in> set ks \<or> card (set ks) < capacity name \<Longrightarrow> \<exists>ks'. ay_insert ay name k ks = Inr ks'"
    and insert_keys: "ay_insert ay name k ks = Inr ks' \<Longrightarrow> set ks' = insert k (set ks)"
    and remove_ok: "k \<in> set ks \<Longrightarrow> \<exists>ks'. ay_remove ay name k ks = Inr ks'"
    and remove_missing: "k \<notin> set ks \<Longrightarrow> \<exists>e. ay_remove ay name k ks = Inl e"
    and remove_keys: "ay_remove ay name k ks = Inr ks' \<Longrightarrow> set ks' = set ks - {k}"

definition ref_insert :: "nat \<Rightarrow> string \<Rightarrow> string list \<Rightarrow> string + string list" where
  "ref_insert n k ks = (if k \<in> set ks then Inr ks else if card (set ks) < n then Inr (k # ks) else Inl ''E2BIG'')"

definition ref_remove :: "string \<Rightarrow> string list \<Rightarrow> string + string list" where
  "ref_remove k ks = (if k \<in> set ks then Inr (removeAll k ks) else Inl ''key not found'')"

definition ref_aya :: "(string \<Rightarrow> nat) \<Rightarrow> ebpf_object \<Rightarrow> aya_api" where
  "ref_aya cap obj =
     \<lparr>ay_show_io = (\<lambda>_. []), ay_btf = Inr (), ay_load = (\<lambda>_. Inr obj), ay_load_program = (\<lambda>_. Inr ()),
      ay_attach_program = (\<lambda>_. Inr ()), ay_type_error = (\<lambda>_. []), ay_insert = (\<lambda>name. ref_insert (cap name)),
      ay_remove = (\<lambda>name. ref_remove), ay_set_flag = (\<lambda>_. Inr ()),
      ay_get = (\<lambda>k c. case map_of c k of Some e \<Rightarrow> Inr e | None \<Rightarrow> Inl None)\<rparr>"

interpretation ref_maps: path_map_contract "ref_aya cap obj" cap for cap obj
  by unfold_locales (auto simp: ref_aya_def ref_insert_def ref_remove_def split: if_splits)

text \<open>\<open>keys_are\<close>: the object has a map of that name and key size, with exactly these keys.\<close>

definition keys_are :: "nat \<Rightarrow> string \<Rightarrow> string set \<Rightarrow> ebpf_object \<Rightarrow> bool" where
  "keys_are n name K obj \<longleftrightarrow> (\<exists>ks. map_of (eo_maps obj) name = Some (PathMap n ks) \<and> set ks = K)"

definition same_other_maps :: "string \<Rightarrow> ebpf_object \<Rightarrow> ebpf_object \<Rightarrow> bool" where
  "same_other_maps name obj obj' \<longleftrightarrow> (\<forall>m. m \<noteq> name \<longrightarrow> map_of (eo_maps obj') m = map_of (eo_maps obj) m)"

lemma same_other_maps_refl [simp]: "same_other_maps name obj obj"
  by (simp add: same_other_maps_def)

lemma same_other_maps_trans: "same_other_maps name a b \<Longrightarrow> same_other_maps name b c \<Longrightarrow> same_other_maps name a c"
  by (simp add: same_other_maps_def)

lemma same_other_keys: "same_other_maps name obj obj' \<Longrightarrow> m \<noteq> name \<Longrightarrow> keys_are n m K obj' = keys_are n m K obj"
  by (simp add: same_other_maps_def keys_are_def)

lemma keys_are_path_keys: "keys_are n name K obj \<Longrightarrow> set (path_keys name obj) = K"
  by (auto simp: keys_are_def path_keys_def)

lemma update_path_map_step:
  assumes "map_of (eo_maps obj) name = Some (PathMap n ks)" and "call name (path_to_key n p) ks = Inr ks'"
  shows "\<exists>obj'. update_path_map call ay n name what p obj = (Inr (), obj') \<and> keys_are n name (set ks') obj' \<and>
    same_other_maps name obj obj'"
  using assms by (auto simp: update_path_map_def get_hash_map_mut_def keys_are_def same_other_maps_def update_conv')

lemma path_map_ops:
  "(\<lambda>p. add_watched_prefix ay p name) = update_path_map (ay_insert ay) ay 128 name ''Failed to add prefix ''"
  "(\<lambda>p. remove_watched_prefix ay p name) = update_path_map (ay_remove ay) ay 128 name ''Failed to remove prefix ''"
  "add_deny_path ay = update_path_map (ay_insert ay) ay 256 ''DENY_PATHS'' ''Failed to add deny path ''"
  "remove_deny_path ay = update_path_map (ay_remove ay) ay 256 ''DENY_PATHS'' ''Failed to remove deny path ''"
  by (rule ext, rule ext, simp add: add_watched_prefix_def remove_watched_prefix_def add_deny_path_def
      remove_deny_path_def)+

lemma update_path_map_error:
  "update_path_map call ay n name what p obj = (Inl e, obj') \<Longrightarrow> obj' = obj"
  by (auto simp: update_path_map_def split: sum.splits)

context path_map_contract
begin

lemma add_one:
  assumes "keys_are n name K obj" and "path_to_key n p \<in> K \<or> card K < capacity name"
  shows "\<exists>obj'. update_path_map (ay_insert ay) ay n name what p obj = (Inr (), obj') \<and>
    keys_are n name (insert (path_to_key n p) K) obj' \<and> same_other_maps name obj obj'"
proof -
  from assms(1) obtain ks where ks: "map_of (eo_maps obj) name = Some (PathMap n ks)" "set ks = K"
    by (auto simp: keys_are_def)
  with assms(2) insert_ok obtain ks' where ins: "ay_insert ay name (path_to_key n p) ks = Inr ks'" by blast
  with insert_keys ks(2) have "set ks' = insert (path_to_key n p) K" by blast
  with update_path_map_step [OF ks(1), of "ay_insert ay"] ins show ?thesis by metis
qed

lemma remove_one:
  assumes "keys_are n name K obj" and "path_to_key n p \<in> K"
  shows "\<exists>obj'. update_path_map (ay_remove ay) ay n name what p obj = (Inr (), obj') \<and>
    keys_are n name (K - {path_to_key n p}) obj' \<and> same_other_maps name obj obj'"
proof -
  from assms(1) obtain ks where ks: "map_of (eo_maps obj) name = Some (PathMap n ks)" "set ks = K"
    by (auto simp: keys_are_def)
  with assms(2) remove_ok obtain ks' where rem: "ay_remove ay name (path_to_key n p) ks = Inr ks'" by blast
  with remove_keys ks(2) have "set ks' = K - {path_to_key n p}" by blast
  with update_path_map_step [OF ks(1), of "ay_remove ay"] rem show ?thesis by metis
qed

lemma remove_absent:
  assumes "keys_are n name K obj" and "path_to_key n p \<notin> K"
  shows "\<exists>e. update_path_map (ay_remove ay) ay n name what p obj = (Inl e, obj)"
proof -
  from assms obtain ks where ks: "map_of (eo_maps obj) name = Some (PathMap n ks)" "path_to_key n p \<notin> set ks"
    by (auto simp: keys_are_def)
  with remove_missing obtain e where "ay_remove ay name (path_to_key n p) ks = Inl e" by blast
  with ks show ?thesis by (simp add: update_path_map_def get_hash_map_mut_def)
qed

lemma add_paths:
  assumes "keys_are n name K obj" and "finite K" and "card (K \<union> path_to_key n ` set ps) \<le> capacity name"
  shows "\<exists>obj'. for_paths (update_path_map (ay_insert ay) ay n name what) ps obj = (Inr (), obj') \<and>
    keys_are n name (K \<union> path_to_key n ` set ps) obj' \<and> same_other_maps name obj obj'"
  using assms
proof (induction ps arbitrary: obj K)
  case (Cons p ps)
  let ?K = "insert (path_to_key n p) K"
  have "card ?K \<le> card (K \<union> path_to_key n ` set (p # ps))"
    using Cons.prems(2) by (intro card_mono) auto
  with Cons.prems(2,3) have "path_to_key n p \<in> K \<or> card K < capacity name" by (auto simp: card_insert_if split: if_splits)
  from add_one [OF Cons.prems(1) this] obtain obj1 where
    1: "update_path_map (ay_insert ay) ay n name what p obj = (Inr (), obj1)" "keys_are n name ?K obj1"
       "same_other_maps name obj obj1" by blast
  have "?K \<union> path_to_key n ` set ps = K \<union> path_to_key n ` set (p # ps)" by auto
  with Cons.IH [OF 1(2)] Cons.prems(2,3) 1 show ?case by (auto intro: same_other_maps_trans)
qed simp

lemma remove_paths:
  assumes "keys_are n name K obj" and "distinct (map (path_to_key n) ps)" and "path_to_key n ` set ps \<subseteq> K"
  shows "\<exists>obj'. for_paths (update_path_map (ay_remove ay) ay n name what) ps obj = (Inr (), obj') \<and>
    keys_are n name (K - path_to_key n ` set ps) obj' \<and> same_other_maps name obj obj'"
  using assms
proof (induction ps arbitrary: obj K)
  case (Cons p ps)
  let ?K = "K - {path_to_key n p}"
  from Cons.prems have "path_to_key n p \<in> K" by simp
  from remove_one [OF Cons.prems(1) this] obtain obj1 where
    1: "update_path_map (ay_remove ay) ay n name what p obj = (Inr (), obj1)" "keys_are n name ?K obj1"
       "same_other_maps name obj obj1" by blast
  have "?K - path_to_key n ` set ps = K - path_to_key n ` set (p # ps)" by auto
  moreover have "path_to_key n ` set ps \<subseteq> ?K" "distinct (map (path_to_key n) ps)"
    using Cons.prems(2,3) by (auto simp: image_iff subset_iff)
  ultimately show ?case using Cons.IH [OF 1(2)] 1 by (auto intro: same_other_maps_trans)
qed simp

lemma remove_paths_fails:
  assumes "keys_are n name K obj" and "\<not> (distinct (map (path_to_key n) ps) \<and> path_to_key n ` set ps \<subseteq> K)"
  shows "\<exists>e obj' K'. for_paths (update_path_map (ay_remove ay) ay n name what) ps obj = (Inl e, obj') \<and>
    keys_are n name K' obj' \<and> K' \<subseteq> K \<and> same_other_maps name obj obj'"
  using assms
proof (induction ps arbitrary: obj K)
  case (Cons p ps)
  show ?case
  proof (cases "path_to_key n p \<in> K")
    case True
    from remove_one [OF Cons.prems(1) True] obtain obj1 where
      1: "update_path_map (ay_remove ay) ay n name what p obj = (Inr (), obj1)"
         "keys_are n name (K - {path_to_key n p}) obj1" "same_other_maps name obj obj1" by blast
    have "\<not> (distinct (map (path_to_key n) ps) \<and> path_to_key n ` set ps \<subseteq> K - {path_to_key n p})"
      using Cons.prems(2) True by auto
    from Cons.IH [OF 1(2) this] 1 show ?thesis
      by (auto intro: same_other_maps_trans)
  next
    case False
    then obtain e where "update_path_map (ay_remove ay) ay n name what p obj = (Inl e, obj)"
      using remove_absent [OF Cons.prems(1)] by blast
    with Cons.prems(1) show ?thesis by auto
  qed
qed simp

text \<open>Whatever an insertion answers, only the given keys come.\<close>

lemma add_paths_grows:
  assumes "keys_are n name K obj" and "for_paths (update_path_map (ay_insert ay) ay n name what) ps obj = (r, obj')"
  shows "\<exists>K'. keys_are n name K' obj' \<and> K \<subseteq> K' \<and> K' \<subseteq> K \<union> path_to_key n ` set ps \<and> same_other_maps name obj obj'"
  using assms
proof (induction ps arbitrary: obj K)
  case (Cons p ps)
  obtain ks where ks: "map_of (eo_maps obj) name = Some (PathMap n ks)" "set ks = K"
    using Cons.prems(1) by (auto simp: keys_are_def)
  show ?case
  proof (cases "ay_insert ay name (path_to_key n p) ks")
    case (Inl e)
    with ks Cons.prems(2) have "obj' = obj" by (auto simp: update_path_map_def get_hash_map_mut_def)
    with Cons.prems(1) show ?thesis by (intro exI [of _ K]) auto
  next
    case (Inr ks')
    from update_path_map_step [OF ks(1), of "ay_insert ay", OF Inr] obtain obj1 where
      1: "update_path_map (ay_insert ay) ay n name what p obj = (Inr (), obj1)" "keys_are n name (set ks') obj1"
         "same_other_maps name obj obj1" by blast
    have ks': "set ks' = insert (path_to_key n p) K" using insert_keys [OF Inr] ks(2) by simp
    from Cons.prems(2) 1(1) have "for_paths (update_path_map (ay_insert ay) ay n name what) ps obj1 = (r, obj')" by simp
    from Cons.IH [OF 1(2) this] obtain K' where "keys_are n name K' obj'" "set ks' \<subseteq> K'"
        "K' \<subseteq> set ks' \<union> path_to_key n ` set ps" "same_other_maps name obj1 obj'" by blast
    with ks' 1(3) show ?thesis by (intro exI [of _ K']) (auto intro: same_other_maps_trans)
  qed
qed auto

text \<open>Whatever a removal answers, no key comes.\<close>

lemma remove_paths_shrinks:
  assumes "keys_are n name K obj" and "for_paths (update_path_map (ay_remove ay) ay n name what) ps obj = (r, obj')"
  shows "\<exists>K'. keys_are n name K' obj' \<and> K' \<subseteq> K \<and> same_other_maps name obj obj'"
  using remove_paths [OF assms(1), of ps what] remove_paths_fails [OF assms(1), of ps what] assms(2)
  by (cases "distinct (map (path_to_key n) ps) \<and> path_to_key n ` set ps \<subseteq> K") auto

end

subsection \<open>A loaded object\<close>

text \<open>An object with the programs and maps of the two daemons, a kernel that can load it, and a loader over them.\<close>

definition example_object :: ebpf_object where
  "example_object =
     \<lparr>eo_programs = map (\<lambda>p. (p, LsmProgram))
        [''file_open'', ''file_permission'', ''inode_create'', ''inode_unlink'', ''inode_rename''],
      eo_maps = [(''EVENTS'', RingMap), (''WATCHED_PREFIXES'', PathMap 128 []), (''GUARDED_PREFIXES'', PathMap 128 []),
        (''IGNORED_PATHS'', PathMap 256 []), (''FILTER_ENABLED'', FlagMap None), (''DENY_PATHS'', PathMap 256 []),
        (''PROCESS_CACHE'', CacheMap [])],
      eo_attached = []\<rparr>"

definition example_kernel :: file_system where
  "example_kernel =
     \<lparr>fs_read = (\<lambda>p. if p = ''/proc/sys/kernel/osrelease'' then Inr ''6.1.0'' else Inr []),
      fs_read_link = (\<lambda>_. Inl IoNotFound), fs_exists = (\<lambda>_. True), fs_is_dir = (\<lambda>_. False)\<rparr>"

abbreviation example_aya :: aya_api where
  "example_aya \<equiv> ref_aya (\<lambda>_. 256) example_object"

lemma show_nat_no_dot: "CHR ''.'' \<notin> set (show_nat n)"
  using show_nat_digits [of n] by (auto simp: list_all_iff is_ascii_digit_def)

text \<open>A release \<open>major.minor.rest\<close>, with or without a newline, is compared as the pair of its numbers.\<close>

lemma check_kernel_version_release:
  assumes "fs_read fs ''/proc/sys/kernel/osrelease'' = Inr (r @ nl)" and "r = show_u32 major @ ''.'' @ show_u32 minor @ rest"
    and "rest = [] \<or> hd rest = CHR ''.''" and "plain_word r" and "nl = [] \<or> nl = [CHR 0x0A]"
  shows "check_kernel_version fs a b \<longleftrightarrow> major > a \<or> major = a \<and> minor \<ge> b"
proof -
  have "utf8_valid (r @ nl)"
    using assms(4,5) by (intro utf8_valid_ascii) (auto simp: plain_word_def list_all_iff byte_def)
  moreover have "str_trim (r @ nl) = r"
    using assms(4,5) str_trim_plain str_trim_plain_newline by auto
  moreover have "\<exists>ss. split_on (CHR ''.'') r = show_u32 major # show_u32 minor # ss"
  proof (cases rest)
    case Nil
    then show ?thesis using show_nat_no_dot by (simp add: assms(2) show_u32_def split_on_append split_on_no_sep)
  next
    case (Cons c cs)
    with assms(3) show ?thesis using show_nat_no_dot by (simp add: assms(2) show_u32_def split_on_append)
  qed
  ultimately show ?thesis
    using assms(1) by (auto simp: check_kernel_version_def read_to_string_def Let_def)
qed

lemma example_supported: "is_ebpf_supported example_kernel"
proof -
  have "''6.1.0'' = show_u32 6 @ ''.'' @ show_u32 1 @ ''.0''" by (simp add: show_u32_def show_nat.simps)
  moreover have "plain_word ''6.1.0''" by (simp add: plain_word_def byte_def is_ascii_ws_def)
  ultimately show ?thesis
    using check_kernel_version_release [of example_kernel "''6.1.0''" "[]" 6 1 "''.0''" 5 7]
    by (simp add: is_ebpf_supported_def example_kernel_def)
qed

end
