(* ===== verification/Ebpf_Props.thy ===== *)
theory Ebpf_Props
  imports Ebpf_Loader "HOL-Library.Sublist"
begin

section \<open>Properties of the eBPF programs\<close>

text \<open>
  What the path walk writes into the buffer for a chain of dentries, what the in-kernel filter lets
  through, what the deny list of janusd denies, and what the process cache holds.
\<close>

subsection \<open>Strings and dentries in memory\<close>

definition c_string :: "kernel_mem \<Rightarrow> u64 \<Rightarrow> string \<Rightarrow> bool" where
  "c_string m p s \<longleftrightarrow> (\<forall>i<length s. km_u8 m (p + of_nat i) = Some (s ! i) \<and> s ! i \<noteq> nul) \<and>
     km_u8 m (p + of_nat (length s)) = Some nul"

text \<open>The dentry at an address and its ancestors have these names, the leaf first; the root is its own parent.\<close>

fun dentry_chain :: "kernel_mem \<Rightarrow> u64 \<Rightarrow> string list \<Rightarrow> bool" where
  "dentry_chain m cur [] \<longleftrightarrow> cur \<noteq> 0 \<and> km_ptr m (cur + 24) = Some cur \<and> km_ptr m (cur + 40) \<noteq> None"
| "dentry_chain m cur (n # ns) \<longleftrightarrow> cur \<noteq> 0 \<and>
     (\<exists>parent p. km_ptr m (cur + 24) = Some parent \<and> parent \<noteq> cur \<and> parent \<noteq> 0 \<and>
        km_ptr m (cur + 40) = Some p \<and> p \<noteq> 0 \<and> c_string m p n \<and> dentry_chain m parent ns)"

definition dentry_path :: "string list \<Rightarrow> string" where
  "dentry_path names = concat (map (\<lambda>n. CHR ''/'' # n) (rev names))"

text \<open>What the walk can hold: at most \<open>MAX_DEPTH\<close> names of at most \<open>MAX_NAME\<close> bytes, none empty.\<close>

definition walkable :: "string list \<Rightarrow> bool" where
  "walkable names \<longleftrightarrow> length names \<le> MAX_DEPTH \<and> length (dentry_path names) \<le> MAX_PATH_LEN \<and>
     list_all (\<lambda>n. n \<noteq> [] \<and> length n \<le> MAX_NAME) names"

lemma dentry_path_Cons: "dentry_path (n # ns) = dentry_path ns @ CHR ''/'' # n"
  by (simp add: dentry_path_def)

lemma c_string_no_nul: "c_string m p s \<Longrightarrow> nul \<notin> set s"
  by (auto simp: c_string_def in_set_conv_nth)

lemma dentry_path_no_nul: "dentry_chain m cur names \<Longrightarrow> nul \<notin> set (dentry_path names)"
proof (induction names arbitrary: cur)
  case (Cons n ns)
  then show ?case by (auto simp: dentry_path_Cons dest: c_string_no_nul)
qed (simp add: dentry_path_def)

subsection \<open>The loops\<close>

lemma scan_name_c_string:
  "c_string m p s \<Longrightarrow> i \<le> length s \<Longrightarrow> length s \<le> i + k \<Longrightarrow> scan_name m p i k = length s"
proof (induction k arbitrary: i)
  case (Suc k)
  show ?case
  proof (cases "i = length s")
    case True
    with Suc.prems show ?thesis by (simp add: c_string_def)
  next
    case False
    with Suc.prems have "km_u8 m (p + of_nat i) = Some (s ! i)" "s ! i \<noteq> nul" by (simp_all add: c_string_def)
    with Suc.IH [of "Suc i"] Suc.prems False show ?thesis by simp
  qed
qed simp

lemma copy_name_c_string:
  assumes "c_string m p s" and "pos + length s \<le> MAX_PATH_LEN" and "length out = MAX_PATH_LEN"
  shows "i + k = length s \<Longrightarrow> copy_name m p pos i k out =
    take (pos + i) out @ drop i s @ drop (pos + length s) out"
  using assms(3)
proof (induction k arbitrary: i out)
  case (Suc k)
  then have i: "i < length s" by simp
  then have r: "km_u8 m (p + of_nat i) = Some (s ! i)" using assms(1) by (simp add: c_string_def)
  let ?out = "out[pos + i := s ! i]"
  have "copy_name m p pos i (Suc k) out = copy_name m p pos (Suc i) k ?out"
    using r i assms(2) by simp
  moreover have "copy_name m p pos (Suc i) k ?out = take (pos + Suc i) ?out @ drop (Suc i) s @ drop (pos + length s) ?out"
    using Suc.IH [of "Suc i" ?out] Suc.prems by simp
  moreover have "take (pos + Suc i) ?out = take (pos + i) out @ [s ! i]"
    using i Suc.prems(2) assms(2) by (simp add: take_Suc_conv_app_nth)
  moreover have "drop (pos + length s) ?out = drop (pos + length s) out" using i by simp
  ultimately show ?case using i by (simp add: Cons_nth_drop_Suc)
qed simp

lemma walk_dentries_chain:
  assumes "dentry_chain m cur names" and "length names \<le> d" and "length (dentry_path names) \<le> pos"
    and "pos \<le> MAX_PATH_LEN" and "length out = MAX_PATH_LEN"
    and "list_all (\<lambda>n. n \<noteq> [] \<and> length n \<le> MAX_NAME) names"
  shows "walk_dentries m d cur (pos, out) =
    (pos - length (dentry_path names), take (pos - length (dentry_path names)) out @ dentry_path names @ drop pos out)"
  using assms
proof (induction names arbitrary: d cur pos out)
  case Nil
  then show ?case by (cases d) (auto simp: dentry_path_def split: option.splits)
next
  case (Cons n ns)
  then obtain d' where d: "d = Suc d'" by (cases d) auto
  from Cons.prems(1) obtain parent p where c: "km_ptr m (cur + 24) = Some parent" "parent \<noteq> cur" "parent \<noteq> 0"
    "km_ptr m (cur + 40) = Some p" "p \<noteq> 0" "c_string m p n" "dentry_chain m parent ns" "cur \<noteq> 0" by auto
  have n: "n \<noteq> []" "length n \<le> MAX_NAME" using Cons.prems(6) by simp_all
  have len: "length (dentry_path ns) + Suc (length n) \<le> pos" using Cons.prems(3) by (simp add: dentry_path_Cons)
  let ?pos1 = "pos - length n" and ?pos2 = "pos - length n - 1"
  have sc: "scan_name m p 0 MAX_NAME = length n" using scan_name_c_string [OF c(6), of 0 MAX_NAME] n by simp
  have cp: "copy_name m p ?pos1 0 (length n) out = take ?pos1 out @ n @ drop pos out"
    using copy_name_c_string [OF c(6), of ?pos1 out 0 "length n"] Cons.prems len by simp
  define o2 where "o2 = take ?pos2 out @ CHR ''/'' # n @ drop pos out"
  have t: "take ?pos1 out = take ?pos2 out @ [out ! ?pos2]"
    using take_Suc_conv_app_nth [of ?pos2 out] Cons.prems len by (simp add: Suc_diff_Suc)
  have out2: "(take ?pos1 out @ n @ drop pos out)[?pos2 := CHR ''/''] = o2"
    using Cons.prems len unfolding t o2_def by (simp add: list_update_append)
  have "walk_dentries m d cur (pos, out) = walk_dentries m d' parent (?pos2, o2)"
    using c sc cp n len out2 by (simp add: d Let_def)
  also have "\<dots> = (?pos2 - length (dentry_path ns),
      take (?pos2 - length (dentry_path ns)) o2 @ dentry_path ns @ drop ?pos2 o2)"
    using Cons.prems c(7) len d by (intro Cons.IH) (auto simp: o2_def)
  also have "drop ?pos2 o2 = CHR ''/'' # n @ drop pos out" using Cons.prems len by (simp add: o2_def)
  also have "take (?pos2 - length (dentry_path ns)) o2 = take (?pos2 - length (dentry_path ns)) out"
    using Cons.prems len by (simp add: o2_def)
  finally show ?case using len by (simp add: dentry_path_Cons diff_diff_add add.commute add.assoc)
qed

lemma append_drop_update:
  "length p = n \<Longrightarrow> n < length q \<Longrightarrow> (p @ drop n q)[n := v] = p @ v # drop (Suc n) q"
  by (simp add: list_update_append Cons_nth_drop_Suc [of n q, symmetric])

lemma shift_down_moves:
  assumes "length out = MAX_PATH_LEN"
  shows "pos + mi + k = MAX_PATH_LEN \<Longrightarrow> shift_down pos mi k (take mi (drop pos out) @ drop mi out) =
    take (mi + k) (drop pos out) @ drop (mi + k) out"
proof (induction k arbitrary: mi)
  case (Suc k)
  let ?o = "take mi (drop pos out) @ drop mi out"
  have mi: "mi < length (drop pos out)" "mi < length out" using Suc.prems assms by simp_all
  have rd: "?o ! (pos + mi) = out ! (pos + mi)" using mi Suc.prems assms by (simp add: nth_append add.commute)
  have "?o[mi := out ! (pos + mi)] = take (Suc mi) (drop pos out) @ drop (Suc mi) out"
    using mi append_drop_update [of "take mi (drop pos out)" mi out "out ! (pos + mi)"]
      take_Suc_conv_app_nth [OF mi(1)] by simp
  with rd Suc.IH [of "Suc mi"] Suc.prems show ?case by simp
qed simp

text \<open>What is left in the buffer: the path, a NUL, and behind it the bytes the backwards walk wrote.\<close>

lemma extract_path_buffer:
  assumes "dentry_chain m dentry names" and "names \<noteq> []" and "walkable names" and "length out = MAX_PATH_LEN"
  shows "extract_path_from_dentry m dentry out =
    (let path = dentry_path names; n = length path
     in (n, if n < MAX_PATH_LEN then path @ nul # drop (Suc n) (take (MAX_PATH_LEN - n) out @ path) else path))"
proof -
  let ?p = "dentry_path names" and ?pos = "MAX_PATH_LEN - length (dentry_path names)"
  let ?o = "take ?pos out @ ?p"
  have n0: "0 < length ?p" using assms(2) by (cases names) (simp_all add: dentry_path_Cons)
  have le: "length ?p \<le> MAX_PATH_LEN" using assms(3) by (simp add: walkable_def)
  have walk: "walk_dentries m MAX_DEPTH dentry (MAX_PATH_LEN, out) = (?pos, ?o)"
    using walk_dentries_chain [OF assms(1), of MAX_DEPTH MAX_PATH_LEN out] assms(3,4)
    by (simp add: walkable_def)
  have len_o: "length ?o = MAX_PATH_LEN" using le assms(4) by simp
  have sh: "shift_down ?pos 0 (length ?p) ?o = ?p @ drop (length ?p) ?o"
    using shift_down_moves [OF len_o, of ?pos 0 "length ?p"] le assms(4) by simp
  have d0: "dentry \<noteq> 0" using assms(1) by (cases names) auto
  have "(?p @ drop (length ?p) ?o)[length ?p := nul] = ?p @ nul # drop (Suc (length ?p)) ?o"
    if "length ?p < MAX_PATH_LEN"
    using that len_o by (intro append_drop_update) simp_all
  moreover have "length ?p = MAX_PATH_LEN \<Longrightarrow> drop (length ?p) ?o = []" using len_o by simp
  moreover have "?pos \<noteq> MAX_PATH_LEN" using n0 unfolding MAX_PATH_LEN_def by linarith
  moreover have "MAX_PATH_LEN - ?pos = length ?p" "min (length ?p) MAX_PATH_LEN = length ?p" using le by simp_all
  ultimately show ?thesis
    using d0 walk sh le by (auto simp: extract_path_from_dentry_def Let_def)
qed

lemma extract_path_root:
  "dentry_chain m dentry [] \<Longrightarrow> extract_path_from_dentry m dentry out = (1, out[0 := CHR ''/'', 1 := nul])"
  by (auto simp: extract_path_from_dentry_def MAX_DEPTH_def numeral_eq_Suc)

lemma extracted_text_of:
  assumes "dentry_chain m dentry names" and "walkable names" and "length out = MAX_PATH_LEN"
    and "extract_path_from_dentry m dentry out = (n, buf)"
  shows "takeWhile (\<lambda>b. b \<noteq> nul) buf = (if names = [] then ''/'' else dentry_path names) \<and>
    n = length (takeWhile (\<lambda>b. b \<noteq> nul) buf) \<and> length buf = MAX_PATH_LEN"
proof (cases "names = []")
  case True
  have "out[0 := CHR ''/'', 1 := nul] = CHR ''/'' # nul # drop 2 out"
    using assms(3) by (cases out rule: list.exhaust; cases "tl out") (auto simp: MAX_PATH_LEN_def)
  with True assms extract_path_root [of m dentry out] show ?thesis by (auto simp: MAX_PATH_LEN_def)
next
  case False
  have "nul \<notin> set (dentry_path names)" by (rule dentry_path_no_nul [OF assms(1)])
  moreover have "length (dentry_path names) \<le> MAX_PATH_LEN" using assms(2) by (simp add: walkable_def)
  ultimately show ?thesis
    using extract_path_buffer [OF assms(1) False assms(2,3)] assms(3,4) False
    by (auto simp: Let_def takeWhile_nul_padded split: if_splits)
qed

subsection \<open>Path extraction\<close>

text \<open>
  C21: The path walk reports the path. For a dentry whose chain to the root has at most 20 names of at most
  32 bytes and a path of at most 256 bytes, the text in the buffer, up to the first NUL, is the path with
  the names from the root down (\<open>/\<close> for the root itself), and its length is returned.
\<close>

theorem extract_path_correct:
  assumes "dentry_chain m dentry names" and "walkable names" and "length out = MAX_PATH_LEN"
    and "extract_path_from_dentry m dentry out = (n, buf)"
  shows "takeWhile (\<lambda>b. b \<noteq> nul) buf = (if names = [] then ''/'' else dentry_path names) \<and>
    n = length (takeWhile (\<lambda>b. b \<noteq> nul) buf) \<and> length buf = MAX_PATH_LEN"
  by (rule extracted_text_of [OF assms])

subsection \<open>The deny list\<close>

text \<open>
  A key of the loader never holds another byte behind a NUL, but the buffer of the hook does.
\<close>

lemma path_to_key_tail:
  assumes "nul \<notin> set p" "i < j" "j < n" "path_to_key n p ! i = nul"
  shows "path_to_key n p ! j = nul"
proof -
  have "i \<ge> length p"
  proof (rule ccontr)
    assume "\<not> i \<ge> length p"
    then have "path_to_key n p ! i = p ! i" "i < length p" using assms(2,3) by (simp_all add: path_to_key_def nth_append)
    with assms(1,4) nth_mem [of i p] show False by auto
  qed
  with assms(2,3) show ?thesis by (simp add: path_to_key_def nth_append)
qed

lemma path_to_key_eq_iff:
  assumes "nul \<notin> set p" "nul \<notin> set q" "length q \<le> n"
  shows "path_to_key n p = path_to_key n q \<longleftrightarrow> take n p = q"
proof -
  have tw: "takeWhile (\<lambda>b. b \<noteq> nul) (path_to_key n s) = take n s" if "nul \<notin> set s" for s
  proof -
    have "nul \<notin> set (take n s)" using that by (meson in_set_takeD)
    then show ?thesis
      by (cases "n - length s") (auto simp: path_to_key_def takeWhile_nul_padded)
  qed
  show ?thesis
  proof
    assume "path_to_key n p = path_to_key n q"
    with tw [OF assms(1)] tw [OF assms(2)] assms(3) show "take n p = q" by simp
  next
    assume "take n p = q"
    then show "path_to_key n p = path_to_key n q" by (auto simp: path_to_key_def min_def)
  qed
qed

lemma extracted_not_padded:
  assumes "dentry_chain m dentry names" "names \<noteq> []" "walkable names" "length (dentry_path names) \<le> 254"
    and "nul \<notin> set p"
  shows "snd (extract_path_from_dentry m dentry (replicate MAX_PATH_LEN nul)) \<noteq> path_to_key MAX_PATH_LEN p"
proof
  let ?path = "dentry_path names" and ?n = "length (dentry_path names)"
  let ?buf = "?path @ nul # drop (Suc ?n) (replicate (MAX_PATH_LEN - ?n) nul @ ?path)"
  assume "snd (extract_path_from_dentry m dentry (replicate MAX_PATH_LEN nul)) = path_to_key MAX_PATH_LEN p"
  then have eq: "?buf = path_to_key MAX_PATH_LEN p"
    using extract_path_buffer [OF assms(1-3), of "replicate MAX_PATH_LEN nul"] assms(4)
    by (simp add: Let_def MAX_PATH_LEN_def min_def)
  have ne: "?path \<noteq> []" using assms(2) by (cases names) (simp_all add: dentry_path_Cons)
  then have lp: "last ?path \<noteq> nul" using dentry_path_no_nul [OF assms(1)] last_in_set by fastforce
  define buf where "buf = ?buf"
  have len: "length buf = 256" using assms(4) by (simp add: buf_def MAX_PATH_LEN_def)
  have "Suc ?n < length (replicate (MAX_PATH_LEN - ?n) nul @ ?path)" using assms(4) by (simp add: MAX_PATH_LEN_def)
  then have "last buf = last ?path"
    using ne last_drop [of "Suc ?n" "replicate (MAX_PATH_LEN - ?n) nul @ ?path"]
    by (simp add: buf_def last_append del: drop_append drop_replicate) (use assms(4) in \<open>simp add: MAX_PATH_LEN_def\<close>)
  moreover have "buf \<noteq> []" using len by auto
  ultimately have "buf ! 255 \<noteq> nul" using last_conv_nth [of buf] len lp by simp
  moreover have "buf ! ?n = nul" by (simp add: buf_def nth_append)
  moreover have "buf = path_to_key 256 p" using eq by (simp add: buf_def MAX_PATH_LEN_def)
  ultimately show False using path_to_key_tail [OF assms(5), of ?n 255 256] assms(4) by simp
qed

text \<open>Which paths the hook finds in the map: its own, if the residue is cut off or was never written.\<close>

lemma extracted_key_iff:
  assumes "dentry_chain m dentry names" "walkable names" "nul \<notin> set p"
    and "path = (if names = [] then ''/'' else dentry_path names)"
  shows "snd (extract_path_from_dentry m dentry (replicate MAX_PATH_LEN nul)) = path_to_key MAX_PATH_LEN p \<longleftrightarrow>
    (length path = 1 \<or> 255 \<le> length path) \<and> take MAX_PATH_LEN p = path"
proof -
  let ?buf = "snd (extract_path_from_dentry m dentry (replicate MAX_PATH_LEN nul))"
  have nul: "nul \<notin> set path" using dentry_path_no_nul [OF assms(1)] assms(4) by simp
  have le: "length path \<le> MAX_PATH_LEN" using assms(2,4) by (simp add: walkable_def MAX_PATH_LEN_def)
  consider "names = []" | "names \<noteq> []" "length path \<le> 254" | "names \<noteq> []" "255 \<le> length path" by linarith
  then show ?thesis
  proof cases
    case 1
    then have "?buf = path_to_key MAX_PATH_LEN path"
      using extract_path_root assms(1,4) by (simp add: path_to_key_def MAX_PATH_LEN_def eval_nat_numeral)
    with 1 path_to_key_eq_iff [OF nul assms(3), of MAX_PATH_LEN] path_to_key_eq_iff [OF assms(3) nul le] assms(4)
    show ?thesis by auto
  next
    case 2
    have "2 \<le> length path" using 2 assms(2,4) by (cases names) (auto simp: dentry_path_Cons walkable_def Suc_le_eq)
    with 2 extracted_not_padded [OF assms(1) 2(1) assms(2) _ assms(3)] assms(4) show ?thesis by auto
  next
    case 3
    with le have "length path = 255 \<or> length path = 256" unfolding MAX_PATH_LEN_def by linarith
    then have "?buf = path_to_key MAX_PATH_LEN path"
      using extract_path_buffer [OF assms(1) 3(1) assms(2), of "replicate MAX_PATH_LEN nul"] 3 assms(4)
      by (auto simp: path_to_key_def MAX_PATH_LEN_def Let_def)
    with 3 path_to_key_eq_iff [OF assms(3) nul le] show ?thesis by auto
  qed
qed

text \<open>
  A concrete memory: a file (at 5000) whose dentry \<open>/x\<close> (at 1000) has the root (at 2000) as its parent, and
  the root directory as an open file (at 6000).
\<close>

definition example_mem :: kernel_mem where
  "example_mem =
     \<lparr>km_ptr = (\<lambda>a. if a = 1024 then Some 2000 else if a = 1040 then Some 3000 else if a = 2024 then Some 2000
        else if a = 2040 then Some 4000 else if a = 5024 then Some 1000 else if a = 6024 then Some 2000 else None),
      km_u32 = (\<lambda>_. None), km_u8 = (\<lambda>a. if a = 3000 then Some (CHR ''x'') else if a = 3001 then Some nul else None)\<rparr>"

definition example_bpf_context :: bpf_context where
  "example_bpf_context =
     \<lparr>bc_pid_tgid = 0x0000000700000009, bc_uid_gid = 0, bc_ktime = 5, bc_comm = None, bc_task = 0, bc_mem = example_mem,
      bc_scratch = True, bc_ring_room = (\<lambda>_. True)\<rparr>"

lemma example_chain: "dentry_chain example_mem 1000 [''x'']"
  by (simp add: example_mem_def c_string_def)

lemma example_walkable: "walkable [''x'']"
  by (simp add: walkable_def dentry_path_def MAX_DEPTH_def MAX_PATH_LEN_def MAX_NAME_def)

theorem extract_path_correct_witness:
  "takeWhile (\<lambda>b. b \<noteq> nul) (snd (extract_path_from_dentry example_mem 1000 (replicate MAX_PATH_LEN nul))) = ''/x''"
  using extract_path_correct [OF example_chain example_walkable, of "replicate MAX_PATH_LEN nul"]
  by (cases "extract_path_from_dentry example_mem 1000 (replicate MAX_PATH_LEN nul)") (simp add: dentry_path_def)

lemma deny_lookup_iff:
  assumes "km_ptr (bc_mem ctx) (file + 24) = Some dentry" and "file \<noteq> 0"
    and "dentry_chain (bc_mem ctx) dentry names" and "walkable names"
    and "bm_deny maps = map (path_to_key MAX_PATH_LEN) ps" and "\<forall>p\<in>set ps. nul \<notin> set p"
    and "path = (if names = [] then ''/'' else dentry_path names)"
    and "buf = snd (extract_path_from_file (bc_mem ctx) file (replicate MAX_PATH_LEN nul))"
  shows "buf ! 0 \<noteq> nul \<and> buf \<in> set (bm_deny maps) \<longleftrightarrow>
    (length path = 1 \<or> 255 \<le> length path) \<and> path \<in> take MAX_PATH_LEN ` set ps"
proof -
  have buf: "buf = snd (extract_path_from_dentry (bc_mem ctx) dentry (replicate MAX_PATH_LEN nul))"
    using assms(1,2,8) by (simp add: extract_path_from_file_def)
  obtain n b where e: "extract_path_from_dentry (bc_mem ctx) dentry (replicate MAX_PATH_LEN nul) = (n, b)"
    by (cases "extract_path_from_dentry (bc_mem ctx) dentry (replicate MAX_PATH_LEN nul)")
  have ne: "path \<noteq> []" using assms(7) by (cases names) (simp_all add: dentry_path_Cons)
  have "takeWhile (\<lambda>b. b \<noteq> nul) buf = path"
    using extracted_text_of [OF assms(3,4) _ e] buf e assms(7) by simp
  with ne have "buf ! 0 \<noteq> nul" by (cases buf) (auto split: if_splits)
  moreover have "buf = path_to_key MAX_PATH_LEN p \<longleftrightarrow> (length path = 1 \<or> 255 \<le> length path) \<and> take MAX_PATH_LEN p = path"
    if "p \<in> set ps" for p
    unfolding buf using extracted_key_iff [OF assms(3,4) _ assms(7)] assms(6) that by blast
  ultimately show ?thesis by (auto simp: assms(5))
qed

lemma new_event_path [simp]: "ke_path (new_event t ctx) = replicate MAX_PATH_LEN nul"
  by (simp add: new_event_def populate_process_info_def kernel_file_event_default_def Let_def split: option.splits)

lemma open_never_denied:
  assumes "km_ptr (bc_mem ctx) (file + 24) = Some dentry" and "file \<noteq> 0"
    and "dentry_chain (bc_mem ctx) dentry names" and "names \<noteq> []" and "walkable names"
    and "length (dentry_path names) \<le> 254"
    and "bm_deny maps = map (path_to_key MAX_PATH_LEN) ps" and "\<forall>p\<in>set ps. nul \<notin> set p"
  shows "fst (janus_file_open ctx file maps) = 0"
proof -
  have "2 \<le> length (dentry_path names)"
    using assms(4,5) by (cases names) (auto simp: dentry_path_Cons walkable_def Suc_le_eq)
  with deny_lookup_iff [OF assms(1-3,5,7,8) refl refl] assms(4,6) show ?thesis
    by (auto simp: janus_file_open_def Let_def)
qed

text \<open>
  C29: What the deny list of the eBPF mode denies. The hook looks the whole 256-byte buffer up in \<open>DENY_PATHS\<close>;
  behind the path's NUL the buffer still holds the end of the copy the backwards walk wrote, and the keys are
  padded with NULs. For a file whose path the walk can hold (at most 20 names of at most 32 bytes, 256 bytes
  in all), a list of paths without NULs and a hook that has its scratch buffer, opening and using the file
  is denied with \<open>-EACCES\<close> exactly if the file is the root directory or its path has 255 or 256 bytes, and
  that path is listed (or starts a longer listed one, cut at 256 bytes). A listed path of 2 to 254 bytes is
  never denied.
\<close>

theorem deny_paths_deny_iff:
  assumes "km_ptr (bc_mem ctx) (file + 24) = Some dentry" and "file \<noteq> 0"
    and "dentry_chain (bc_mem ctx) dentry names" and "walkable names" and "bc_scratch ctx"
    and "bm_deny maps = map (path_to_key MAX_PATH_LEN) ps" and "\<forall>p\<in>set ps. nul \<notin> set p"
    and "path = (if names = [] then ''/'' else dentry_path names)"
    and "denied \<longleftrightarrow> (length path = 1 \<or> 255 \<le> length path) \<and> path \<in> take MAX_PATH_LEN ` set ps"
  shows "fst (janus_file_open ctx file maps) = (if denied then - EACCES else 0) \<and>
    fst (janus_file_permission ctx file access maps) = (if denied then - EACCES else 0)"
  using deny_lookup_iff [OF assms(1-4,6-8) refl] assms(5,9)
  by (simp add: janus_file_open_def janus_file_permission_def Let_def)

text \<open>With \<open>/x\<close> and \<open>/\<close> listed, opening \<open>/x\<close> is permitted and opening the root directory is denied.\<close>

definition example_deny_maps :: bpf_maps where
  "example_deny_maps = \<lparr>bm_events = [], bm_prefixes = [], bm_ignored = [], bm_filter_enabled = None,
     bm_deny = [path_to_key MAX_PATH_LEN ''/x'', path_to_key MAX_PATH_LEN ''/''], bm_process_cache = []\<rparr>"

theorem deny_paths_deny_iff_witness:
  "fst (janus_file_open example_bpf_context 5000 example_deny_maps) = 0 \<and>
   fst (janus_file_open example_bpf_context 6000 example_deny_maps) = - EACCES"
proof -
  have deny: "bm_deny example_deny_maps = map (path_to_key MAX_PATH_LEN) [''/x'', ''/'']"
    "\<forall>p\<in>set [''/x'', ''/'']. nul \<notin> set p" "bc_scratch example_bpf_context"
    by (simp_all add: example_deny_maps_def example_bpf_context_def)
  have open_files: "km_ptr (bc_mem example_bpf_context) (5000 + 24) = Some 1000"
    "km_ptr (bc_mem example_bpf_context) (6000 + 24) = Some 2000" "(5000 :: u64) \<noteq> 0" "(6000 :: u64) \<noteq> 0"
    by (simp_all add: example_bpf_context_def example_mem_def)
  have chain: "dentry_chain (bc_mem example_bpf_context) 1000 [''x'']" "dentry_chain (bc_mem example_bpf_context) 2000 []"
    using example_chain by (simp_all add: example_bpf_context_def example_mem_def c_string_def)
  have root: "walkable []" by (simp add: walkable_def dentry_path_def MAX_DEPTH_def MAX_PATH_LEN_def)
  have "False \<longleftrightarrow> (length ''/x'' = 1 \<or> 255 \<le> length ''/x'') \<and> ''/x'' \<in> take MAX_PATH_LEN ` set [''/x'', ''/'']"
    "True \<longleftrightarrow> (length ''/'' = 1 \<or> 255 \<le> length ''/'') \<and> ''/'' \<in> take MAX_PATH_LEN ` set [''/x'', ''/'']"
    by (simp_all add: MAX_PATH_LEN_def)
  with deny_paths_deny_iff [OF open_files(1,3) chain(1) example_walkable deny(3,1,2), of "''/x''" False]
    deny_paths_deny_iff [OF open_files(2,4) chain(2) root deny(3,1,2), of "''/''" True]
  show ?thesis by (simp add: dentry_path_def)
qed

subsection \<open>The prefix filter\<close>

lemma prefix_key_padded: "n \<le> 128 \<Longrightarrow> n \<le> length path \<Longrightarrow> prefix_key n path = path_to_key 128 (take n path)"
  by (simp add: prefix_key_def path_to_key_def min_def)

text \<open>
  C22: The in-kernel filter is not a prefix test. With filtering enabled and prefixes without NULs, an event
  for a path that is not ignored is emitted exactly if a prefix of 8, 16, 32 or 64 bytes, or the first 128
  bytes of a longer one, starts the path. A prefix of any other length, such as \<open>/etc/\<close>, matches nothing.
\<close>

theorem should_emit_event_iff:
  assumes "bm_filter_enabled maps = Some n" and "n \<noteq> 0" and "path \<notin> set (bm_ignored maps)"
    and "bm_prefixes maps = map (path_to_key 128) ps" and "\<forall>p\<in>set ps. nul \<notin> set p"
  shows "should_emit_event path maps \<longleftrightarrow>
    (\<exists>p\<in>set ps. (length p \<in> {8, 16, 32, 64} \<or> 128 \<le> length p) \<and>
       prefix (take 128 p) (takeWhile (\<lambda>b. b \<noteq> nul) path))"
proof -
  let ?t = "takeWhile (\<lambda>b. b \<noteq> nul) path"
  have nt: "nul \<notin> set ?t" by (auto dest: set_takeWhileD)
  have take: "take k path = take k ?t" if "k \<le> length ?t" for k
    using that by (metis takeWhile_eq_take take_take min.absorb1)
  have hit: "prefix_key k path \<in> set (bm_prefixes maps) \<longleftrightarrow> (\<exists>p\<in>set ps. take 128 p = take k ?t)"
    if "k \<le> 128" "k \<le> length ?t" for k
  proof -
    have "k \<le> length path" using that(2) length_takeWhile_le le_trans by blast
    then have k: "prefix_key k path = path_to_key 128 (take k ?t)"
      using that take by (simp add: prefix_key_padded)
    have "nul \<notin> set (take k ?t)" using nt by (meson in_set_takeD)
    moreover have "length (take k ?t) \<le> 128" using \<open>k \<le> 128\<close> by simp
    ultimately have "path_to_key 128 (take k ?t) = path_to_key 128 p \<longleftrightarrow> take 128 p = take k ?t" if "p \<in> set ps" for p
      using that assms(5) path_to_key_eq_iff [of p "take k ?t" 128] by metis
    then show ?thesis unfolding k assms(4) set_map image_iff by (rule bex_cong [OF refl])
  qed
  have iff: "(\<exists>k\<in>{128, 64, 32, 16, 8}. k \<le> length ?t \<and> take 128 p = take k ?t) \<longleftrightarrow>
      (length p \<in> {8, 16, 32, 64} \<or> 128 \<le> length p) \<and> prefix (take 128 p) ?t" for p
  proof
    assume "\<exists>k\<in>{128, 64, 32, 16, 8}. k \<le> length ?t \<and> take 128 p = take k ?t"
    then obtain k where k: "k \<in> {128, 64, 32, 16, 8}" "k \<le> length ?t" "take 128 p = take k ?t" by blast
    then have "length (take 128 p) = k" by (simp only: length_take min_def) simp
    with k show "(length p \<in> {8, 16, 32, 64} \<or> 128 \<le> length p) \<and> prefix (take 128 p) ?t"
      by (auto simp: min_def take_is_prefix split: if_splits)
  next
    assume r: "(length p \<in> {8, 16, 32, 64} \<or> 128 \<le> length p) \<and> prefix (take 128 p) ?t"
    then have "take 128 p = take (length (take 128 p)) ?t" "length (take 128 p) \<le> length ?t"
      by (auto simp: prefix_def)
    moreover have "length (take 128 p) \<in> {128, 64, 32, 16, 8}" using r by (auto simp: min_def)
    ultimately show "\<exists>k\<in>{128, 64, 32, 16, 8}. k \<le> length ?t \<and> take 128 p = take k ?t" by metis
  qed
  have "should_emit_event path maps \<longleftrightarrow>
      (\<exists>k\<in>{128, 64, 32, 16, 8}. k \<le> length ?t \<and> prefix_key k path \<in> set (bm_prefixes maps))"
    using assms(1-3) by (simp add: should_emit_event_def Let_def)
  also have "\<dots> \<longleftrightarrow> (\<exists>p\<in>set ps. \<exists>k\<in>{128, 64, 32, 16, 8}. k \<le> length ?t \<and> take 128 p = take k ?t)"
    using hit by auto
  finally show ?thesis using iff by simp
qed

theorem should_emit_event_iff_witness:
  "\<not> should_emit_event (path_to_key MAX_PATH_LEN ''/etc/passwd'')
     \<lparr>bm_events = [], bm_prefixes = [path_to_key 128 ''/etc/''], bm_ignored = [], bm_filter_enabled = Some 1,
      bm_deny = [], bm_process_cache = []\<rparr>"
  using should_emit_event_iff [of "\<lparr>bm_events = [], bm_prefixes = [path_to_key 128 ''/etc/''], bm_ignored = [],
      bm_filter_enabled = Some 1, bm_deny = [], bm_process_cache = []\<rparr>" 1 "path_to_key MAX_PATH_LEN ''/etc/passwd''"
      "[''/etc/'']"]
  by simp

end
