(* ===== verification/Ebpf_Ring.thy ===== *)
theory Ebpf_Ring
  imports Ebpf_Props
begin

section \<open>From the hooks to the event channel\<close>

text \<open>
  The layout of an event is kept from the hook that fills it, through the bytes of the ring buffer, to the
  channel of the daemon.
\<close>

subsection \<open>Well-formed events\<close>

definition event_wf :: "kernel_file_event \<Rightarrow> bool" where
  "event_wf e \<longleftrightarrow> length (ke_path e) = MAX_PATH_LEN \<and> length (ke_comm e) = MAX_COMM_LEN \<and>
     length (ke_container_id e) = MAX_CONTAINER_ID_LEN"

lemma length_copy_name [simp]: "length (copy_name m p pos ci k out) = length out"
  by (induction m p pos ci k out rule: copy_name.induct) auto

lemma length_shift_down [simp]: "length (shift_down pos mi k out) = length out"
  by (induction pos mi k out rule: shift_down.induct) auto

lemma length_walk_dentries: "length (snd (walk_dentries m d cur st)) = length (snd st)"
  by (induction m d cur st rule: walk_dentries.induct) (auto simp: Let_def split: option.splits)

lemma length_extract_path_from_dentry [simp]:
  "length (snd (extract_path_from_dentry m dentry out)) = length out"
  using length_walk_dentries [of m MAX_DEPTH dentry "(MAX_PATH_LEN, out)"]
  by (auto simp: extract_path_from_dentry_def Let_def split: prod.splits)

lemma length_extract_path_from_file [simp]: "length (snd (extract_path_from_file m file out)) = length out"
  by (simp add: extract_path_from_file_def split: option.splits)

lemma event_wf_new [simp]: "event_wf (new_event t ctx)"
  by (simp add: event_wf_def new_event_def populate_process_info_def kernel_file_event_default_def Let_def min_def
      buffer_sizes split: option.splits)

lemma event_wf_update [simp]:
  "event_wf (e\<lparr>ke_event_type := t\<rparr>) = event_wf e"
  "event_wf e \<Longrightarrow> event_wf (e\<lparr>ke_path := p\<rparr>) \<longleftrightarrow> length p = MAX_PATH_LEN"
  "event_wf e \<Longrightarrow> length (ke_path e) = MAX_PATH_LEN"
  by (simp_all add: event_wf_def)

lemma submit_wf:
  "list_all event_wf (bm_events maps) \<Longrightarrow> event_wf e \<Longrightarrow> list_all event_wf (bm_events (submit_event_filtered ctx e maps))"
  by (simp add: submit_event_filtered_def submit_event_def)

text \<open>The hooks as one type, each with the context of its run.\<close>

datatype hook =
    HkJanusOpen u64 | HkJanusPermission u64 i32 | HkCreate u64 | HkUnlink u64 | HkRename u64 u64 | HkArgusOpen u64

definition run_hook :: "bpf_context \<times> hook \<Rightarrow> bpf_maps \<Rightarrow> bpf_maps" where
  "run_hook h maps = (case h of (ctx, k) \<Rightarrow>
     (case k of
        HkJanusOpen file \<Rightarrow> snd (janus_file_open ctx file maps)
      | HkJanusPermission file access \<Rightarrow> snd (janus_file_permission ctx file access maps)
      | HkCreate dentry \<Rightarrow> argus_inode_create ctx dentry maps
      | HkUnlink dentry \<Rightarrow> argus_inode_unlink ctx dentry maps
      | HkRename old new \<Rightarrow> argus_inode_rename ctx old new maps
      | HkArgusOpen file \<Rightarrow> argus_file_open ctx file maps))"

lemmas hook_defs = janus_file_open_def janus_file_permission_def argus_inode_create_def argus_inode_unlink_def
  argus_inode_rename_def argus_file_open_def

lemma run_hook_wf:
  assumes "list_all event_wf (bm_events maps)"
  shows "list_all event_wf (bm_events (run_hook h maps))"
proof (cases h)
  case (Pair ctx k)
  have wf: "event_wf ((new_event t ctx)\<lparr>ke_path := p\<rparr>)" if "length p = MAX_PATH_LEN" for t p using that by simp
  show ?thesis
    using assms by (cases k) (simp_all add: Pair run_hook_def hook_defs Let_def submit_wf wf)
qed

lemma run_hooks_wf: "list_all event_wf (bm_events maps) \<Longrightarrow> list_all event_wf (bm_events (fold run_hook hs maps))"
  by (induction hs arbitrary: maps) (simp_all add: run_hook_wf)

subsection \<open>The bytes of an event\<close>

lemma length_ring_bytes [simp]:
  "length (to_ne_bytes_u32 l w) = 4" "length (to_ne_bytes_u64 l v) = 8"
  by (simp_all add: to_ne_bytes_u32_def to_ne_bytes_u64_def Let_def)

lemma from_to_ne_bytes_u64 [simp]: "from_ne_bytes_u64 l (to_ne_bytes_u64 l w) = w"
proof -
  have top: "ucast (ucast (drop_bit 56 w) :: u8) = drop_bit 56 w"
    by (rule bit_eqI; auto simp: bit_simps dest: bit_imp_le_length)
  have "[0..<8] = [0, 1, 2, 3, 4, 5, 6, 7::nat]" by (simp add: upt_rec)
  with top byte_split [of w] byte_split [of "drop_bit 8 w"] byte_split [of "drop_bit 16 w"] byte_split [of "drop_bit 24 w"]
    byte_split [of "drop_bit 32 w"] byte_split [of "drop_bit 40 w"] byte_split [of "drop_bit 48 w"]
  show ?thesis by (simp add: from_ne_bytes_u64_def to_ne_bytes_u64_def Let_def)
qed

lemma bytes_string_bytes [simp]: "bytes_string (string_bytes s) = s"
proof -
  have "char_of (unat (of_char c :: u8)) = c" for c
  proof -
    have "(of_char c :: nat) < 2 ^ LENGTH(8)"
      using mod_less_divisor [of 256 "of_char c :: nat"] by (simp add: of_char_mod_256)
    then have "unat (of_nat (of_char c) :: u8) = of_char c" by (simp add: unsigned_of_nat take_bit_nat_eq_self)
    then show ?thesis by (simp add: of_nat_of_char)
  qed
  then show ?thesis by (simp add: bytes_string_def string_bytes_def map_idI)
qed

lemma length_string_bytes [simp]: "length (string_bytes s) = length s"
  by (simp add: string_bytes_def)

lemma length_file_event_bytes: "event_wf e \<Longrightarrow> length (file_event_bytes l e) = FILE_EVENT_SIZE"
  by (simp add: event_wf_def file_event_bytes_def FILE_EVENT_SIZE_def)

lemma read_file_event_bytes: "event_wf e \<Longrightarrow> read_file_event l (file_event_bytes l e @ rest) = e"
  by (simp add: event_wf_def read_file_event_def file_event_bytes_def buffer_sizes)

lemma event_loop_delivers:
  assumes "list_all event_wf es" and "\<And>i. is_open i"
  shows "event_loop l is_open n (map (\<lambda>e. file_event_bytes l e @ rest) es) = (es, True)"
  using assms(1)
proof (induction es arbitrary: n)
  case (Cons e es)
  then show ?case using assms(2) by (simp add: length_file_event_bytes read_file_event_bytes)
qed simp

subsection \<open>Properties\<close>

text \<open>
  The lists that stand for the arrays of an event keep their sizes (256 bytes of path, 16 of the command name, 64
  of the container id), so that its bytes are the 368 bytes of the structure.
\<close>

theorem hook_events_typed:
  "\<forall>e\<in>set (bm_events (fold run_hook hs (maps\<lparr>bm_events := []\<rparr>))).
     length (ke_path e) = MAX_PATH_LEN \<and> length (ke_comm e) = MAX_COMM_LEN \<and>
     length (ke_container_id e) = MAX_CONTAINER_ID_LEN \<and> length (file_event_bytes little e) = 368"
proof
  fix e assume e: "e \<in> set (bm_events (fold run_hook hs (maps\<lparr>bm_events := []\<rparr>)))"
  then have "event_wf e" using run_hooks_wf [of "maps\<lparr>bm_events := []\<rparr>" hs] by (simp add: list_all_iff)
  then show "length (ke_path e) = MAX_PATH_LEN \<and> length (ke_comm e) = MAX_COMM_LEN \<and>
     length (ke_container_id e) = MAX_CONTAINER_ID_LEN \<and> length (file_event_bytes little e) = 368"
    using length_file_event_bytes [of e little] by (simp add: event_wf_def FILE_EVENT_SIZE_def buffer_sizes)
qed

text \<open>
  C24: What the hooks submit is what the daemon's channel gets. The events of any sequence of hook runs,
  written to the ring buffer as bytes (followed by whatever padding the buffer has) and read by the polling
  task while the receiver is there, come out in order, complete and with every field unchanged.
\<close>

theorem ring_delivers_hook_events:
  assumes "\<And>i. is_open i" and "es = bm_events (fold run_hook hs (maps\<lparr>bm_events := []\<rparr>))"
  shows "event_loop little is_open 0 (map (\<lambda>e. file_event_bytes little e @ rest) es) = (es, True)"
  using assms run_hooks_wf [of "maps\<lparr>bm_events := []\<rparr>" hs] by (simp add: event_loop_delivers)

definition example_hooks :: "(bpf_context \<times> hook) list" where
  "example_hooks = [(example_bpf_context, HkCreate 1000), (example_bpf_context, HkUnlink 1000)]"

definition empty_maps :: bpf_maps where
  "empty_maps = \<lparr>bm_events = [], bm_prefixes = [], bm_ignored = [], bm_filter_enabled = None, bm_deny = [],
     bm_process_cache = []\<rparr>"

lemma example_hooks_submit: "length (bm_events (fold run_hook example_hooks (empty_maps\<lparr>bm_events := []\<rparr>))) = 2"
  by (simp add: example_hooks_def run_hook_def argus_inode_create_def argus_inode_unlink_def Let_def
      submit_event_filtered_def submit_event_def should_emit_event_def example_bpf_context_def empty_maps_def)

theorem hook_events_typed_witness:
  "\<exists>e\<in>set (bm_events (fold run_hook example_hooks (empty_maps\<lparr>bm_events := []\<rparr>))).
     length (file_event_bytes True e) = 368"
proof -
  let ?es = "bm_events (fold run_hook example_hooks (empty_maps\<lparr>bm_events := []\<rparr>))"
  have "?es \<noteq> []" using example_hooks_submit by auto
  then have "hd ?es \<in> set ?es" by (rule hd_in_set)
  then show ?thesis using hook_events_typed [of example_hooks empty_maps True] by blast
qed

theorem ring_delivers_hook_events_witness:
  "length (fst (event_loop True (\<lambda>_. True) 0
     (map (\<lambda>e. file_event_bytes True e @ [0]) (bm_events (fold run_hook example_hooks (empty_maps\<lparr>bm_events := []\<rparr>)))))) = 2"
  using ring_delivers_hook_events [of "\<lambda>_. True", OF _ refl, of True "[0]" example_hooks empty_maps] example_hooks_submit
  by simp

end
