(* ===== verification/Janus_Ebpf_Service.thy ===== *)
theory Janus_Ebpf_Service
  imports Ebpf_Loader Janus_Service
begin

section \<open>The gRPC service of janusd in eBPF mode\<close>

text \<open>
  \<open>janusd/src/service_ebpf.rs\<close>. The messages are those of the fanotify mode. One loaded object, with its maps,
  serves every session; \<open>jb_loader\<close> is \<open>None\<close> until the first \<open>create_guard\<close>. The forwarding task is
  spawned once and \<open>forward_access_event\<close> is one turn of its loop. The handlers are split where they lock again.
\<close>

subsection \<open>State\<close>

record ebpf_guard_session_state =
  egs_subjects :: "guard_subject list"
  egs_log_format :: string
  egs_enforcing :: bool
  egs_typed_metrics :: nat
  egs_guarded_prefixes :: u64
  egs_deny_paths_count :: u64
  egs_marks_registered :: bool
  egs_ready_at :: "int option"
  egs_active_prefixes :: "string list"
  egs_active_deny_paths :: "string list"

record janus_ebpf =
  jb_node_name :: string
  jb_cluster_name :: string
  jb_max_guards :: nat
  jb_sessions :: "ebpf_guard_session_state session_table"
  jb_metrics :: "nat metrics_aggregator"
  jb_metrics_heap :: "guard_metrics list"
  jb_runtime :: "container_runtime option"
  jb_audit :: audit_logger
  jb_loader :: "ebpf_object option"
  jb_receiver :: bool
  jb_forwarders :: nat

record ebpf_env =
  xe_aya :: aya_api
  xe_fs :: file_system
  xe_host_root_path :: "string option"
  xe_now :: int
  xe_instant :: nat
  xe_show_io :: "io_error \<Rightarrow> string"

definition JANUS_BYTECODE_PATH :: string where
  "JANUS_BYTECODE_PATH = ''/usr/lib/janusd/janusd-ebpf''"

definition JANUS_LSM_PROGRAMS :: "string list" where
  "JANUS_LSM_PROGRAMS = [''file_open'', ''file_permission'']"

definition janus_ebpf_new ::
  "container_runtime option \<Rightarrow> string \<Rightarrow> string \<Rightarrow> nat \<Rightarrow> audit_logger \<Rightarrow> janus_ebpf" where
  "janus_ebpf_new runtime node cluster max_guards audit =
     \<lparr>jb_node_name = node, jb_cluster_name = cluster, jb_max_guards = max_guards, jb_sessions = new_session_map,
      jb_metrics = aggregator_new node, jb_metrics_heap = [], jb_runtime = runtime, jb_audit = audit,
      jb_loader = None, jb_receiver = False, jb_forwarders = 0\<rparr>"

definition ebpf_session_to_guard_state :: "ebpf_guard_session_state session \<Rightarrow> guard_state" where
  "ebpf_session_to_guard_state s =
     \<lparr>st_guard_name = s_name s, st_namespace = s_namespace s, st_node_name = s_node_name s,
      st_pod_name = s_pod_name s, st_pids = s_pids s, st_process_eventfds = [],
      st_created_at = to_timestamp (s_created_at s), st_subjects = egs_subjects (s_state s),
      st_log_format = egs_log_format (s_state s), st_paused = s_paused s,
      st_enforcing = egs_enforcing (s_state s),
      st_guarded_paths =
        of_nat (sum_list (map (\<lambda>x. length (gsub_allow x) + length (gsub_deny x)) (egs_subjects (s_state s)))),
      st_marks_registered = egs_marks_registered (s_state s),
      st_ready_at = Option.bind (egs_ready_at (s_state s)) to_timestamp,
      st_mount_count = ucast (egs_guarded_prefixes (s_state s))\<rparr>"

subsection \<open>The loader\<close>

text \<open>The steps between loading and storing; a failure drops the loaded object.\<close>

definition load_ebpf :: "aya_api \<Rightarrow> file_system \<Rightarrow> string \<Rightarrow> string list \<Rightarrow> ebpf_error + ebpf_object" where
  "load_ebpf ay fs path programs =
     (case load_from_path ay fs path programs of
        Inl e \<Rightarrow> Inl e
      | Inr obj \<Rightarrow>
          (case set_filter_enabled ay True obj of
             (Inl e, _) \<Rightarrow> Inl e
           | (Inr _, obj1) \<Rightarrow>
               (case attach_process_tracepoints ay obj1 of
                  (_, obj2) \<Rightarrow>
                    (case start_event_loop ay obj2 of
                       (Inl e, _) \<Rightarrow> Inl e
                     | (Inr _, obj3) \<Rightarrow> Inr obj3))))"

definition janus_ensure_ebpf_initialized :: "ebpf_env \<Rightarrow> janus_ebpf \<Rightarrow> (ebpf_error + unit) \<times> janus_ebpf" where
  "janus_ensure_ebpf_initialized env svc =
     (if jb_loader svc \<noteq> None then (Inr (), svc)
      else (case load_ebpf (xe_aya env) (xe_fs env) JANUS_BYTECODE_PATH JANUS_LSM_PROGRAMS of
              Inl e \<Rightarrow> (Inl e, svc)
            | Inr obj \<Rightarrow>
                (Inr (), svc\<lparr>jb_loader := Some obj, jb_receiver := True, jb_forwarders := jb_forwarders svc + 1\<rparr>)))"

text \<open>A change of the maps under the loader's lock.\<close>

definition on_loader ::
  "(ebpf_object \<Rightarrow> (ebpf_error + unit) \<times> ebpf_object) \<Rightarrow> ebpf_object option
   \<Rightarrow> (ebpf_error + unit) \<times> ebpf_object option" where
  "on_loader f l =
     (case l of
        None \<Rightarrow> (Inl (EbMap ''eBPF not initialized''), None)
      | Some obj \<Rightarrow> (case f obj of (r, obj1) \<Rightarrow> (r, Some obj1)))"

definition janus_on_loader ::
  "(ebpf_object \<Rightarrow> (ebpf_error + unit) \<times> ebpf_object) \<Rightarrow> janus_ebpf \<Rightarrow> (ebpf_error + unit) \<times> janus_ebpf" where
  "janus_on_loader f svc = (case on_loader f (jb_loader svc) of (r, l) \<Rightarrow> (r, svc\<lparr>jb_loader := l\<rparr>))"

definition add_guarded_prefixes :: "ebpf_env \<Rightarrow> string list \<Rightarrow> janus_ebpf \<Rightarrow> (ebpf_error + unit) \<times> janus_ebpf" where
  "add_guarded_prefixes env ps =
     janus_on_loader (for_paths (\<lambda>p. add_watched_prefix (xe_aya env) p ''GUARDED_PREFIXES'') ps)"

definition remove_guarded_prefixes :: "ebpf_env \<Rightarrow> string list \<Rightarrow> janus_ebpf \<Rightarrow> (ebpf_error + unit) \<times> janus_ebpf" where
  "remove_guarded_prefixes env ps =
     janus_on_loader (for_paths (\<lambda>p. remove_watched_prefix (xe_aya env) p ''GUARDED_PREFIXES'') ps)"

definition add_deny_paths :: "ebpf_env \<Rightarrow> string list \<Rightarrow> janus_ebpf \<Rightarrow> (ebpf_error + unit) \<times> janus_ebpf" where
  "add_deny_paths env ps = janus_on_loader (for_paths (add_deny_path (xe_aya env)) ps)"

definition remove_deny_paths :: "ebpf_env \<Rightarrow> string list \<Rightarrow> janus_ebpf \<Rightarrow> (ebpf_error + unit) \<times> janus_ebpf" where
  "remove_deny_paths env ps = janus_on_loader (for_paths (remove_deny_path (xe_aya env)) ps)"

subsection \<open>Forwarding\<close>

definition ebpf_live_sessions :: "janus_ebpf \<Rightarrow> ebpf_guard_session_state session list" where
  "ebpf_live_sessions svc = map (\<lambda>(k, a). tbl_heap (jb_sessions svc) ! a) (tbl_map (jb_sessions svc))"

definition cached_process_of :: "aya_api \<Rightarrow> u32 \<Rightarrow> ebpf_object option \<Rightarrow> process_cache_entry option" where
  "cached_process_of ay tgid l =
     (case l of
        None \<Rightarrow> None
      | Some obj \<Rightarrow> (case get_cached_process ay tgid obj of Inr c \<Rightarrow> c | Inl _ \<Rightarrow> None))"

text \<open>\<open>split('\0')\<close> of a text that ends before the first NUL.\<close>

definition cached_cmdline :: "process_cache_entry \<Rightarrow> string list" where
  "cached_cmdline c = filter (\<lambda>s. s \<noteq> []) (split_on nul (pc_cmdline_str c))"

definition session_matches :: "string \<Rightarrow> string list \<Rightarrow> bool" where
  "session_matches path active_prefixes = list_ex (starts_with path) active_prefixes"

definition path_denied :: "string \<Rightarrow> ebpf_guard_session_state \<Rightarrow> bool" where
  "path_denied path st \<longleftrightarrow>
     egs_enforcing st \<and> list_ex (\<lambda>p. path = p \<or> starts_with path p) (egs_active_deny_paths st)"

definition access_process_info ::
  "ebpf_access_event \<Rightarrow> process_cache_entry option \<Rightarrow> string \<Rightarrow> proto_process_info option" where
  "access_process_info e cached exe_path =
     (if xa_has_process_info e then
        Some \<lparr>pp_pid = xa_pid e, pp_tid = xa_tgid e, pp_uid = xa_uid e, pp_gid = xa_gid e, pp_comm = xa_comm e,
              pp_exe = exe_path, pp_ppid = (case cached of Some c \<Rightarrow> pc_ppid c | None \<Rightarrow> 0),
              pp_cmdline = (case cached of Some c \<Rightarrow> cached_cmdline c | None \<Rightarrow> []),
              pp_cwd = (case cached of Some c \<Rightarrow> pc_cwd_str c | None \<Rightarrow> [])\<rparr>
      else None)"

definition access_event_for ::
  "string \<Rightarrow> string \<Rightarrow> ebpf_access_event \<Rightarrow> process_cache_entry option \<Rightarrow> ebpf_guard_session_state session
   \<Rightarrow> audit_access_event \<times> proto_access_event" where
  "access_event_for node cluster e cached s =
     (let denied = path_denied (xa_path e) (s_state s);
          container_id = (case s_container_ids s of c # _ \<Rightarrow> c | [] \<Rightarrow> []);
          exe_path = (case cached of Some c \<Rightarrow> if pc_has_exe c then pc_exe_str c else [] | None \<Rightarrow> [])
      in (\<lparr>ae_guard_name = s_name s, ae_namespace = s_namespace s, ae_pod_name = s_pod_name s,
           ae_container_id = container_id, ae_path = xa_path e, ae_pid = xa_pid e, ae_uid = xa_uid e,
           ae_gid = xa_gid e, ae_response = (if denied then Deny else Allow), ae_event_type = EvAccess,
           ae_comm = xa_comm e, ae_exe = exe_path\<rparr>,
          \<lparr>pa_timestamp = Some \<lparr>seconds = xa_timestamp_ns e div 1000000000,
                                nanos = ucast (xa_timestamp_ns e mod 1000000000)\<rparr>,
           pa_guard_name = s_name s, pa_namespace = s_namespace s, pa_node_name = node,
           pa_pod_name = s_pod_name s, pa_container_id = container_id,
           pa_event_type = fanotify_event_to_i32 FeAccess, pa_path = xa_path e,
           pa_response = (if denied then PROTO_DENY else PROTO_ALLOW),
           pa_process_info = access_process_info e cached exe_path, pa_is_directory = False, pa_tags = [],
           pa_audit_logged = True, pa_cluster_name = cluster\<rparr>))"

text \<open>The body of the loop over the sessions: metrics, the audit record, the broadcast.\<close>

definition forward_to_session ::
  "bool \<Rightarrow> u32 \<Rightarrow> (u8 list \<Rightarrow> nat + unit) \<Rightarrow> ebpf_access_event \<Rightarrow> process_cache_entry option
   \<Rightarrow> ebpf_guard_session_state session \<Rightarrow> u8 list list \<times> proto_access_event list \<times> janus_ebpf
   \<Rightarrow> u8 list list \<times> proto_access_event list \<times> janus_ebpf" where
  "forward_to_session little self_pid sendto e cached s acc =
     (case acc of (frames, out, svc) \<Rightarrow>
       if \<not> session_matches (xa_path e) (egs_active_prefixes (s_state s)) then acc
       else (let (ae, pe) = access_event_for (jb_node_name svc) (jb_cluster_name svc) e cached s;
                 m = egs_typed_metrics (s_state s);
                 gm = record_event_type (xa_event_type_str e)
                        (record_response (ae_response ae) (jb_metrics_heap svc ! m));
                 (_, lg, fs) = log_access little self_pid sendto ae (jb_audit svc)
             in (frames @ fs, out @ [pe],
                 svc\<lparr>jb_metrics_heap := (jb_metrics_heap svc)[m := gm], jb_audit := lg\<rparr>)))"

definition forward_access_event ::
  "aya_api \<Rightarrow> bool \<Rightarrow> u32 \<Rightarrow> (u8 list \<Rightarrow> nat + unit) \<Rightarrow> kernel_file_event \<Rightarrow> janus_ebpf
   \<Rightarrow> u8 list list \<times> proto_access_event list \<times> janus_ebpf" where
  "forward_access_event ay little self_pid sendto raw svc =
     (let e = access_event_of_kernel raw;
          cached = cached_process_of ay (ke_tgid raw) (jb_loader svc)
      in fold (forward_to_session little self_pid sendto e cached) (ebpf_live_sessions svc) ([], [], svc))"

subsection \<open>Creation and destruction\<close>

definition ebpf_resolve_container_pids :: "file_system \<Rightarrow> janus_ebpf \<Rightarrow> string list \<Rightarrow> i32 list" where
  "ebpf_resolve_container_pids fs svc ids =
     (case jb_runtime svc of
        None \<Rightarrow> []
      | Some rt \<Rightarrow> List.map_filter (\<lambda>cid. case resolve_pid fs rt cid of Inr pid \<Rightarrow> Some pid | Inl _ \<Rightarrow> None) ids)"

definition prefix_of :: "string \<Rightarrow> string \<Rightarrow> string" where
  "prefix_of container_root path = from_utf8_lossy (full_path_of container_root path)"

definition build_prefixes ::
  "file_system \<Rightarrow> janus_ebpf \<Rightarrow> guard_subject list \<Rightarrow> string list \<Rightarrow> string list \<times> string list" where
  "build_prefixes fs svc subjects ids =
     (case jb_runtime svc of
        None \<Rightarrow> ([], [])
      | Some rt \<Rightarrow>
          (let roots = List.map_filter (\<lambda>cid. case resolve_pid fs rt cid of
                         Inr pid \<Rightarrow> Some (resolve_container_root rt pid) | Inl _ \<Rightarrow> None) ids
           in (concat (map (\<lambda>root. concat (map (\<lambda>s. map (prefix_of root) (gsub_allow s)) subjects)) roots),
               concat (map (\<lambda>root. concat (map (\<lambda>s. map (prefix_of root) (gsub_deny s)) subjects)) roots))))"

definition ebpf_create_check :: "create_guard_request \<Rightarrow> janus_ebpf \<Rightarrow> grpc_status option" where
  "ebpf_create_check req svc =
     (if session_count (jb_sessions svc) \<ge> jb_max_guards svc
      then Some (ResourceExhausted (''Maximum guards ('' @ show_nat (jb_max_guards svc) @ '') exceeded''))
      else if session_exists (cg_key req) (jb_sessions svc)
      then Some (StatusAlreadyExists (''Guard already exists: '' @ cg_key req))
      else None)"

definition ebpf_new_guard_session ::
  "int \<Rightarrow> create_guard_request \<Rightarrow> i32 list \<Rightarrow> nat \<Rightarrow> string list \<Rightarrow> string list
   \<Rightarrow> ebpf_guard_session_state session" where
  "ebpf_new_guard_session now req pids m ps ds =
     \<lparr>s_id = cg_key req, s_name = cg_guard_name req, s_namespace = cg_namespace req,
      s_node_name = cg_node_name req, s_pod_name = cg_pod_name req,
      s_container_ids = cg_container_ids req, s_pids = pids, s_paused = cg_paused req,
      s_created_at = now, s_running = True, s_metrics = m,
      s_state = \<lparr>egs_subjects = cg_subjects req, egs_log_format = cg_log_format req,
        egs_enforcing = cg_enforcing req, egs_typed_metrics = m, egs_guarded_prefixes = of_nat (length ps),
        egs_deny_paths_count = of_nat (length ds), egs_marks_registered = False, egs_ready_at = None,
        egs_active_prefixes = ps, egs_active_deny_paths = ds\<rparr>\<rparr>"

definition ebpf_create_insert ::
  "ebpf_env \<Rightarrow> create_guard_request \<Rightarrow> string list \<Rightarrow> string list \<Rightarrow> janus_ebpf \<Rightarrow> nat \<times> janus_ebpf" where
  "ebpf_create_insert env req ps ds svc =
     (let pids = (if cg_pids req = [] then ebpf_resolve_container_pids (xe_fs env) svc (cg_container_ids req)
                  else cg_pids req);
          m = length (jb_metrics_heap svc);
          (a, tbl) = map_insert (cg_key req) (ebpf_new_guard_session (xe_now env) req pids m ps ds) (jb_sessions svc)
      in (a, svc\<lparr>jb_metrics_heap := jb_metrics_heap svc @ [guard_metrics_new (cg_guard_name req)],
                 jb_sessions := tbl, jb_metrics := agg_register m (jb_metrics svc)\<rparr>))"

definition ebpf_mark_ready :: "nat \<Rightarrow> int \<Rightarrow> janus_ebpf \<Rightarrow> janus_ebpf" where
  "ebpf_mark_ready a now svc =
     svc\<lparr>jb_sessions := session_modify a
       (\<lambda>s. s\<lparr>s_state := (s_state s)\<lparr>egs_marks_registered := True, egs_ready_at := Some now\<rparr>\<rparr>) (jb_sessions svc)\<rparr>"

text \<open>Failures to fill the maps are logged only; the guard is marked as ready all the same.\<close>

definition ebpf_create_configure ::
  "ebpf_env \<Rightarrow> create_guard_request \<Rightarrow> nat \<Rightarrow> string list \<Rightarrow> string list \<Rightarrow> janus_ebpf \<Rightarrow> i32 \<times> janus_ebpf" where
  "ebpf_create_configure env req a ps ds svc =
     (if \<not> cg_paused req \<and> ps \<noteq> [] then
        (let (r, svc1) = add_guarded_prefixes env ps svc;
             n = (case r of Inr _ \<Rightarrow> of_nat (length ps) | Inl _ \<Rightarrow> 0);
             svc2 = (if cg_enforcing req \<and> ds \<noteq> [] then snd (add_deny_paths env ds svc1) else svc1)
         in (n, ebpf_mark_ready a (xe_now env) svc2))
      else (0, svc))"

definition ebpf_create_guard ::
  "ebpf_env \<Rightarrow> create_guard_request \<Rightarrow> janus_ebpf \<Rightarrow> (grpc_status + create_guard_response) \<times> janus_ebpf" where
  "ebpf_create_guard env req svc =
     (case ebpf_create_check req svc of
        Some st \<Rightarrow> (Inl st, svc)
      | None \<Rightarrow>
          (case janus_ensure_ebpf_initialized env svc of
             (Inl e, svc1) \<Rightarrow> (Inl (Internal (''Failed to initialize eBPF: '' @ show_ebpf_error e)), svc1)
           | (Inr _, svc1) \<Rightarrow>
               (let (ps, ds) = build_prefixes (xe_fs env) svc1 (cg_subjects req) (cg_container_ids req);
                    (a, svc2) = ebpf_create_insert env req ps ds svc1;
                    (n, svc3) = ebpf_create_configure env req a ps ds svc2
                in (Inr (create_guard_response_of req n), svc3))))"

definition ebpf_destroy_guard ::
  "ebpf_env \<Rightarrow> string \<Rightarrow> string \<Rightarrow> string \<Rightarrow> janus_ebpf \<Rightarrow> (grpc_status + unit) \<times> janus_ebpf" where
  "ebpf_destroy_guard env guard_name ns pod svc =
     (let key = session_key guard_name ns pod in
      case session_remove key (jb_sessions svc) of
        (None, tbl) \<Rightarrow> (Inl (StatusNotFound (''Guard not found: '' @ key)), svc\<lparr>jb_sessions := tbl\<rparr>)
      | (Some a, tbl) \<Rightarrow>
          (let st = s_state (tbl_heap tbl ! a);
               svc1 = svc\<lparr>jb_sessions := tbl\<rparr>;
               svc2 = (if egs_active_prefixes st \<noteq> [] then snd (remove_guarded_prefixes env (egs_active_prefixes st) svc1)
                       else svc1);
               svc3 = (if egs_active_deny_paths st \<noteq> [] then snd (remove_deny_paths env (egs_active_deny_paths st) svc2)
                       else svc2)
           in (Inr (), svc3\<lparr>jb_metrics := agg_unregister (\<lambda>m. gm_guard_name (jb_metrics_heap svc3 ! m)) key
                              (jb_metrics svc3)\<rparr>)))"

subsection \<open>Queries and updates\<close>

definition ebpf_get_guard_state :: "string \<Rightarrow> string \<Rightarrow> (nat \<Rightarrow> bool) \<Rightarrow> janus_ebpf \<Rightarrow> guard_state list" where
  "ebpf_get_guard_state guard_name ns connected svc =
     send_all connected 0
       (map ebpf_session_to_guard_state
         (filter (\<lambda>s. \<not> (guard_name \<noteq> [] \<and> s_name s \<noteq> guard_name) \<and> \<not> (ns \<noteq> [] \<and> s_namespace s \<noteq> ns))
           (ebpf_live_sessions svc)))"

definition ebpf_stream_access_events ::
  "string \<Rightarrow> string \<Rightarrow> i32 list \<Rightarrow> bool \<Rightarrow> (nat \<Rightarrow> bool) \<Rightarrow> proto_access_event recv_result list
   \<Rightarrow> proto_access_event list" where
  "ebpf_stream_access_events guard_name ns event_types include_allowed connected rs =
     stream_loop (access_event_wanted guard_name ns event_types include_allowed) (\<lambda>e. e) connected 0 rs"

definition ebpf_get_metrics :: "string \<Rightarrow> janus_ebpf \<Rightarrow> metrics_response outcome" where
  "ebpf_get_metrics guard_name svc =
     (let ss = filter (\<lambda>s. \<not> (guard_name \<noteq> [] \<and> s_name s \<noteq> guard_name)) (ebpf_live_sessions svc);
          snap = (\<lambda>s. guard_snapshot_of (jb_metrics_heap svc ! egs_typed_metrics (s_state s)))
      in case (checked_sum 0 (map (gs_events_denied \<circ> snap) ss), checked_sum 0 (map (gs_events_allowed \<circ> snap) ss),
               checked_sum 0 (map (gs_events_total \<circ> snap) ss)) of
           (Returned denied, Returned allowed, Returned processed) \<Rightarrow>
             Returned
               \<lparr>mr_active_guards = ucast (at_active_sessions (agg_totals (jb_metrics svc))),
                mr_total_events_processed = processed, mr_total_denied = denied, mr_total_allowed = allowed,
                mr_guard_metrics = map (\<lambda>s.
            \<lparr>pg_guard_name = s_name s, pg_namespace = s_namespace s, pg_denied_count = gs_events_denied (snap s),
             pg_allowed_count = gs_events_allowed (snap s), pg_audited_count = gs_events_audited (snap s),
             pg_event_counts = event_counts (snap s), pg_queue_overflows = 0\<rparr>) ss\<rparr>
         | _ \<Rightarrow> Panicked)"

definition ebpf_set_paused :: "nat \<Rightarrow> bool \<Rightarrow> janus_ebpf \<Rightarrow> janus_ebpf" where
  "ebpf_set_paused a b svc =
     svc\<lparr>jb_sessions := session_modify a (\<lambda>s. s\<lparr>s_paused := b, s_running := \<not> b\<rparr>) (jb_sessions svc)\<rparr>"

text \<open>A step of a handler that is skipped when it has nothing to do and whose failure becomes the answer.\<close>

definition filter_step ::
  "bool \<Rightarrow> string \<Rightarrow> ('svc \<Rightarrow> (ebpf_error + unit) \<times> 'svc) \<Rightarrow> 'svc \<Rightarrow> (grpc_status + unit) \<times> 'svc" where
  "filter_step needed text f svc =
     (if needed then
        (case f svc of
           (Inl e, svc1) \<Rightarrow> (Inl (Internal (text @ show_ebpf_error e)), svc1)
         | (Inr _, svc1) \<Rightarrow> (Inr (), svc1))
      else (Inr (), svc))"

definition ebpf_pause_guard ::
  "ebpf_env \<Rightarrow> string \<Rightarrow> nat \<Rightarrow> janus_ebpf \<Rightarrow> (grpc_status + update_guard_response) \<times> janus_ebpf" where
  "ebpf_pause_guard env key a svc =
     (let s = tbl_heap (jb_sessions svc) ! a; st = s_state s in
      if s_paused s then (Inl (FailedPrecondition ''Guard is already paused''), svc)
      else (case filter_step (egs_active_prefixes st \<noteq> []) ''Failed to pause: ''
                   (remove_guarded_prefixes env (egs_active_prefixes st)) svc of
              (Inl e, svc1) \<Rightarrow> (Inl e, svc1)
            | (Inr _, svc1) \<Rightarrow>
                (case filter_step (egs_active_deny_paths st \<noteq> []) ''Failed to remove deny paths: ''
                        (remove_deny_paths env (egs_active_deny_paths st)) svc1 of
                   (Inl e, svc2) \<Rightarrow> (Inl e, svc2)
                 | (Inr _, svc2) \<Rightarrow>
                     (Inr \<lparr>ug_guard_id = key, ug_paused = True, ug_enforcing = egs_enforcing st, ug_guarded_paths = 0\<rparr>,
                      ebpf_set_paused a True svc2))))"

definition ebpf_resume_guard ::
  "ebpf_env \<Rightarrow> string \<Rightarrow> nat \<Rightarrow> janus_ebpf \<Rightarrow> (grpc_status + update_guard_response) \<times> janus_ebpf" where
  "ebpf_resume_guard env key a svc =
     (let s = tbl_heap (jb_sessions svc) ! a; st = s_state s in
      if \<not> s_paused s then (Inl (FailedPrecondition ''Guard is not paused''), svc)
      else (case filter_step (egs_active_prefixes st \<noteq> []) ''Failed to resume: ''
                   (add_guarded_prefixes env (egs_active_prefixes st)) svc of
              (Inl e, svc1) \<Rightarrow> (Inl e, svc1)
            | (Inr _, svc1) \<Rightarrow>
                (case filter_step (egs_enforcing st \<and> egs_active_deny_paths st \<noteq> []) ''Failed to add deny paths: ''
                        (add_deny_paths env (egs_active_deny_paths st)) svc1 of
                   (Inl e, svc2) \<Rightarrow> (Inl e, svc2)
                 | (Inr _, svc2) \<Rightarrow>
                     (Inr \<lparr>ug_guard_id = key, ug_paused = False, ug_enforcing = egs_enforcing st,
                           ug_guarded_paths = of_nat (length (egs_active_prefixes st))\<rparr>,
                      ebpf_set_paused a False svc2))))"

definition ebpf_update_guard ::
  "ebpf_env \<Rightarrow> string \<Rightarrow> string \<Rightarrow> string \<Rightarrow> i32 \<Rightarrow> janus_ebpf
   \<Rightarrow> (grpc_status + update_guard_response) \<times> janus_ebpf" where
  "ebpf_update_guard env guard_name ns pod action svc =
     (let key = session_key guard_name ns pod in
      case session_get key (jb_sessions svc) of
        None \<Rightarrow> (Inl (StatusNotFound (''Guard not found: '' @ key)), svc)
      | Some a \<Rightarrow>
          (case update_action_of action of
             UaPause \<Rightarrow> ebpf_pause_guard env key a svc
           | UaResume \<Rightarrow> ebpf_resume_guard env key a svc
           | UaUnspecified \<Rightarrow> (Inl (InvalidArgument ''Action must be PAUSE or RESUME''), svc)))"

text \<open>The old deny paths go, the new ones come; then the session and its first subject are changed.\<close>

definition replace_deny_paths ::
  "ebpf_env \<Rightarrow> string list \<Rightarrow> nat \<Rightarrow> janus_ebpf \<Rightarrow> (grpc_status + unit) \<times> janus_ebpf" where
  "replace_deny_paths env deny a svc =
     (let old = egs_active_deny_paths (s_state (tbl_heap (jb_sessions svc) ! a)) in
      case filter_step (old \<noteq> []) ''Failed to remove old deny paths: '' (remove_deny_paths env old) svc of
        (Inl e, svc1) \<Rightarrow> (Inl e, svc1)
      | (Inr _, svc1) \<Rightarrow>
          (case filter_step True ''Failed to add deny paths: '' (add_deny_paths env deny) svc1 of
             (Inl e, svc2) \<Rightarrow> (Inl e, svc2)
           | (Inr _, svc2) \<Rightarrow>
               (Inr (), svc2\<lparr>jb_sessions := session_modify a
                  (\<lambda>s. s\<lparr>s_state := (s_state s)\<lparr>egs_active_deny_paths := deny,
                          egs_deny_paths_count := of_nat (length deny)\<rparr>\<rparr>) (jb_sessions svc2)\<rparr>)))"

definition ebpf_update_policy ::
  "ebpf_env \<Rightarrow> string \<Rightarrow> string \<Rightarrow> string \<Rightarrow> string list \<Rightarrow> string list \<Rightarrow> janus_ebpf
   \<Rightarrow> (grpc_status + update_policy_response) \<times> janus_ebpf" where
  "ebpf_update_policy env guard_name ns pod deny allow svc =
     (let key = session_key guard_name ns pod in
      case session_get key (jb_sessions svc) of
        None \<Rightarrow> (Inl (StatusNotFound (''Guard not found: '' @ key)), svc)
      | Some a \<Rightarrow>
          (case (if deny \<noteq> [] then replace_deny_paths env deny a svc else (Inr (), svc)) of
             (Inl e, svc1) \<Rightarrow> (Inl e, svc1)
           | (Inr _, svc1) \<Rightarrow>
               (let subjects = replace_first_patterns deny allow
                                 (egs_subjects (s_state (tbl_heap (jb_sessions svc1) ! a)))
                in (Inr \<lparr>up_guard_id = key,
                         up_deny_pattern_count = of_nat (sum_list (map (length \<circ> gsub_deny) subjects)),
                         up_allow_pattern_count = of_nat (sum_list (map (length \<circ> gsub_allow) subjects)),
                         up_cache_cleared = True\<rparr>,
                    svc1\<lparr>jb_sessions := session_modify a
                          (\<lambda>s. s\<lparr>s_state := (s_state s)\<lparr>egs_subjects := subjects\<rparr>\<rparr>) (jb_sessions svc1)\<rparr>))))"

subsection \<open>Loading the example object\<close>

lemma example_attach:
  "set names \<subseteq> fst ` set (eo_programs obj) \<Longrightarrow> set (eo_programs obj) \<subseteq> UNIV \<times> {LsmProgram} \<Longrightarrow>
   \<exists>att. attach_programs (ref_aya cap o0) names obj = Inr (obj\<lparr>eo_attached := att\<rparr>)"
proof (induction names arbitrary: obj)
  case Nil
  then show ?case by (intro exI [of _ "eo_attached obj"]) simp
next
  case (Cons n names)
  then have "map_of (eo_programs obj) n \<noteq> None" by (auto simp: map_of_eq_None_iff)
  then obtain k where k: "map_of (eo_programs obj) n = Some k" by blast
  with Cons.prems(2) have "k = LsmProgram" by (auto dest!: map_of_SomeD)
  with k have "attach_lsm_program (ref_aya cap o0) n obj = Inr (obj\<lparr>eo_attached := eo_attached obj @ [n]\<rparr>)"
    by (simp add: attach_lsm_program_def ref_aya_def)
  with Cons.IH [of "obj\<lparr>eo_attached := eo_attached obj @ [n]\<rparr>"] Cons.prems show ?case by auto
qed

lemma example_load:
  assumes "path \<noteq> ''/proc/sys/kernel/osrelease''" and "set names \<subseteq> fst ` set (eo_programs example_object)"
  shows "\<exists>obj. load_ebpf example_aya example_kernel path names = Inr obj \<and>
    eo_maps obj = [(''WATCHED_PREFIXES'', PathMap 128 []), (''GUARDED_PREFIXES'', PathMap 128 []),
        (''IGNORED_PATHS'', PathMap 256 []), (''FILTER_ENABLED'', FlagMap (Some 1)), (''DENY_PATHS'', PathMap 256 []),
        (''PROCESS_CACHE'', CacheMap [])]"
proof -
  have "set (eo_programs example_object) \<subseteq> UNIV \<times> {LsmProgram}" by (auto simp: example_object_def)
  from example_attach [OF assms(2) this] obtain att where
    "attach_programs example_aya names example_object = Inr (example_object\<lparr>eo_attached := att\<rparr>)" by blast
  moreover have "fs_read example_kernel path = Inr []" using assms(1) by (simp add: example_kernel_def)
  moreover have "ay_btf example_aya = Inr ()" "ay_load example_aya b = Inr example_object" for b
    by (simp_all add: ref_aya_def)
  ultimately have "load_from_path example_aya example_kernel path names = Inr (example_object\<lparr>eo_attached := att\<rparr>)"
    using example_supported by (simp add: load_from_path_def load_with_programs_def)
  then show ?thesis
    by (simp add: load_ebpf_def)
      (simp add: example_object_def set_filter_enabled_def attach_process_tracepoints_def
        attach_tracepoint_if_exists_def start_event_loop_def ref_aya_def)
qed

end
