(* ===== verification/Ebpf_Process.thy ===== *)
theory Ebpf_Process
  imports Janus_Ebpf_Service Ebpf_Props
begin

section \<open>The process cache\<close>

text \<open>
  What the exec tracepoint stores of a command line and what becomes of it, and which entries the cache can
  hold after any sequence of exec and exit events.
\<close>

subsection \<open>The command line\<close>

text \<open>The argument area of a process: its arguments, each ended by a NUL, readable byte for byte.\<close>

definition arg_bytes :: "string list \<Rightarrow> string" where
  "arg_bytes args = concat (map (\<lambda>a. a @ [nul]) args)"

definition arg_area :: "bpf_context \<Rightarrow> string list \<Rightarrow> bool" where
  "arg_area ctx args \<longleftrightarrow>
     (\<exists>mm arg_start arg_end. bc_task ctx \<noteq> 0 \<and> mm \<noteq> 0 \<and> arg_start \<noteq> 0 \<and> arg_start < arg_end \<and>
        km_ptr (bc_mem ctx) (bc_task ctx + TASK_MM_OFFSET) = Some mm \<and>
        km_ptr (bc_mem ctx) (mm + MM_ARG_START_OFFSET) = Some arg_start \<and>
        km_ptr (bc_mem ctx) (mm + MM_ARG_END_OFFSET) = Some arg_end \<and>
        unat (arg_end - arg_start) = length (arg_bytes args) \<and>
        (\<forall>i<length (arg_bytes args). km_u8 (bc_mem ctx) (arg_start + of_nat i) = Some (arg_bytes args ! i)))"

definition spaced :: "char \<Rightarrow> char" where
  "spaced b = (if b = nul then CHR '' '' else b)"

lemma spaced_simps [simp]: "spaced nul = CHR '' ''" "b \<noteq> nul \<Longrightarrow> spaced b = b"
  by (simp_all add: spaced_def)

lemma copy_cmdline_copies:
  assumes "i \<le> n - 1" and "n = length bs" and "0 < n" and "n \<le> MAX_CMDLINE_LEN" and "last bs = nul"
    and "\<And>j. j < n \<Longrightarrow> km_u8 m (s + of_nat j) = Some (bs ! j)" and "length out = MAX_CMDLINE_LEN"
  shows "copy_cmdline m s n (n - i) i i out =
    (n - 1, take i out @ map spaced (drop i (butlast bs)) @ drop (n - 1) out)"
  using assms(1,7)
proof (induction "n - 1 - i" arbitrary: i out)
  case 0
  with assms(3) have i: "i = n - 1" "n - i = Suc 0" by auto
  have "bs ! i = nul" using assms(2,3,5) i by (simp add: last_conv_nth)
  then have "copy_cmdline m s n (n - i) i i out = (n - 1, out)"
    unfolding i(2) using i(1) assms(3) assms(6) [of i] by simp
  moreover have "drop i (butlast bs) = []" using i(1) assms(2) by simp
  ultimately show ?case using i(1) by simp
next
  case (Suc x)
  then have lt: "Suc i < n" by simp
  obtain k where k: "n - i = Suc k" "n - Suc i = k" using lt by (metis Suc_diff_Suc Suc_lessD)
  have out: "length (out[i := spaced (bs ! i)]) = MAX_CMDLINE_LEN" using Suc.prems by simp
  have "copy_cmdline m s n (n - i) i i out = copy_cmdline m s n (n - Suc i) (Suc i) (Suc i) (out[i := spaced (bs ! i)])"
    using k lt assms(4) assms(6) [of i] by (auto simp: spaced_def MAX_CMDLINE_LEN_def)
  also have "\<dots> = (n - 1, take (Suc i) (out[i := spaced (bs ! i)]) @ map spaced (drop (Suc i) (butlast bs)) @
      drop (n - 1) (out[i := spaced (bs ! i)]))"
    using Suc.hyps(1) [of "Suc i" "out[i := spaced (bs ! i)]"] Suc.hyps(2) lt out by simp
  also have "take (Suc i) (out[i := spaced (bs ! i)]) = take i out @ [spaced (bs ! i)]"
    using Suc.prems lt assms(4) by (simp add: take_Suc_conv_app_nth)
  also have "drop (n - 1) (out[i := spaced (bs ! i)]) = drop (n - 1) out" using lt by simp
  finally have "copy_cmdline m s n (n - i) i i out = (n - 1,
      (take i out @ [spaced (bs ! i)]) @ map spaced (drop (Suc i) (butlast bs)) @ drop (n - 1) out)" .
  moreover have "map spaced (drop i (butlast bs)) = spaced (bs ! i) # map spaced (drop (Suc i) (butlast bs))"
    using lt assms(2) Cons_nth_drop_Suc [of i "butlast bs", symmetric] by (simp add: nth_butlast less_diff_conv)
  ultimately show ?case by simp
qed

lemma spaced_no_nul: "nul \<notin> set (map spaced xs)"
  by (auto simp: spaced_def)

lemma arg_bytes_last: "args \<noteq> [] \<Longrightarrow> arg_bytes args \<noteq> [] \<and> last (arg_bytes args) = nul"
  by (induction args) (auto simp: arg_bytes_def)

lemma extract_cmdline_text:
  assumes "arg_area ctx args" and "args \<noteq> []" and "length (arg_bytes args) \<le> MAX_CMDLINE_LEN"
    and "length out = MAX_CMDLINE_LEN"
  shows "takeWhile (\<lambda>b. b \<noteq> nul) (snd (extract_cmdline ctx out)) = map spaced (butlast (arg_bytes args))"
proof -
  let ?bs = "arg_bytes args" let ?n = "length ?bs"
  from assms(1) obtain mm s e where a: "bc_task ctx \<noteq> 0" "mm \<noteq> 0" "s \<noteq> 0" "s < e"
      "km_ptr (bc_mem ctx) (bc_task ctx + TASK_MM_OFFSET) = Some mm"
      "km_ptr (bc_mem ctx) (mm + MM_ARG_START_OFFSET) = Some s"
      "km_ptr (bc_mem ctx) (mm + MM_ARG_END_OFFSET) = Some e" "unat (e - s) = ?n"
      "\<forall>i<?n. km_u8 (bc_mem ctx) (s + of_nat i) = Some (?bs ! i)"
    unfolding arg_area_def by blast
  have n: "0 < ?n" "last ?bs = nul" using arg_bytes_last [OF assms(2)] by auto
  have "min (unat (e - s)) MAX_CMDLINE_READ = ?n" using a(8) assms(3) by (simp add: buffer_sizes MAX_CMDLINE_READ_def)
  moreover have "copy_cmdline (bc_mem ctx) s ?n ?n 0 0 out = (?n - 1, map spaced (butlast ?bs) @ drop (?n - 1) out)"
    using copy_cmdline_copies [of 0 ?n ?bs "bc_mem ctx" s out] n assms(3,4) a(9) by simp
  moreover have lt: "?n - 1 < MAX_CMDLINE_LEN" using n assms(3) by linarith
  then have "(map spaced (butlast ?bs) @ drop (?n - 1) out)[?n - 1 := nul] =
      map spaced (butlast ?bs) @ nul # drop ?n out"
    using n assms(3,4) append_drop_update [of "map spaced (butlast ?bs)" "?n - 1" out nul] by simp
  moreover have "e \<noteq> 0" "\<not> e \<le> s" using a(4) by auto
  ultimately show ?thesis
    using lt a(1-3,5-7) spaced_no_nul by (simp add: extract_cmdline_def Let_def takeWhile_nul_padded)
qed

text \<open>The entry keeps what \<open>extract_cmdline\<close> wrote into a fresh buffer.\<close>

lemma exec_entry_cmdline:
  "pc_cmdline (exec_entry filename ctx) = snd (extract_cmdline ctx (replicate MAX_CMDLINE_LEN nul))"
  by (simp add: exec_entry_def process_cache_entry_default_def Let_def split: option.splits)

lemma exec_entry_tgid: "pc_tgid (exec_entry filename ctx) = ucast (drop_bit 32 (bc_pid_tgid ctx))"
  by (simp add: exec_entry_def Let_def split: option.splits)

lemma split_spaced_args:
  assumes "args \<noteq> []" and "\<forall>a\<in>set args. nul \<notin> set a \<and> CHR '' '' \<notin> set a"
  shows "split_on (CHR '' '') (map spaced (butlast (arg_bytes args))) = args"
  using assms
proof (induction args)
  case (Cons a args)
  have a: "map spaced a = a" using Cons.prems(2) by (auto simp: spaced_def intro: map_idI)
  show ?case
  proof (cases "args = []")
    case True
    with a Cons.prems(2) show ?thesis by (simp add: arg_bytes_def split_on_no_sep)
  next
    case False
    then have "butlast (arg_bytes (a # args)) = a @ nul # butlast (arg_bytes args)"
      using arg_bytes_last [OF False] by (simp add: arg_bytes_def butlast_append)
    with a Cons False show ?thesis by (simp add: split_on_append)
  qed
qed simp

text \<open>
  The arguments of a process survive the process cache, but the daemons do not split them. For a
  program started with non-empty arguments without NULs and blanks that fill at most 128 bytes, the entry
  the exec tracepoint stores gives the arguments back through \<open>cmdline_vec\<close>; the forwarding tasks, which
  split at NUL instead, report one argument that is the whole line.
\<close>

theorem exec_cmdline_roundtrip:
  assumes "arg_area ctx args" and "args \<noteq> []" and "\<forall>a\<in>set args. a \<noteq> [] \<and> nul \<notin> set a \<and> CHR '' '' \<notin> set a"
    and "length (arg_bytes args) \<le> MAX_CMDLINE_LEN" and "utf8_valid (map spaced (butlast (arg_bytes args)))"
  shows "pc_cmdline_vec (exec_entry filename ctx) = args \<and>
    cached_cmdline (exec_entry filename ctx) = [map spaced (butlast (arg_bytes args))]"
proof -
  let ?t = "map spaced (butlast (arg_bytes args))"
  have str: "pc_cmdline_str (exec_entry filename ctx) = ?t"
    using extract_cmdline_text [OF assms(1,2,4), of "replicate MAX_CMDLINE_LEN nul"] assms(5)
    by (simp add: pc_cmdline_str_def buffer_str_def exec_entry_cmdline Let_def)
  have split: "split_on (CHR '' '') ?t = args" using split_spaced_args [of args] assms(2,3) by auto
  then have "pc_cmdline_vec (exec_entry filename ctx) = args"
    using assms(3) by (simp add: pc_cmdline_vec_def str filter_id_conv)
  moreover have "?t \<noteq> []"
  proof
    assume "?t = []"
    with split have "args = [[]]" by simp
    with assms(3) show False by simp
  qed
  then have "cached_cmdline (exec_entry filename ctx) = [?t]"
    using split_on_no_sep [OF spaced_no_nul] by (simp add: cached_cmdline_def str)
  ultimately show ?thesis ..
qed

definition cmdline_mem :: kernel_mem where
  "cmdline_mem =
     \<lparr>km_ptr = (\<lambda>a. if a = 4000 + TASK_MM_OFFSET then Some 9000 else if a = 9000 + MM_ARG_START_OFFSET then Some 100
               else if a = 9000 + MM_ARG_END_OFFSET then Some 106 else None),
      km_u32 = (\<lambda>_. None),
      km_u8 = (\<lambda>a. if 100 \<le> a \<and> a < 106 then Some (arg_bytes [''ls'', ''-l''] ! unat (a - 100)) else None)\<rparr>"

lemma example_arg_bytes: "arg_bytes [''ls'', ''-l''] = ''ls'' @ [nul] @ ''-l'' @ [nul]"
  by (simp add: arg_bytes_def)

lemma example_arg_area: "arg_area (example_bpf_context\<lparr>bc_task := 4000, bc_mem := cmdline_mem\<rparr>) [''ls'', ''-l'']"
proof -
  have "km_u8 cmdline_mem (100 + of_nat i) = Some (arg_bytes [''ls'', ''-l''] ! i)" if "i < 6" for i
  proof -
    from that consider "i = 0" | "i = 1" | "i = 2" | "i = 3" | "i = 4" | "i = 5" by linarith
    then show ?thesis by cases (simp_all add: cmdline_mem_def)
  qed
  then show ?thesis
    unfolding arg_area_def
    by (intro exI [of _ 9000] exI [of _ 100] exI [of _ 106])
      (simp add: example_arg_bytes, simp add: cmdline_mem_def TASK_MM_OFFSET_def MM_ARG_START_OFFSET_def MM_ARG_END_OFFSET_def)
qed

theorem exec_cmdline_roundtrip_witness:
  "pc_cmdline_vec (exec_entry None (example_bpf_context\<lparr>bc_task := 4000, bc_mem := cmdline_mem\<rparr>)) = [''ls'', ''-l'']"
proof -
  have "map spaced (butlast (arg_bytes [''ls'', ''-l''])) = ''ls -l''" by (simp add: example_arg_bytes)
  moreover have "utf8_valid ''ls -l''" by (rule utf8_valid_ascii, simp add: byte_def)
  ultimately show ?thesis
    using exec_cmdline_roundtrip [OF example_arg_area, of None]
    by (simp add: example_arg_bytes MAX_CMDLINE_LEN_def)
qed

subsection \<open>The entries of the cache\<close>

text \<open>An exec comes with what the kernel does of the insertion at that time.\<close>

type_synonym insertion = "u32 \<Rightarrow> process_cache_entry \<Rightarrow> cache \<Rightarrow> cache option"

datatype task_event = TaskExec insertion "u64 option" bpf_context | TaskExit bpf_context

abbreviation tgid_of :: "bpf_context \<Rightarrow> u32" where
  "tgid_of ctx \<equiv> ucast (drop_bit 32 (bc_pid_tgid ctx))"

fun run_task_event :: "task_event \<Rightarrow> bpf_maps \<Rightarrow> bpf_maps" where
  "run_task_event (TaskExec ins filename ctx) maps = handle_exec ins filename ctx maps"
| "run_task_event (TaskExit ctx) maps = handle_exit ctx maps"

text \<open>
  What is documented of an insertion into an LRU map that the kernel accepts: the key has the new value, or is evicted
  already; other keys keep their value, or are evicted. A refused insertion leaves the map as it is.
\<close>

definition lru_insert_ok :: "insertion \<Rightarrow> bool" where
  "lru_insert_ok ins \<longleftrightarrow> (\<forall>k e c c' k'. ins k e c = Some c' \<longrightarrow> map_of c' k' \<in> {None, if k' = k then Some e else map_of c k'})"

text \<open>The main thread of the process leaves.\<close>

fun leader_exit :: "u32 \<Rightarrow> task_event \<Rightarrow> bool" where
  "leader_exit k (TaskExit ctx) \<longleftrightarrow> tgid_of ctx = k \<and> (ucast (bc_pid_tgid ctx) :: u32) = tgid_of ctx"
| "leader_exit k (TaskExec ins filename ctx) \<longleftrightarrow> False"

text \<open>An exec of the group that finds its scratch buffer and whose insertion the kernel accepts.\<close>

fun records_exec :: "u32 \<Rightarrow> bpf_maps \<Rightarrow> task_event \<Rightarrow> bool" where
  "records_exec k maps (TaskExec ins filename ctx) \<longleftrightarrow>
     tgid_of ctx = k \<and> bc_scratch ctx \<and> ins k (exec_entry filename ctx) (bm_process_cache maps) \<noteq> None"
| "records_exec k maps (TaskExit ctx) \<longleftrightarrow> False"

definition well_behaved :: "task_event \<Rightarrow> bool" where
  "well_behaved ev = (case ev of TaskExec ins _ _ \<Rightarrow> lru_insert_ok ins | TaskExit _ \<Rightarrow> True)"

text \<open>An entry after an event is that of the exec just recorded, or an older one that the event does not concern.\<close>

lemma entry_after:
  assumes "well_behaved ev" and "map_of (bm_process_cache (run_task_event ev maps)) k = Some e"
  shows "(\<exists>ins f ctx. ev = TaskExec ins f ctx \<and> tgid_of ctx = k \<and> e = exec_entry f ctx \<and> records_exec k maps ev) \<or>
    map_of (bm_process_cache maps) k = Some e \<and> \<not> leader_exit k ev \<and> \<not> records_exec k maps ev"
proof (cases ev)
  case (TaskExec ins f ctx)
  let ?c = "ins (tgid_of ctx) (exec_entry f ctx) (bm_process_cache maps)"
  have "lru_insert_ok ins" using assms(1) TaskExec by (simp add: well_behaved_def)
  then have "map_of c' k \<in> {None, if k = tgid_of ctx then Some (exec_entry f ctx) else map_of (bm_process_cache maps) k}" if "?c = Some c'" for c'
    using that unfolding lru_insert_ok_def by blast
  with assms(2) TaskExec show ?thesis
    by (cases "bc_scratch ctx"; cases ?c) (auto simp: handle_exec_def exec_entry_tgid Let_def split: if_splits)
next
  case (TaskExit ctx)
  with assms(2) show ?thesis by (auto simp: handle_exit_def Let_def delete_conv split: if_splits)
qed

text \<open>
  C25: The cache attributes events to the last recorded exec of a living process. After any sequence of exec and
  exit events, started with an empty cache and for insertions that may evict or be refused, an entry found under a thread
  group id is the entry of an exec of that very group that was recorded (it had its scratch buffer and the kernel
  accepted the insertion); no exec of the group has been recorded since, and the group's main thread has not exited since.
\<close>

theorem process_cache_fresh:
  assumes "list_all well_behaved evs" and "bm_process_cache maps = []"
    and "map_of (bm_process_cache (fold run_task_event evs maps)) k = Some e"
  shows "\<exists>pre ins filename ctx post. evs = pre @ TaskExec ins filename ctx # post \<and> tgid_of ctx = k \<and>
    e = exec_entry filename ctx \<and> records_exec k (fold run_task_event pre maps) (TaskExec ins filename ctx) \<and>
    (\<forall>ev\<in>set post. \<not> leader_exit k ev) \<and>
    (\<forall>p ev q. post = p @ ev # q \<longrightarrow> \<not> records_exec k (fold run_task_event (pre @ TaskExec ins filename ctx # p) maps) ev)"
  using assms(1,3)
proof (induction evs rule: rev_induct)
  case Nil
  with assms(2) show ?case by simp
next
  case (snoc ev evs)
  let ?m = "fold run_task_event evs maps"
  have "well_behaved ev" "map_of (bm_process_cache (run_task_event ev ?m)) k = Some e" using snoc.prems by simp_all
  from entry_after [OF this] show ?case
  proof (elim disjE exE conjE)
    fix ins f ctx
    assume "ev = TaskExec ins f ctx" "tgid_of ctx = k" "e = exec_entry f ctx" "records_exec k ?m ev"
    then show ?thesis by (intro exI [of _ evs] exI [of _ ins] exI [of _ f] exI [of _ ctx] exI [of _ "[]"]) simp
  next
    assume old: "map_of (bm_process_cache ?m) k = Some e" "\<not> leader_exit k ev" "\<not> records_exec k ?m ev"
    from snoc.IH [OF _ old(1)] snoc.prems(1) obtain pre ins f ctx post where
      o: "evs = pre @ TaskExec ins f ctx # post" "tgid_of ctx = k" "e = exec_entry f ctx"
      "records_exec k (fold run_task_event pre maps) (TaskExec ins f ctx)" "\<forall>ev\<in>set post. \<not> leader_exit k ev"
      "\<forall>p ev q. post = p @ ev # q \<longrightarrow> \<not> records_exec k (fold run_task_event (pre @ TaskExec ins f ctx # p) maps) ev" by auto
    have "\<not> records_exec k (fold run_task_event (pre @ TaskExec ins f ctx # p) maps) ev'" if "post @ [ev] = p @ ev' # q" for p ev' q
      using that o(1,6) old(3) by (cases q rule: rev_cases) auto
    with o(1-5) old(2) show ?thesis
      by (intro exI [of _ pre] exI [of _ ins] exI [of _ f] exI [of _ ctx] exI [of _ "post @ [ev]"]) auto
  qed
qed

definition accepted_insertion :: insertion where
  "accepted_insertion k e c = Some (AList.update k e c)"

lemma accepted_insertion_ok: "lru_insert_ok accepted_insertion" and refused_insertion_ok: "lru_insert_ok (\<lambda>_ _ _. None)"
  by (simp_all add: lru_insert_ok_def accepted_insertion_def update_conv')

text \<open>Two execs of one group of which the second is not recorded: the entry is that of the first.\<close>

theorem process_cache_fresh_witness:
  "\<exists>pre ins filename ctx post. [TaskExec accepted_insertion None example_bpf_context, TaskExec (\<lambda>_ _ _. None) (Some 0) example_bpf_context] =
      pre @ TaskExec ins filename ctx # post \<and> tgid_of ctx = 7 \<and>
    exec_entry None example_bpf_context = exec_entry filename ctx \<and> records_exec 7 (fold run_task_event pre
      \<lparr>bm_events = [], bm_prefixes = [], bm_ignored = [], bm_filter_enabled = None, bm_deny = [], bm_process_cache = []\<rparr>) (TaskExec ins filename ctx)"
proof -
  let ?m = "\<lparr>bm_events = [], bm_prefixes = [], bm_ignored = [], bm_filter_enabled = None, bm_deny = [], bm_process_cache = []\<rparr>"
  let ?evs = "[TaskExec accepted_insertion None example_bpf_context, TaskExec (\<lambda>_ _ _. None) (Some 0) example_bpf_context]"
  have "map_of (bm_process_cache (fold run_task_event ?evs ?m)) 7 = Some (exec_entry None example_bpf_context)"
    by (simp add: handle_exec_def exec_entry_tgid accepted_insertion_def Let_def) (simp add: example_bpf_context_def)
  moreover have "list_all well_behaved ?evs" by (simp add: well_behaved_def accepted_insertion_ok refused_insertion_ok)
  ultimately show ?thesis using process_cache_fresh [of ?evs ?m 7 "exec_entry None example_bpf_context"] by (simp only: bpf_maps.select_convs) blast
qed

end
