(* ===== verification/Janus_Ebpf_Props.thy ===== *)
theory Janus_Ebpf_Props
  imports Janus_Ebpf_Service Ebpf_Ring Janus_Props
begin

section \<open>Properties of janusd in eBPF mode\<close>

text \<open>
  The session limit, what the forwarding task reports, and the updates of a guard that is audited but not
  enforced.
\<close>

subsection \<open>Frames\<close>

lemma janus_on_loader_fields [simp]:
  "jb_sessions (snd (janus_on_loader f svc)) = jb_sessions svc"
  "jb_max_guards (snd (janus_on_loader f svc)) = jb_max_guards svc"
  "jb_metrics (snd (janus_on_loader f svc)) = jb_metrics svc"
  "jb_metrics_heap (snd (janus_on_loader f svc)) = jb_metrics_heap svc"
  by (simp_all add: janus_on_loader_def split: prod.splits)

lemmas guard_map_ops = add_guarded_prefixes_def remove_guarded_prefixes_def add_deny_paths_def remove_deny_paths_def

lemma guard_map_kept:
  "add_guarded_prefixes env ps svc = (r, svc') \<Longrightarrow> jb_sessions svc' = jb_sessions svc \<and> jb_max_guards svc' = jb_max_guards svc"
  "remove_guarded_prefixes env ps svc = (r, svc') \<Longrightarrow> jb_sessions svc' = jb_sessions svc \<and> jb_max_guards svc' = jb_max_guards svc"
  "add_deny_paths env ps svc = (r, svc') \<Longrightarrow> jb_sessions svc' = jb_sessions svc \<and> jb_max_guards svc' = jb_max_guards svc"
  "remove_deny_paths env ps svc = (r, svc') \<Longrightarrow> jb_sessions svc' = jb_sessions svc \<and> jb_max_guards svc' = jb_max_guards svc"
  by (metis guard_map_ops janus_on_loader_fields(1,2) snd_conv)+

lemma janus_init_fields [simp]:
  "jb_sessions (snd (janus_ensure_ebpf_initialized env svc)) = jb_sessions svc"
  "jb_max_guards (snd (janus_ensure_ebpf_initialized env svc)) = jb_max_guards svc"
  by (simp_all add: janus_ensure_ebpf_initialized_def split: sum.splits)

subsection \<open>Forwarding\<close>

lemma forward_to_session_fields:
  "jb_sessions (snd (snd (forward_to_session l pid sendto e c s acc))) = jb_sessions (snd (snd acc)) \<and>
   jb_max_guards (snd (snd (forward_to_session l pid sendto e c s acc))) = jb_max_guards (snd (snd acc)) \<and>
   jb_node_name (snd (snd (forward_to_session l pid sendto e c s acc))) = jb_node_name (snd (snd acc)) \<and>
   jb_cluster_name (snd (snd (forward_to_session l pid sendto e c s acc))) = jb_cluster_name (snd (snd acc))"
  by (simp add: forward_to_session_def Let_def split: prod.splits)

lemma forward_to_session_out:
  "fst (snd (forward_to_session l pid sendto e c s acc)) = fst (snd acc) @
     (if session_matches (xa_path e) (egs_active_prefixes (s_state s))
      then [snd (access_event_for (jb_node_name (snd (snd acc))) (jb_cluster_name (snd (snd acc))) e c s)] else [])"
  by (simp add: forward_to_session_def Let_def split: prod.splits)

lemma fold_forward_out:
  "fst (snd (fold (forward_to_session l pid sendto e c) ss acc)) = fst (snd acc) @
     map (\<lambda>s. snd (access_event_for (jb_node_name (snd (snd acc))) (jb_cluster_name (snd (snd acc))) e c s))
       (filter (\<lambda>s. session_matches (xa_path e) (egs_active_prefixes (s_state s))) ss)"
  by (induction ss arbitrary: acc) (simp_all add: forward_to_session_out forward_to_session_fields)

lemma fold_forward_fields:
  "jb_sessions (snd (snd (fold (forward_to_session l pid sendto e c) ss acc))) = jb_sessions (snd (snd acc)) \<and>
   jb_max_guards (snd (snd (fold (forward_to_session l pid sendto e c) ss acc))) = jb_max_guards (snd (snd acc))"
  by (induction ss arbitrary: acc) (simp_all add: forward_to_session_fields)

lemma access_event_for_fields:
  "pa_guard_name (snd (access_event_for node cluster e c s)) = s_name s"
  "pa_path (snd (access_event_for node cluster e c s)) = xa_path e"
  "pa_response (snd (access_event_for node cluster e c s)) =
     (if path_denied (xa_path e) (s_state s) then PROTO_DENY else PROTO_ALLOW)"
  by (simp_all add: access_event_for_def Let_def)

definition reported :: "aya_api \<Rightarrow> bool \<Rightarrow> u32 \<Rightarrow> (u8 list \<Rightarrow> nat + unit) \<Rightarrow> kernel_file_event \<Rightarrow> janus_ebpf \<Rightarrow> proto_access_event list" where
  "reported ay l pid sendto raw svc = fst (snd (forward_access_event ay l pid sendto raw svc))"

lemma reported_eq:
  "reported ay l pid sendto raw svc =
     map (\<lambda>s. snd (access_event_for (jb_node_name svc) (jb_cluster_name svc) (access_event_of_kernel raw)
             (cached_process_of ay (ke_tgid raw) (jb_loader svc)) s))
       (filter (\<lambda>s. session_matches (ke_path_str raw) (egs_active_prefixes (s_state s))) (ebpf_live_sessions svc))"
  by (simp add: reported_def forward_access_event_def Let_def fold_forward_out access_event_of_kernel_def)

text \<open>
  C26: The forwarding task reports an event to exactly the guards it concerns: one message for every session, in
  the order of the table, that has a prefix which starts the event's path, with the guard's name and the
  path. The message says DENY exactly if the guard enforces and one of its deny paths starts the path,
  and ALLOW otherwise.
\<close>

theorem forward_access_event_spec:
  "map (\<lambda>e. (pa_guard_name e, pa_path e, pa_response e)) (reported ay l pid sendto raw svc) =
     map (\<lambda>s. (s_name s, ke_path_str raw,
            if egs_enforcing (s_state s) \<and> (\<exists>d\<in>set (egs_active_deny_paths (s_state s)). starts_with (ke_path_str raw) d)
            then 2 else 1))
       (filter (\<lambda>s. \<exists>p\<in>set (egs_active_prefixes (s_state s)). starts_with (ke_path_str raw) p) (ebpf_live_sessions svc))"
proof -
  have "path = d \<or> starts_with path d \<longleftrightarrow> starts_with path d" for path d by (auto simp: starts_with_def)
  then show ?thesis
    by (auto simp: reported_eq session_matches_def list_ex_iff access_event_for_fields path_denied_def
        access_event_of_kernel_def PROTO_DENY_def PROTO_ALLOW_def intro!: map_cong)
qed

lemma open_event_path:
  assumes "km_ptr (bc_mem ctx) (file + 24) = Some dentry" and "file \<noteq> 0"
    and "dentry_chain (bc_mem ctx) dentry names" and "names \<noteq> []" and "walkable names"
    and "bm_events (snd (janus_file_open ctx file maps)) = bm_events maps @ [raw]"
  shows "takeWhile (\<lambda>b. b \<noteq> nul) (ke_path raw) = dentry_path names"
proof -
  have path: "ke_path (new_event t ctx) = replicate MAX_PATH_LEN nul" for t
    by (simp add: new_event_def populate_process_info_def kernel_file_event_default_def Let_def split: option.splits)
  have "ke_path raw = snd (extract_path_from_dentry (bc_mem ctx) dentry (replicate MAX_PATH_LEN nul))"
    using assms(1,2,6)
    by (auto simp: janus_file_open_def Let_def submit_event_filtered_def submit_event_def extract_path_from_file_def path
        split: if_splits)
  with extract_path_buffer [OF assms(3-5), of "replicate MAX_PATH_LEN nul"] dentry_path_no_nul [OF assms(3)] assms(5)
  show ?thesis by (auto simp: walkable_def Let_def takeWhile_nul_padded split: if_splits)
qed

text \<open>
  In eBPF mode a denial is reported but not made. For a file whose path is guarded and denied by an
  enforcing guard, with the guard's deny paths in the kernel map, the hook permits the open (it returns 0),
  and the event it submits is reported to the guard's clients with the response DENY.
\<close>

theorem denied_in_report_only:
  assumes "km_ptr (bc_mem ctx) (file + 24) = Some dentry" and "file \<noteq> 0"
    and "dentry_chain (bc_mem ctx) dentry names" and "names \<noteq> []" and "walkable names"
    and "length (dentry_path names) \<le> 254" and "utf8_valid (dentry_path names)"
    and "bm_deny maps = map (path_to_key MAX_PATH_LEN) ds" and "\<forall>d\<in>set ds. nul \<notin> set d"
    and "bm_events (snd (janus_file_open ctx file maps)) = bm_events maps @ [raw]"
    and "s \<in> set (ebpf_live_sessions svc)" and "egs_enforcing (s_state s)"
    and "p \<in> set (egs_active_prefixes (s_state s))" and "starts_with (dentry_path names) p"
    and "d \<in> set (egs_active_deny_paths (s_state s))" and "starts_with (dentry_path names) d"
  shows "fst (janus_file_open ctx file maps) = 0 \<and>
    (\<exists>e\<in>set (reported ay l pid sendto raw svc). pa_guard_name e = s_name s \<and> pa_path e = dentry_path names \<and>
       pa_response e = PROTO_DENY)"
proof
  show "fst (janus_file_open ctx file maps) = 0"
    by (rule open_never_denied [OF assms(1-6,8,9)])
  have str: "ke_path_str raw = dentry_path names"
    using open_event_path [OF assms(1-5,10)] assms(7) by (simp add: ke_path_str_def buffer_str_def Let_def)
  let ?e = "snd (access_event_for (jb_node_name svc) (jb_cluster_name svc) (access_event_of_kernel raw)
      (cached_process_of ay (ke_tgid raw) (jb_loader svc)) s)"
  have "?e \<in> set (reported ay l pid sendto raw svc)"
    using assms(11,13,14) by (auto simp: reported_eq session_matches_def list_ex_iff str)
  moreover have "path_denied (dentry_path names) (s_state s)"
    using assms(12,15,16) by (auto simp: path_denied_def list_ex_iff)
  ultimately show "\<exists>e\<in>set (reported ay l pid sendto raw svc). pa_guard_name e = s_name s \<and>
      pa_path e = dentry_path names \<and> pa_response e = PROTO_DENY"
    by (intro bexI [of _ ?e]) (simp_all add: access_event_for_fields access_event_of_kernel_def str)
qed

text \<open>A guard on \<open>/x\<close> that allows and denies it; the example file is \<open>/x\<close>.\<close>

definition example_guard_session :: "bool \<Rightarrow> ebpf_guard_session_state session" where
  "example_guard_session enforcing = session_new 0 (session_key ''g'' ''n'' ''p'') ''g'' ''n'' [] ''p'' [] [] False 0
     \<lparr>egs_subjects = [], egs_log_format = [], egs_enforcing = enforcing, egs_typed_metrics = 0, egs_guarded_prefixes = 1,
      egs_deny_paths_count = 1, egs_marks_registered = True, egs_ready_at = None, egs_active_prefixes = [''/x''],
      egs_active_deny_paths = [''/x'']\<rparr>"

definition example_guard_object :: ebpf_object where
  "example_guard_object = \<lparr>eo_programs = [], eo_maps = [(''GUARDED_PREFIXES'', PathMap 128 [path_to_key 128 ''/x'']),
     (''DENY_PATHS'', PathMap 256 [])], eo_attached = []\<rparr>"

definition example_guard_service :: "bool \<Rightarrow> janus_ebpf" where
  "example_guard_service enforcing = (janus_ebpf_new None [] [] 1 NullAuditLogger)
     \<lparr>jb_sessions := snd (map_insert (session_key ''g'' ''n'' ''p'') (example_guard_session enforcing) new_session_map),
      jb_metrics_heap := [guard_metrics_new ''g''], jb_loader := Some example_guard_object\<rparr>"

definition open_maps :: bpf_maps where
  "open_maps = empty_maps\<lparr>bm_deny := [path_to_key MAX_PATH_LEN ''/x'']\<rparr>"

theorem denied_in_report_only_witness:
  "fst (janus_file_open example_bpf_context 5000 open_maps) = 0"
proof -
  have fd: "km_ptr (bc_mem example_bpf_context) (5000 + 24) = Some 1000" by (simp add: example_bpf_context_def example_mem_def)
  have chain: "dentry_chain (bc_mem example_bpf_context) 1000 [''x'']" using example_chain by (simp add: example_bpf_context_def)
  have sub: "submit_event_filtered example_bpf_context e open_maps = open_maps\<lparr>bm_events := bm_events open_maps @ [e]\<rparr>" for e
    by (simp add: submit_event_filtered_def submit_event_def should_emit_event_def example_bpf_context_def open_maps_def
        empty_maps_def)
  have "bc_scratch example_bpf_context" by (simp add: example_bpf_context_def)
  then have "\<exists>raw. bm_events (snd (janus_file_open example_bpf_context 5000 open_maps)) = bm_events open_maps @ [raw]"
    by (simp add: janus_file_open_def Let_def sub)
  then obtain raw where raw: "bm_events (snd (janus_file_open example_bpf_context 5000 open_maps)) = bm_events open_maps @ [raw]"
    by blast
  have "utf8_valid ''/x''" by (rule utf8_valid_ascii, simp add: byte_def)
  moreover have "example_guard_session True \<in> set (ebpf_live_sessions (example_guard_service True))"
    by (simp add: ebpf_live_sessions_def example_guard_service_def map_insert_def new_session_map_def Let_def)
  ultimately show ?thesis
    using denied_in_report_only [OF fd _ chain _ example_walkable _ _ _ _ raw, of "[''/x'']" "example_guard_session True"
        "example_guard_service True" "''/x''" "''/x''"]
    by (simp add: dentry_path_def open_maps_def example_guard_session_def session_new_def starts_with_def)
qed

subsection \<open>Updates\<close>

lemma remove_guarded_ok:
  assumes "path_map_contract (xe_aya env) cap" and "jb_loader svc = Some obj" and "keys_are 128 ''GUARDED_PREFIXES'' K obj"
    and "distinct (map (path_to_key 128) ps)" and "path_to_key 128 ` set ps \<subseteq> K"
  shows "\<exists>obj'. remove_guarded_prefixes env ps svc = (Inr (), svc\<lparr>jb_loader := Some obj'\<rparr>) \<and>
    keys_are 128 ''GUARDED_PREFIXES'' (K - path_to_key 128 ` set ps) obj' \<and> same_other_maps ''GUARDED_PREFIXES'' obj obj'"
  using path_map_contract.remove_paths [OF assms(1,3-5), of "''Failed to remove prefix ''"] assms(2)
  by (auto simp: remove_guarded_prefixes_def janus_on_loader_def on_loader_def path_map_ops)

lemma remove_deny_fails:
  assumes "path_map_contract (xe_aya env) cap" and "jb_loader svc = Some obj" and "keys_are 256 ''DENY_PATHS'' D obj"
    and "\<not> path_to_key 256 ` set ds \<subseteq> D"
  shows "\<exists>e obj'. remove_deny_paths env ds svc = (Inl e, svc\<lparr>jb_loader := Some obj'\<rparr>) \<and> same_other_maps ''DENY_PATHS'' obj obj'"
  using path_map_contract.remove_paths_fails [OF assms(1,3), of ds "''Failed to remove deny path ''"] assms(2,4)
  by (auto simp: remove_deny_paths_def janus_on_loader_def on_loader_def path_map_ops)

text \<open>
  A guard that only audits cannot be paused. Its deny paths are never put into the kernel map, but the pause
  removes them: for a guard with a deny path that is not in the map, the pause answers with an internal
  error after it has taken the guard's prefixes out of the map, and the session is still not paused.
\<close>

theorem audit_guard_cannot_pause:
  assumes "path_map_contract (xe_aya env) cap" and "session_get (session_key n ns p) (jb_sessions svc) = Some a"
    and "s = tbl_heap (jb_sessions svc) ! a" and "\<not> s_paused s"
    and "ps = egs_active_prefixes (s_state s)" and "ps \<noteq> []" and "ds = egs_active_deny_paths (s_state s)" and "ds \<noteq> []"
    and "jb_loader svc = Some obj" and "keys_are 128 ''GUARDED_PREFIXES'' K obj" and "keys_are 256 ''DENY_PATHS'' D obj"
    and "distinct (map (path_to_key 128) ps)" and "path_to_key 128 ` set ps \<subseteq> K" and "\<not> path_to_key 256 ` set ds \<subseteq> D"
  shows "\<exists>msg svc1 obj1. ebpf_update_guard env n ns p 1 svc = (Inl (Internal msg), svc1) \<and>
    jb_sessions svc1 = jb_sessions svc \<and> jb_loader svc1 = Some obj1 \<and>
    set (path_keys ''GUARDED_PREFIXES'' obj1) = K - path_to_key 128 ` set ps"
proof -
  from remove_guarded_ok [OF assms(1,9,10,12,13)] obtain obj0 where
    r: "remove_guarded_prefixes env ps svc = (Inr (), svc\<lparr>jb_loader := Some obj0\<rparr>)"
       "keys_are 128 ''GUARDED_PREFIXES'' (K - path_to_key 128 ` set ps) obj0" "same_other_maps ''GUARDED_PREFIXES'' obj obj0"
    by blast
  have "keys_are 256 ''DENY_PATHS'' D obj0" using same_other_keys [OF r(3)] assms(11) by simp
  from remove_deny_fails [OF assms(1) _ this assms(14), of "svc\<lparr>jb_loader := Some obj0\<rparr>"] obtain e obj1 where
    d: "remove_deny_paths env ds (svc\<lparr>jb_loader := Some obj0\<rparr>) = (Inl e, svc\<lparr>jb_loader := Some obj1\<rparr>)"
       "same_other_maps ''DENY_PATHS'' obj0 obj1" by auto
  have "ebpf_update_guard env n ns p 1 svc =
      (Inl (Internal (''Failed to remove deny paths: '' @ show_ebpf_error e)), svc\<lparr>jb_loader := Some obj1\<rparr>)"
    using assms(2-8) r(1) d(1)
    by (simp add: ebpf_update_guard_def update_action_of_def ebpf_pause_guard_def Let_def filter_step_def)
  moreover have "set (path_keys ''GUARDED_PREFIXES'' obj1) = K - path_to_key 128 ` set ps"
    using same_other_keys [OF d(2)] r(2) by (intro keys_are_path_keys [of 128]) simp
  ultimately show ?thesis by auto
qed

definition janus_example_env :: ebpf_env where
  "janus_example_env =
     \<lparr>xe_aya = example_aya, xe_fs = example_kernel, xe_host_root_path = None, xe_now = 0, xe_instant = 0,
      xe_show_io = (\<lambda>_. [])\<rparr>"

theorem audit_guard_cannot_pause_witness:
  "\<exists>msg svc1. ebpf_update_guard janus_example_env ''g'' ''n'' ''p'' 1 (example_guard_service False) = (Inl (Internal msg), svc1)"
proof -
  have c: "path_map_contract (xe_aya janus_example_env) (\<lambda>_. 256)"
    unfolding janus_example_env_def using ref_maps.path_map_contract_axioms by simp
  have g: "session_get (session_key ''g'' ''n'' ''p'') (jb_sessions (example_guard_service False)) = Some 0"
    "example_guard_session False = tbl_heap (jb_sessions (example_guard_service False)) ! 0"
    "jb_loader (example_guard_service False) = Some example_guard_object"
    by (simp_all add: example_guard_service_def map_insert_def new_session_map_def session_get_def Let_def)
  have s: "\<not> s_paused (example_guard_session False)"
    "[''/x''] = egs_active_prefixes (s_state (example_guard_session False))"
    "[''/x''] = egs_active_deny_paths (s_state (example_guard_session False))"
    by (simp_all add: example_guard_session_def session_new_def)
  have k: "keys_are 128 ''GUARDED_PREFIXES'' {path_to_key 128 ''/x''} example_guard_object"
    "keys_are 256 ''DENY_PATHS'' {} example_guard_object"
    by (simp_all add: keys_are_def example_guard_object_def)
  show ?thesis
    using audit_guard_cannot_pause [OF c g(1,2) s(1,2) _ s(3) _ g(3) k] by force
qed

text \<open>
  A guard with deny patterns only is never enforced: nothing is configured, the answer reports no marks, and
  the kernel maps are as before.
\<close>

theorem deny_only_guard_inert:
  assumes "\<forall>x\<in>set (cg_subjects req). gsub_allow x = []" and "jb_loader svc = Some obj" and "ebpf_create_check req svc = None"
  shows "\<exists>r. fst (ebpf_create_guard env req svc) = Inr r \<and> cr_marks_registered r = 0 \<and>
    jb_loader (snd (ebpf_create_guard env req svc)) = Some obj"
proof -
  have "concat (map (\<lambda>x. map (prefix_of root) (gsub_allow x)) (cg_subjects req)) = []" for root using assms(1) by auto
  then have "fst (build_prefixes (xe_fs env) svc (cg_subjects req) (cg_container_ids req)) = []"
    by (auto simp: build_prefixes_def Let_def split: option.splits)
  then obtain ds where "build_prefixes (xe_fs env) svc (cg_subjects req) (cg_container_ids req) = ([], ds)"
    by (metis prod.collapse)
  then show ?thesis
    using assms(2,3)
    by (auto simp: ebpf_create_guard_def janus_ensure_ebpf_initialized_def ebpf_create_configure_def ebpf_create_insert_def
        create_guard_response_of_def Let_def map_insert_def split: prod.splits)
qed

text \<open>
  Destroying a guard leaves its metrics registered: they are registered under the guard's name and
  unregistered under the session's key, so unless some guard is named like the key, nothing goes.
\<close>

theorem destroy_keeps_collector:
  assumes "session_get (session_key n ns p) (jb_sessions svc) = Some a"
    and "\<forall>m\<in>set (collectors (jb_metrics svc)). gm_guard_name (jb_metrics_heap svc ! m) \<noteq> session_key n ns p"
  shows "fst (ebpf_destroy_guard env n ns p svc) = Inr () \<and> jb_metrics (snd (ebpf_destroy_guard env n ns p svc)) = jb_metrics svc"
proof -
  have rm: "session_remove (session_key n ns p) (jb_sessions svc) =
      (Some a, snd (session_remove (session_key n ns p) (jb_sessions svc)))"
    using session_remove_result [of "session_key n ns p" "jb_sessions svc"] assms(1) by (metis prod.collapse)
  have "jb_metrics (snd (remove_guarded_prefixes env ps x)) = jb_metrics x" "jb_metrics (snd (remove_deny_paths env ps x)) = jb_metrics x"
    "jb_metrics_heap (snd (remove_guarded_prefixes env ps x)) = jb_metrics_heap x"
    "jb_metrics_heap (snd (remove_deny_paths env ps x)) = jb_metrics_heap x" for ps x
    by (simp_all add: guard_map_ops)
  with assms(2) show ?thesis
    unfolding ebpf_destroy_guard_def Let_def by (subst (1 2) rm) (auto simp: agg_unregister_def list_ex_iff)
qed

subsection \<open>The session limit\<close>

datatype ebpf_guard_call =
    EgCreate create_guard_request
  | EgDestroy string string string
  | EgUpdate string string string i32
  | EgPolicy string string string "string list" "string list"
  | EgForward bool u32 "u8 list \<Rightarrow> nat + unit" kernel_file_event

definition janus_ebpf_step :: "ebpf_env \<Rightarrow> ebpf_guard_call \<Rightarrow> janus_ebpf \<Rightarrow> janus_ebpf" where
  "janus_ebpf_step env r svc = (case r of
     EgCreate req \<Rightarrow> snd (ebpf_create_guard env req svc)
   | EgDestroy n ns p \<Rightarrow> snd (ebpf_destroy_guard env n ns p svc)
   | EgUpdate n ns p a \<Rightarrow> snd (ebpf_update_guard env n ns p a svc)
   | EgPolicy n ns p d al \<Rightarrow> snd (ebpf_update_policy env n ns p d al svc)
   | EgForward l pid sendto raw \<Rightarrow> snd (snd (forward_access_event (xe_aya env) l pid sendto raw svc)))"

text \<open>Sessions are only modified in place: keys, addresses and the limit stay.\<close>

definition in_place :: "janus_ebpf \<Rightarrow> janus_ebpf \<Rightarrow> bool" where
  "in_place svc svc' \<longleftrightarrow> jb_max_guards svc' = jb_max_guards svc \<and>
     tbl_map (jb_sessions svc') = tbl_map (jb_sessions svc) \<and>
     length (tbl_heap (jb_sessions svc')) = length (tbl_heap (jb_sessions svc))"

lemma in_place_refl [simp]: "in_place svc svc"
  by (simp add: in_place_def)

lemma in_place_trans: "in_place a b \<Longrightarrow> in_place b c \<Longrightarrow> in_place a c"
  by (simp add: in_place_def)

lemma in_place_modify [simp]: "in_place svc (svc\<lparr>jb_sessions := session_modify a f (jb_sessions svc)\<rparr>)"
  by (simp add: in_place_def session_modify_def)

lemma in_place_wf: "in_place svc svc' \<Longrightarrow> table_wf (jb_sessions svc') = table_wf (jb_sessions svc)"
  "in_place svc svc' \<Longrightarrow> session_count (jb_sessions svc') = session_count (jb_sessions svc)"
  by (simp_all add: in_place_def table_wf_def session_count_def)

lemma in_place_maps:
  "add_guarded_prefixes env ps svc = (r, svc') \<Longrightarrow> in_place svc svc'"
  "remove_guarded_prefixes env ps svc = (r, svc') \<Longrightarrow> in_place svc svc'"
  "add_deny_paths env ps svc = (r, svc') \<Longrightarrow> in_place svc svc'"
  "remove_deny_paths env ps svc = (r, svc') \<Longrightarrow> in_place svc svc'"
  by (auto dest!: guard_map_kept simp: in_place_def)

lemma in_place_step:
  "filter_step b t (add_guarded_prefixes env ps) svc = (r, svc') \<Longrightarrow> in_place svc svc'"
  "filter_step b t (remove_guarded_prefixes env ps) svc = (r, svc') \<Longrightarrow> in_place svc svc'"
  "filter_step b t (add_deny_paths env ps) svc = (r, svc') \<Longrightarrow> in_place svc svc'"
  "filter_step b t (remove_deny_paths env ps) svc = (r, svc') \<Longrightarrow> in_place svc svc'"
  by (auto simp: filter_step_def dest: in_place_maps split: if_splits prod.splits sum.splits)

lemma in_place_set_paused: "in_place svc (ebpf_set_paused a b svc)"
  by (simp add: ebpf_set_paused_def)

lemma pause_in_place: "in_place svc (snd (ebpf_pause_guard env k a svc))"
  "in_place svc (snd (ebpf_resume_guard env k a svc))"
  by (auto simp: ebpf_pause_guard_def ebpf_resume_guard_def Let_def intro: in_place_trans in_place_set_paused
      dest!: in_place_step split: prod.splits sum.splits)

lemma update_guard_in_place: "in_place svc (snd (ebpf_update_guard env n ns p a svc))"
  using pause_in_place by (simp add: ebpf_update_guard_def Let_def split: option.splits update_action.splits)

lemma replace_deny_in_place: "replace_deny_paths env deny a svc = (r, svc') \<Longrightarrow> in_place svc svc'"
  by (auto simp: replace_deny_paths_def Let_def intro: in_place_trans in_place_modify dest!: in_place_step
      split: prod.splits sum.splits)

lemma update_policy_in_place: "in_place svc (snd (ebpf_update_policy env n ns p d al svc))"
  by (auto simp: ebpf_update_policy_def Let_def intro: in_place_trans in_place_modify dest!: replace_deny_in_place
      split: option.splits prod.splits sum.splits if_splits)

lemma configure_in_place: "in_place svc (snd (ebpf_create_configure env req a ps ds svc))"
proof -
  have deny: "in_place svc' (snd (add_deny_paths env ds svc'))" for svc' using in_place_maps(3) by (metis prod.collapse)
  obtain r svc1 where a: "add_guarded_prefixes env ps svc = (r, svc1)" by fastforce
  define svc2 where "svc2 = (if cg_enforcing req \<and> ds \<noteq> [] then snd (add_deny_paths env ds svc1) else svc1)"
  have "in_place svc svc2" using in_place_maps(1) [OF a] deny by (auto simp: svc2_def intro: in_place_trans)
  then have "in_place svc (ebpf_mark_ready a' (xe_now env) svc2)" for a'
    unfolding ebpf_mark_ready_def by (rule in_place_trans) simp
  then show ?thesis by (simp add: ebpf_create_configure_def a svc2_def)
qed

lemma forward_in_place: "in_place svc (snd (snd (forward_access_event ay l pid sendto raw svc)))"
  using fold_forward_fields by (simp add: in_place_def forward_access_event_def Let_def)

lemma create_guard_in_place:
  "\<exists>svc1. in_place svc1 (snd (ebpf_create_guard env req svc)) \<and> jb_max_guards svc1 = jb_max_guards svc \<and>
     (jb_sessions svc1 = jb_sessions svc \<or>
      (\<exists>s. ebpf_create_check req svc = None \<and> jb_sessions svc1 = snd (map_insert (cg_key req) s (jb_sessions svc))))"
proof (cases "ebpf_create_check req svc = None \<and> (\<exists>svc0. janus_ensure_ebpf_initialized env svc = (Inr (), svc0))")
  case True
  then obtain svc0 where i: "ebpf_create_check req svc = None" "janus_ensure_ebpf_initialized env svc = (Inr (), svc0)" by blast
  obtain ps ds where b: "build_prefixes (xe_fs env) svc0 (cg_subjects req) (cg_container_ids req) = (ps, ds)" by fastforce
  let ?svc1 = "snd (ebpf_create_insert env req ps ds svc0)"
  have "jb_sessions svc0 = jb_sessions svc" "jb_max_guards svc0 = jb_max_guards svc"
    using janus_init_fields [of env svc] i by simp_all
  then have "jb_max_guards ?svc1 = jb_max_guards svc" "\<exists>s. jb_sessions ?svc1 = snd (map_insert (cg_key req) s (jb_sessions svc))"
    by (auto simp: ebpf_create_insert_def Let_def case_prod_beta)
  moreover have "in_place ?svc1 (snd (ebpf_create_guard env req svc))"
    using i b configure_in_place by (simp add: ebpf_create_guard_def case_prod_beta)
  ultimately show ?thesis using i(1) by blast
next
  case False
  then have "snd (ebpf_create_guard env req svc) \<in> {svc, snd (janus_ensure_ebpf_initialized env svc)}"
    by (auto simp: ebpf_create_guard_def split: option.splits prod.splits sum.splits)
  then show ?thesis using in_place_refl janus_init_fields [of env svc] by (metis insertE singletonD)
qed

lemma create_guard_ebpf_bounded:
  assumes "table_wf (jb_sessions svc)"
  shows "table_wf (jb_sessions (snd (ebpf_create_guard env req svc)))"
    and "jb_max_guards (snd (ebpf_create_guard env req svc)) = jb_max_guards svc"
    and "session_count (jb_sessions svc) \<le> jb_max_guards svc \<Longrightarrow>
      session_count (jb_sessions (snd (ebpf_create_guard env req svc))) \<le> jb_max_guards svc"
proof -
  obtain svc1 where m: "in_place svc1 (snd (ebpf_create_guard env req svc))" "jb_max_guards svc1 = jb_max_guards svc"
    and c: "jb_sessions svc1 = jb_sessions svc \<or>
      (\<exists>s. ebpf_create_check req svc = None \<and> jb_sessions svc1 = snd (map_insert (cg_key req) s (jb_sessions svc)))"
    using create_guard_in_place [of env req svc] by blast
  show "table_wf (jb_sessions (snd (ebpf_create_guard env req svc)))"
    using c assms by (auto simp: in_place_wf [OF m(1)] map_insert_wf)
  show "jb_max_guards (snd (ebpf_create_guard env req svc)) = jb_max_guards svc" using m by (simp add: in_place_def)
  show "session_count (jb_sessions (snd (ebpf_create_guard env req svc))) \<le> jb_max_guards svc"
    if "session_count (jb_sessions svc) \<le> jb_max_guards svc"
    using c that map_insert_count [OF assms, of "cg_key req"]
    by (auto simp: in_place_wf [OF m(1)] ebpf_create_check_def session_exists_iff split: if_splits)
qed

lemma destroy_guard_sessions [simp]:
  "jb_sessions (snd (ebpf_destroy_guard env n ns p svc)) = snd (session_remove (session_key n ns p) (jb_sessions svc))"
  "jb_max_guards (snd (ebpf_destroy_guard env n ns p svc)) = jb_max_guards svc"
  by (auto simp: ebpf_destroy_guard_def guard_map_ops Let_def split: prod.splits option.splits)

interpretation janus_ebpf: session_service jb_sessions jb_max_guards janus_ebpf_step
proof
  fix env r and svc :: janus_ebpf
  show "jb_max_guards (janus_ebpf_step env r svc) = jb_max_guards svc"
  proof (cases r)
    case (EgCreate req)
    with create_guard_in_place [of env req svc] show ?thesis by (auto simp: janus_ebpf_step_def in_place_def)
  qed (use update_guard_in_place [of svc env] update_policy_in_place [of svc env] forward_in_place [of svc]
      in \<open>simp_all add: janus_ebpf_step_def in_place_def\<close>)
next
  fix env r and svc :: janus_ebpf
  assume wf: "table_wf (jb_sessions svc)"
  then show "table_wf (jb_sessions (janus_ebpf_step env r svc))"
    using in_place_wf(1) [OF update_guard_in_place] in_place_wf(1) [OF update_policy_in_place] in_place_wf(1) [OF forward_in_place]
      create_guard_ebpf_bounded(1) [OF wf]
    by (cases r) (simp_all add: janus_ebpf_step_def session_remove_wf)
next
  fix env r and svc :: janus_ebpf
  assume wf: "table_wf (jb_sessions svc)" and le: "session_count (jb_sessions svc) \<le> jb_max_guards svc"
  then show "session_count (jb_sessions (janus_ebpf_step env r svc)) \<le> jb_max_guards svc"
    using in_place_wf(2) [OF update_guard_in_place] in_place_wf(2) [OF update_policy_in_place] in_place_wf(2) [OF forward_in_place]
      create_guard_ebpf_bounded(3) [OF wf] le_trans [OF session_remove_count le]
    by (cases r) (simp_all add: janus_ebpf_step_def)
qed

text \<open>The number of guards in eBPF mode never passes the limit when calls are handled one after the other.\<close>

theorem ebpf_guard_limit:
  "session_count (jb_sessions (fold (\<lambda>(env, r). janus_ebpf_step env r) rs (janus_ebpf_new rt node cluster n audit))) \<le> n"
  using janus_ebpf.run_bounded [of "janus_ebpf_new rt node cluster n audit" rs]
  by (simp add: janus_ebpf_new_def new_session_map_def table_wf_def session_count_def)

end
