(* ===== verification/Argus_Ebpf_Service.thy ===== *)
theory Argus_Ebpf_Service
  imports Janus_Ebpf_Service
begin

section \<open>The gRPC service of argusd in eBPF mode\<close>

text \<open>
  \<open>argusd/src/service_ebpf.rs\<close>. It shares the loader's model with the janusd service and the messages with the inotify
  mode of argusd; an event carries the process information beside the fields of that mode.
\<close>

subsection \<open>State\<close>

record ebpf_watch_session_state =
  ews_subjects :: "watch_subject list"
  ews_log_format :: string
  ews_watched_prefixes :: u64
  ews_typed_metrics :: nat
  ews_watches_ready :: bool
  ews_ready_at :: "int option"
  ews_active_prefixes :: "string list"

record argus_ebpf =
  ab_node_name :: string
  ab_cluster_name :: string
  ab_max_watches :: nat
  ab_sessions :: "ebpf_watch_session_state session_table"
  ab_metrics :: "nat metrics_aggregator"
  ab_metrics_heap :: "watcher_metrics list"
  ab_runtime :: "container_runtime option"
  ab_loader :: "ebpf_object option"
  ab_receiver :: bool
  ab_forwarders :: nat

definition ARGUS_BYTECODE_PATH :: string where
  "ARGUS_BYTECODE_PATH = ''/usr/lib/argusd/argusd-ebpf''"

definition ARGUS_LSM_PROGRAMS :: "string list" where
  "ARGUS_LSM_PROGRAMS = [''inode_create'', ''inode_unlink'', ''inode_rename'', ''file_open'']"

definition argus_ebpf_new :: "file_system \<Rightarrow> string option \<Rightarrow> string \<Rightarrow> string \<Rightarrow> nat \<Rightarrow> argus_ebpf" where
  "argus_ebpf_new fs host_root_path node cluster max_watches =
     \<lparr>ab_node_name = node, ab_cluster_name = cluster, ab_max_watches = max_watches, ab_sessions = new_session_map,
      ab_metrics = aggregator_new node, ab_metrics_heap = [], ab_runtime = detect_runtime fs host_root_path,
      ab_loader = None, ab_receiver = False, ab_forwarders = 0\<rparr>"

subsection \<open>The loader\<close>

definition argus_ensure_ebpf_initialized ::
  "ebpf_env \<Rightarrow> argus_ebpf \<Rightarrow> (ebpf_error + unit) \<times> argus_ebpf" where
  "argus_ensure_ebpf_initialized env svc =
     (if ab_loader svc \<noteq> None then (Inr (), svc)
      else (case load_ebpf (xe_aya env) (xe_fs env) ARGUS_BYTECODE_PATH ARGUS_LSM_PROGRAMS of
              Inl e \<Rightarrow> (Inl e, svc)
            | Inr obj \<Rightarrow>
                (Inr (), svc\<lparr>ab_loader := Some obj, ab_receiver := True, ab_forwarders := ab_forwarders svc + 1\<rparr>)))"

definition argus_on_loader ::
  "(ebpf_object \<Rightarrow> (ebpf_error + unit) \<times> ebpf_object) \<Rightarrow> argus_ebpf \<Rightarrow> (ebpf_error + unit) \<times> argus_ebpf" where
  "argus_on_loader f svc = (case on_loader f (ab_loader svc) of (r, l) \<Rightarrow> (r, svc\<lparr>ab_loader := l\<rparr>))"

definition add_watched_prefixes :: "ebpf_env \<Rightarrow> string list \<Rightarrow> argus_ebpf \<Rightarrow> (ebpf_error + unit) \<times> argus_ebpf" where
  "add_watched_prefixes env ps =
     argus_on_loader (for_paths (\<lambda>p. add_watched_prefix (xe_aya env) p ''WATCHED_PREFIXES'') ps)"

definition remove_watched_prefixes :: "ebpf_env \<Rightarrow> string list \<Rightarrow> argus_ebpf \<Rightarrow> (ebpf_error + unit) \<times> argus_ebpf" where
  "remove_watched_prefixes env ps =
     argus_on_loader (for_paths (\<lambda>p. remove_watched_prefix (xe_aya env) p ''WATCHED_PREFIXES'') ps)"

subsection \<open>Forwarding\<close>

definition ebpf_live_watches :: "argus_ebpf \<Rightarrow> ebpf_watch_session_state session list" where
  "ebpf_live_watches svc = map (\<lambda>(k, a). tbl_heap (ab_sessions svc) ! a) (tbl_map (ab_sessions svc))"

definition file_process_info ::
  "kernel_file_event \<Rightarrow> ebpf_file_event \<Rightarrow> process_cache_entry option \<Rightarrow> proto_process_info" where
  "file_process_info raw e cached =
     \<lparr>pp_pid = ke_pid raw, pp_tid = ke_tgid raw, pp_uid = ke_uid raw, pp_gid = ke_gid raw, pp_comm = xf_comm e,
      pp_exe = (case cached of Some c \<Rightarrow> pc_exe_str c | None \<Rightarrow> []),
      pp_ppid = (case cached of Some c \<Rightarrow> pc_ppid c | None \<Rightarrow> 0),
      pp_cmdline = (case cached of Some c \<Rightarrow> cached_cmdline c | None \<Rightarrow> []),
      pp_cwd = (case cached of Some c \<Rightarrow> pc_cwd_str c | None \<Rightarrow> [])\<rparr>"

text \<open>The event for a session: the proto message and its field \<open>process_info\<close>.\<close>

definition file_event_for ::
  "string \<Rightarrow> string \<Rightarrow> kernel_file_event \<Rightarrow> process_cache_entry option \<Rightarrow> ebpf_watch_session_state session
   \<Rightarrow> proto_file_event \<times> proto_process_info option" where
  "file_event_for node cluster raw cached s =
     (let e = file_event_of_kernel raw;
          container_id = (case s_container_ids s of c # _ \<Rightarrow> c | [] \<Rightarrow> [])
      in (\<lparr>pf_timestamp = Some \<lparr>seconds = xf_timestamp_ns e div 1000000000,
                                nanos = ucast (xf_timestamp_ns e mod 1000000000)\<rparr>,
           pf_watcher_name = s_name s, pf_namespace = s_namespace s, pf_node_name = node,
           pf_pod_name = s_pod_name s, pf_container_id = container_id, pf_event_type = to_inotify_event e,
           pf_path = xf_path e, pf_filename = file_name_of (xf_path e), pf_is_directory = False,
           pf_inode = 0, pf_tags = [], pf_cluster_name = cluster\<rparr>,
          Some (file_process_info raw e cached)))"

definition forward_to_watch ::
  "kernel_file_event \<Rightarrow> process_cache_entry option \<Rightarrow> ebpf_watch_session_state session
   \<Rightarrow> (proto_file_event \<times> proto_process_info option) list \<times> argus_ebpf
   \<Rightarrow> (proto_file_event \<times> proto_process_info option) list \<times> argus_ebpf" where
  "forward_to_watch raw cached s acc =
     (case acc of (out, svc) \<Rightarrow>
       let e = file_event_of_kernel raw in
       if \<not> session_matches (xf_path e) (ews_active_prefixes (s_state s)) then acc
       else (let m = ews_typed_metrics (s_state s)
             in (out @ [file_event_for (ab_node_name svc) (ab_cluster_name svc) raw cached s],
                 svc\<lparr>ab_metrics_heap := (ab_metrics_heap svc)
                        [m := record_event_typed (xf_event_type_str e) (ab_metrics_heap svc ! m)]\<rparr>)))"

definition forward_watch_event ::
  "aya_api \<Rightarrow> kernel_file_event \<Rightarrow> argus_ebpf \<Rightarrow> (proto_file_event \<times> proto_process_info option) list \<times> argus_ebpf" where
  "forward_watch_event ay raw svc =
     (let cached = cached_process_of ay (ke_tgid raw) (ab_loader svc)
      in fold (forward_to_watch raw cached) (ebpf_live_watches svc) ([], svc))"

subsection \<open>Creation and destruction\<close>

definition ebpf_resolve_with :: "ebpf_env \<Rightarrow> container_runtime \<Rightarrow> string \<Rightarrow> grpc_status + u32" where
  "ebpf_resolve_with env rt cid =
     (case resolve_pid (xe_fs env) rt cid of
        Inr pid \<Rightarrow> Inr pid
      | Inl e \<Rightarrow> Inl (StatusNotFound (''Failed to resolve container PID: '' @ show_runtime_error (xe_show_io env) e)))"

definition ebpf_resolve_container_pid :: "ebpf_env \<Rightarrow> argus_ebpf \<Rightarrow> string \<Rightarrow> grpc_status + u32" where
  "ebpf_resolve_container_pid env svc cid =
     (case runtime_for_container (xe_fs env) (xe_host_root_path env) cid of
        Inr rt \<Rightarrow> ebpf_resolve_with env rt cid
      | Inl _ \<Rightarrow>
          (case ab_runtime svc of
             None \<Rightarrow> Inl (FailedPrecondition ''No container runtime available'')
           | Some rt \<Rightarrow> ebpf_resolve_with env rt cid))"

definition watch_prefixes :: "ebpf_env \<Rightarrow> argus_ebpf \<Rightarrow> watch_subject list \<Rightarrow> string \<Rightarrow> grpc_status + string list" where
  "watch_prefixes env svc subjects cid =
     (case ab_runtime svc of
        None \<Rightarrow> Inl (FailedPrecondition ''No container runtime'')
      | Some rt \<Rightarrow>
          (case ebpf_resolve_container_pid env svc cid of
             Inl st \<Rightarrow> Inl st
           | Inr pid \<Rightarrow>
               (let root = resolve_container_root rt pid
                in Inr (concat (map (\<lambda>s. map (prefix_of root) (ws_paths s)) subjects)))))"

text \<open>The process ids and the prefixes of a request; a container that fails is skipped.\<close>

definition ebpf_request_pids :: "ebpf_env \<Rightarrow> argus_ebpf \<Rightarrow> create_watch_request \<Rightarrow> i32 list" where
  "ebpf_request_pids env svc req =
     (let pids = List.map_filter
            (\<lambda>cid. case ebpf_resolve_container_pid env svc cid of Inr pid \<Rightarrow> Some pid | Inl _ \<Rightarrow> None)
            (cw_container_ids req)
      in if pids = [] then cw_pids req else pids)"

definition request_prefixes :: "ebpf_env \<Rightarrow> argus_ebpf \<Rightarrow> create_watch_request \<Rightarrow> string list" where
  "request_prefixes env svc req =
     concat (map (\<lambda>cid. case watch_prefixes env svc (cw_subjects req) cid of Inr ps \<Rightarrow> ps | Inl _ \<Rightarrow> [])
       (cw_container_ids req))"

definition ebpf_new_watch_session ::
  "ebpf_env \<Rightarrow> create_watch_request \<Rightarrow> i32 list \<Rightarrow> nat \<Rightarrow> string list \<Rightarrow> ebpf_watch_session_state session" where
  "ebpf_new_watch_session env req pids m ps =
     session_new (xe_now env) (cw_key req) (cw_watcher_name req) (cw_namespace req) (cw_node_name req)
       (cw_pod_name req) (cw_container_ids req) pids (cw_paused req) m
       \<lparr>ews_subjects = cw_subjects req, ews_log_format = cw_log_format req,
        ews_watched_prefixes = of_nat (length ps), ews_typed_metrics = m, ews_watches_ready = False,
        ews_ready_at = None, ews_active_prefixes = ps\<rparr>"

definition ebpf_watch_configure ::
  "ebpf_env \<Rightarrow> create_watch_request \<Rightarrow> nat \<Rightarrow> string list \<Rightarrow> argus_ebpf \<Rightarrow> i32 \<times> bool \<times> argus_ebpf" where
  "ebpf_watch_configure env req a ps svc =
     (if \<not> cw_paused req \<and> ps \<noteq> [] then
        (case add_watched_prefixes env ps svc of
           (Inr _, svc1) \<Rightarrow>
             (of_nat (length ps), True,
              svc1\<lparr>ab_sessions := session_modify a
                (\<lambda>s. s\<lparr>s_state := (s_state s)\<lparr>ews_watches_ready := True, ews_ready_at := Some (xe_now env)\<rparr>\<rparr>)
                (ab_sessions svc1)\<rparr>)
         | (Inl _, svc1) \<Rightarrow> (0, False, svc1))
      else (0, False, svc))"

definition ebpf_watch_register :: "ebpf_env \<Rightarrow> create_watch_request \<Rightarrow> argus_ebpf \<Rightarrow> nat \<times> argus_ebpf" where
  "ebpf_watch_register env req svc =
     (let m = length (ab_metrics_heap svc)
      in (m, svc\<lparr>ab_metrics_heap := ab_metrics_heap svc @ [watcher_metrics_new (xe_instant env) (cw_key req)],
                 ab_metrics := agg_register m (ab_metrics svc)\<rparr>))"

definition ebpf_create_watch ::
  "ebpf_env \<Rightarrow> create_watch_request \<Rightarrow> argus_ebpf \<Rightarrow> (grpc_status + create_watch_response) \<times> argus_ebpf" where
  "ebpf_create_watch env req svc =
     (if session_exists (cw_key req) (ab_sessions svc)
      then (Inl (StatusAlreadyExists (''Watch already exists: '' @ cw_key req)), svc)
      else
        (case argus_ensure_ebpf_initialized env svc of
           (Inl e, svc0) \<Rightarrow> (Inl (Internal (''Failed to initialize eBPF: '' @ show_ebpf_error e)), svc0)
         | (Inr _, svc0) \<Rightarrow>
             (let pids = ebpf_request_pids env svc0 req;
                  ps = request_prefixes env svc0 req;
                  (m, svc1) = ebpf_watch_register env req svc0
              in (case session_insert (ab_max_watches svc1) (cw_key req) (ebpf_new_watch_session env req pids m ps)
                         (ab_sessions svc1) of
                    Inl e \<Rightarrow> (Inl (ResourceExhausted (show_session_error e)), svc1)
                  | Inr (a, tbl) \<Rightarrow>
                      (let (n, ready, svc2) = ebpf_watch_configure env req a ps (svc1\<lparr>ab_sessions := tbl\<rparr>)
                       in (Inr \<lparr>cwr_watch_id = cw_key req, cwr_node_name = cw_node_name req,
                                cwr_pod_name = cw_pod_name req, cwr_watched_paths = n,
                                cwr_paused = cw_paused req, cwr_watches_ready = ready\<rparr>,
                           svc2))))))"

definition ebpf_destroy_watch ::
  "ebpf_env \<Rightarrow> string \<Rightarrow> string \<Rightarrow> string \<Rightarrow> argus_ebpf \<Rightarrow> argus_ebpf" where
  "ebpf_destroy_watch env watcher_name ns pod svc =
     (let watch_id = session_key watcher_name ns pod in
      case session_remove watch_id (ab_sessions svc) of
        (None, tbl) \<Rightarrow> svc\<lparr>ab_sessions := tbl\<rparr>
      | (Some a, tbl) \<Rightarrow>
          (let ps = ews_active_prefixes (s_state (tbl_heap tbl ! a));
               svc1 = svc\<lparr>ab_sessions := tbl\<rparr>;
               svc2 = (if ps \<noteq> [] then snd (remove_watched_prefixes env ps svc1) else svc1)
           in svc2\<lparr>ab_metrics := agg_unregister (\<lambda>m. wm_watcher_name (ab_metrics_heap svc2 ! m)) watch_id
                     (ab_metrics svc2)\<rparr>))"

subsection \<open>Queries and updates\<close>

definition ebpf_session_to_watch_state :: "ebpf_watch_session_state session \<Rightarrow> proto_watch_state" where
  "ebpf_session_to_watch_state s =
     \<lparr>pws_watcher_name = s_name s, pws_namespace = s_namespace s, pws_node_name = s_node_name s,
      pws_pod_name = s_pod_name s, pws_pids = s_pids s,
      pws_watch_descriptors = ucast (ews_watched_prefixes (s_state s)),
      pws_created_at = to_timestamp (s_created_at s), pws_subjects = ews_subjects (s_state s),
      pws_log_format = ews_log_format (s_state s), pws_paused = s_paused s,
      pws_watches_ready = ews_watches_ready (s_state s),
      pws_ready_at = Option.bind (ews_ready_at (s_state s)) to_timestamp,
      pws_active_watch_descriptors = ucast (ews_watched_prefixes (s_state s))\<rparr>"

definition ebpf_get_watch_state :: "string \<Rightarrow> string \<Rightarrow> (nat \<Rightarrow> bool) \<Rightarrow> argus_ebpf \<Rightarrow> proto_watch_state list" where
  "ebpf_get_watch_state watcher_name ns connected svc =
     stream_from_iter connected
       (map ebpf_session_to_watch_state
         (filter (\<lambda>s. \<not> (watcher_name \<noteq> [] \<and> s_name s \<noteq> watcher_name) \<and> \<not> (ns \<noteq> [] \<and> s_namespace s \<noteq> ns))
           (ebpf_live_watches svc)))"

definition ebpf_stream_events ::
  "string \<Rightarrow> string \<Rightarrow> i32 list \<Rightarrow> (nat \<Rightarrow> bool) \<Rightarrow> proto_file_event recv_result list \<Rightarrow> proto_file_event list" where
  "ebpf_stream_events watcher_name ns event_types connected rs =
     (let f0 = stream_filter_new;
          f1 = (if watcher_name \<noteq> [] then with_name watcher_name f0 else f0);
          f2 = (if ns \<noteq> [] then with_namespace ns f1 else f1);
          f3 = (if event_types \<noteq> []
                then with_event_types (filter (\<lambda>s. s \<noteq> []) (map inotify_event_to_string event_types)) f2
                else f2)
      in filtered_broadcast_stream file_event_filterable f3 (\<lambda>e. e) connected rs)"

definition ebpf_watch_metrics :: "nat \<Rightarrow> string \<Rightarrow> argus_ebpf \<Rightarrow> argus_metrics_response outcome" where
  "ebpf_watch_metrics now watcher_name svc =
     (let snapshots = collect_all (\<lambda>m. wm_snapshot now (ab_metrics_heap svc ! m)) (ab_metrics svc);
          totals = agg_totals (ab_metrics svc)
      in case checked_sum_signed 0 (map (\<lambda>s. ucast (custom_or_zero ''prefixes_active'' s)) snapshots) of
           Panicked \<Rightarrow> Panicked
         | Returned descriptors \<Rightarrow>
         Returned
         \<lparr>amr_active_watches = ucast (at_active_sessions totals),
          amr_total_watch_descriptors = descriptors,
          amr_events_processed = at_events_total totals,
          amr_watch_metrics = map (\<lambda>s.
            \<lparr>pwm_watcher_name = ms_name s, pwm_namespace = [], pwm_event_counts = ms_custom s,
             pwm_queue_overflows = custom_or_zero ''queue_overflows'' s\<rparr>)
            (filter (\<lambda>s. watcher_name = [] \<or> str_contains watcher_name (ms_name s)) snapshots)\<rparr>)"

definition ebpf_watch_set_paused :: "nat \<Rightarrow> bool \<Rightarrow> argus_ebpf \<Rightarrow> argus_ebpf" where
  "ebpf_watch_set_paused a b svc =
     svc\<lparr>ab_sessions := session_modify a (\<lambda>s. s\<lparr>s_paused := b\<rparr>) (ab_sessions svc)\<rparr>"

definition ebpf_pause_watch ::
  "ebpf_env \<Rightarrow> string \<Rightarrow> nat \<Rightarrow> argus_ebpf \<Rightarrow> (grpc_status + update_watch_response) \<times> argus_ebpf" where
  "ebpf_pause_watch env key a svc =
     (let s = tbl_heap (ab_sessions svc) ! a; ps = ews_active_prefixes (s_state s) in
      if s_paused s then (Inl (FailedPrecondition ''Watch is already paused''), svc)
      else (case filter_step (ps \<noteq> []) ''Failed to pause: '' (remove_watched_prefixes env ps) svc of
              (Inl e, svc1) \<Rightarrow> (Inl e, svc1)
            | (Inr _, svc1) \<Rightarrow>
                (Inr \<lparr>uw_watch_id = key, uw_paused = True, uw_watched_paths = 0\<rparr>, ebpf_watch_set_paused a True svc1)))"

definition ebpf_resume_watch ::
  "ebpf_env \<Rightarrow> string \<Rightarrow> nat \<Rightarrow> argus_ebpf \<Rightarrow> (grpc_status + update_watch_response) \<times> argus_ebpf" where
  "ebpf_resume_watch env key a svc =
     (let s = tbl_heap (ab_sessions svc) ! a; ps = ews_active_prefixes (s_state s) in
      if \<not> s_paused s then (Inl (FailedPrecondition ''Watch is not paused''), svc)
      else (case filter_step (ps \<noteq> []) ''Failed to resume: '' (add_watched_prefixes env ps) svc of
              (Inl e, svc1) \<Rightarrow> (Inl e, svc1)
            | (Inr _, svc1) \<Rightarrow>
                (Inr \<lparr>uw_watch_id = key, uw_paused = False, uw_watched_paths = of_nat (length ps)\<rparr>,
                 ebpf_watch_set_paused a False svc1)))"

definition ebpf_update_watch ::
  "ebpf_env \<Rightarrow> string \<Rightarrow> string \<Rightarrow> string \<Rightarrow> i32 \<Rightarrow> argus_ebpf
   \<Rightarrow> (grpc_status + update_watch_response) \<times> argus_ebpf" where
  "ebpf_update_watch env watcher_name ns pod action svc =
     (let key = session_key watcher_name ns pod in
      case session_get key (ab_sessions svc) of
        None \<Rightarrow> (Inl (StatusNotFound (''Watch not found: '' @ key)), svc)
      | Some a \<Rightarrow>
          (case update_action_of action of
             UaPause \<Rightarrow> ebpf_pause_watch env key a svc
           | UaResume \<Rightarrow> ebpf_resume_watch env key a svc
           | UaUnspecified \<Rightarrow> (Inl (InvalidArgument ''Action must be PAUSE or RESUME''), svc)))"

end
