(* ===== verification/Argus_Ebpf_Props.thy ===== *)
theory Argus_Ebpf_Props
  imports Argus_Ebpf_Service Ebpf_Ring Argus_Props
begin

section \<open>Properties of argusd in eBPF mode\<close>

text \<open>
  The session limit, the contents of the prefix map over any sequence of calls, and what they mean for the
  hooks; pausing, resuming and destroying watches.
\<close>

subsection \<open>Frames\<close>

lemma argus_on_loader_fields [simp]:
  "ab_sessions (snd (argus_on_loader f svc)) = ab_sessions svc"
  "ab_max_watches (snd (argus_on_loader f svc)) = ab_max_watches svc"
  "ab_runtime (snd (argus_on_loader f svc)) = ab_runtime svc"
  by (simp_all add: argus_on_loader_def split: prod.splits)

lemma prefix_ops_fields [simp]:
  "ab_sessions (snd (add_watched_prefixes env ps svc)) = ab_sessions svc"
  "ab_max_watches (snd (add_watched_prefixes env ps svc)) = ab_max_watches svc"
  "ab_sessions (snd (remove_watched_prefixes env ps svc)) = ab_sessions svc"
  "ab_max_watches (snd (remove_watched_prefixes env ps svc)) = ab_max_watches svc"
  by (simp_all add: add_watched_prefixes_def remove_watched_prefixes_def)

lemma prefix_ops_kept:
  "add_watched_prefixes env ps svc = (r, svc') \<Longrightarrow> ab_sessions svc' = ab_sessions svc \<and> ab_max_watches svc' = ab_max_watches svc"
  "remove_watched_prefixes env ps svc = (r, svc') \<Longrightarrow> ab_sessions svc' = ab_sessions svc \<and> ab_max_watches svc' = ab_max_watches svc"
  using prefix_ops_fields [of env ps svc] by simp_all

lemma filter_step_snd: "snd (filter_step needed text f svc) = (if needed then snd (f svc) else svc)"
  by (simp add: filter_step_def split: prod.splits sum.splits)

lemma argus_init_fields [simp]:
  "ab_sessions (snd (argus_ensure_ebpf_initialized env svc)) = ab_sessions svc"
  "ab_max_watches (snd (argus_ensure_ebpf_initialized env svc)) = ab_max_watches svc"
  "ab_runtime (snd (argus_ensure_ebpf_initialized env svc)) = ab_runtime svc"
  by (simp_all add: argus_ensure_ebpf_initialized_def split: sum.splits)

lemma forward_to_watch_fields:
  "ab_sessions (snd (forward_to_watch raw c s acc)) = ab_sessions (snd acc) \<and>
   ab_max_watches (snd (forward_to_watch raw c s acc)) = ab_max_watches (snd acc) \<and>
   ab_loader (snd (forward_to_watch raw c s acc)) = ab_loader (snd acc)"
  by (simp add: forward_to_watch_def Let_def split: prod.splits)

lemma fold_forward_to_watch_fields:
  "ab_sessions (snd (fold (forward_to_watch raw c) ss acc)) = ab_sessions (snd acc) \<and>
   ab_max_watches (snd (fold (forward_to_watch raw c) ss acc)) = ab_max_watches (snd acc) \<and>
   ab_loader (snd (fold (forward_to_watch raw c) ss acc)) = ab_loader (snd acc)"
  by (induction ss arbitrary: acc) (simp_all add: forward_to_watch_fields)

lemma forward_watch_event_fields [simp]:
  "ab_sessions (snd (forward_watch_event ay raw svc)) = ab_sessions svc"
  "ab_max_watches (snd (forward_watch_event ay raw svc)) = ab_max_watches svc"
  "ab_loader (snd (forward_watch_event ay raw svc)) = ab_loader svc"
  by (simp_all add: forward_watch_event_def fold_forward_to_watch_fields Let_def)

subsection \<open>The service as a sequence of calls\<close>

datatype ebpf_watch_call =
    EwCreate create_watch_request
  | EwDestroy string string string
  | EwUpdate string string string i32
  | EwForward kernel_file_event

definition argus_ebpf_step :: "ebpf_env \<Rightarrow> ebpf_watch_call \<Rightarrow> argus_ebpf \<Rightarrow> argus_ebpf" where
  "argus_ebpf_step env r svc = (case r of
     EwCreate req \<Rightarrow> snd (ebpf_create_watch env req svc)
   | EwDestroy n ns p \<Rightarrow> ebpf_destroy_watch env n ns p svc
   | EwUpdate n ns p a \<Rightarrow> snd (ebpf_update_watch env n ns p a svc)
   | EwForward raw \<Rightarrow> snd (forward_watch_event (xe_aya env) raw svc))"

text \<open>The sessions of \<open>svc'\<close> are those of \<open>svc\<close>, possibly modified in place.\<close>

definition modified_sessions :: "argus_ebpf \<Rightarrow> argus_ebpf \<Rightarrow> bool" where
  "modified_sessions svc svc' \<longleftrightarrow> ab_max_watches svc' = ab_max_watches svc \<and>
     (ab_sessions svc' = ab_sessions svc \<or> (\<exists>a f. ab_sessions svc' = session_modify a f (ab_sessions svc)))"

lemma modified_sessionsI:
  "ab_max_watches svc' = ab_max_watches svc \<Longrightarrow> ab_sessions svc' = ab_sessions svc \<Longrightarrow> modified_sessions svc svc'"
  "ab_max_watches svc' = ab_max_watches svc \<Longrightarrow> ab_sessions svc' = session_modify a f (ab_sessions svc) \<Longrightarrow>
     modified_sessions svc svc'"
  by (auto simp: modified_sessions_def)

lemma modified_sessions_wf:
  assumes "modified_sessions svc svc'"
  shows "table_wf (ab_sessions svc') = table_wf (ab_sessions svc)"
    and "session_count (ab_sessions svc') = session_count (ab_sessions svc)"
  using assms by (auto simp: modified_sessions_def)

lemma update_watch_modified: "modified_sessions svc (snd (ebpf_update_watch env n ns p a svc))"
proof -
  have "modified_sessions svc (snd (ebpf_pause_watch env k b svc))"
    "modified_sessions svc (snd (ebpf_resume_watch env k b svc))" for k b
    by (auto simp: ebpf_pause_watch_def ebpf_resume_watch_def Let_def filter_step_def ebpf_watch_set_paused_def
        intro: modified_sessionsI dest!: prefix_ops_kept split: prod.splits sum.splits if_splits)
  then show ?thesis
    by (simp add: ebpf_update_watch_def Let_def modified_sessions_def split: option.splits update_action.splits)
qed

lemma watch_register_fields [simp]:
  "ab_sessions (snd (ebpf_watch_register env req svc)) = ab_sessions svc"
  "ab_max_watches (snd (ebpf_watch_register env req svc)) = ab_max_watches svc"
  "ab_loader (snd (ebpf_watch_register env req svc)) = ab_loader svc"
  by (simp_all add: ebpf_watch_register_def Let_def)

text \<open>
  The ways \<open>create_watch\<close> ends: before the registration, after it with a full table, or with a session that
  is then configured.
\<close>

definition initialized :: "ebpf_env \<Rightarrow> create_watch_request \<Rightarrow> argus_ebpf \<Rightarrow> argus_ebpf" where
  "initialized env req svc = snd (ebpf_watch_register env req (snd (argus_ensure_ebpf_initialized env svc)))"

lemma create_watch_ends:
  obtains "snd (ebpf_create_watch env req svc) \<in> {svc, snd (argus_ensure_ebpf_initialized env svc), initialized env req svc}"
  | a ps s where "ps = request_prefixes env (snd (argus_ensure_ebpf_initialized env svc)) req"
      "ews_active_prefixes (s_state s) = ps"
      "session_count (ab_sessions svc) < ab_max_watches svc" "\<not> session_exists (cw_key req) (ab_sessions svc)"
      "snd (ebpf_create_watch env req svc) = snd (snd (ebpf_watch_configure env req a ps
         ((initialized env req svc)\<lparr>ab_sessions := snd (map_insert (cw_key req) s (ab_sessions svc))\<rparr>)))"
proof (cases "session_exists (cw_key req) (ab_sessions svc) \<or> (\<exists>e. fst (argus_ensure_ebpf_initialized env svc) = Inl e)")
  case True
  then have "snd (ebpf_create_watch env req svc) \<in> {svc, snd (argus_ensure_ebpf_initialized env svc), initialized env req svc}"
    by (auto simp: ebpf_create_watch_def split: prod.splits sum.splits)
  then show ?thesis by (rule that(1))
next
  case False
  then obtain svc0 where i: "argus_ensure_ebpf_initialized env svc = (Inr (), svc0)"
    by (cases "argus_ensure_ebpf_initialized env svc"; cases "fst (argus_ensure_ebpf_initialized env svc)") auto
  let ?ps = "request_prefixes env svc0 req"
  define s where "s = ebpf_new_watch_session env req (ebpf_request_pids env svc0 req) (fst (ebpf_watch_register env req svc0)) ?ps"
  have "ab_sessions svc0 = ab_sessions svc" "ab_max_watches svc0 = ab_max_watches svc"
    using argus_init_fields(1,2) [of env svc] i by simp_all
  then have new: "snd (ebpf_create_watch env req svc) =
      (case session_insert (ab_max_watches svc) (cw_key req) s (ab_sessions svc) of
         Inl e \<Rightarrow> initialized env req svc
       | Inr (a, tbl) \<Rightarrow> snd (snd (ebpf_watch_configure env req a ?ps ((initialized env req svc)\<lparr>ab_sessions := tbl\<rparr>))))"
    using False i
    by (simp add: ebpf_create_watch_def Let_def s_def initialized_def case_prod_beta split: sum.splits)
  show ?thesis
  proof (cases "session_insert (ab_max_watches svc) (cw_key req) s (ab_sessions svc)")
    case (Inl e)
    with new that(1) show ?thesis by simp
  next
    case (Inr r)
    then have lt: "session_count (ab_sessions svc) < ab_max_watches svc" and r: "r = map_insert (cw_key req) s (ab_sessions svc)"
      by (auto simp: session_insert_def split: if_splits)
    have "snd (ebpf_create_watch env req svc) = snd (snd (ebpf_watch_configure env req (fst r) ?ps
        ((initialized env req svc)\<lparr>ab_sessions := snd (map_insert (cw_key req) s (ab_sessions svc))\<rparr>)))"
      unfolding r [symmetric] using new Inr by (cases r) simp
    moreover have "ews_active_prefixes (s_state s) = ?ps" by (simp add: s_def ebpf_new_watch_session_def session_new_def)
    moreover have "?ps = request_prefixes env (snd (argus_ensure_ebpf_initialized env svc)) req" using i by simp
    ultimately show ?thesis using that(2) lt False by blast
  qed
qed

lemma initialized_fields [simp]:
  "ab_sessions (initialized env req svc) = ab_sessions svc"
  "ab_max_watches (initialized env req svc) = ab_max_watches svc"
  by (simp_all add: initialized_def)

lemma configure_modified: "modified_sessions svc (snd (snd (ebpf_watch_configure env req a ps svc)))"
  by (auto simp: ebpf_watch_configure_def intro: modified_sessionsI dest!: prefix_ops_kept
      split: prod.splits sum.splits)

lemma create_watch_sessions:
  "\<exists>svc1. modified_sessions svc1 (snd (ebpf_create_watch env req svc)) \<and> ab_max_watches svc1 = ab_max_watches svc \<and>
     (ab_sessions svc1 = ab_sessions svc \<or>
      (\<exists>s. session_count (ab_sessions svc) < ab_max_watches svc \<and> \<not> session_exists (cw_key req) (ab_sessions svc) \<and>
           ab_sessions svc1 = snd (map_insert (cw_key req) s (ab_sessions svc))))"
proof (cases rule: create_watch_ends [of env req svc])
  case 1
  then have "modified_sessions svc (snd (ebpf_create_watch env req svc))" by (auto intro: modified_sessionsI)
  then show ?thesis by blast
next
  case (2 a ps s)
  let ?svc1 = "(initialized env req svc)\<lparr>ab_sessions := snd (map_insert (cw_key req) s (ab_sessions svc))\<rparr>"
  have "modified_sessions ?svc1 (snd (ebpf_create_watch env req svc))" using configure_modified 2(5) by simp
  moreover have "ab_max_watches ?svc1 = ab_max_watches svc"
    "ab_sessions ?svc1 = snd (map_insert (cw_key req) s (ab_sessions svc))" by simp_all
  ultimately show ?thesis using 2(3,4) by blast
qed

lemma create_watch_bounded:
  assumes "table_wf (ab_sessions svc)"
  shows "table_wf (ab_sessions (snd (ebpf_create_watch env req svc)))"
    and "ab_max_watches (snd (ebpf_create_watch env req svc)) = ab_max_watches svc"
    and "session_count (ab_sessions svc) \<le> ab_max_watches svc \<Longrightarrow>
      session_count (ab_sessions (snd (ebpf_create_watch env req svc))) \<le> ab_max_watches svc"
proof -
  obtain svc1 where m: "modified_sessions svc1 (snd (ebpf_create_watch env req svc))"
      "ab_max_watches svc1 = ab_max_watches svc"
    and c: "ab_sessions svc1 = ab_sessions svc \<or>
      (\<exists>s. session_count (ab_sessions svc) < ab_max_watches svc \<and> \<not> session_exists (cw_key req) (ab_sessions svc) \<and>
           ab_sessions svc1 = snd (map_insert (cw_key req) s (ab_sessions svc)))"
    using create_watch_sessions [of env req svc] by blast
  note fields = modified_sessions_wf [OF m(1)]
  show "table_wf (ab_sessions (snd (ebpf_create_watch env req svc)))"
    using c assms by (auto simp: fields map_insert_wf)
  show "ab_max_watches (snd (ebpf_create_watch env req svc)) = ab_max_watches svc"
    using m by (simp add: modified_sessions_def)
  show "session_count (ab_sessions (snd (ebpf_create_watch env req svc))) \<le> ab_max_watches svc"
    if "session_count (ab_sessions svc) \<le> ab_max_watches svc"
    using c that map_insert_count [OF assms, of "cw_key req"] by (auto simp: fields session_exists_iff)
qed

lemma destroy_watch_sessions [simp]:
  "ab_sessions (ebpf_destroy_watch env n ns p svc) = snd (session_remove (session_key n ns p) (ab_sessions svc))"
  "ab_max_watches (ebpf_destroy_watch env n ns p svc) = ab_max_watches svc"
  by (auto simp: ebpf_destroy_watch_def Let_def split: prod.splits option.splits)

interpretation argus_ebpf: session_service ab_sessions ab_max_watches argus_ebpf_step
proof
  fix env r and svc :: argus_ebpf
  show "ab_max_watches (argus_ebpf_step env r svc) = ab_max_watches svc"
    using update_watch_modified [of svc env] create_watch_sessions [of env _ svc]
    by (cases r) (force simp: argus_ebpf_step_def modified_sessions_def)+
next
  fix env r and svc :: argus_ebpf
  assume wf: "table_wf (ab_sessions svc)"
  then show "table_wf (ab_sessions (argus_ebpf_step env r svc))"
    using modified_sessions_wf(1) [OF update_watch_modified] create_watch_bounded(1) [OF wf]
    by (cases r) (simp_all add: argus_ebpf_step_def session_remove_wf)
next
  fix env r and svc :: argus_ebpf
  assume wf: "table_wf (ab_sessions svc)" and le: "session_count (ab_sessions svc) \<le> ab_max_watches svc"
  then show "session_count (ab_sessions (argus_ebpf_step env r svc)) \<le> ab_max_watches svc"
    using modified_sessions_wf(2) [OF update_watch_modified] create_watch_bounded(3) [OF wf]
      le_trans [OF session_remove_count le]
    by (cases r) (simp_all add: argus_ebpf_step_def)
qed

text \<open>
  The number of watches in eBPF mode never passes the limit, whatever sequence of calls is handled, each in its own environment.
\<close>

theorem ebpf_watch_limit:
  "session_count (ab_sessions (fold (\<lambda>(env, r). argus_ebpf_step env r) rs (argus_ebpf_new fs h node cluster n))) \<le> n"
  using argus_ebpf.run_bounded [of "argus_ebpf_new fs h node cluster n" rs]
  by (simp add: argus_ebpf_new_def new_session_map_def table_wf_def session_count_def)

subsection \<open>What the prefix map can hold\<close>

lemma from_utf8_lossy_ascii: "byte c < 128 \<Longrightarrow> from_utf8_lossy (c # s) = c # from_utf8_lossy s"
  by (subst from_utf8_lossy.simps) (simp add: utf8_step_def)

abbreviation below_proc :: "string \<Rightarrow> bool" where
  "below_proc p \<equiv> starts_with p ''/proc/''"

lemma full_path_relative:
  assumes "\<not> starts_with path ''//''"
  shows "\<exists>q. full_path_of root path = path_join root q \<and> \<not> path_has_root q"
proof (cases "starts_with path ''/''")
  case True
  then obtain q where q: "path = ''/'' @ q" by (auto elim: starts_withE)
  with assms have "\<not> path_has_root q" by (auto simp: path_has_root_def starts_with_def elim!: starts_withE)
  with q True show ?thesis by (auto simp: full_path_of_def strip_prefix_def)
qed (auto simp: full_path_of_def strip_prefix_def path_has_root_def)

lemma prefix_of_below_proc:
  assumes "\<not> starts_with path ''//''"
  shows "below_proc (prefix_of (resolve_container_root rt pid) path)"
proof -
  obtain q where "full_path_of (resolve_container_root rt pid) path = path_join (resolve_container_root rt pid) q"
      "\<not> path_has_root q" using full_path_relative [OF assms] by blast
  then have "\<exists>r. full_path_of (resolve_container_root rt pid) path = ''/proc/'' @ r"
    by (simp add: path_join_def resolve_container_root_def)
  then obtain r where "full_path_of (resolve_container_root rt pid) path = ''/proc/'' @ r" by blast
  then show ?thesis by (simp add: prefix_of_def starts_with_def from_utf8_lossy_ascii byte_def)
qed

lemma path_to_key_below_proc:
  assumes "below_proc p"
  shows "below_proc (path_to_key 128 p)"
proof -
  obtain r where "p = ''/proc/'' @ r" using assms by (auto elim: starts_withE)
  then have "path_to_key 128 p = ''/proc/'' @ take 122 r @ replicate (128 - length p) nul"
    by (simp add: path_to_key_def)
  then show ?thesis by (simp only: starts_with_append)
qed

text \<open>The keys of the map and the prefixes of all sessions are below \<open>/proc/\<close>, and filtering is on.\<close>

definition object_blind :: "ebpf_object \<Rightarrow> bool" where
  "object_blind obj \<longleftrightarrow> (\<exists>K. keys_are 128 ''WATCHED_PREFIXES'' K obj \<and> (\<forall>k\<in>K. below_proc k)) \<and>
     map_of (eo_maps obj) ''FILTER_ENABLED'' = Some (FlagMap (Some 1))"

definition service_blind :: "argus_ebpf \<Rightarrow> bool" where
  "service_blind svc \<longleftrightarrow> (\<forall>obj. ab_loader svc = Some obj \<longrightarrow> object_blind obj) \<and>
     (\<forall>s\<in>set (tbl_heap (ab_sessions svc)). \<forall>p\<in>set (ews_active_prefixes (s_state s)). below_proc p)"

lemma load_ebpf_object:
  assumes "load_ebpf ay fs path programs = Inr obj"
  shows "\<exists>bytecode obj0. ay_load ay bytecode = Inr obj0 \<and> map_of (eo_maps obj) ''FILTER_ENABLED'' = Some (FlagMap (Some 1)) \<and>
    map_of (eo_maps obj) ''WATCHED_PREFIXES'' = map_of (eo_maps obj0) ''WATCHED_PREFIXES''"
proof -
  have attach: "attach_programs ay names o1 = Inr o2 \<Longrightarrow> eo_maps o2 = eo_maps o1" for names o1 o2
    by (induction names arbitrary: o1) (auto simp: attach_lsm_program_def split: option.splits sum.splits if_splits)
  have trace: "eo_maps (snd (attach_process_tracepoints ay o1)) = eo_maps o1" for o1
    by (auto simp: attach_process_tracepoints_def attach_tracepoint_if_exists_def split: option.splits sum.splits prod.splits)
  from assms obtain bytecode obj0 obj1 obj2 where l: "ay_load ay bytecode = Inr obj0" "eo_maps obj1 = eo_maps obj0"
      "set_filter_enabled ay True obj1 = (Inr (), obj2)"
      "start_event_loop ay (snd (attach_process_tracepoints ay obj2)) = (Inr (), obj)"
    by (auto simp: load_ebpf_def load_from_path_def load_with_programs_def dest!: attach
        split: sum.splits prod.splits if_splits)
  from l(3) have "eo_maps obj2 = AList.update ''FILTER_ENABLED'' (FlagMap (Some 1)) (eo_maps obj1)"
    by (auto simp: set_filter_enabled_def Let_def split: option.splits bpf_map.splits sum.splits)
  moreover from l(4) have "eo_maps obj = AList.delete ''EVENTS'' (eo_maps obj2)"
    by (auto simp: start_event_loop_def Let_def trace split: option.splits if_splits)
  ultimately show ?thesis using l(1,2) by (auto simp: update_conv' delete_conv)
qed

text \<open>What is required of the library here: its maps, and that a freshly loaded prefix map is empty.\<close>

definition fresh_prefix_map :: "aya_api \<Rightarrow> bool" where
  "fresh_prefix_map ay \<longleftrightarrow>
     (\<forall>bytecode obj. ay_load ay bytecode = Inr obj \<longrightarrow> map_of (eo_maps obj) ''WATCHED_PREFIXES'' = Some (PathMap 128 []))"

definition plain_request :: "create_watch_request \<Rightarrow> bool" where
  "plain_request req \<longleftrightarrow> (\<forall>s\<in>set (cw_subjects req). \<forall>p\<in>set (ws_paths s). \<not> starts_with p ''//'')"

lemma load_blind: "fresh_prefix_map ay \<Longrightarrow> load_ebpf ay fs path programs = Inr obj \<Longrightarrow> object_blind obj"
  by (drule load_ebpf_object) (auto simp: fresh_prefix_map_def object_blind_def keys_are_def)

lemma object_blind_keys:
  assumes "same_other_maps ''WATCHED_PREFIXES'' obj obj'" and "object_blind obj"
    and "keys_are 128 ''WATCHED_PREFIXES'' K obj'" and "\<forall>k\<in>K. below_proc k"
  shows "object_blind obj'"
  using assms by (auto simp: object_blind_def same_other_maps_def)

lemma add_prefixes_blind:
  assumes "path_map_contract (xe_aya env) cap" and "\<forall>p\<in>set ps. below_proc p" and "object_blind obj"
  shows "object_blind (snd (for_paths (\<lambda>p. add_watched_prefix (xe_aya env) p ''WATCHED_PREFIXES'') ps obj))"
proof -
  let ?r = "for_paths (update_path_map (ay_insert (xe_aya env)) (xe_aya env) 128 ''WATCHED_PREFIXES'' ''Failed to add prefix '') ps obj"
  obtain K where K: "keys_are 128 ''WATCHED_PREFIXES'' K obj" "\<forall>k\<in>K. below_proc k"
    using assms(3) by (auto simp: object_blind_def)
  from path_map_contract.add_paths_grows [OF assms(1) K(1), of _ ps "fst ?r" "snd ?r", OF prod.collapse [symmetric]] obtain K' where
    "keys_are 128 ''WATCHED_PREFIXES'' K' (snd ?r)" "K' \<subseteq> K \<union> path_to_key 128 ` set ps"
    "same_other_maps ''WATCHED_PREFIXES'' obj (snd ?r)" by auto
  moreover from this K(2) assms(2) have "\<forall>k\<in>K'. below_proc k" by (auto simp: path_to_key_below_proc)
  ultimately show ?thesis using object_blind_keys assms(3) by (simp add: path_map_ops)
qed

lemma remove_prefixes_blind:
  assumes "path_map_contract (xe_aya env) cap" and "object_blind obj"
  shows "object_blind (snd (for_paths (\<lambda>p. remove_watched_prefix (xe_aya env) p ''WATCHED_PREFIXES'') ps obj))"
proof -
  let ?r = "for_paths (update_path_map (ay_remove (xe_aya env)) (xe_aya env) 128 ''WATCHED_PREFIXES'' ''Failed to remove prefix '') ps obj"
  obtain K where K: "keys_are 128 ''WATCHED_PREFIXES'' K obj" "\<forall>k\<in>K. below_proc k"
    using assms(2) by (auto simp: object_blind_def)
  from path_map_contract.remove_paths_shrinks [OF assms(1) K(1), of _ ps "fst ?r" "snd ?r", OF prod.collapse [symmetric]] obtain K' where
    "keys_are 128 ''WATCHED_PREFIXES'' K' (snd ?r)" "K' \<subseteq> K" "same_other_maps ''WATCHED_PREFIXES'' obj (snd ?r)" by auto
  moreover from this K(2) have "\<forall>k\<in>K'. below_proc k" by auto
  ultimately show ?thesis using object_blind_keys assms(2) by (simp add: path_map_ops)
qed

lemma on_loader_blind:
  assumes "service_blind svc" and "\<And>obj. object_blind obj \<Longrightarrow> object_blind (snd (f obj))"
  shows "service_blind (snd (argus_on_loader f svc))"
proof -
  have "object_blind obj'" if "f obj = (r, obj')" "object_blind obj" for obj obj' r using assms(2) [of obj] that by simp
  then show ?thesis
    using assms(1) by (auto simp: service_blind_def argus_on_loader_def on_loader_def split: option.splits prod.splits)
qed

lemma prefix_ops_blind:
  assumes "path_map_contract (xe_aya env) cap" and "service_blind svc"
  shows "\<forall>p\<in>set ps. below_proc p \<Longrightarrow> service_blind (snd (add_watched_prefixes env ps svc))"
    and "service_blind (snd (remove_watched_prefixes env ps svc))"
  using on_loader_blind [OF assms(2)] add_prefixes_blind [OF assms(1)] remove_prefixes_blind [OF assms(1)]
  by (simp_all add: add_watched_prefixes_def remove_watched_prefixes_def)

text \<open>A change of a session that keeps its prefixes.\<close>

lemma modify_blind:
  assumes "service_blind svc" and "\<And>s. ews_active_prefixes (s_state (f s)) = ews_active_prefixes (s_state s)"
  shows "service_blind (svc\<lparr>ab_sessions := session_modify a f (ab_sessions svc)\<rparr>)"
proof (cases "a < length (tbl_heap (ab_sessions svc))")
  case True
  then have "tbl_heap (ab_sessions svc) ! a \<in> set (tbl_heap (ab_sessions svc))" by (rule nth_mem)
  with assms show ?thesis by (auto simp: service_blind_def session_modify_def dest!: set_update_subset_insert [THEN subsetD])
qed (use assms in \<open>simp add: service_blind_def session_modify_def list_update_beyond not_less\<close>)

lemma watch_prefixes_below_proc:
  "\<forall>s\<in>set subjects. \<forall>p\<in>set (ws_paths s). \<not> starts_with p ''//'' \<Longrightarrow> watch_prefixes env svc subjects cid = Inr ps \<Longrightarrow>
   \<forall>p\<in>set ps. below_proc p"
  by (auto simp: watch_prefixes_def Let_def intro!: prefix_of_below_proc split: sum.splits option.splits)

lemma request_prefixes_below_proc:
  "plain_request req \<Longrightarrow> \<forall>p\<in>set (request_prefixes env svc req). below_proc p"
  unfolding request_prefixes_def plain_request_def
  by (auto split: sum.splits dest!: watch_prefixes_below_proc)

lemma configure_blind:
  assumes "path_map_contract (xe_aya env) cap" and "service_blind svc" and "\<forall>p\<in>set ps. below_proc p"
  shows "service_blind (snd (snd (ebpf_watch_configure env req a ps svc)))"
proof -
  have "service_blind (snd (add_watched_prefixes env ps svc))" by (rule prefix_ops_blind(1) [OF assms])
  then show ?thesis
    using assms(2) by (auto simp: ebpf_watch_configure_def intro!: modify_blind split: prod.splits sum.splits)
qed

lemma init_blind:
  assumes "fresh_prefix_map (xe_aya env)" and "service_blind svc"
  shows "service_blind (snd (argus_ensure_ebpf_initialized env svc))"
  using assms load_blind [OF assms(1)]
  by (auto simp: argus_ensure_ebpf_initialized_def service_blind_def split: sum.splits)

lemma create_watch_blind:
  assumes "path_map_contract (xe_aya env) cap" and "fresh_prefix_map (xe_aya env)" and "plain_request req"
    and "service_blind svc"
  shows "service_blind (snd (ebpf_create_watch env req svc))"
proof -
  have i: "service_blind (snd (argus_ensure_ebpf_initialized env svc))" by (rule init_blind [OF assms(2,4)])
  then have r: "service_blind (initialized env req svc)" by (simp add: service_blind_def initialized_def)
  show ?thesis
  proof (cases rule: create_watch_ends [of env req svc])
    case 1
    with i r assms(4) show ?thesis by auto
  next
    case (2 a ps s)
    from request_prefixes_below_proc [OF assms(3)] 2(1) have ps: "\<forall>p\<in>set ps. below_proc p" by simp
    have "service_blind ((initialized env req svc)\<lparr>ab_sessions := snd (map_insert (cw_key req) s (ab_sessions svc))\<rparr>)"
      using r ps 2(2) by (auto simp: service_blind_def map_insert_def Let_def)
    with configure_blind [OF assms(1) _ ps] 2(5) show ?thesis by simp
  qed
qed

lemma destroy_watch_blind:
  assumes "path_map_contract (xe_aya env) cap" and "service_blind svc"
  shows "service_blind (ebpf_destroy_watch env n ns p svc)"
proof -
  let ?r = "session_remove (session_key n ns p) (ab_sessions svc)"
  have "service_blind (svc\<lparr>ab_sessions := snd ?r\<rparr>)"
    using modify_blind [OF assms(2), of session_stop] assms(2)
    by (auto simp: session_remove_def Let_def service_blind_def session_modify_def session_stop_def split: option.splits)
  moreover from this prefix_ops_blind(2) [OF assms(1)]
  have "service_blind (snd (remove_watched_prefixes env ps (svc\<lparr>ab_sessions := snd ?r\<rparr>)))" for ps by blast
  moreover have "service_blind (svc'\<lparr>ab_metrics := m\<rparr>)" if "service_blind svc'" for svc' m
    using that by (simp add: service_blind_def)
  ultimately show ?thesis by (auto simp: ebpf_destroy_watch_def Let_def split: prod.splits option.splits)
qed

lemma update_watch_blind:
  assumes "path_map_contract (xe_aya env) cap" and "service_blind svc" and "table_wf (ab_sessions svc)"
  shows "service_blind (snd (ebpf_update_watch env n ns p act svc))"
proof (cases "session_get (session_key n ns p) (ab_sessions svc)")
  case (Some a)
  let ?ps = "ews_active_prefixes (s_state (tbl_heap (ab_sessions svc) ! a))"
  have "a < length (tbl_heap (ab_sessions svc))" by (rule table_wf_get [OF assms(3) Some])
  then have "\<forall>p\<in>set ?ps. below_proc p" using assms(2) nth_mem unfolding service_blind_def by blast
  then have "service_blind (snd (add_watched_prefixes env ?ps svc))" "service_blind (snd (remove_watched_prefixes env ?ps svc))"
    using prefix_ops_blind [OF assms(1,2), of ?ps] by auto
  then show ?thesis
    using Some assms(2)
    by (auto simp: ebpf_update_watch_def ebpf_pause_watch_def ebpf_resume_watch_def Let_def filter_step_def
        ebpf_watch_set_paused_def intro!: modify_blind split: update_action.splits prod.splits sum.splits if_splits)
qed (use assms in \<open>simp add: ebpf_update_watch_def Let_def\<close>)

definition plain_call :: "ebpf_watch_call \<Rightarrow> bool" where
  "plain_call r = (case r of EwCreate req \<Rightarrow> plain_request req | _ \<Rightarrow> True)"

lemma run_blind:
  assumes "\<forall>(env, r)\<in>set rs. path_map_contract (xe_aya env) cap \<and> fresh_prefix_map (xe_aya env) \<and> plain_call r"
    and "service_blind svc" and "table_wf (ab_sessions svc)"
  shows "service_blind (fold (\<lambda>(env, r). argus_ebpf_step env r) rs svc)"
  using assms
proof (induction rs arbitrary: svc)
  case (Cons x rs)
  obtain env r where x: "x = (env, r)" by (cases x)
  with Cons.prems(1) have ok: "path_map_contract (xe_aya env) cap" "fresh_prefix_map (xe_aya env)" "plain_call r" by auto
  have "service_blind (argus_ebpf_step env r svc)"
  proof (cases r)
    case (EwForward raw)
    with Cons.prems show ?thesis by (simp add: argus_ebpf_step_def service_blind_def)
  qed (use Cons.prems(2,3) ok create_watch_blind [OF ok(1,2)] destroy_watch_blind [OF ok(1)] update_watch_blind [OF ok(1)]
      in \<open>simp_all add: argus_ebpf_step_def plain_call_def\<close>)
  with Cons x argus_ebpf.step_wf show ?case by simp
qed simp

text \<open>With such a map the filter lets only paths below \<open>/proc/\<close> pass.\<close>

lemma below_proc_take: "below_proc p \<longleftrightarrow> take 6 p = ''/proc/''"
  by (simp add: starts_with_def eval_nat_numeral)

lemma blind_filter:
  assumes "object_blind obj" and "should_emit_event path (maps_view ''WATCHED_PREFIXES'' evs obj)"
  shows "below_proc (takeWhile (\<lambda>b. b \<noteq> nul) path)"
proof -
  let ?t = "takeWhile (\<lambda>b. b \<noteq> nul) path"
  obtain K where K: "keys_are 128 ''WATCHED_PREFIXES'' K obj" "\<forall>k\<in>K. below_proc k"
      "map_of (eo_maps obj) ''FILTER_ENABLED'' = Some (FlagMap (Some 1))"
    using assms(1) unfolding object_blind_def by blast
  with assms(2) have "\<exists>n\<in>{128, 64, 32, 16, 8}. n \<le> length ?t \<and> prefix_key n path \<in> K"
    by (auto simp: should_emit_event_def maps_view_def keys_are_path_keys Let_def split: if_splits)
  then obtain n where n: "n \<in> {128, 64, 32, 16, 8}" "n \<le> length ?t" "prefix_key n path \<in> K" by blast
  then have "take 6 (prefix_key n path) = take 6 path"
    using length_takeWhile_le [of "\<lambda>b. b \<noteq> nul" path] by (auto simp: prefix_key_def)
  moreover have "take 6 ?t = take 6 path"
    using n(1,2) by (subst takeWhile_eq_take) (auto simp: min_def)
  ultimately show ?thesis using bspec [OF K(2) n(3)] unfolding below_proc_take by simp
qed

text \<open>A dentry whose path the walk can hold and that is not below \<open>/proc/\<close>; the root directory is one.\<close>

definition outside_proc :: "kernel_mem \<Rightarrow> u64 \<Rightarrow> bool" where
  "outside_proc m dentry \<longleftrightarrow> (\<exists>names. dentry_chain m dentry names \<and> walkable names \<and> \<not> below_proc (dentry_path names))"

lemma blind_submit:
  assumes "object_blind obj" and "outside_proc m dentry" and "length out = MAX_PATH_LEN"
    and "b = snd (extract_path_from_dentry m dentry out)"
  shows "submit_event_filtered ctx (e\<lparr>ke_path := b\<rparr>) (maps_view ''WATCHED_PREFIXES'' evs obj)
      = maps_view ''WATCHED_PREFIXES'' evs obj"
    and "length b = MAX_PATH_LEN"
proof -
  obtain names where c: "dentry_chain m dentry names" "walkable names" "\<not> below_proc (dentry_path names)"
    using assms(2) unfolding outside_proc_def by blast
  obtain n where e: "extract_path_from_dentry m dentry out = (n, b)"
    using assms(4) by (cases "extract_path_from_dentry m dentry out") simp
  let ?path = "if names = [] then ''/'' else dentry_path names"
  note t = extracted_text_of [OF c(1,2) assms(3) e]
  then show "length b = MAX_PATH_LEN" by simp
  have "?path \<noteq> []" by (cases names) (simp_all add: dentry_path_Cons)
  with t have "b ! 0 \<noteq> nul" by (cases b) (auto split: if_splits)
  moreover have "\<not> below_proc ?path" using c(3) by (simp add: starts_with_def)
  ultimately show "submit_event_filtered ctx (e\<lparr>ke_path := b\<rparr>) (maps_view ''WATCHED_PREFIXES'' evs obj)
      = maps_view ''WATCHED_PREFIXES'' evs obj"
    using blind_filter [OF assms(1), of b evs] t by (auto simp: submit_event_filtered_def)
qed

text \<open>
  C28: In eBPF mode a watch sees no file outside \<open>/proc\<close>. The service registers paths as seen through
  \<open>/proc/<pid>/root\<close>, the hooks report the path inside the file system. After any sequence of calls, each in
  its own environment, whose watched paths do not start with two slashes (such a path replaces the root of
  the container and can register a prefix elsewhere), creating, unlinking, renaming or opening files submits
  no event if their paths can be walked (at most 20 names of at most 32 bytes, 256 bytes in all; the root
  directory included) and are not below \<open>/proc/\<close>: the hook leaves the ring buffer as it is. Required of the
  library are its maps and that the prefix map of a freshly loaded object is empty.
\<close>

theorem ebpf_watch_blind:
  assumes "\<forall>(env, r)\<in>set rs. path_map_contract (xe_aya env) cap \<and> fresh_prefix_map (xe_aya env) \<and> plain_call r"
    and "ab_loader (fold (\<lambda>(env, r). argus_ebpf_step env r) rs (argus_ebpf_new fs h node cluster n)) = Some obj"
    and "outside_proc (bc_mem ctx) dentry" and "outside_proc (bc_mem ctx) dentry'"
    and "k = HkCreate dentry \<or> k = HkUnlink dentry \<or> k = HkRename dentry dentry' \<or>
         k = HkArgusOpen opened \<and> opened \<noteq> 0 \<and> km_ptr (bc_mem ctx) (opened + 24) = Some dentry"
  shows "run_hook (ctx, k) (maps_view ''WATCHED_PREFIXES'' evs obj) = maps_view ''WATCHED_PREFIXES'' evs obj"
proof -
  have "service_blind (argus_ebpf_new fs h node cluster n)" "table_wf (ab_sessions (argus_ebpf_new fs h node cluster n))"
    by (simp_all add: service_blind_def argus_ebpf_new_def new_session_map_def table_wf_def)
  from run_blind [OF assms(1) this] assms(2) have blind: "object_blind obj" by (simp add: service_blind_def)
  note silent = blind_submit [OF blind assms(3) _ refl]
  from assms(5) show ?thesis
    by (auto simp: run_hook_def hook_defs Let_def silent blind_submit(1) [OF blind assms(4) _ refl] extract_path_from_file_def)
qed

lemma add_prefixes_ok:
  assumes "path_map_contract (xe_aya env) cap" and "ab_loader svc = Some obj" and "keys_are 128 ''WATCHED_PREFIXES'' K obj"
    and "card (K \<union> path_to_key 128 ` set ps) \<le> cap ''WATCHED_PREFIXES''"
  shows "\<exists>obj'. add_watched_prefixes env ps svc = (Inr (), svc\<lparr>ab_loader := Some obj'\<rparr>) \<and>
    keys_are 128 ''WATCHED_PREFIXES'' (K \<union> path_to_key 128 ` set ps) obj' \<and> same_other_maps ''WATCHED_PREFIXES'' obj obj'"
proof -
  have "finite K" using assms(3) by (auto simp: keys_are_def)
  from path_map_contract.add_paths [OF assms(1,3) this assms(4), of "''Failed to add prefix ''"] assms(2) show ?thesis
    by (auto simp: add_watched_prefixes_def argus_on_loader_def on_loader_def path_map_ops)
qed

text \<open>
  The hypotheses can hold with a prefix in the map: the object is loaded for a first watch; a second one names
  a container whose pid file says 42, and \<open>/proc/42/root/a\<close> is registered. Creating \<open>/x\<close> is not reported.
\<close>

lemma create_watch_registers:
  assumes "path_map_contract (xe_aya env) cap" and "ab_loader svc = Some obj"
    and "keys_are 128 ''WATCHED_PREFIXES'' K obj" and "\<not> session_exists (cw_key req) (ab_sessions svc)"
    and "session_count (ab_sessions svc) < ab_max_watches svc" and "\<not> cw_paused req"
    and "request_prefixes env svc req = ps" and "ps \<noteq> []"
    and "card (K \<union> path_to_key 128 ` set ps) \<le> cap ''WATCHED_PREFIXES''"
  shows "\<exists>obj'. ab_loader (snd (ebpf_create_watch env req svc)) = Some obj' \<and>
    keys_are 128 ''WATCHED_PREFIXES'' (K \<union> path_to_key 128 ` set ps) obj'"
proof -
  define svc1 where "svc1 = snd (ebpf_watch_register env req svc)"
  have l: "ab_loader (svc1\<lparr>ab_sessions := t\<rparr>) = Some obj" for t using assms(2) by (simp add: svc1_def)
  have "\<exists>a t. snd (ebpf_create_watch env req svc) = snd (snd (ebpf_watch_configure env req a ps (svc1\<lparr>ab_sessions := t\<rparr>)))"
    using assms(2,4,5,7)
    by (simp add: ebpf_create_watch_def argus_ensure_ebpf_initialized_def session_insert_def Let_def case_prod_beta
        svc1_def [symmetric]) (simp add: svc1_def, blast)
  then obtain a t where c: "snd (ebpf_create_watch env req svc) =
      snd (snd (ebpf_watch_configure env req a ps (svc1\<lparr>ab_sessions := t\<rparr>)))" by blast
  from add_prefixes_ok [OF assms(1) l [of t] assms(3,9)] assms(6,8) show ?thesis
    unfolding c by (auto simp: ebpf_watch_configure_def)
qed

definition example_ebpf_env :: ebpf_env where
  "example_ebpf_env =
     \<lparr>xe_aya = example_aya, xe_fs = example_kernel, xe_host_root_path = None, xe_now = 0, xe_instant = 0,
      xe_show_io = (\<lambda>_. [])\<rparr>"

definition pid_file_ebpf_env :: ebpf_env where
  "pid_file_ebpf_env = example_ebpf_env\<lparr>xe_fs := ar_fs pid_file_env\<rparr>"

definition example_watch :: create_watch_request where
  "example_watch =
     \<lparr>cw_watcher_name = ''w'', cw_namespace = ''n'', cw_node_name = [], cw_pod_name = ''p'', cw_container_ids = [],
      cw_pids = [], cw_subjects = [], cw_log_format = [], cw_paused = False\<rparr>"

definition container_watch :: create_watch_request where
  "container_watch = example_watch\<lparr>cw_pod_name := ''q'', cw_container_ids := [''containerd://ab''],
     cw_subjects := [some_subject]\<rparr>"

lemma example_loaded:
  assumes "svc = argus_ebpf_step example_ebpf_env (EwCreate example_watch) (argus_ebpf_new fs h node cluster 2)"
  shows "\<exists>obj. ab_loader svc = Some obj \<and> keys_are 128 ''WATCHED_PREFIXES'' {} obj"
    and "\<not> session_exists (cw_key container_watch) (ab_sessions svc)"
    and "session_count (ab_sessions svc) < ab_max_watches svc" and "ab_runtime svc = detect_runtime fs h"
proof -
  obtain obj where o: "load_ebpf example_aya example_kernel ARGUS_BYTECODE_PATH ARGUS_LSM_PROGRAMS = Inr obj"
      "keys_are 128 ''WATCHED_PREFIXES'' {} obj"
    using example_load [of ARGUS_BYTECODE_PATH ARGUS_LSM_PROGRAMS]
    by (auto simp: ARGUS_BYTECODE_PATH_def ARGUS_LSM_PROGRAMS_def example_object_def keys_are_def)
  note run = argus_ebpf_step_def ebpf_create_watch_def argus_ebpf_new_def example_ebpf_env_def example_watch_def
    argus_ensure_ebpf_initialized_def new_session_map_def session_exists_def Let_def ebpf_watch_register_def
    ebpf_watch_configure_def session_insert_def request_prefixes_def map_insert_def session_count_def
  show "\<exists>obj. ab_loader svc = Some obj \<and> keys_are 128 ''WATCHED_PREFIXES'' {} obj"
    using o by (simp add: assms run)
  show "\<not> session_exists (cw_key container_watch) (ab_sessions svc)"
    using o by (simp add: assms run container_watch_def cw_key_def session_key_def)
  show "session_count (ab_sessions svc) < ab_max_watches svc" "ab_runtime svc = detect_runtime fs h"
    using o by (simp_all add: assms run)
qed

lemma container_watch_prefixes:
  assumes "ab_runtime svc = Some rt"
  shows "request_prefixes pid_file_ebpf_env svc container_watch = [''/proc/42/root/a'']"
proof -
  have "xe_fs pid_file_ebpf_env = ar_fs pid_file_env" "xe_host_root_path pid_file_ebpf_env = None"
    by (simp_all add: pid_file_ebpf_env_def example_ebpf_env_def)
  then have "ebpf_resolve_container_pid pid_file_ebpf_env svc ''containerd://ab'' = Inr 42"
    using pid_file_resolves by (simp add: ebpf_resolve_container_pid_def ebpf_resolve_with_def)
  moreover have "prefix_of (resolve_container_root rt 42) ''/a'' = ''/proc/42/root/a''"
    by (simp add: prefix_of_def pid_file_path from_utf8_lossy_ascii byte_def from_utf8_lossy.simps [of "[]"])
  ultimately show ?thesis
    using assms by (simp add: request_prefixes_def watch_prefixes_def container_watch_def some_subject_def)
qed

theorem ebpf_watch_blind_witness:
  "\<exists>obj. ab_loader (fold (\<lambda>(env, r). argus_ebpf_step env r)
       [(example_ebpf_env, EwCreate example_watch), (pid_file_ebpf_env, EwCreate container_watch)]
       (argus_ebpf_new (ar_fs pid_file_env) None [] [] 2)) = Some obj \<and>
     keys_are 128 ''WATCHED_PREFIXES'' {path_to_key 128 ''/proc/42/root/a''} obj \<and>
     run_hook (example_bpf_context, HkCreate 1000) (maps_view ''WATCHED_PREFIXES'' [] obj) =
       maps_view ''WATCHED_PREFIXES'' [] obj"
proof -
  let ?rs = "[(example_ebpf_env, EwCreate example_watch), (pid_file_ebpf_env, EwCreate container_watch)]"
  let ?new = "argus_ebpf_new (ar_fs pid_file_env) None [] [] 2"
  define svc where "svc = argus_ebpf_step example_ebpf_env (EwCreate example_watch) ?new"
  have aya: "path_map_contract (xe_aya env) (\<lambda>_. 256) \<and> fresh_prefix_map (xe_aya env)"
    if "env \<in> {example_ebpf_env, pid_file_ebpf_env}" for env
    using that ref_maps.path_map_contract_axioms
    by (auto simp: example_ebpf_env_def pid_file_ebpf_env_def fresh_prefix_map_def ref_aya_def example_object_def)
  obtain obj0 where obj0: "ab_loader svc = Some obj0" "keys_are 128 ''WATCHED_PREFIXES'' {} obj0"
    using example_loaded(1) [OF svc_def] by blast
  have "ab_runtime svc = Some (ContainerdRuntime ''/host'')"
    using example_loaded(4) [OF svc_def] fresh_argusd_runtime by (simp add: fresh_argusd_def argusd_new_def)
  then have ps: "request_prefixes pid_file_ebpf_env svc container_watch = [''/proc/42/root/a'']"
    by (rule container_watch_prefixes)
  have "\<not> cw_paused container_watch" by (simp add: container_watch_def example_watch_def)
  with create_watch_registers [OF _ obj0 example_loaded(2,3) [OF svc_def] _ ps, of "\<lambda>_. 256"] aya obtain obj where
    obj: "ab_loader (fold (\<lambda>(env, r). argus_ebpf_step env r) ?rs ?new) = Some obj"
      "keys_are 128 ''WATCHED_PREFIXES'' {path_to_key 128 ''/proc/42/root/a''} obj"
    by (auto simp: svc_def argus_ebpf_step_def)
  have "\<forall>(env, r)\<in>set ?rs. path_map_contract (xe_aya env) (\<lambda>_. 256) \<and> fresh_prefix_map (xe_aya env) \<and> plain_call r"
    using aya by (auto simp: plain_call_def plain_request_def example_watch_def container_watch_def some_subject_def starts_with_def)
  moreover have "outside_proc (bc_mem example_bpf_context) 1000"
    using example_chain example_walkable
    by (auto simp: outside_proc_def example_bpf_context_def dentry_path_def starts_with_def intro!: exI [of _ "[''x'']"])
  ultimately show ?thesis
    using ebpf_watch_blind [OF _ obj(1), of "\<lambda>_. 256" example_bpf_context 1000 1000 "HkCreate 1000"] obj by blast
qed

subsection \<open>Pausing, resuming and destroying\<close>

lemma remove_prefixes_ok:
  assumes "path_map_contract (xe_aya env) cap" and "ab_loader svc = Some obj" and "keys_are 128 ''WATCHED_PREFIXES'' K obj"
    and "distinct (map (path_to_key 128) ps)" and "path_to_key 128 ` set ps \<subseteq> K"
  shows "\<exists>obj'. remove_watched_prefixes env ps svc = (Inr (), svc\<lparr>ab_loader := Some obj'\<rparr>) \<and>
    keys_are 128 ''WATCHED_PREFIXES'' (K - path_to_key 128 ` set ps) obj' \<and> same_other_maps ''WATCHED_PREFIXES'' obj obj'"
  using path_map_contract.remove_paths [OF assms(1,3-5), of "''Failed to remove prefix ''"] assms(2)
  by (auto simp: remove_watched_prefixes_def argus_on_loader_def on_loader_def path_map_ops)

lemma set_paused_back:
  assumes "a < length (tbl_heap t)" and "\<not> s_paused (tbl_heap t ! a)"
  shows "session_modify a (\<lambda>s. s\<lparr>s_paused := False\<rparr>) (session_modify a (\<lambda>s. s\<lparr>s_paused := True\<rparr>) t) = t"
proof -
  have "(tbl_heap t ! a)\<lparr>s_paused := False\<rparr> = tbl_heap t ! a" using assms(2) by (cases "tbl_heap t ! a") simp
  then have "(tbl_heap t)[a := (tbl_heap t ! a)\<lparr>s_paused := False\<rparr>] = tbl_heap t" by (simp add: list_update_same_conv assms(1))
  with assms(1) show ?thesis by (cases t) (simp add: session_modify_def)
qed

text \<open>
  C39: Pausing and resuming a watch in eBPF mode restores it. For a watch whose prefixes are in the kernel map
  under distinct keys, the pause succeeds and takes exactly these keys out; the resume then succeeds, puts
  them back, and sessions and map are what they were.
\<close>

theorem ebpf_pause_resume:
  assumes "path_map_contract (xe_aya env) cap" and "table_wf (ab_sessions svc)"
    and "session_get (session_key n ns p) (ab_sessions svc) = Some a" and "s = tbl_heap (ab_sessions svc) ! a"
    and "\<not> s_paused s" and "ps = ews_active_prefixes (s_state s)" and "ps \<noteq> []"
    and "ab_loader svc = Some obj" and "keys_are 128 ''WATCHED_PREFIXES'' K obj" and "card K \<le> cap ''WATCHED_PREFIXES''"
    and "distinct (map (path_to_key 128) ps)" and "path_to_key 128 ` set ps \<subseteq> K"
  shows "\<exists>r1 svc1 obj1 r2 svc2 obj2.
    ebpf_update_watch env n ns p 1 svc = (Inr r1, svc1) \<and> ab_loader svc1 = Some obj1 \<and>
    set (path_keys ''WATCHED_PREFIXES'' obj1) = K - path_to_key 128 ` set ps \<and>
    ebpf_update_watch env n ns p 2 svc1 = (Inr r2, svc2) \<and> uw_watched_paths r2 = of_nat (length ps) \<and>
    ab_loader svc2 = Some obj2 \<and> set (path_keys ''WATCHED_PREFIXES'' obj2) = K \<and> ab_sessions svc2 = ab_sessions svc"
proof -
  have a: "a < length (tbl_heap (ab_sessions svc))" by (rule table_wf_get [OF assms(2,3)])
  from remove_prefixes_ok [OF assms(1,8,9,11,12)] obtain obj1 where
    r: "remove_watched_prefixes env ps svc = (Inr (), svc\<lparr>ab_loader := Some obj1\<rparr>)"
       "keys_are 128 ''WATCHED_PREFIXES'' (K - path_to_key 128 ` set ps) obj1" by blast
  define svc1 where "svc1 = ebpf_watch_set_paused a True (svc\<lparr>ab_loader := Some obj1\<rparr>)"
  have pause: "ebpf_update_watch env n ns p 1 svc =
      (Inr \<lparr>uw_watch_id = session_key n ns p, uw_paused = True, uw_watched_paths = 0\<rparr>, svc1)"
    using assms(3-7) r(1) by (simp add: ebpf_update_watch_def update_action_of_def ebpf_pause_watch_def Let_def
        filter_step_def svc1_def)
  have K: "(K - path_to_key 128 ` set ps) \<union> path_to_key 128 ` set ps = K" using assms(12) by auto
  have l: "ab_loader svc1 = Some obj1" by (simp add: svc1_def ebpf_watch_set_paused_def)
  from add_prefixes_ok [OF assms(1) l r(2), of ps] K assms(10) obtain obj2 where
    d: "add_watched_prefixes env ps svc1 = (Inr (), svc1\<lparr>ab_loader := Some obj2\<rparr>)"
       "keys_are 128 ''WATCHED_PREFIXES'' K obj2" by auto
  have heap: "tbl_heap (ab_sessions svc1) ! a = s\<lparr>s_paused := True\<rparr>"
    using a assms(4) by (simp add: svc1_def ebpf_watch_set_paused_def session_modify_def)
  have get: "session_get (session_key n ns p) (ab_sessions svc1) = Some a"
    using assms(3) by (simp add: svc1_def ebpf_watch_set_paused_def)
  have resume: "ebpf_update_watch env n ns p 2 svc1 =
      (Inr \<lparr>uw_watch_id = session_key n ns p, uw_paused = False, uw_watched_paths = of_nat (length ps)\<rparr>,
       ebpf_watch_set_paused a False (svc1\<lparr>ab_loader := Some obj2\<rparr>))"
    using heap get assms(6,7) d(1) by (simp add: ebpf_update_watch_def update_action_of_def ebpf_resume_watch_def
        Let_def filter_step_def)
  have "ab_sessions (ebpf_watch_set_paused a False (svc1\<lparr>ab_loader := Some obj2\<rparr>)) = ab_sessions svc"
    using set_paused_back [OF a] assms(4,5) by (simp add: svc1_def ebpf_watch_set_paused_def)
  with pause resume l keys_are_path_keys [OF r(2)] keys_are_path_keys [OF d(2)] show ?thesis
    by (fastforce simp: ebpf_watch_set_paused_def)
qed

text \<open>
  Destroying one watch takes the prefixes of another. The kernel map counts no references: after a watch is
  destroyed, a prefix it shared with a second watch is gone from the map, while the second watch is
  still in the table, unchanged.
\<close>

theorem destroy_drops_shared_prefix:
  assumes "path_map_contract (xe_aya env) cap" and "table_wf (ab_sessions svc)"
    and "session_lookup (ab_sessions svc) (session_key n ns p) = Some s1" and "ps = ews_active_prefixes (s_state s1)"
    and "session_lookup (ab_sessions svc) k2 = Some s2" and "k2 \<noteq> session_key n ns p"
    and "q \<in> set ps" and "q \<in> set (ews_active_prefixes (s_state s2))"
    and "ab_loader svc = Some obj" and "keys_are 128 ''WATCHED_PREFIXES'' K obj"
    and "distinct (map (path_to_key 128) ps)" and "path_to_key 128 ` set ps \<subseteq> K"
  shows "session_lookup (ab_sessions (ebpf_destroy_watch env n ns p svc)) k2 = Some s2 \<and>
    (\<exists>obj'. ab_loader (ebpf_destroy_watch env n ns p svc) = Some obj' \<and>
       path_to_key 128 q \<notin> set (path_keys ''WATCHED_PREFIXES'' obj'))"
proof
  show "session_lookup (ab_sessions (ebpf_destroy_watch env n ns p svc)) k2 = Some s2"
    using assms(5,6) session_remove_lookup [OF assms(2), of "session_key n ns p"] by simp
  from assms(3) obtain a where a: "session_get (session_key n ns p) (ab_sessions svc) = Some a"
      "tbl_heap (ab_sessions svc) ! a = s1" by (auto simp: session_lookup_def)
  then have lt: "a < length (tbl_heap (ab_sessions svc))" using table_wf_get [OF assms(2)] by blast
  let ?t = "snd (session_remove (session_key n ns p) (ab_sessions svc))"
  have st: "s_state (tbl_heap ?t ! a) = s_state s1"
    using a lt by (simp add: session_remove_def Let_def session_modify_def session_stop_def)
  have rm: "session_remove (session_key n ns p) (ab_sessions svc) = (Some a, ?t)"
    using session_remove_result [of "session_key n ns p" "ab_sessions svc"] a(1) by (metis prod.collapse)
  have "ab_loader (svc\<lparr>ab_sessions := ?t\<rparr>) = Some obj" using assms(9) by simp
  from remove_prefixes_ok [OF assms(1) this assms(10-12)] obtain obj' where
    o: "remove_watched_prefixes env ps (svc\<lparr>ab_sessions := ?t\<rparr>) = (Inr (), svc\<lparr>ab_sessions := ?t, ab_loader := Some obj'\<rparr>)"
       "keys_are 128 ''WATCHED_PREFIXES'' (K - path_to_key 128 ` set ps) obj'" by auto
  have "ps \<noteq> []" using assms(7) by auto
  have "ab_loader (ebpf_destroy_watch env n ns p svc) = Some obj'"
    unfolding ebpf_destroy_watch_def Let_def
    by (subst rm) (simp add: st assms(4) [symmetric] o(1) \<open>ps \<noteq> []\<close>)
  moreover have "path_to_key 128 q \<notin> set (path_keys ''WATCHED_PREFIXES'' obj')"
    using keys_are_path_keys [OF o(2)] assms(7) by simp
  ultimately show "\<exists>obj'. ab_loader (ebpf_destroy_watch env n ns p svc) = Some obj' \<and>
      path_to_key 128 q \<notin> set (path_keys ''WATCHED_PREFIXES'' obj')" by blast
qed

text \<open>Two watches with the prefix \<open>/a\<close>, which is in the map.\<close>

definition shared_session :: "string \<Rightarrow> ebpf_watch_session_state session" where
  "shared_session name = session_new 0 (session_key name ''n'' ''p'') name ''n'' [] ''p'' [] [] False 0
     \<lparr>ews_subjects = [], ews_log_format = [], ews_watched_prefixes = 1, ews_typed_metrics = 0, ews_watches_ready = True,
      ews_ready_at = None, ews_active_prefixes = [''/a'']\<rparr>"

definition shared_object :: ebpf_object where
  "shared_object = \<lparr>eo_programs = [], eo_maps = [(''WATCHED_PREFIXES'', PathMap 128 [path_to_key 128 ''/a''])], eo_attached = []\<rparr>"

definition shared_table :: "ebpf_watch_session_state session_table" where
  "shared_table = snd (map_insert (session_key ''v'' ''n'' ''p'') (shared_session ''v'')
     (snd (map_insert (session_key ''w'' ''n'' ''p'') (shared_session ''w'') new_session_map)))"

definition shared_service :: argus_ebpf where
  "shared_service = (argus_ebpf_new example_kernel None [] [] 2)\<lparr>ab_sessions := shared_table, ab_loader := Some shared_object\<rparr>"

lemma shared_service_facts:
  "table_wf (ab_sessions shared_service)" "ab_loader shared_service = Some shared_object"
  "session_lookup (ab_sessions shared_service) (session_key ''w'' ''n'' ''p'') = Some (shared_session ''w'')"
  "session_lookup (ab_sessions shared_service) (session_key ''v'' ''n'' ''p'') = Some (shared_session ''v'')"
  "session_get (session_key ''w'' ''n'' ''p'') (ab_sessions shared_service) = Some 0"
  "tbl_heap (ab_sessions shared_service) ! 0 = shared_session ''w''"
  "keys_are 128 ''WATCHED_PREFIXES'' {path_to_key 128 ''/a''} shared_object"
  "path_map_contract (xe_aya example_ebpf_env) (\<lambda>_. 256)"
proof -
  show "table_wf (ab_sessions shared_service)"
    by (simp add: shared_service_def shared_table_def map_insert_wf new_session_map_wf)
  show "path_map_contract (xe_aya example_ebpf_env) (\<lambda>_. 256)"
    unfolding example_ebpf_env_def using ref_maps.path_map_contract_axioms by simp
qed (simp_all add: shared_service_def shared_table_def session_lookup_def session_get_def map_insert_def new_session_map_def
    session_key_def keys_are_def shared_object_def Let_def)

lemma shared_session_fields:
  "ews_active_prefixes (s_state (shared_session name)) = [''/a'']" "\<not> s_paused (shared_session name)"
  by (simp_all add: shared_session_def session_new_def)

theorem ebpf_pause_resume_witness:
  "\<exists>r1 svc1. ebpf_update_watch example_ebpf_env ''w'' ''n'' ''p'' 1 shared_service = (Inr r1, svc1) \<and>
     (\<exists>r2 svc2. ebpf_update_watch example_ebpf_env ''w'' ''n'' ''p'' 2 svc1 = (Inr r2, svc2) \<and>
        ab_sessions svc2 = ab_sessions shared_service)"
  using ebpf_pause_resume [OF shared_service_facts(8,1,5) refl, of "[''/a'']" shared_object "{path_to_key 128 ''/a''}"]
    shared_service_facts shared_session_fields by auto

theorem destroy_drops_shared_prefix_witness:
  "session_lookup (ab_sessions (ebpf_destroy_watch example_ebpf_env ''w'' ''n'' ''p'' shared_service))
     (session_key ''v'' ''n'' ''p'') = Some (shared_session ''v'')"
  using destroy_drops_shared_prefix [OF shared_service_facts(8,1,3) refl shared_service_facts(4) _ _ _
      shared_service_facts(2,7), of "''/a''"] shared_session_fields
  by (simp add: session_key_def)

end
