(* ===== verification/Environment.thy ===== *)
theory Environment
  imports Ebpf_Loader
begin

section \<open>The host a daemon starts on\<close>

text \<open>
  \<open>capabilities.rs\<close>, \<open>resource_limits.rs\<close>, \<open>ebpf_support.rs\<close> and \<open>environment.rs\<close> of the common crate: what
  the daemons ask of the host before they serve. The host is a file system, the environment variable
  \<open>HOST_ROOT_PATH\<close>, the effective capabilities as the \<open>caps\<close> crate reads them (\<^const>\<open>None\<close> when it cannot)
  and the answer of \<open>getrlimit\<close>.
\<close>

subsection \<open>Capabilities\<close>

datatype required_capability =
    SysAdmin | SysPtrace | DacReadSearch | AuditWrite | AuditRead | AuditControl | Bpf | Perfmon

record host =
  h_fs :: file_system
  h_host_root_path :: "string option"
  h_effective :: "required_capability list option"
  h_rlimit :: "nat + u64 \<times> u64"

definition cap_description :: "required_capability \<Rightarrow> string" where
  "cap_description c = (case c of
     SysAdmin \<Rightarrow> ''Required for fanotify file access monitoring''
   | SysPtrace \<Rightarrow> ''Required to access container filesystems via /proc/<pid>/root''
   | DacReadSearch \<Rightarrow> ''Bypass file permission checks (optional, enables broader access)''
   | AuditWrite \<Rightarrow> ''Write events to kernel audit log''
   | AuditRead \<Rightarrow> ''Read events from kernel audit subsystem''
   | AuditControl \<Rightarrow> ''Configure kernel audit rules''
   | Bpf \<Rightarrow> ''Load and run eBPF programs for kernel-level monitoring''
   | Perfmon \<Rightarrow> ''Attach eBPF programs to tracepoints and kprobes'')"

definition k8s_name :: "required_capability \<Rightarrow> string" where
  "k8s_name c = (case c of
     SysAdmin \<Rightarrow> ''SYS_ADMIN'' | SysPtrace \<Rightarrow> ''SYS_PTRACE'' | DacReadSearch \<Rightarrow> ''DAC_READ_SEARCH''
   | AuditWrite \<Rightarrow> ''AUDIT_WRITE'' | AuditRead \<Rightarrow> ''AUDIT_READ'' | AuditControl \<Rightarrow> ''AUDIT_CONTROL''
   | Bpf \<Rightarrow> ''BPF'' | Perfmon \<Rightarrow> ''PERFMON'')"

definition show_capability :: "required_capability \<Rightarrow> string" where
  "show_capability c = ''CAP_'' @ k8s_name c"

definition ARGUSD_REQUIRED_CAPS :: "required_capability list" where
  "ARGUSD_REQUIRED_CAPS = [SysPtrace]"

definition ARGUSD_REQUIRED_CAPS_EBPF :: "required_capability list" where
  "ARGUSD_REQUIRED_CAPS_EBPF = [SysPtrace, Bpf, Perfmon]"

definition JANUSD_REQUIRED_CAPS :: "required_capability list" where
  "JANUSD_REQUIRED_CAPS = [SysAdmin, SysPtrace]"

definition JANUSD_OPTIONAL_CAPS :: "required_capability list" where
  "JANUSD_OPTIONAL_CAPS = [AuditWrite]"

definition JANUSD_REQUIRED_CAPS_EBPF :: "required_capability list" where
  "JANUSD_REQUIRED_CAPS_EBPF = [SysAdmin, SysPtrace, Bpf, Perfmon]"

datatype capability_error =
    MissingCapabilities "required_capability list"
  | CapabilityMissing required_capability
  | CapQueryFailed string

text \<open>\<open>join(", ")\<close>\<close>

fun join_comma :: "string list \<Rightarrow> string" where
  "join_comma [] = []"
| "join_comma [s] = s"
| "join_comma (s # ss) = s @ '', '' @ join_comma ss"

definition format_capabilities :: "required_capability list \<Rightarrow> string" where
  "format_capabilities cs = join_comma (map show_capability cs)"

definition show_capability_error :: "capability_error \<Rightarrow> string" where
  "show_capability_error e = (case e of
     MissingCapabilities cs \<Rightarrow> ''Missing required capabilities: '' @ format_capabilities cs
   | CapabilityMissing c \<Rightarrow> ''Missing capability '' @ show_capability c @ '': '' @ cap_description c
   | CapQueryFailed s \<Rightarrow> ''Failed to query capabilities: '' @ s)"

record capability_checker =
  cc_effective :: "required_capability list option"

definition capability_checker_new :: "host \<Rightarrow> capability_checker" where
  "capability_checker_new h = \<lparr>cc_effective = h_effective h\<rparr>"

definition has_capability :: "capability_checker \<Rightarrow> required_capability \<Rightarrow> bool" where
  "has_capability cc c = (case cc_effective cc of Some cs \<Rightarrow> c \<in> set cs | None \<Rightarrow> False)"

definition require_capability :: "capability_checker \<Rightarrow> required_capability \<Rightarrow> capability_error + unit" where
  "require_capability cc c = (if has_capability cc c then Inr () else Inl (CapabilityMissing c))"

definition check_required :: "capability_checker \<Rightarrow> required_capability list \<Rightarrow> required_capability list" where
  "check_required cc cs = filter (\<lambda>c. \<not> has_capability cc c) cs"

definition require_all :: "capability_checker \<Rightarrow> required_capability list \<Rightarrow> capability_error + unit" where
  "require_all cc cs =
     (let missing = check_required cc cs in if missing = [] then Inr () else Inl (MissingCapabilities missing))"

definition missing_capabilities_message :: "required_capability list \<Rightarrow> string \<Rightarrow> string" where
  "missing_capabilities_message missing daemon =
     ''ERROR: '' @ daemon @ '' requires the following Linux capabilities that are not available:'' @ [CHR 0x0A, CHR 0x0A] @
     concat (map (\<lambda>c. ''  '' @ show_capability c @ '' - '' @ cap_description c @ [CHR 0x0A]) missing) @
     [CHR 0x0A] @ ''To fix this in Kubernetes, add to your DaemonSet spec:'' @ [CHR 0x0A, CHR 0x0A] @
     ''  securityContext:'' @ [CHR 0x0A] @ ''    capabilities:'' @ [CHR 0x0A] @ ''      add:'' @ [CHR 0x0A] @
     concat (map (\<lambda>c. ''        - '' @ k8s_name c @ [CHR 0x0A]) missing) @
     [CHR 0x0A] @ ''Or run the container with --privileged for testing.'' @ [CHR 0x0A]"

subsection \<open>Resource limits\<close>

datatype resource_limit_error =
    FdLimitTooLow u64 u64
  | LimitQueryFailed nat
  | ProcReadFailed string io_error

definition saturating_add :: "u64 \<Rightarrow> u64 \<Rightarrow> u64" where
  "saturating_add a b = (if unat a + unat b < 2 ^ 64 then a + b else - 1)"

definition check_fd_limit :: "host \<Rightarrow> u64 \<Rightarrow> u64 \<Rightarrow> resource_limit_error + u64" where
  "check_fd_limit h required_fds safety_margin =
     (case h_rlimit h of
        Inl e \<Rightarrow> Inl (LimitQueryFailed e)
      | Inr (soft, _) \<Rightarrow>
          (let total_required = saturating_add required_fds safety_margin in
           if soft < total_required then Inl (FdLimitTooLow soft total_required) else Inr soft))"

definition read_proc_u64 :: "file_system \<Rightarrow> string \<Rightarrow> resource_limit_error + u64" where
  "read_proc_u64 fs path =
     (case read_to_string fs path of
        Inl e \<Rightarrow> Inl (ProcReadFailed path e)
      | Inr content \<Rightarrow>
          (case parse_u64 (str_trim content) of
             Some n \<Rightarrow> Inr n
           | None \<Rightarrow> Inl (ProcReadFailed path IoInvalidData)))"

definition read_u64_or :: "u64 \<Rightarrow> resource_limit_error + u64 \<Rightarrow> u64" where
  "read_u64_or d r = (case r of Inr n \<Rightarrow> n | Inl _ \<Rightarrow> d)"

definition read_inotify_limits :: "file_system \<Rightarrow> u64 \<times> u64" where
  "read_inotify_limits fs =
     (read_u64_or 8192 (read_proc_u64 fs ''/proc/sys/fs/inotify/max_user_watches''),
      read_u64_or 16384 (read_proc_u64 fs ''/proc/sys/fs/inotify/max_queued_events''))"

definition read_inotify_max_instances :: "file_system \<Rightarrow> u64" where
  "read_inotify_max_instances fs = read_u64_or 128 (read_proc_u64 fs ''/proc/sys/fs/inotify/max_user_instances'')"

definition read_fanotify_limits :: "file_system \<Rightarrow> u64 \<times> u64" where
  "read_fanotify_limits fs =
     (read_u64_or 8192 (read_proc_u64 fs ''/proc/sys/fs/fanotify/max_user_marks''),
      read_u64_or 16384 (read_proc_u64 fs ''/proc/sys/fs/fanotify/max_queued_events''))"

record resource_limits_info =
  rl_fd_soft_limit :: u64
  rl_fd_hard_limit :: u64
  rl_inotify_max_watches :: u64
  rl_inotify_max_queued :: u64
  rl_inotify_max_instances :: u64
  rl_fanotify_max_marks :: u64
  rl_fanotify_max_queued :: u64

definition resource_limits_collect :: "host \<Rightarrow> resource_limits_info" where
  "resource_limits_collect h =
     (let (soft, hard) = (case h_rlimit h of Inr l \<Rightarrow> l | Inl _ \<Rightarrow> (0, 0));
          (watches, queued) = read_inotify_limits (h_fs h);
          (marks, fqueued) = read_fanotify_limits (h_fs h)
      in \<lparr>rl_fd_soft_limit = soft, rl_fd_hard_limit = hard, rl_inotify_max_watches = watches,
          rl_inotify_max_queued = queued, rl_inotify_max_instances = read_inotify_max_instances (h_fs h),
          rl_fanotify_max_marks = marks, rl_fanotify_max_queued = fqueued\<rparr>)"

subsection \<open>Support for eBPF\<close>

text \<open>
  \<open>ebpf_support.rs\<close> repeats the version test of the loader (\<^const>\<open>check_kernel_version\<close>, the same code) and asks
  in addition for the BPF security module.
\<close>

definition support_check_kernel_version :: "file_system \<Rightarrow> u32 \<Rightarrow> u32 \<Rightarrow> bool" where
  "support_check_kernel_version fs required_major required_minor =
     (case read_to_string fs ''/proc/sys/kernel/osrelease'' of
        Inl _ \<Rightarrow> False
      | Inr release \<Rightarrow>
          (let parts = split_on (CHR ''.'') (str_trim release) in
           if length parts \<ge> 2 then
             (case (parse_u32 (parts ! 0), parse_u32 (parts ! 1)) of
                (Some major, Some minor) \<Rightarrow>
                  major > required_major \<or> (major = required_major \<and> minor \<ge> required_minor)
              | _ \<Rightarrow> False)
           else False))"

definition is_bpf_lsm_enabled :: "file_system \<Rightarrow> bool" where
  "is_bpf_lsm_enabled fs =
     (case read_to_string fs ''/sys/kernel/security/lsm'' of
        Inr lsm \<Rightarrow> list_ex (\<lambda>s. str_trim s = ''bpf'') (split_on (CHR '','') lsm)
      | Inl _ \<Rightarrow> False)"

definition support_is_ebpf_supported :: "file_system \<Rightarrow> bool" where
  "support_is_ebpf_supported fs =
     (if \<not> support_check_kernel_version fs 5 7 then False
      else if \<not> fs_exists fs ''/sys/kernel/btf/vmlinux'' then False
      else if \<not> is_bpf_lsm_enabled fs then False
      else True)"

subsection \<open>The deployment environment\<close>

datatype deployment_environment = Host | ContainerWithHostAccess | ContainerIsolated

definition show_environment :: "deployment_environment \<Rightarrow> string" where
  "show_environment e = (case e of
     Host \<Rightarrow> ''Host'' | ContainerWithHostAccess \<Rightarrow> ''Container (with host access)''
   | ContainerIsolated \<Rightarrow> ''Container (isolated)'')"

datatype feature = Inotify | Fanotify | FanotifyPermission | AuditNetlink | ProcAccess | Ebpf | EbpfLsm

definition show_feature :: "feature \<Rightarrow> string" where
  "show_feature f = (case f of
     Inotify \<Rightarrow> ''inotify'' | Fanotify \<Rightarrow> ''fanotify'' | FanotifyPermission \<Rightarrow> ''fanotify (permission events)''
   | AuditNetlink \<Rightarrow> ''audit netlink'' | ProcAccess \<Rightarrow> ''/proc filesystem'' | Ebpf \<Rightarrow> ''eBPF'' | EbpfLsm \<Rightarrow> ''eBPF LSM hooks'')"

datatype warning_severity = SevInfo | SevWarning | SevError

definition show_severity :: "warning_severity \<Rightarrow> string" where
  "show_severity s = (case s of SevInfo \<Rightarrow> ''INFO'' | SevWarning \<Rightarrow> ''WARN'' | SevError \<Rightarrow> ''ERROR'')"

record environment_warning =
  ew_code :: string
  ew_message :: string
  ew_severity :: warning_severity

datatype environment_error = FeatureUnavailable feature string | DetectionFailed string

record environment_detector =
  ed_environment :: deployment_environment
  ed_is_wsl :: bool
  ed_host_root :: "string option"

definition detect_wsl :: "file_system \<Rightarrow> bool" where
  "detect_wsl fs =
     (case read_to_string fs ''/proc/version'' of
        Inr v \<Rightarrow> (let lower = to_lowercase v in str_contains ''microsoft'' lower \<or> str_contains ''wsl'' lower)
      | Inl _ \<Rightarrow> False)"

definition is_usable_dir :: "file_system \<Rightarrow> string \<Rightarrow> bool" where
  "is_usable_dir fs p \<longleftrightarrow> fs_exists fs p \<and> fs_is_dir fs p"

definition env_detect_host_root :: "host \<Rightarrow> string option" where
  "env_detect_host_root h =
     (case h_host_root_path h of
        Some p \<Rightarrow> if is_usable_dir (h_fs h) p then Some p
                  else if is_usable_dir (h_fs h) ''/host'' then Some ''/host'' else None
      | None \<Rightarrow> if is_usable_dir (h_fs h) ''/host'' then Some ''/host'' else None)"

definition is_in_container :: "file_system \<Rightarrow> bool" where
  "is_in_container fs =
     (if fs_exists fs ''/.dockerenv'' then True
      else if (case read_to_string fs ''/proc/1/cgroup'' of
                 Inr cgroup \<Rightarrow> str_contains ''/docker/'' cgroup \<or> str_contains ''/kubepods/'' cgroup \<or>
                              str_contains ''/containerd/'' cgroup \<or> str_contains ''/crio/'' cgroup
               | Inl _ \<Rightarrow> False) then True
      else if fs_exists fs ''/var/run/secrets/kubernetes.io'' then True
      else False)"

definition detect_environment :: "file_system \<Rightarrow> string option \<Rightarrow> deployment_environment" where
  "detect_environment fs host_root =
     (if \<not> is_in_container fs then Host
      else if host_root \<noteq> None then ContainerWithHostAccess
      else ContainerIsolated)"

definition environment_detector_new :: "host \<Rightarrow> environment_detector" where
  "environment_detector_new h =
     (let root = env_detect_host_root h in
      \<lparr>ed_environment = detect_environment (h_fs h) root, ed_is_wsl = detect_wsl (h_fs h), ed_host_root = root\<rparr>)"

definition can_access_host :: "environment_detector \<Rightarrow> bool" where
  "can_access_host d \<longleftrightarrow> ed_host_root d \<noteq> None \<or> ed_environment d = Host"

definition environment_warnings :: "environment_detector \<Rightarrow> environment_warning list" where
  "environment_warnings d =
     (if ed_is_wsl d then
        [\<lparr>ew_code = ''WSL_DETECTED'',
          ew_message = ''Running in WSL2 environment. Some kernel features may be limited. '' @
            ''The Microsoft WSL kernel does not support all audit subsystem features. '' @
            ''This is fine for development, but production deployments should use native Linux.'',
          ew_severity = SevWarning\<rparr>]
      else []) @
     (if ed_environment d = ContainerIsolated then
        [\<lparr>ew_code = ''NO_HOST_ACCESS'',
          ew_message = ''Running in container without host filesystem access. '' @
            ''File monitoring will only work for container-local files. '' @
            ''For production Kubernetes deployment, mount the host filesystem.'',
          ew_severity = SevWarning\<rparr>]
      else []) @
     (if ed_environment d \<noteq> Host then
        [\<lparr>ew_code = ''AUDIT_LIMITED'',
          ew_message = ''Linux audit rules cannot be added for /proc/<pid>/root/* paths. '' @
            ''This is a kernel limitation in containerized environments. '' @
            ''For process attribution, use eBPF (kernel 5.7+ with BTF). '' @
            ''See daemons/common/EBPF.md for setup instructions.'',
          ew_severity = SevInfo\<rparr>]
      else [])"

text \<open>
  The two version tests of \<open>validate_for_feature\<close>: the feature is refused only when the release is readable,
  has two numeric parts and is too old.
\<close>

definition kernel_release :: "file_system \<Rightarrow> (u32 \<times> u32) option" where
  "kernel_release fs =
     (case read_to_string fs ''/proc/sys/kernel/osrelease'' of
        Inl _ \<Rightarrow> None
      | Inr release \<Rightarrow>
          (let parts = split_on (CHR ''.'') (str_trim release) in
           if length parts \<ge> 2 then
             (case (parse_u32 (parts ! 0), parse_u32 (parts ! 1)) of
                (Some major, Some minor) \<Rightarrow> Some (major, minor)
              | _ \<Rightarrow> None)
           else None))"

definition validate_for_feature :: "file_system \<Rightarrow> environment_detector \<Rightarrow> feature \<Rightarrow> environment_error + unit" where
  "validate_for_feature fs d feature = (case feature of
     Inotify \<Rightarrow> Inr ()
   | Fanotify \<Rightarrow> Inr ()
   | FanotifyPermission \<Rightarrow> Inr ()
   | AuditNetlink \<Rightarrow>
       if ed_environment d \<noteq> Host then
         Inl (FeatureUnavailable feature
           (''Linux audit rules cannot watch /proc/<pid>/root/* paths in containers. '' @
            ''For process attribution in containers, use eBPF with the '' @ [CHR 0x27] @ ''ebpf'' @ [CHR 0x27] @ '' feature '' @
            ''(requires kernel 5.7+ with CONFIG_BPF_LSM=y and BTF). See daemons/common/EBPF.md for details.''))
       else if ed_is_wsl d then
         Inl (FeatureUnavailable feature
           (''WSL2 kernel has limited audit subsystem support. '' @ ''The NETLINK_AUDIT socket may not be available.''))
       else Inr ()
   | ProcAccess \<Rightarrow>
       if \<not> fs_exists fs ''/proc'' then Inl (FeatureUnavailable feature ''/proc filesystem not available'') else Inr ()
   | Ebpf \<Rightarrow>
       (case kernel_release fs of
          Some (major, minor) \<Rightarrow>
            if major < 4 \<or> (major = 4 \<and> minor < 4) then
              Inl (FeatureUnavailable feature (''Kernel '' @ show_u32 major @ ''.'' @ show_u32 minor @
                '' does not support eBPF. Requires 4.4+''))
            else Inr ()
        | None \<Rightarrow> Inr ())
   | EbpfLsm \<Rightarrow>
       (case (case kernel_release fs of
                Some (major, minor) \<Rightarrow>
                  if major < 5 \<or> (major = 5 \<and> minor < 7) then
                    Inl (FeatureUnavailable feature (''Kernel '' @ show_u32 major @ ''.'' @ show_u32 minor @
                      '' does not support eBPF LSM. Requires 5.7+''))
                  else Inr ()
              | None \<Rightarrow> Inr ()) of
          Inl e \<Rightarrow> Inl e
        | Inr _ \<Rightarrow>
            if \<not> fs_exists fs ''/sys/kernel/btf/vmlinux'' then
              Inl (FeatureUnavailable feature
                ''BTF (BPF Type Format) not available. Kernel must be compiled with CONFIG_DEBUG_INFO_BTF=y'')
            else Inr ()))"

end
