(* ===== verification/Startup.thy ===== *)
theory Startup
  imports Environment Argus_Ebpf_Service
begin

section \<open>Starting the daemons\<close>

text \<open>
  \<open>main.rs\<close> of janusd and argusd: environment, capabilities and resource limits are checked in this order, then
  the mode is chosen and the service of that mode is created. What is logged is a list of level and message;
  the structured fields of a log record are left out. A machine addition or multiplication that overflows
  panics (\<^const>\<open>Panicked\<close>), as both daemons are built with \<open>overflow-checks\<close>. Serving itself (the gRPC server and
  its health service) belongs to tonic.
\<close>

subsection \<open>Shared by both\<close>

datatype log_level = TRACE | DEBUG | INFO | WARN | ERROR

type_synonym log = "(log_level \<times> string) list"

datatype runtime_mode = TraditionalMode | EbpfMode

datatype socket_addr = SocketV4 "u8 list" u16 | SocketV6 "u16 list" u16

record daemon_config =
  dc_listen_addr :: socket_addr
  dc_port :: "u16 option"
  dc_node_name :: string
  dc_max :: u64
  dc_log_level :: string
  dc_mode :: string
  dc_cluster_name :: string

datatype startup_error =
    FeatureValidation string environment_error
  | MissingRequired string
  | InsufficientFds string

definition effective_addr :: "daemon_config \<Rightarrow> socket_addr" where
  "effective_addr c = (case dc_port c of Some port \<Rightarrow> SocketV4 [0, 0, 0, 0] port | None \<Rightarrow> dc_listen_addr c)"

definition parse_log_level :: "string \<Rightarrow> log_level" where
  "parse_log_level s =
     (let l = to_lowercase s in
      if l = ''trace'' then TRACE else if l = ''debug'' then DEBUG else if l = ''warn'' then WARN
      else if l = ''error'' then ERROR else INFO)"

definition log_ebpf_unsupported_reason :: "file_system \<Rightarrow> log" where
  "log_ebpf_unsupported_reason fs =
     (if \<not> fs_exists fs ''/sys/kernel/btf/vmlinux''
      then [(WARN, ''BTF not available at /sys/kernel/btf/vmlinux (kernel too old or BTF disabled)'')] else []) @
     (if \<not> is_bpf_lsm_enabled fs
      then [(WARN, ''BPF LSM not enabled - check /sys/kernel/security/lsm for '' @ [CHR 0x27] @ ''bpf'' @ [CHR 0x27]),
            (WARN, ''Note: WSL2 kernels typically do not have BPF LSM support'')] else [])"

text \<open>
  The mode of a build with the \<open>ebpf\<close> feature. The two daemons differ in the capabilities they ask for and in
  the name of their traditional interface. Messages that print the missing capabilities with \<open>{:?}\<close> show
  their names as \<open>debug\<close> gives them.
\<close>

definition detect_mode ::
  "required_capability list \<Rightarrow> string \<Rightarrow> (required_capability list \<Rightarrow> string) \<Rightarrow> file_system \<Rightarrow> daemon_config
   \<Rightarrow> capability_checker \<Rightarrow> runtime_mode \<times> log" where
  "detect_mode caps interface debug fs c cc =
     (let mode = to_lowercase (dc_mode c) in
      if mode = ''ebpf'' then
        (if \<not> support_is_ebpf_supported fs then
           (TraditionalMode, (WARN, ''eBPF mode requested but not supported - falling back to traditional'') #
              log_ebpf_unsupported_reason fs)
         else (let missing = check_required cc caps in
               if missing \<noteq> [] then
                 (TraditionalMode, [(WARN, ''eBPF mode requested but missing capabilities ('' @ debug missing @
                    '') - falling back to traditional'')])
               else (EbpfMode, [(INFO, ''eBPF mode explicitly enabled via --mode flag'')])))
      else if mode = ''traditional'' \<or> mode = interface then
        (TraditionalMode, [(INFO, ''Traditional mode selected via --mode flag'')])
      else
        (if \<not> support_is_ebpf_supported fs then
           (TraditionalMode, (INFO, ''Auto mode: eBPF not supported - using traditional ('' @ interface @ '')'') #
              log_ebpf_unsupported_reason fs)
         else (let missing = check_required cc caps in
               if missing \<noteq> [] then
                 (TraditionalMode, [(INFO, ''Auto mode: missing eBPF capabilities ('' @ debug missing @ '') - using traditional'')])
               else (EbpfMode, [(INFO, ''Auto mode: eBPF supported and capabilities present - using eBPF'')]))))"

text \<open>The mode of a build without the feature.\<close>

definition detect_mode_plain :: "daemon_config \<Rightarrow> runtime_mode \<times> log" where
  "detect_mode_plain c =
     (TraditionalMode,
      if to_lowercase (dc_mode c) = ''ebpf''
      then [(WARN, ''eBPF mode requested but binary compiled without eBPF support - using traditional mode'')] else [])"

definition log_warning :: "environment_warning \<Rightarrow> log_level \<times> string" where
  "log_warning w =
     ((case ew_severity w of SevInfo \<Rightarrow> INFO | SevWarning \<Rightarrow> WARN | SevError \<Rightarrow> ERROR),
      ''['' @ ew_code w @ ''] '' @ ew_message w)"

definition validate_features ::
  "(feature \<times> string) list \<Rightarrow> file_system \<Rightarrow> environment_detector \<Rightarrow> (startup_error + unit) \<times> log" where
  "validate_features features fs d =
     (case find (\<lambda>(f, _). validate_for_feature fs d f \<noteq> Inr ()) features of
        Some (f, context) \<Rightarrow> Inl (FeatureValidation context (projl (validate_for_feature fs d f)))
      | None \<Rightarrow> Inr (),
      (INFO, ''Detected deployment environment'') # map log_warning (environment_warnings d))"

definition validate_caps ::
  "required_capability list \<Rightarrow> string \<Rightarrow> capability_checker \<Rightarrow> (startup_error + unit) \<times> log" where
  "validate_caps caps daemon cc =
     (let missing = check_required cc caps in
      if missing \<noteq> [] then
        (Inl (MissingRequired ''Missing required capabilities - daemon cannot start''),
         [(ERROR, missing_capabilities_message missing daemon)])
      else (Inr (), [(INFO, ''Base capabilities verified'')]))"

subsection \<open>janusd\<close>

definition JANUS_FD_SAFETY_MARGIN :: u64 where
  "JANUS_FD_SAFETY_MARGIN = 4096"

definition janus_detect_runtime_mode ::
  "bool \<Rightarrow> (required_capability list \<Rightarrow> string) \<Rightarrow> file_system \<Rightarrow> daemon_config \<Rightarrow> capability_checker \<Rightarrow> runtime_mode \<times> log" where
  "janus_detect_runtime_mode ebpf_build debug fs c cc =
     (if ebpf_build then detect_mode JANUSD_REQUIRED_CAPS_EBPF ''fanotify'' debug fs c cc else detect_mode_plain c)"

definition janus_validate_environment :: "file_system \<Rightarrow> environment_detector \<Rightarrow> (startup_error + unit) \<times> log" where
  "janus_validate_environment fs d =
     validate_features [(feature.Fanotify, ''fanotify feature validation failed''), (ProcAccess, ''/proc access validation failed'')] fs d"

definition janus_validate_capabilities :: "capability_checker \<Rightarrow> (startup_error + unit) \<times> log" where
  "janus_validate_capabilities cc = validate_caps JANUSD_REQUIRED_CAPS ''janusd'' cc"

definition validate_fanotify_limits :: "file_system \<Rightarrow> u64 \<Rightarrow> log outcome" where
  "validate_fanotify_limits fs max_guards =
     (let (max_user_marks, max_queued_events) = read_fanotify_limits fs in
      if max_user_marks > 0 \<and> 2 ^ 64 \<le> unat max_guards * 10 then Panicked
      else Returned
        ((if max_user_marks > 0 \<and> max_user_marks < max_guards * 10 then
            [(WARN, ''max_user_marks may be insufficient for configured max_guards''),
             (WARN, ''Fix with: sysctl -w fs.fanotify.max_user_marks='' @ show_nat (unat (max_guards * 10)))]
          else []) @
         (if max_queued_events < 32768 then
            [(WARN, ''fanotify max_queued_events is low - HIGH risk of queue overflow under load''),
             (WARN, ''Fix with: sysctl -w fs.fanotify.max_queued_events=65536''),
             (WARN, ''Queue overflow causes SILENT event loss - critical for security monitoring!'')]
          else [])))"

definition show_fd_limit_error :: "(nat \<Rightarrow> string) \<Rightarrow> (io_error \<Rightarrow> string) \<Rightarrow> resource_limit_error \<Rightarrow> string" where
  "show_fd_limit_error show_errno show_io e = (case e of
     FdLimitTooLow current required \<Rightarrow>
       ''file descriptor limit too low: '' @ show_nat (unat current) @ '' < '' @ show_nat (unat required) @
       '' (adjust with: ulimit -n '' @ show_nat (unat required) @ '')''
   | LimitQueryFailed errno \<Rightarrow> ''failed to query resource limit: '' @ show_errno errno
   | ProcReadFailed path io \<Rightarrow> ''failed to read '' @ path @ '': '' @ show_io io)"

definition ulimit_advice :: "u64 \<Rightarrow> string" where
  "ulimit_advice n = ''Increase with: ulimit -n '' @ show_nat (unat n) @ '' (or update container securityContext)''"

definition INSUFFICIENT_FDS :: startup_error where
  "INSUFFICIENT_FDS = InsufficientFds ''Insufficient file descriptor limit - daemon cannot start safely''"

text \<open>
  The number of descriptors is \<open>max_guards * 100\<close>, a checked multiplication; the advice logged on failure is a
  checked addition.
\<close>

definition janus_validate_resource_limits ::
  "(resource_limit_error \<Rightarrow> string) \<Rightarrow> host \<Rightarrow> u64 \<Rightarrow> ((startup_error + unit) \<times> log) outcome" where
  "janus_validate_resource_limits show_error h max_guards =
     (if 2 ^ 64 \<le> unat max_guards * 100 then Panicked
      else (case check_fd_limit h (max_guards * 100) JANUS_FD_SAFETY_MARGIN of
              Inl e \<Rightarrow>
                if 2 ^ 64 \<le> unat (max_guards * 100) + unat JANUS_FD_SAFETY_MARGIN then Panicked
                else Returned (Inl INSUFFICIENT_FDS,
                  [(INFO, ''Resource limits''), (ERROR, show_error e),
                   (ERROR, ulimit_advice (max_guards * 100 + JANUS_FD_SAFETY_MARGIN))])
            | Inr _ \<Rightarrow>
                (case validate_fanotify_limits (h_fs h) max_guards of
                   Panicked \<Rightarrow> Panicked
                 | Returned l \<Rightarrow>
                     Returned (Inr (), [(INFO, ''Resource limits''), (INFO, ''File descriptor limit verified'')] @ l))))"

text \<open>The service that is served, by mode.\<close>

datatype ('t, 'e) served = ServesTraditional 't | ServesEbpf 'e

record audit_setup =
  as_has_cap :: "bool option"
  as_socket :: "nat + nat"
  as_bind :: "nat + unit"

definition janusd_main ::
  "bool \<Rightarrow> (required_capability list \<Rightarrow> string) \<Rightarrow> (resource_limit_error \<Rightarrow> string) \<Rightarrow> audit_setup \<Rightarrow> host \<Rightarrow> daemon_config
   \<Rightarrow> (startup_error + socket_addr \<times> (('p, 'c) janusd, janus_ebpf) served) outcome" where
  "janusd_main ebpf_build debug show_error au h c =
     (case janus_validate_environment (h_fs h) (environment_detector_new h) of
        (Inl e, _) \<Rightarrow> Returned (Inl e)
      | (Inr _, _) \<Rightarrow>
          (let cc = capability_checker_new h in
           case janus_validate_capabilities cc of
             (Inl e, _) \<Rightarrow> Returned (Inl e)
           | (Inr _, _) \<Rightarrow>
               (case janus_validate_resource_limits show_error h (dc_max c) of
                  Panicked \<Rightarrow> Panicked
                | Returned (Inl e, _) \<Rightarrow> Returned (Inl e)
                | Returned (Inr _, _) \<Rightarrow>
                    (let audit = create_audit_logger (as_has_cap au) (as_socket au) (as_bind au);
                         runtime = detect_runtime (h_fs h) (h_host_root_path h)
                     in Returned (Inr (effective_addr c,
                          case fst (janus_detect_runtime_mode ebpf_build debug (h_fs h) c cc) of
                            EbpfMode \<Rightarrow> ServesEbpf (janus_ebpf_new runtime (dc_node_name c) (dc_cluster_name c) (unat (dc_max c)) audit)
                          | TraditionalMode \<Rightarrow>
                              ServesTraditional (janusd_new runtime (dc_node_name c) (dc_cluster_name c) (unat (dc_max c)) audit)))))))"

subsection \<open>argusd\<close>

definition ARGUS_FD_SAFETY_MARGIN :: u64 where
  "ARGUS_FD_SAFETY_MARGIN = 1024"

definition argus_detect_runtime_mode ::
  "bool \<Rightarrow> (required_capability list \<Rightarrow> string) \<Rightarrow> file_system \<Rightarrow> daemon_config \<Rightarrow> capability_checker \<Rightarrow> runtime_mode \<times> log" where
  "argus_detect_runtime_mode ebpf_build debug fs c cc =
     (if ebpf_build then detect_mode ARGUSD_REQUIRED_CAPS_EBPF ''inotify'' debug fs c cc else detect_mode_plain c)"

definition argus_validate_environment :: "file_system \<Rightarrow> environment_detector \<Rightarrow> (startup_error + unit) \<times> log" where
  "argus_validate_environment fs d =
     validate_features [(feature.Inotify, ''inotify feature validation failed''), (ProcAccess, ''/proc access validation failed'')] fs d"

definition argus_validate_capabilities :: "capability_checker \<Rightarrow> (startup_error + unit) \<times> log" where
  "argus_validate_capabilities cc = validate_caps ARGUSD_REQUIRED_CAPS ''argusd'' cc"

definition validate_inotify_limits :: "file_system \<Rightarrow> u64 \<Rightarrow> log" where
  "validate_inotify_limits fs max_watches =
     (let (max_user_watches, max_queued_events) = read_inotify_limits fs in
      (if max_user_watches < max_watches then
         [(WARN, ''max_user_watches is less than configured max_watches''),
          (WARN, ''Fix with: sysctl -w fs.inotify.max_user_watches='' @ show_nat (unat max_watches))]
       else []) @
      (if max_queued_events < 32768 then
         [(WARN, ''inotify max_queued_events is low - risk of queue overflow under load''),
          (WARN, ''Fix with: sysctl -w fs.inotify.max_queued_events=65536'')]
       else []))"

definition argus_validate_resource_limits ::
  "(resource_limit_error \<Rightarrow> string) \<Rightarrow> host \<Rightarrow> u64 \<Rightarrow> ((startup_error + unit) \<times> log) outcome" where
  "argus_validate_resource_limits show_error h max_watches =
     (case check_fd_limit h max_watches ARGUS_FD_SAFETY_MARGIN of
        Inl e \<Rightarrow>
          if 2 ^ 64 \<le> unat max_watches + unat ARGUS_FD_SAFETY_MARGIN then Panicked
          else Returned (Inl INSUFFICIENT_FDS,
            [(INFO, ''Resource limits''), (ERROR, show_error e), (ERROR, ulimit_advice (max_watches + ARGUS_FD_SAFETY_MARGIN))])
      | Inr _ \<Rightarrow>
          Returned (Inr (), [(INFO, ''Resource limits''), (INFO, ''File descriptor limit verified'')] @
            validate_inotify_limits (h_fs h) max_watches))"

definition argusd_main ::
  "bool \<Rightarrow> (required_capability list \<Rightarrow> string) \<Rightarrow> (resource_limit_error \<Rightarrow> string) \<Rightarrow> host \<Rightarrow> daemon_config
   \<Rightarrow> (startup_error + socket_addr \<times> (argusd, argus_ebpf) served) outcome" where
  "argusd_main ebpf_build debug show_error h c =
     (case argus_validate_environment (h_fs h) (environment_detector_new h) of
        (Inl e, _) \<Rightarrow> Returned (Inl e)
      | (Inr _, _) \<Rightarrow>
          (let cc = capability_checker_new h in
           case argus_validate_capabilities cc of
             (Inl e, _) \<Rightarrow> Returned (Inl e)
           | (Inr _, _) \<Rightarrow>
               (case argus_validate_resource_limits show_error h (dc_max c) of
                  Panicked \<Rightarrow> Panicked
                | Returned (Inl e, _) \<Rightarrow> Returned (Inl e)
                | Returned (Inr _, _) \<Rightarrow>
                    Returned (Inr (effective_addr c,
                      case fst (argus_detect_runtime_mode ebpf_build debug (h_fs h) c cc) of
                        EbpfMode \<Rightarrow> ServesEbpf (argus_ebpf_new (h_fs h) (h_host_root_path h) (dc_node_name c)
                                     (dc_cluster_name c) (unat (dc_max c)))
                      | TraditionalMode \<Rightarrow> ServesTraditional (argusd_new (h_fs h) (h_host_root_path h) (dc_node_name c)
                                     (dc_cluster_name c) (unat (dc_max c))))))))"

end
