(* ===== verification/Startup_Props.thy ===== *)
theory Startup_Props
  imports Startup
begin

section \<open>When the daemons start, and in which mode\<close>

text \<open>
  Exactly which hosts a daemon starts on; the eBPF service is only served where its programs can be loaded;
  without eBPF the traditional service is served; a configuration whose descriptor count overflows ends in a
  panic instead of the error message.
\<close>

lemma check_required_Nil_iff:
  "check_required cc cs = [] \<longleftrightarrow> (case cc_effective cc of Some es \<Rightarrow> set cs \<subseteq> set es | None \<Rightarrow> cs = [])"
  by (auto simp: check_required_def has_capability_def filter_empty_conv split: option.splits)

lemma check_fd_limit_ok_iff:
  "(\<exists>n. check_fd_limit h a b = Inr n) \<longleftrightarrow>
     (\<exists>soft hard. h_rlimit h = Inr (soft, hard) \<and> min (unat a + unat b) (2 ^ 64 - 1) \<le> unat soft)"
proof -
  have "unat (- 1 :: u64) = 2 ^ 64 - 1" by (simp add: unsigned_minus_1_eq_mask mask_eq_exp_minus_1)
  then have "unat (saturating_add a b) = min (unat a + unat b) (2 ^ 64 - 1)"
    by (simp add: saturating_add_def unat_word_ariths min_def)
  then show ?thesis
    by (auto simp: check_fd_limit_def Let_def word_less_nat_alt not_less split: sum.splits)
qed

lemma support_check_kernel_version_eq: "support_check_kernel_version = check_kernel_version"
  by (intro ext) (simp add: support_check_kernel_version_def check_kernel_version_def)

lemma support_implies_loader: "support_is_ebpf_supported fs \<Longrightarrow> is_ebpf_supported fs \<and> is_bpf_lsm_enabled fs"
  by (simp add: support_is_ebpf_supported_def is_ebpf_supported_def support_check_kernel_version_eq split: if_splits)

lemma detect_mode_ebpf_iff:
  "fst (detect_mode caps interface debug fs c cc) = EbpfMode \<longleftrightarrow>
     (to_lowercase (dc_mode c) = ''ebpf'' \<or> to_lowercase (dc_mode c) \<notin> {''traditional'', interface}) \<and>
     support_is_ebpf_supported fs \<and> check_required cc caps = []"
  by (auto simp: detect_mode_def Let_def)

lemma validate_features_ok_iff:
  "fst (janus_validate_environment fs d) = Inr () \<longleftrightarrow> fs_exists fs ''/proc''"
  "fst (argus_validate_environment fs d) = Inr () \<longleftrightarrow> fs_exists fs ''/proc''"
  by (simp_all add: janus_validate_environment_def argus_validate_environment_def validate_features_def
      validate_for_feature_def)

lemma janus_resource_limits_ok_iff:
  "(\<exists>l. janus_validate_resource_limits show_error h n = Returned (Inr (), l)) \<longleftrightarrow>
     unat n * 100 < 2 ^ 64 \<and>
     (\<exists>soft hard. h_rlimit h = Inr (soft, hard) \<and> min (unat n * 100 + 4096) (2 ^ 64 - 1) \<le> unat soft)"
proof (cases "unat n * 100 < 2 ^ 64")
  case True
  then have u: "unat (n * 100) = unat n * 100" by (simp add: unat_word_ariths)
  have "\<exists>l. validate_fanotify_limits (h_fs h) n = Returned l"
    using True by (simp add: validate_fanotify_limits_def split: prod.splits)
  then have "(\<exists>l. janus_validate_resource_limits show_error h n = Returned (Inr (), l)) \<longleftrightarrow>
      (\<exists>k. check_fd_limit h (n * 100) JANUS_FD_SAFETY_MARGIN = Inr k)"
    using True by (auto simp: janus_validate_resource_limits_def split: sum.splits)
  then show ?thesis using True u by (simp add: check_fd_limit_ok_iff JANUS_FD_SAFETY_MARGIN_def)
next
  case False
  then show ?thesis by (simp add: janus_validate_resource_limits_def)
qed

lemma janus_main_unfold:
  "janusd_main b debug show_error au h c = Returned (Inr (addr, svc)) \<longleftrightarrow>
     fs_exists (h_fs h) ''/proc'' \<and> check_required (capability_checker_new h) JANUSD_REQUIRED_CAPS = [] \<and>
     (\<exists>l. janus_validate_resource_limits show_error h (dc_max c) = Returned (Inr (), l)) \<and> addr = effective_addr c \<and>
     svc = (let audit = create_audit_logger (as_has_cap au) (as_socket au) (as_bind au);
                runtime = detect_runtime (h_fs h) (h_host_root_path h)
            in case fst (janus_detect_runtime_mode b debug (h_fs h) c (capability_checker_new h)) of
                 EbpfMode \<Rightarrow> ServesEbpf (janus_ebpf_new runtime (dc_node_name c) (dc_cluster_name c) (unat (dc_max c)) audit)
               | TraditionalMode \<Rightarrow>
                   ServesTraditional (janusd_new runtime (dc_node_name c) (dc_cluster_name c) (unat (dc_max c)) audit))"
proof -
  obtain r l where r: "janus_validate_environment (h_fs h) (environment_detector_new h) = (r, l)" by fastforce
  have "r = Inr () \<longleftrightarrow> fs_exists (h_fs h) ''/proc''"
    using validate_features_ok_iff(1) [of "h_fs h" "environment_detector_new h"] r by simp
  with r show ?thesis
    by (cases r) (auto simp: janusd_main_def janus_validate_capabilities_def validate_caps_def Let_def
        split: outcome.splits prod.splits sum.splits)
qed

text \<open>
  C33: janusd starts exactly on the hosts it is meant for. It gets as far as serving if and only if \<open>/proc\<close> exists,
  \<open>CAP_SYS_ADMIN\<close> and \<open>CAP_SYS_PTRACE\<close> are effective, \<open>max_guards * 100\<close> fits 64 bits and the soft limit on file
  descriptors covers that number and the margin of 4096 (a sum that saturates); then it listens on the
  effective address with an empty service of the configured capacity.
\<close>

theorem janusd_starts_iff:
  "(\<exists>addr svc. janusd_main b debug show_error au h c = Returned (Inr (addr, svc))) \<longleftrightarrow>
     fs_exists (h_fs h) ''/proc'' \<and>
     (case h_effective h of Some cs \<Rightarrow> {SysAdmin, SysPtrace} \<subseteq> set cs | None \<Rightarrow> False) \<and>
     unat (dc_max c) * 100 < 2 ^ 64 \<and>
     (\<exists>soft hard. h_rlimit h = Inr (soft, hard) \<and> min (unat (dc_max c) * 100 + 4096) (2 ^ 64 - 1) \<le> unat soft)"
  unfolding janus_main_unfold janus_resource_limits_ok_iff check_required_Nil_iff
  by (auto simp: capability_checker_new_def JANUSD_REQUIRED_CAPS_def split: option.splits)

lemma attach_lsm_not_NotSupported: "attach_lsm_program ay name obj \<noteq> Inl NotSupported"
  by (simp add: attach_lsm_program_def split: option.splits sum.splits)

lemma attach_programs_not_NotSupported: "attach_programs ay names obj \<noteq> Inl NotSupported"
  by (induction names arbitrary: obj) (use attach_lsm_not_NotSupported in \<open>auto split: sum.splits\<close>)

text \<open>
  C34: The eBPF service is only served where it can work. If janusd serves it, the build has it, the mode was not
  forced to the traditional one, the kernel is recent enough with BTF and the BPF security module, and all
  four capabilities are effective; loading its programs later does not fail for an unsupported kernel, and
  the service starts without sessions and with the configured limit.
\<close>

theorem janusd_ebpf_mode:
  assumes "janusd_main b debug show_error au h c = Returned (Inr (addr, ServesEbpf svc))"
  shows "b \<and> to_lowercase (dc_mode c) \<notin> {''traditional'', ''fanotify''} \<and> is_bpf_lsm_enabled (h_fs h) \<and>
    (\<exists>cs. h_effective h = Some cs \<and> {SysAdmin, SysPtrace, Bpf, Perfmon} \<subseteq> set cs) \<and>
    load_with_programs ay (h_fs h) bytecode programs \<noteq> Inl NotSupported \<and>
    jb_max_guards svc = unat (dc_max c) \<and> session_count (jb_sessions svc) = 0"
proof -
  let ?cc = "capability_checker_new h"
  let ?audit = "create_audit_logger (as_has_cap au) (as_socket au) (as_bind au)"
  have mode: "fst (janus_detect_runtime_mode b debug (h_fs h) c ?cc) = EbpfMode"
    and svc: "svc = janus_ebpf_new (detect_runtime (h_fs h) (h_host_root_path h)) (dc_node_name c) (dc_cluster_name c)
        (unat (dc_max c)) ?audit"
    using assms unfolding janus_main_unfold Let_def by (auto split: runtime_mode.splits)
  then have "b" and m: "fst (detect_mode JANUSD_REQUIRED_CAPS_EBPF ''fanotify'' debug (h_fs h) c ?cc) = EbpfMode"
    by (auto simp: janus_detect_runtime_mode_def detect_mode_plain_def split: if_splits)
  then have "support_is_ebpf_supported (h_fs h)" and caps: "check_required ?cc JANUSD_REQUIRED_CAPS_EBPF = []"
    and mode_text: "to_lowercase (dc_mode c) \<notin> {''traditional'', ''fanotify''}"
    by (auto simp: detect_mode_ebpf_iff)
  then have "is_ebpf_supported (h_fs h)" and "is_bpf_lsm_enabled (h_fs h)" by (simp_all add: support_implies_loader)
  then have "load_with_programs ay (h_fs h) bytecode programs \<noteq> Inl NotSupported"
    by (simp add: load_with_programs_def attach_programs_not_NotSupported split: sum.splits)
  moreover have "\<exists>cs. h_effective h = Some cs \<and> {SysAdmin, SysPtrace, Bpf, Perfmon} \<subseteq> set cs"
    using caps unfolding check_required_Nil_iff
    by (auto simp: capability_checker_new_def JANUSD_REQUIRED_CAPS_EBPF_def split: option.splits)
  ultimately show ?thesis
    using \<open>b\<close> mode_text \<open>is_bpf_lsm_enabled (h_fs h)\<close> svc
    by (simp add: janus_ebpf_new_def session_count_def new_session_map_def)
qed

definition example_host :: host where
  "example_host = \<lparr>h_fs = example_kernel\<lparr>fs_read := (\<lambda>p. if p = ''/sys/kernel/security/lsm'' then Inr ''lockdown,bpf''
       else if p = ''/proc/sys/kernel/osrelease'' then Inr ''6.1.0'' else Inl IoNotFound)\<rparr>,
     h_host_root_path = None, h_effective = Some [SysAdmin, SysPtrace, Bpf, Perfmon], h_rlimit = Inr (200000, 200000)\<rparr>"

definition example_config :: daemon_config where
  "example_config = \<lparr>dc_listen_addr = SocketV4 [0, 0, 0, 0] 50052, dc_port = None, dc_node_name = ''n'', dc_max = 1000,
     dc_log_level = ''info'', dc_mode = ''auto'', dc_cluster_name = []\<rparr>"

lemma example_host_supported: "support_is_ebpf_supported (h_fs example_host)"
proof -
  have "''6.1.0'' = show_u32 6 @ ''.'' @ show_u32 1 @ ''.0''" by (simp add: show_u32_def show_nat.simps)
  moreover have "plain_word ''6.1.0''" by (simp add: plain_word_def byte_def is_ascii_ws_def)
  ultimately have "check_kernel_version (h_fs example_host) 5 7"
    using check_kernel_version_release [of "h_fs example_host" "''6.1.0''" "[]" 6 1 "''.0''" 5 7]
    by (simp add: example_host_def)
  moreover have "str_trim ''bpf'' = ''bpf''"
    by (intro str_trim_plain) (simp add: plain_word_def byte_def is_ascii_ws_def)
  then have "is_bpf_lsm_enabled (h_fs example_host)"
    by (simp add: is_bpf_lsm_enabled_def example_host_def read_to_string_def utf8_valid_ascii byte_def)
  ultimately show ?thesis
    by (simp add: support_is_ebpf_supported_def support_check_kernel_version_eq) (simp add: example_host_def example_kernel_def)
qed

theorem janusd_ebpf_mode_witness:
  "\<exists>addr svc. janusd_main True (\<lambda>_. []) (\<lambda>_. []) \<lparr>as_has_cap = None, as_socket = Inl 1, as_bind = Inr ()\<rparr> example_host example_config =
       (Returned (Inr (addr, ServesEbpf svc)) :: (startup_error + socket_addr \<times> ((string, string) janusd, janus_ebpf) served) outcome) \<and>
     jb_max_guards svc = 1000"
proof -
  let ?au = "\<lparr>as_has_cap = None, as_socket = Inl 1, as_bind = Inr ()\<rparr>"
  let ?cc = "capability_checker_new example_host"
  have caps: "check_required ?cc JANUSD_REQUIRED_CAPS = []" "check_required ?cc JANUSD_REQUIRED_CAPS_EBPF = []"
    by (simp_all add: check_required_Nil_iff capability_checker_new_def example_host_def JANUSD_REQUIRED_CAPS_def
        JANUSD_REQUIRED_CAPS_EBPF_def)
  then have "fst (janus_detect_runtime_mode True (\<lambda>_. []) (h_fs example_host) example_config ?cc) = EbpfMode"
    by (simp add: janus_detect_runtime_mode_def detect_mode_ebpf_iff example_host_supported)
      (simp add: example_config_def to_lowercase_def ascii_lower_def)
  moreover have "\<exists>l. janus_validate_resource_limits (\<lambda>_. []) example_host (dc_max example_config) = Returned (Inr (), l)"
    by (simp add: janus_resource_limits_ok_iff) (simp add: example_host_def example_config_def)
  moreover have "fs_exists (h_fs example_host) ''/proc''" by (simp add: example_host_def example_kernel_def)
  ultimately obtain addr svc where s:
    "janusd_main True (\<lambda>_. []) (\<lambda>_. []) ?au example_host example_config =
       (Returned (Inr (addr, ServesEbpf svc)) :: (startup_error + socket_addr \<times> ((string, string) janusd, janus_ebpf) served) outcome)"
    using caps(1) janus_main_unfold [where ?'a = string and ?'b = string] by (metis (no_types, lifting) runtime_mode.simps(4))
  with janusd_ebpf_mode [OF s] show ?thesis by (auto simp: example_config_def)
qed

subsection \<open>argusd\<close>

text \<open>
  The advice overflows. For a number of watches so large that the margin does not fit, the saturating test
  finds the limit too low, and the message that says so adds the two numbers without saturating: the daemon
  panics instead of ending with its error.
\<close>

theorem argus_limit_advice_panics:
  assumes "h_rlimit h = Inr (soft, hard)" and "unat soft < 2 ^ 64 - 1" and "2 ^ 64 \<le> unat n + 1024"
  shows "argus_validate_resource_limits show_error h n = Panicked"
proof -
  have "\<not> (\<exists>k. check_fd_limit h n ARGUS_FD_SAFETY_MARGIN = Inr k)"
    using assms by (simp add: check_fd_limit_ok_iff ARGUS_FD_SAFETY_MARGIN_def)
  with assms(3) show ?thesis
    by (auto simp: argus_validate_resource_limits_def ARGUS_FD_SAFETY_MARGIN_def split: sum.splits)
qed

text \<open>argusd starts exactly on the hosts it is meant for, or panics as above.\<close>

theorem argusd_starts_iff:
  "(\<exists>addr svc. argusd_main b debug show_error h c = Returned (Inr (addr, svc))) \<longleftrightarrow>
     fs_exists (h_fs h) ''/proc'' \<and> (case h_effective h of Some cs \<Rightarrow> SysPtrace \<in> set cs | None \<Rightarrow> False) \<and>
     (\<exists>soft hard. h_rlimit h = Inr (soft, hard) \<and> min (unat (dc_max c) + 1024) (2 ^ 64 - 1) \<le> unat soft)"
proof -
  obtain r l where r: "argus_validate_environment (h_fs h) (environment_detector_new h) = (r, l)" by fastforce
  have ok: "r = Inr () \<longleftrightarrow> fs_exists (h_fs h) ''/proc''"
    using validate_features_ok_iff(2) [of "h_fs h" "environment_detector_new h"] r by simp
  have "(\<exists>l. argus_validate_resource_limits show_error h (dc_max c) = Returned (Inr (), l)) \<longleftrightarrow>
      (\<exists>k. check_fd_limit h (dc_max c) ARGUS_FD_SAFETY_MARGIN = Inr k)"
    by (auto simp: argus_validate_resource_limits_def split: sum.splits)
  moreover have "(\<exists>addr svc. argusd_main b debug show_error h c = Returned (Inr (addr, svc))) \<longleftrightarrow>
      r = Inr () \<and> check_required (capability_checker_new h) ARGUSD_REQUIRED_CAPS = [] \<and>
      (\<exists>l. argus_validate_resource_limits show_error h (dc_max c) = Returned (Inr (), l))"
    using r by (cases r) (auto simp: argusd_main_def argus_validate_capabilities_def validate_caps_def Let_def
        split: outcome.splits prod.splits sum.splits)
  ultimately show ?thesis
    by (auto simp: ok check_fd_limit_ok_iff check_required_Nil_iff capability_checker_new_def
        ARGUSD_REQUIRED_CAPS_def ARGUS_FD_SAFETY_MARGIN_def split: option.splits)
qed

text \<open>
  The feature test for the eBPF hooks is weaker than the one the daemons choose their mode by: a kernel
  release that cannot be read passes, and the security module is not asked for.
\<close>

definition no_release_fs :: file_system where
  "no_release_fs = \<lparr>fs_read = (\<lambda>_. Inl IoNotFound), fs_read_link = (\<lambda>_. Inl IoNotFound), fs_exists = (\<lambda>_. True),
     fs_is_dir = (\<lambda>_. False)\<rparr>"

theorem lsm_feature_weaker:
  "validate_for_feature no_release_fs d EbpfLsm = Inr () \<and> \<not> support_is_ebpf_supported no_release_fs"
  by (simp add: no_release_fs_def support_is_ebpf_supported_def support_check_kernel_version_def
      validate_for_feature_def kernel_release_def read_to_string_def)

end
