(* ===== verification/Glog.thy ===== *)
theory Glog
  imports Startup
begin

section \<open>Log lines\<close>

text \<open>
  \<open>glog.rs\<close> of the common crate: the layer that turns a log event into one line of the glog format. The clock
  (formatted by chrono), the thread id as \<open>{:?}\<close> prints it and the \<open>Debug\<close> text of a value come from
  outside; the fields of an event are visited in their order.
\<close>

subsection \<open>Fields\<close>

datatype field_value = FvDebug string | FvStr string | FvI64 i64 | FvU64 u64 | FvBool bool

record log_event =
  le_level :: log_level
  le_file :: "string option"
  le_line :: "u32 option"
  le_fields :: "(string \<times> field_value) list"

record glog_visitor =
  gv_buf :: string
  gv_first :: bool

definition visit_append :: "string \<Rightarrow> glog_visitor \<Rightarrow> glog_visitor" where
  "visit_append s v = v\<lparr>gv_buf := gv_buf v @ s, gv_first := False\<rparr>"

text \<open>The separator is only pushed in front of a field that is not the first.\<close>

definition visit_field :: "string \<Rightarrow> string \<Rightarrow> glog_visitor \<Rightarrow> glog_visitor" where
  "visit_field name text v = visit_append ((if gv_first v then [] else '' '') @ name @ ''='' @ text) v"

definition record_debug :: "string \<Rightarrow> string \<Rightarrow> glog_visitor \<Rightarrow> glog_visitor" where
  "record_debug name text v = (if name = ''message'' then visit_append text v else visit_field name text v)"

definition record_str :: "string \<Rightarrow> string \<Rightarrow> glog_visitor \<Rightarrow> glog_visitor" where
  "record_str name text v = (if name = ''message'' then visit_append text v else visit_field name text v)"

definition show_i64 :: "i64 \<Rightarrow> string" where
  "show_i64 w = (if sint w < 0 then ''-'' @ show_nat (nat (- sint w)) else show_nat (nat (sint w)))"

definition record_i64 :: "string \<Rightarrow> i64 \<Rightarrow> glog_visitor \<Rightarrow> glog_visitor" where
  "record_i64 name n v = visit_field name (show_i64 n) v"

definition record_u64 :: "string \<Rightarrow> u64 \<Rightarrow> glog_visitor \<Rightarrow> glog_visitor" where
  "record_u64 name n v = visit_field name (show_nat (unat n)) v"

definition record_bool :: "string \<Rightarrow> bool \<Rightarrow> glog_visitor \<Rightarrow> glog_visitor" where
  "record_bool name b v = visit_field name (if b then ''true'' else ''false'') v"

definition record_value :: "string \<times> field_value \<Rightarrow> glog_visitor \<Rightarrow> glog_visitor" where
  "record_value f v = (case snd f of
     FvDebug t \<Rightarrow> record_debug (fst f) t v | FvStr t \<Rightarrow> record_str (fst f) t v | FvI64 n \<Rightarrow> record_i64 (fst f) n v
   | FvU64 n \<Rightarrow> record_u64 (fst f) n v | FvBool b \<Rightarrow> record_bool (fst f) b v)"

subsection \<open>A line\<close>

definition level_char :: "log_level \<Rightarrow> char" where
  "level_char l = (case l of ERROR \<Rightarrow> CHR ''E'' | WARN \<Rightarrow> CHR ''W'' | INFO \<Rightarrow> CHR ''I'' | DEBUG \<Rightarrow> CHR ''D'' | TRACE \<Rightarrow> CHR ''T'')"

text \<open>\<open>trim_start_matches\<close> takes a pattern off as often as it stands in front.\<close>

function trim_start_matches :: "string \<Rightarrow> string \<Rightarrow> string" where
  "trim_start_matches pat s =
     (if pat \<noteq> [] \<and> starts_with s pat then trim_start_matches pat (drop (length pat) s) else s)"
  by pat_completeness auto
termination
  by (relation "measure (\<lambda>(pat, s). length s)") (auto elim: starts_withE)

declare trim_start_matches.simps [simp del]

definition thread_num :: "string \<Rightarrow> u64" where
  "thread_num thread_id =
     (case parse_u64 (rev (dropWhile (\<lambda>c. c = CHR '')'') (rev (trim_start_matches ''ThreadId('' thread_id)))) of
        Some n \<Rightarrow> n | None \<Rightarrow> 0)"

text \<open>\<open>rsplit('/').next()\<close>: what follows the last slash.\<close>

definition file_name_of :: "string option \<Rightarrow> string" where
  "file_name_of f = (case f of None \<Rightarrow> ''unknown'' | Some p \<Rightarrow> last (split_on (CHR ''/'') p))"

definition glog_prefix :: "string \<Rightarrow> string \<Rightarrow> log_event \<Rightarrow> string" where
  "glog_prefix now thread_id e =
     [level_char (le_level e)] @ now @ '' '' @ show_nat (unat (thread_num thread_id)) @ '' '' @ file_name_of (le_file e) @
     '':'' @ show_u32 (case le_line e of Some n \<Rightarrow> n | None \<Rightarrow> 0) @ ''] ''"

definition on_event :: "string \<Rightarrow> string \<Rightarrow> log_event \<Rightarrow> string" where
  "on_event now thread_id e =
     gv_buf (fold record_value (le_fields e) \<lparr>gv_buf = glog_prefix now thread_id e, gv_first = True\<rparr>) @ [CHR 0x0A]"

subsection \<open>One event, one line\<close>

definition field_text :: "field_value \<Rightarrow> string" where
  "field_text fv = (case fv of FvDebug t \<Rightarrow> t | FvStr t \<Rightarrow> t | FvI64 n \<Rightarrow> show_i64 n | FvU64 n \<Rightarrow> show_nat (unat n)
     | FvBool b \<Rightarrow> if b then ''true'' else ''false'')"

text \<open>The text that the fields after the first add to a line.\<close>

definition rest_of_line :: "(string \<times> field_value) list \<Rightarrow> string" where
  "rest_of_line fs = concat (map (\<lambda>(name, fv). '' '' @ name @ ''='' @ field_text fv) fs)"

lemmas visit_defs = record_value_def record_debug_def record_str_def record_i64_def record_u64_def record_bool_def
  visit_field_def visit_append_def field_text_def

lemma record_value_other:
  "name \<noteq> ''message'' \<Longrightarrow>
     record_value (name, fv) v = \<lparr>gv_buf = gv_buf v @ (if gv_first v then [] else '' '') @ name @ ''='' @ field_text fv, gv_first = False\<rparr>"
  by (cases v) (auto simp: visit_defs split: field_value.splits)

lemma fold_record_value:
  "\<forall>f\<in>set fs. fst f \<noteq> ''message'' \<Longrightarrow> \<not> gv_first v \<Longrightarrow>
     gv_buf (fold record_value fs v) = gv_buf v @ rest_of_line fs"
proof (induction fs arbitrary: v)
  case (Cons f fs)
  then show ?case by (cases f) (simp add: record_value_other rest_of_line_def)
qed (simp add: rest_of_line_def)

text \<open>
  What the layer writes for a message with further fields: the prefix, the message as it is, then every field
  as \<open> name=value\<close>, and a newline.
\<close>

theorem on_event_line:
  assumes "\<forall>f\<in>set fs. fst f \<noteq> ''message''"
  shows "on_event now tid (e\<lparr>le_fields := (''message'', FvDebug msg) # fs\<rparr>) =
    glog_prefix now tid e @ msg @ rest_of_line fs @ [CHR 0x0A]"
proof -
  have "glog_prefix now tid (e\<lparr>le_fields := xs\<rparr>) = glog_prefix now tid e" for xs by (simp add: glog_prefix_def)
  then show ?thesis using fold_record_value [OF assms] by (simp add: on_event_def visit_defs)
qed

text \<open>
  Texts are copied as they are: a message that holds a newline and the prefix of another event cannot be told
  from two events.
\<close>

theorem log_line_forgeable:
  "on_event now tid (e\<lparr>le_fields := [(''message'', FvDebug (m1 @ [CHR 0x0A] @ glog_prefix now tid e' @ m2))]\<rparr>) =
   on_event now tid (e\<lparr>le_fields := [(''message'', FvDebug m1)]\<rparr>) @ on_event now tid (e'\<lparr>le_fields := [(''message'', FvDebug m2)]\<rparr>)"
  using on_event_line [of "[]" now tid] by (simp add: rest_of_line_def)

text \<open>The number of a thread is read back from its \<open>Debug\<close> text.\<close>

theorem thread_num_roundtrip: "thread_num (''ThreadId('' @ show_nat (unat n) @ '')'') = n"
proof -
  let ?d = "show_nat (unat n)"
  have hd: "\<not> starts_with (?d @ '')'') ''ThreadId(''"
    using show_nat_digits [of "unat n"] by (cases ?d) (auto simp: starts_with_def is_ascii_digit_def)
  have "trim_start_matches ''ThreadId('' (''ThreadId('' @ ?d @ '')'') = ?d @ '')''"
    using hd by (subst trim_start_matches.simps) (simp add: trim_start_matches.simps [of _ "?d @ '')''"] starts_with_def)
  moreover have "is_ascii_digit (last ?d)"
    using show_nat_digits [of "unat n"] last_in_set [of ?d] by (simp add: list_all_iff)
  then have "dropWhile (\<lambda>c. c = CHR '')'') (rev (?d @ '')'')) = rev ?d"
    by (auto simp: dropWhile_eq_self_iff is_ascii_digit_def hd_rev)
  moreover have "unat n < 2 ^ 64" using unsigned_less [of n] by simp
  then have "parse_u64 ?d = Some n" by (simp add: parse_u64_def parse_unsigned_show_nat)
  ultimately show ?thesis by (simp add: thread_num_def)
qed

end
