(* ===== verification/Daemon_Logs.thy ===== *)
theory Daemon_Logs
  imports Glog Startup_Props
begin

section \<open>What the daemons write to their log\<close>

text \<open>
  The log of a daemon, from its start (\<open>main.rs\<close> of both) to the lines its forwarding tasks write for every access
  or change (\<open>service.rs\<close> of both). The level filter of \<open>setup_logging\<close> decides which records reach the layer of
  Glog. The text of an address, of the missing capabilities and of an error comes from outside. It is shown that
  the log of a start says what the daemon does, that the lines of a guard go with what it broadcasts, and
  that whoever chooses a path in a container writes the log.
\<close>

subsection \<open>The level filter\<close>

definition level_rank :: "log_level \<Rightarrow> nat" where
  "level_rank l = (case l of ERROR \<Rightarrow> 1 | WARN \<Rightarrow> 2 | INFO \<Rightarrow> 3 | DEBUG \<Rightarrow> 4 | TRACE \<Rightarrow> 5)"

text \<open>\<open>setup_logging\<close>: records up to the configured verbosity pass.\<close>

definition setup_logging :: "log_level \<Rightarrow> (log_level \<times> 'a) list \<Rightarrow> (log_level \<times> 'a) list" where
  "setup_logging level records = filter (\<lambda>(l, _). level_rank l \<le> level_rank level) records"

lemma error_always_logged: "(ERROR, m) \<in> set (setup_logging level records) \<longleftrightarrow> (ERROR, m) \<in> set records"
  by (cases level) (auto simp: setup_logging_def level_rank_def)

subsection \<open>The start of a daemon\<close>

type_synonym fields = "(string \<times> field_value) list"

definition resource_limits_log :: "resource_limits_info \<Rightarrow> log_level \<times> fields" where
  "resource_limits_log r =
     (INFO, [(''message'', FvDebug ''Resource limits''), (''fd_soft'', FvU64 (rl_fd_soft_limit r)), (''fd_hard'', FvU64 (rl_fd_hard_limit r)),
       (''inotify_watches'', FvU64 (rl_inotify_max_watches r)), (''inotify_queued'', FvU64 (rl_inotify_max_queued r)),
       (''inotify_instances'', FvU64 (rl_inotify_max_instances r)), (''fanotify_marks'', FvU64 (rl_fanotify_max_marks r)),
       (''fanotify_queued'', FvU64 (rl_fanotify_max_queued r))])"

definition janus_log_runtime_mode :: "runtime_mode \<Rightarrow> log \<times> string" where
  "janus_log_runtime_mode mode = (case mode of
     EbpfMode \<Rightarrow>
       ([(INFO, ''eBPF mode: LSM-based file access auditing with atomic process attribution''),
         (INFO, ''Permission control via LSM hooks (deny paths supported)'')], ''ebpf (LSM hooks)'')
   | TraditionalMode \<Rightarrow>
       ([(INFO, ''Traditional mode: fanotify-based file access auditing''),
         (INFO, ''Process info via /proc lookups (TOCTOU race possible for short-lived processes)'')],
        ''traditional (fanotify)''))"

definition argus_log_runtime_mode :: "runtime_mode \<Rightarrow> log \<times> string" where
  "argus_log_runtime_mode mode = (case mode of
     EbpfMode \<Rightarrow> ([(INFO, ''eBPF mode: LSM-based file monitoring with process attribution'')], ''ebpf (LSM hooks)'')
   | TraditionalMode \<Rightarrow>
       ([(INFO, ''Traditional mode: inotify-based file monitoring''),
         (INFO, ''Note: Process info unavailable (inotify limitation)'')], ''traditional (inotify)''))"

definition janus_log_startup_info :: "daemon_config \<Rightarrow> string \<Rightarrow> string \<Rightarrow> log_level \<times> fields" where
  "janus_log_startup_info c listen_addr mode_str =
     (INFO, [(''message'', FvDebug ''Starting janusd''), (''version'', FvStr ''2.0.0''), (''node'', FvDebug (dc_node_name c)),
       (''cluster'', FvDebug (dc_cluster_name c)), (''listen'', FvDebug listen_addr), (''max_guards'', FvU64 (dc_max c)),
       (''mode'', FvStr mode_str)])"

definition argus_log_startup_info :: "daemon_config \<Rightarrow> string \<Rightarrow> string \<Rightarrow> log_level \<times> fields" where
  "argus_log_startup_info c listen_addr mode_str =
     (INFO, [(''message'', FvDebug ''Starting argusd''), (''version'', FvStr ''2.0.0''), (''node'', FvDebug (dc_node_name c)),
       (''cluster'', FvDebug (dc_cluster_name c)), (''listen'', FvDebug listen_addr), (''max_watches'', FvU64 (dc_max c)),
       (''mode'', FvStr mode_str)])"

text \<open>The message of a record with fields, as the log of a start keeps it.\<close>

definition message_of :: "log_level \<times> fields \<Rightarrow> log_level \<times> string" where
  "message_of r = (fst r, case map_of (snd r) ''message'' of Some fv \<Rightarrow> field_text fv | None \<Rightarrow> [])"

definition audit_logger_log :: "audit_setup \<Rightarrow> log" where
  "audit_logger_log au =
     (case netlink_logger_new (as_has_cap au) (as_socket au) (as_bind au) of
        Inr _ \<Rightarrow> [(INFO, ''Netlink audit logger initialized'')]
      | Inl e \<Rightarrow>
          (if e = MissingCapability then [(WARN, ''CAP_AUDIT_WRITE not available, audit logging will be disabled'')] else []) @
          [(WARN, ''Failed to create audit logger, using null logger'')])"

definition janus_runtime_log :: "container_runtime option \<Rightarrow> runtime_mode \<Rightarrow> log_level \<times> string" where
  "janus_runtime_log rt mode = (case rt of
     Some _ \<Rightarrow> (INFO, ''Detected container runtime'')
   | None \<Rightarrow> (WARN, case mode of TraditionalMode \<Rightarrow> ''No container runtime detected, container guards will fail''
                          | EbpfMode \<Rightarrow> ''No container runtime detected''))"

text \<open>
  The messages of \<open>main\<close> in their order, up to the point where the daemon stops or serves. After a panic there is
  no statement about the log.
\<close>

definition janusd_log ::
  "bool \<Rightarrow> (required_capability list \<Rightarrow> string) \<Rightarrow> (resource_limit_error \<Rightarrow> string) \<Rightarrow> (socket_addr \<Rightarrow> string) \<Rightarrow> audit_setup
   \<Rightarrow> host \<Rightarrow> daemon_config \<Rightarrow> log outcome" where
  "janusd_log ebpf_build debug show_error show_addr au h c =
     (case janus_validate_environment (h_fs h) (environment_detector_new h) of
        (Inl _, l) \<Rightarrow> Returned l
      | (Inr _, l) \<Rightarrow>
          (let cc = capability_checker_new h in
           case janus_validate_capabilities cc of
             (Inl _, l1) \<Rightarrow> Returned (l @ l1)
           | (Inr _, l1) \<Rightarrow>
               (case janus_validate_resource_limits show_error h (dc_max c) of
                  Panicked \<Rightarrow> Panicked
                | Returned (Inl _, l2) \<Rightarrow> Returned (l @ l1 @ l2)
                | Returned (Inr _, l2) \<Rightarrow>
                    (let (mode, l3) = janus_detect_runtime_mode ebpf_build debug (h_fs h) c cc;
                         (l4, mode_str) = janus_log_runtime_mode mode
                     in Returned (l @ l1 @ l2 @ l3 @ l4 @
                          [message_of (janus_log_startup_info c (show_addr (effective_addr c)) mode_str)] @ audit_logger_log au @
                          [(INFO, ''Audit logger initialized''),
                           janus_runtime_log (detect_runtime (h_fs h) (h_host_root_path h)) mode,
                           (INFO, ''Starting gRPC server (v2)'')])))))"

definition argus_runtime_log :: "container_runtime option \<Rightarrow> log_level \<times> string" where
  "argus_runtime_log rt = (case rt of Some _ \<Rightarrow> (INFO, ''Detected container runtime'') | None \<Rightarrow> (WARN, ''No container runtime detected''))"

definition argusd_log ::
  "bool \<Rightarrow> (required_capability list \<Rightarrow> string) \<Rightarrow> (resource_limit_error \<Rightarrow> string) \<Rightarrow> (socket_addr \<Rightarrow> string)
   \<Rightarrow> host \<Rightarrow> daemon_config \<Rightarrow> log outcome" where
  "argusd_log ebpf_build debug show_error show_addr h c =
     (case argus_validate_environment (h_fs h) (environment_detector_new h) of
        (Inl _, l) \<Rightarrow> Returned l
      | (Inr _, l) \<Rightarrow>
          (let cc = capability_checker_new h in
           case argus_validate_capabilities cc of
             (Inl _, l1) \<Rightarrow> Returned (l @ l1)
           | (Inr _, l1) \<Rightarrow>
               (case argus_validate_resource_limits show_error h (dc_max c) of
                  Panicked \<Rightarrow> Panicked
                | Returned (Inl _, l2) \<Rightarrow> Returned (l @ l1 @ l2)
                | Returned (Inr _, l2) \<Rightarrow>
                    (let (mode, l3) = argus_detect_runtime_mode ebpf_build debug (h_fs h) c cc;
                         (l4, mode_str) = argus_log_runtime_mode mode
                     in Returned (l @ l1 @ l2 @ l3 @ l4 @
                          [message_of (argus_log_startup_info c (show_addr (effective_addr c)) mode_str),
                           argus_runtime_log (detect_runtime (h_fs h) (h_host_root_path h)),
                           (INFO, ''Starting gRPC server (v2)'')])))))"

subsection \<open>The lines of accesses and changes\<close>

text \<open>\<open>to_uppercase\<close> is only applied to the names of event types, which are ASCII.\<close>

definition ascii_upper :: "char \<Rightarrow> char" where
  "ascii_upper c = (let n = of_char c :: nat in if 97 \<le> n \<and> n \<le> 122 then char_of (n - 32) else c)"

definition to_uppercase :: "string \<Rightarrow> string" where
  "to_uppercase s = map ascii_upper s"

definition line_message :: "string \<Rightarrow> string \<Rightarrow> bool \<Rightarrow> string \<Rightarrow> string \<Rightarrow> string \<Rightarrow> string" where
  "line_message tag what is_dir path pod node =
     ''<'' @ tag @ ''> '' @ what @ (if is_dir then ''directory '' else ''file '') @ [CHR 0x27] @ path @ [CHR 0x27] @
     '' ('' @ pod @ '':'' @ node @ '')''"

text \<open>The three calls of \<open>info!\<close> differ in the tag and in their line in the source.\<close>

definition log_access_event :: "access_event \<Rightarrow> string \<Rightarrow> string \<Rightarrow> log_event" where
  "log_access_event e pod node =
     (let (tag, line) = (case ev_response e of Allow \<Rightarrow> (''ALLOW'', 371) | Deny \<Rightarrow> (''DENY'', 381) | AuditResp \<Rightarrow> (''AUDIT'', 391)) in
      \<lparr>le_level = INFO, le_file = Some ''src/service.rs'', le_line = Some line,
       le_fields = [(''message'', FvDebug (line_message tag (to_uppercase (ev_event_type e) @ '' '') (ev_is_dir e) (ev_path e) pod node))]\<rparr>)"

definition log_file_event :: "file_forwarding_context \<Rightarrow> watch_session_state session \<Rightarrow> file_event \<Rightarrow> log_event" where
  "log_file_event ctx s e =
     \<lparr>le_level = INFO, le_file = Some ''src/service.rs'', le_line = Some 305,
      le_fields = [(''message'', FvDebug (line_message (to_uppercase (event_type_as_str (f_event_type e))) [] (f_is_dir e)
        (from_utf8_lossy (display_path_of (ffc_container_root ctx) (f_path e))) (s_pod_name s) (ffc_node_name ctx)))]\<rparr>"

text \<open>
  What the forwarding task of janusd logs: a line for every event that a pattern matched, before the process is
  looked up, which may panic and end the task.
\<close>

fun forwarding_log :: "forwarding_context \<Rightarrow> forwarding_input list \<Rightarrow> log_event list" where
  "forwarding_log ctx [] = []"
| "forwarding_log ctx (i # is) =
     (if ev_matched_pattern (fi_event i) then
        log_access_event (fi_event i) (fc_pod_name ctx) (fc_node_name ctx) #
        (if resolve_process_info (fi_fs i) (fc_proc_resolver ctx) (ev_pid (fi_event i)) = Panicked then [] else forwarding_log ctx is)
      else forwarding_log ctx is)"

subsection \<open>The log of a start says what the daemon does\<close>

abbreviation SERVING :: "log_level \<times> string" where
  "SERVING \<equiv> (INFO, ''Starting gRPC server (v2)'')"

text \<open>A part of the log that neither reports an error, nor that the daemon serves, nor a mode.\<close>

definition neutral :: "log \<Rightarrow> bool" where
  "neutral l \<longleftrightarrow> ERROR \<notin> fst ` set l \<and> SERVING \<notin> set l \<and>
     (\<forall>mode. set l \<inter> set (fst (janus_log_runtime_mode mode)) = {}) \<and>
     (\<forall>mode. set l \<inter> set (fst (argus_log_runtime_mode mode)) = {})"

lemma all_modes: "(\<forall>mode. P mode) \<longleftrightarrow> P TraditionalMode \<and> P EbpfMode"
  by (metis runtime_mode.exhaust)

lemmas mode_logs = all_modes janus_log_runtime_mode_def argus_log_runtime_mode_def

lemma neutral_append [simp]: "neutral (l @ l') \<longleftrightarrow> neutral l \<and> neutral l'"
  by (auto simp: neutral_def)

lemma neutral_Nil [simp]: "neutral []"
  by (simp add: neutral_def)

lemma neutral_Cons: "neutral (r # l) \<longleftrightarrow> neutral [r] \<and> neutral l"
  using neutral_append [of "[r]" l] by simp

lemma neutral_one: "l \<noteq> ERROR \<Longrightarrow> neutral [(l, m)] \<longleftrightarrow> l \<noteq> INFO \<or>
    m \<notin> {''Starting gRPC server (v2)'', ''eBPF mode: LSM-based file access auditing with atomic process attribution'',
      ''Permission control via LSM hooks (deny paths supported)'', ''Traditional mode: fanotify-based file access auditing'',
      ''Process info via /proc lookups (TOCTOU race possible for short-lived processes)'',
      ''eBPF mode: LSM-based file monitoring with process attribution'', ''Traditional mode: inotify-based file monitoring'',
      ''Note: Process info unavailable (inotify limitation)''}"
  by (cases l) (auto simp: neutral_def mode_logs)

lemma neutral_environment: "neutral (snd (validate_features fts fs d))"
  by (auto simp: validate_features_def environment_warnings_def log_warning_def neutral_Cons [of _ "_ # _"] neutral_Cons [of _ "map _ _"] neutral_one)

lemma neutral_detect: "neutral (snd (detect_mode caps interface debug fs c cc))" "neutral (snd (detect_mode_plain c))"
  by (auto simp: detect_mode_def detect_mode_plain_def log_ebpf_unsupported_reason_def Let_def neutral_Cons [of _ "_ # _"] neutral_Cons [of _ "_ @ _"] neutral_one)

lemma neutral_start:
  "neutral [message_of (janus_log_startup_info c a m)]" "neutral [message_of (argus_log_startup_info c a m)]"
  "neutral (audit_logger_log au)" "neutral [janus_runtime_log rt mode]" "neutral [argus_runtime_log rt]"
  "neutral [(INFO, ''Audit logger initialized'')]"
  by (auto simp: message_of_def janus_log_startup_info_def argus_log_startup_info_def field_text_def audit_logger_log_def janus_runtime_log_def
      argus_runtime_log_def neutral_Cons [of _ "_ # _"] neutral_one split: sum.splits option.splits)

lemma neutral_mode_detection:
  "neutral (snd (janus_detect_runtime_mode b debug fs c cc))" "neutral (snd (argus_detect_runtime_mode b debug fs c cc))"
  by (simp_all add: janus_detect_runtime_mode_def argus_detect_runtime_mode_def neutral_detect)

lemma caps_log:
  "validate_caps caps daemon cc = (r, l) \<Longrightarrow>
     (r = Inr () \<and> neutral l) \<or> ((\<exists>m. r = Inl (MissingRequired m)) \<and> (\<exists>m. l = [(ERROR, m)]))"
  by (auto simp: validate_caps_def Let_def neutral_one split: if_splits)

lemma neutral_limits:
  "validate_fanotify_limits fs n = Returned l \<Longrightarrow> neutral l" "neutral (validate_inotify_limits fs n)"
  by (auto simp: validate_fanotify_limits_def validate_inotify_limits_def neutral_Cons [of _ "_ # _"] neutral_one split: prod.splits if_splits)

lemma neutral_verified:
  "neutral ((INFO, ''Resource limits'') # (INFO, ''File descriptor limit verified'') # l) \<longleftrightarrow> neutral l"
  using neutral_append [of "[(INFO, ''Resource limits''), (INFO, ''File descriptor limit verified'')]" l]
  by (simp add: neutral_Cons [of _ "[_]"] neutral_one)

lemma limits_log:
  "janus_validate_resource_limits show_error h n = Returned (r, l) \<Longrightarrow>
     (r = Inr () \<and> neutral l) \<or> (r = Inl INSUFFICIENT_FDS \<and> (\<exists>m m'. l = [(INFO, ''Resource limits''), (ERROR, m), (ERROR, m')]))"
  "argus_validate_resource_limits show_error h n = Returned (r, l) \<Longrightarrow>
     (r = Inr () \<and> neutral l) \<or> (r = Inl INSUFFICIENT_FDS \<and> (\<exists>m m'. l = [(INFO, ''Resource limits''), (ERROR, m), (ERROR, m')]))"
  using neutral_limits
  by (auto simp: janus_validate_resource_limits_def argus_validate_resource_limits_def neutral_verified
      split: if_splits sum.splits outcome.splits)

text \<open>The messages of a mode occur nowhere else and not in those of the other mode.\<close>

definition marks_mode :: "(runtime_mode \<Rightarrow> log) \<Rightarrow> bool" where
  "marks_mode f \<longleftrightarrow> (\<forall>m. f m \<noteq> [] \<and> ERROR \<notin> fst ` set (f m) \<and> SERVING \<notin> set (f m) \<and> (INFO, ''Resource limits'') \<notin> set (f m) \<and>
     (\<forall>m'. m \<noteq> m' \<longrightarrow> set (f m) \<inter> set (f m') = {}) \<and> (\<forall>l. neutral l \<longrightarrow> set l \<inter> set (f m) = {}))"

lemma janus_marks_mode: "marks_mode (\<lambda>m. fst (janus_log_runtime_mode m))"
  unfolding marks_mode_def neutral_def by (simp add: mode_logs)

lemma argus_marks_mode: "marks_mode (\<lambda>m. fst (argus_log_runtime_mode m))"
  unfolding marks_mode_def neutral_def by (simp add: mode_logs)

text \<open>
  What a reader learns from a log: that the daemon serves, in which mode, and that it refused to start for want of
  capabilities or file descriptors.
\<close>

definition tells :: "log \<Rightarrow> (runtime_mode \<Rightarrow> log) \<Rightarrow> startup_error + runtime_mode \<Rightarrow> bool" where
  "tells l mode_log r \<longleftrightarrow>
     (SERVING \<in> set l \<longleftrightarrow> (\<exists>mode. r = Inr mode)) \<and>
     (\<forall>mode. \<forall>x\<in>set (mode_log mode). x \<in> set l \<longleftrightarrow> r = Inr mode) \<and>
     (ERROR \<in> fst ` set l \<longleftrightarrow> (\<exists>m. r = Inl (MissingRequired m) \<or> r = Inl (InsufficientFds m)))"

lemma marks_modeD:
  assumes "marks_mode f"
  shows "f m \<noteq> []" "ERROR \<notin> fst ` set (f m)" "SERVING \<notin> set (f m)" "(INFO, ''Resource limits'') \<notin> set (f m)"
    "x \<in> set (f m) \<Longrightarrow> x \<in> set (f m') \<Longrightarrow> m = m'" "neutral l \<Longrightarrow> x \<in> set (f m) \<Longrightarrow> x \<notin> set l"
  using assms unfolding marks_mode_def by blast+

lemma in_the_middle: "x \<in> set (l @ ys @ l' @ [s]) \<Longrightarrow> x \<notin> set l \<Longrightarrow> x \<notin> set l' \<Longrightarrow> x \<noteq> s \<Longrightarrow> x \<in> set ys"
  by auto

lemma tells_serving:
  assumes "marks_mode f" and "neutral l" and "neutral l'"
  shows "tells (l @ f mode @ l' @ [SERVING]) f (Inr mode)"
proof -
  note f = marks_modeD [OF assms(1)]
  have "m = mode" if x: "x \<in> set (f m)" and "x \<in> set (l @ f mode @ l' @ [SERVING])" for m x
  proof -
    have "x \<noteq> SERVING" using x f(3) [of m] by auto
    from in_the_middle [OF that(2) f(6) [OF assms(2) x] f(6) [OF assms(3) x] this] have "x \<in> set (f mode)" .
    with x show ?thesis by (rule f(5))
  qed
  moreover have "ERROR \<notin> fst ` set (l @ f mode @ l' @ [SERVING])"
    using f(2) [of mode] assms(2,3) by (simp add: neutral_def image_Un)
  ultimately show ?thesis unfolding tells_def by auto
qed

lemma tells_refused:
  assumes "marks_mode f" and "neutral l" and "ERROR \<in> fst ` set l' \<longleftrightarrow> (\<exists>m. e = MissingRequired m \<or> e = InsufficientFds m)"
    and "\<And>r. r \<in> set l' \<Longrightarrow> r = (INFO, ''Resource limits'') \<or> fst r = ERROR"
  shows "tells (l @ l') f (Inl e)"
proof -
  note f = marks_modeD [OF assms(1)]
  have "x \<notin> set (l @ l')" if x: "x \<in> set (f m)" for m x
  proof
    assume "x \<in> set (l @ l')"
    then have "x \<in> set l'" using f(6) [OF assms(2) x] by simp
    with x assms(4) f(2,4) show False by (metis image_eqI)
  qed
  moreover have "SERVING \<notin> set (l @ l')" using assms(2,4) by (fastforce simp: neutral_def)
  moreover have "ERROR \<notin> fst ` set l" using assms(2) by (simp add: neutral_def)
  ultimately show ?thesis unfolding tells_def set_append image_Un using assms(3) by simp
qed

text \<open>The mode in which a daemon serves.\<close>

definition served_mode :: "startup_error + socket_addr \<times> ('t, 'e) served \<Rightarrow> startup_error + runtime_mode" where
  "served_mode r = (case r of Inl e \<Rightarrow> Inl e
     | Inr (_, s) \<Rightarrow> Inr (case s of ServesTraditional _ \<Rightarrow> TraditionalMode | ServesEbpf _ \<Rightarrow> EbpfMode))"

text \<open>The order of the checks, which both daemons share: what is returned and what is logged.\<close>

definition checks_result ::
  "(startup_error + unit) \<times> log \<Rightarrow> (startup_error + unit) \<times> log \<Rightarrow> ((startup_error + unit) \<times> log) outcome \<Rightarrow> 'a \<Rightarrow> (startup_error + 'a) outcome" where
  "checks_result env caps limits x = (case env of (Inl e, _) \<Rightarrow> Returned (Inl e) | (Inr _, _) \<Rightarrow>
     (case caps of (Inl e, _) \<Rightarrow> Returned (Inl e) | (Inr _, _) \<Rightarrow>
     (case limits of Panicked \<Rightarrow> Panicked | Returned (Inl e, _) \<Rightarrow> Returned (Inl e) | Returned (Inr _, _) \<Rightarrow> Returned (Inr x))))"

definition checks_log ::
  "(startup_error + unit) \<times> log \<Rightarrow> (startup_error + unit) \<times> log \<Rightarrow> ((startup_error + unit) \<times> log) outcome \<Rightarrow> log \<Rightarrow> log outcome" where
  "checks_log env caps limits rest = (case env of (Inl _, l) \<Rightarrow> Returned l | (Inr _, l) \<Rightarrow>
     (case caps of (Inl _, l1) \<Rightarrow> Returned (l @ l1) | (Inr _, l1) \<Rightarrow>
     (case limits of Panicked \<Rightarrow> Panicked | Returned (Inl _, l2) \<Rightarrow> Returned (l @ l1 @ l2)
       | Returned (Inr _, l2) \<Rightarrow> Returned (l @ l1 @ l2 @ rest))))"

lemmas checks_defs = checks_result_def checks_log_def

lemma environment_log:
  assumes "validate_features fts fs d = (r, l)"
  shows "neutral l" and "r = Inl e \<Longrightarrow> \<exists>ctx err. e = FeatureValidation ctx err"
  using assms neutral_environment [of fts fs d] by (auto simp: validate_features_def split: option.splits)

lemma tells_checks:
  assumes "marks_mode f" and "checks_result (validate_features fts fs d) (validate_caps caps daemon cc) limits x = Returned r"
    and "checks_log (validate_features fts fs d) (validate_caps caps daemon cc) limits (l3 @ f mode @ l4 @ [SERVING]) = Returned l"
    and limits: "\<And>r l. limits = Returned (r, l) \<Longrightarrow>
      (r = Inr () \<and> neutral l) \<or> (r = Inl INSUFFICIENT_FDS \<and> (\<exists>m m'. l = [(INFO, ''Resource limits''), (ERROR, m), (ERROR, m')]))"
    and "neutral l3" and "neutral l4"
  shows "tells l f (map_sum id (\<lambda>_. mode) r)"
proof -
  obtain r0 l0 where e: "validate_features fts fs d = (r0, l0)" by fastforce
  note env = environment_log [OF e]
  obtain r1 l1 where c: "validate_caps caps daemon cc = (r1, l1)" by fastforce
  note refused = tells_refused [OF assms(1)]
  show ?thesis
  proof (cases r0)
    case (Inl err)
    with e assms(2,3) env refused [OF env(1), of "[]" err] show ?thesis by (auto simp: checks_defs)
  next
    case (Inr _)
    note e = e [unfolded Inr]
    from caps_log [OF c] consider (ok) "r1 = Inr ()" "neutral l1" | (bad) m m' where "r1 = Inl (MissingRequired m)" "l1 = [(ERROR, m')]" by blast
    then show ?thesis
    proof cases
      case bad
      with e c assms(2,3) refused [OF env(1), of l1 "MissingRequired m"] show ?thesis by (auto simp: checks_defs)
    next
      case ok
      from assms(2) e c ok(1) obtain r2 l2 where k: "limits = Returned (r2, l2)" by (auto simp: checks_defs split: outcome.splits)
      from limits [OF k] consider (ok2) "r2 = Inr ()" "neutral l2"
        | (bad2) m m' where "r2 = Inl INSUFFICIENT_FDS" "l2 = [(INFO, ''Resource limits''), (ERROR, m), (ERROR, m')]" by blast
      then show ?thesis
      proof cases
        case bad2
        then have "tells ((l0 @ l1) @ l2) f (Inl INSUFFICIENT_FDS)"
          using env(1) ok(2) by (intro refused) (auto simp: INSUFFICIENT_FDS_def)
        with bad2(1) e c k ok(1) assms(2,3) show ?thesis by (auto simp: checks_defs)
      next
        case ok2
        with tells_serving [OF assms(1), of "l0 @ l1 @ l2 @ l3" l4 mode] env(1) ok assms(2,3,5,6) e c k show ?thesis
          by (auto simp: checks_defs)
      qed
    qed
  qed
qed

lemma janusd_checks:
  fixes b debug fs c h
  defines "det \<equiv> janus_detect_runtime_mode b debug (h_fs h) c (capability_checker_new h)"
  shows "map_outcome served_mode (janusd_main b debug show_error au h c) =
    checks_result (janus_validate_environment (h_fs h) (environment_detector_new h)) (janus_validate_capabilities (capability_checker_new h))
      (janus_validate_resource_limits show_error h (dc_max c)) (fst det)"
  "janusd_log b debug show_error show_addr au h c =
    checks_log (janus_validate_environment (h_fs h) (environment_detector_new h)) (janus_validate_capabilities (capability_checker_new h))
      (janus_validate_resource_limits show_error h (dc_max c))
      (snd det @ fst (janus_log_runtime_mode (fst det)) @
       ([message_of (janus_log_startup_info c (show_addr (effective_addr c)) (snd (janus_log_runtime_mode (fst det))))] @ audit_logger_log au @
        [(INFO, ''Audit logger initialized'')] @ [janus_runtime_log (detect_runtime (h_fs h) (h_host_root_path h)) (fst det)]) @ [SERVING])"
  unfolding det_def
  by (auto simp: janusd_main_def janusd_log_def checks_defs served_mode_def Let_def split: prod.splits sum.splits outcome.splits runtime_mode.splits)

lemma argusd_checks:
  fixes b debug fs c h
  defines "det \<equiv> argus_detect_runtime_mode b debug (h_fs h) c (capability_checker_new h)"
  shows "map_outcome served_mode (argusd_main b debug show_error h c) =
    checks_result (argus_validate_environment (h_fs h) (environment_detector_new h)) (argus_validate_capabilities (capability_checker_new h))
      (argus_validate_resource_limits show_error h (dc_max c)) (fst det)"
  "argusd_log b debug show_error show_addr h c =
    checks_log (argus_validate_environment (h_fs h) (environment_detector_new h)) (argus_validate_capabilities (capability_checker_new h))
      (argus_validate_resource_limits show_error h (dc_max c))
      (snd det @ fst (argus_log_runtime_mode (fst det)) @
       ([message_of (argus_log_startup_info c (show_addr (effective_addr c)) (snd (argus_log_runtime_mode (fst det))))] @
        [argus_runtime_log (detect_runtime (h_fs h) (h_host_root_path h))]) @ [SERVING])"
  unfolding det_def
  by (auto simp: argusd_main_def argusd_log_def checks_defs served_mode_def Let_def split: prod.splits sum.splits outcome.splits runtime_mode.splits)

lemma served_mode_simps:
  "(\<exists>mode. served_mode r = Inr mode) \<longleftrightarrow> (\<exists>addr svc. r = Inr (addr, svc))"
  "served_mode r = Inr EbpfMode \<longleftrightarrow> (\<exists>addr svc. r = Inr (addr, ServesEbpf svc))"
  "served_mode r = Inr TraditionalMode \<longleftrightarrow> (\<exists>addr svc. r = Inr (addr, ServesTraditional svc))"
  "served_mode r = Inl e \<longleftrightarrow> r = Inl e"
  by (auto simp: served_mode_def split: sum.splits prod.splits served.splits)

lemma map_sum_mode: "map_outcome served_mode res = checks_result env caps limits mode \<Longrightarrow> res = Returned r \<Longrightarrow>
    checks_result env caps limits mode = Returned (served_mode r) \<and> map_sum id (\<lambda>_. mode) (served_mode r) = served_mode r"
  by (cases "served_mode r") (auto simp: checks_result_def split: prod.splits sum.splits outcome.splits)

lemma janusd_tells:
  assumes "janusd_main b debug show_error au h c = Returned r" and "janusd_log b debug show_error show_addr au h c = Returned l"
  shows "tells l (\<lambda>m. fst (janus_log_runtime_mode m)) (served_mode r)"
proof -
  note r = map_sum_mode [OF janusd_checks(1) assms(1)]
  note start = tells_checks [OF janus_marks_mode conjunct1 [OF r, unfolded janus_validate_environment_def janus_validate_capabilities_def]
    assms(2) [unfolded janusd_checks(2) janus_validate_environment_def janus_validate_capabilities_def] limits_log(1) neutral_mode_detection(1)]
  show ?thesis using start r by (simp only: neutral_append neutral_start)
qed

lemma argusd_tells:
  assumes "argusd_main b debug show_error h c = Returned r" and "argusd_log b debug show_error show_addr h c = Returned l"
  shows "tells l (\<lambda>m. fst (argus_log_runtime_mode m)) (served_mode r)"
proof -
  note r = map_sum_mode [OF argusd_checks(1) assms(1)]
  note start = tells_checks [OF argus_marks_mode conjunct1 [OF r, unfolded argus_validate_environment_def argus_validate_capabilities_def]
    assms(2) [unfolded argusd_checks(2) argus_validate_environment_def argus_validate_capabilities_def] limits_log(2) neutral_mode_detection(2)]
  show ?thesis using start r by (simp only: neutral_append neutral_start)
qed

lemma error_logged: "(\<exists>m. (ERROR, m) \<in> set (setup_logging level l)) \<longleftrightarrow> ERROR \<in> fst ` set l"
  by (force simp: error_always_logged)

text \<open>
  C35: The log of a start tells what janusd does. When it gets through its checks without a panic, the message that
  the server starts is logged exactly when the daemon serves, the message that names the eBPF mode exactly when it serves
  with eBPF, the one that names the traditional mode exactly when it serves with fanotify, and whatever the configured level, an error is written exactly when it refuses to start for a missing
  capability or too few file descriptors.
\<close>

theorem startup_log_truthful:
  assumes "janusd_main b debug show_error au h c = Returned r" and "janusd_log b debug show_error show_addr au h c = Returned l"
  shows "((INFO, ''Starting gRPC server (v2)'') \<in> set l \<longleftrightarrow> (\<exists>addr svc. r = Inr (addr, svc))) \<and>
    ((INFO, ''eBPF mode: LSM-based file access auditing with atomic process attribution'') \<in> set l \<longleftrightarrow> (\<exists>addr svc. r = Inr (addr, ServesEbpf svc))) \<and>
    ((INFO, ''Traditional mode: fanotify-based file access auditing'') \<in> set l \<longleftrightarrow> (\<exists>addr svc. r = Inr (addr, ServesTraditional svc))) \<and>
    ((\<exists>m. (ERROR, m) \<in> set (setup_logging level l)) \<longleftrightarrow> (\<exists>m. r = Inl (MissingRequired m) \<or> r = Inl (InsufficientFds m)))"
proof -
  note told = janusd_tells [OF assms, unfolded tells_def served_mode_simps]
  have mode: "x \<in> set l \<longleftrightarrow> served_mode r = Inr mode" if "x \<in> set (fst (janus_log_runtime_mode mode))" for x mode
    using told that by blast
  have "(INFO, ''eBPF mode: LSM-based file access auditing with atomic process attribution'') \<in> set l \<longleftrightarrow> served_mode r = Inr EbpfMode"
    "(INFO, ''Traditional mode: fanotify-based file access auditing'') \<in> set l \<longleftrightarrow> served_mode r = Inr TraditionalMode"
    by (rule mode, simp add: janus_log_runtime_mode_def)+
  with told show ?thesis unfolding served_mode_simps error_logged by (intro conjI) simp_all
qed

text \<open>The same holds for argusd.\<close>

theorem argusd_startup_log_truthful:
  assumes "argusd_main b debug show_error h c = Returned r" and "argusd_log b debug show_error show_addr h c = Returned l"
  shows "((INFO, ''Starting gRPC server (v2)'') \<in> set l \<longleftrightarrow> (\<exists>addr svc. r = Inr (addr, svc))) \<and>
    ((INFO, ''eBPF mode: LSM-based file monitoring with process attribution'') \<in> set l \<longleftrightarrow> (\<exists>addr svc. r = Inr (addr, ServesEbpf svc))) \<and>
    ((INFO, ''Traditional mode: inotify-based file monitoring'') \<in> set l \<longleftrightarrow> (\<exists>addr svc. r = Inr (addr, ServesTraditional svc))) \<and>
    ((\<exists>m. (ERROR, m) \<in> set (setup_logging level l)) \<longleftrightarrow> (\<exists>m. r = Inl (MissingRequired m) \<or> r = Inl (InsufficientFds m)))"
proof -
  note told = argusd_tells [OF assms, unfolded tells_def served_mode_simps]
  have mode: "x \<in> set l \<longleftrightarrow> served_mode r = Inr mode" if "x \<in> set (fst (argus_log_runtime_mode mode))" for x mode
    using told that by blast
  have "(INFO, ''eBPF mode: LSM-based file monitoring with process attribution'') \<in> set l \<longleftrightarrow> served_mode r = Inr EbpfMode"
    "(INFO, ''Traditional mode: inotify-based file monitoring'') \<in> set l \<longleftrightarrow> served_mode r = Inr TraditionalMode"
    by (rule mode, simp add: argus_log_runtime_mode_def)+
  with told show ?thesis unfolding served_mode_simps error_logged by (intro conjI) simp_all
qed

text \<open>Where the daemon panics there is no log to read, and only there.\<close>

theorem startup_log_ends:
  "janusd_log b debug show_error show_addr au h c = Panicked \<longleftrightarrow> janusd_main b debug show_error au h c = Panicked"
  by (auto simp: janusd_main_def janusd_log_def Let_def split: prod.splits sum.splits outcome.splits)

text \<open>A host that grants the daemon no capability.\<close>

definition bare_host :: host where
  "bare_host = example_host\<lparr>h_effective := Some []\<rparr>"

theorem startup_log_truthful_witness:
  "\<exists>l m. janusd_log True (\<lambda>_. []) (\<lambda>_. []) (\<lambda>_. []) \<lparr>as_has_cap = None, as_socket = Inl 1, as_bind = Inr ()\<rparr> bare_host example_config = Returned l \<and>
     SERVING \<notin> set l \<and> (ERROR, m) \<in> set (setup_logging ERROR l)"
proof -
  let ?au = "\<lparr>as_has_cap = None, as_socket = Inl 1, as_bind = Inr ()\<rparr>"
  obtain r0 l0 where e: "janus_validate_environment (h_fs bare_host) (environment_detector_new bare_host) = (r0, l0)" by fastforce
  have "fs_exists (h_fs bare_host) ''/proc''" by (simp add: bare_host_def example_host_def example_kernel_def)
  with e validate_features_ok_iff(1) [of "h_fs bare_host" "environment_detector_new bare_host"] have r0: "r0 = Inr ()" by simp
  have "check_required (capability_checker_new bare_host) JANUSD_REQUIRED_CAPS \<noteq> []"
    by (simp add: check_required_Nil_iff capability_checker_new_def bare_host_def JANUSD_REQUIRED_CAPS_def)
  then obtain m l1 where c: "janus_validate_capabilities (capability_checker_new bare_host) = (Inl (MissingRequired m), l1)"
    by (auto simp: janus_validate_capabilities_def validate_caps_def Let_def)
  have main: "janusd_main True (\<lambda>_. []) (\<lambda>_. []) ?au bare_host example_config =
      (Returned (Inl (MissingRequired m)) :: (startup_error + socket_addr \<times> ((string, string) janusd, janus_ebpf) served) outcome)"
    and log: "janusd_log True (\<lambda>_. []) (\<lambda>_. []) (\<lambda>_. []) ?au bare_host example_config = Returned (l0 @ l1)"
    using e r0 c by (simp_all add: janusd_main_def janusd_log_def)
  from startup_log_truthful [OF main log, of ERROR] log show ?thesis by auto
qed

subsection \<open>The lines of a guard\<close>

lemma forward_unmatched:
  "\<not> ev_matched_pattern (fi_event i) \<Longrightarrow>
     fst (forward_event little self_pid ctx i st) \<and> fw_broadcast (snd (forward_event little self_pid ctx i st)) = fw_broadcast st"
  by (simp add: forward_event_def Let_def)

lemma forward_matched:
  assumes "ev_matched_pattern (fi_event i)" and "forward_event little self_pid ctx i st = (fin, st')"
  shows "fin \<longleftrightarrow> resolve_process_info (fi_fs i) (fc_proc_resolver ctx) (ev_pid (fi_event i)) \<noteq> Panicked"
    and "\<not> fin \<Longrightarrow> fw_broadcast st' = fw_broadcast st"
    and "fin \<Longrightarrow> \<exists>b. fw_broadcast st' = fw_broadcast st @ [b] \<and> pa_path b = ev_path (fi_event i) \<and> pa_response b = response_to_proto (ev_response (fi_event i))"
  using assms by (auto simp: forward_event_def log_to_audit_def create_proto_access_event_def Let_def split: outcome.splits prod.splits)

text \<open>
  The log and the stream of a guard agree. Every event that is broadcast has its line, in the same order, with the
  same path and response; only an event whose process makes the parser panic is logged and not broadcast, and it
  is the last.
\<close>

theorem access_log_matches_stream:
  assumes "event_forwarding_task little self_pid ctx is st = (fin, st')"
  shows "\<exists>bs es. fw_broadcast st' = fw_broadcast st @ bs \<and>
    forwarding_log ctx is = map (\<lambda>e. log_access_event e (fc_pod_name ctx) (fc_node_name ctx)) es \<and>
    length es = length bs + (if fin then 0 else 1) \<and>
    map pa_path bs = map ev_path (take (length bs) es) \<and>
    map pa_response bs = map (\<lambda>e. response_to_proto (ev_response e)) (take (length bs) es)"
  using assms
proof (induction "is" arbitrary: st)
  case Nil
  then show ?case by (intro exI [of _ "[]"]) simp
next
  case (Cons i "is")
  obtain fin1 st1 where f: "forward_event little self_pid ctx i st = (fin1, st1)" by fastforce
  show ?case
  proof (cases "ev_matched_pattern (fi_event i)")
    case False
    with f forward_unmatched [OF False, of little self_pid ctx st] Cons.prems Cons.IH [of st1] show ?thesis by simp
  next
    case True
    note m = forward_matched [OF this f]
    show ?thesis
    proof (cases fin1)
      case False
      with f Cons.prems have "\<not> fin" "st' = st1" by auto
      with True False m show ?thesis by (intro exI [of _ "[]"] exI [of _ "[fi_event i]"]) simp
    next
      case fin1: True
      with m(3) obtain b where b: "fw_broadcast st1 = fw_broadcast st @ [b]" "pa_path b = ev_path (fi_event i)"
        "pa_response b = response_to_proto (ev_response (fi_event i))" by blast
      from fin1 f Cons.prems have "event_forwarding_task little self_pid ctx is st1 = (fin, st')" by simp
      from Cons.IH [OF this] obtain bs es where
        "fw_broadcast st' = fw_broadcast st1 @ bs"
        "forwarding_log ctx is = map (\<lambda>e. log_access_event e (fc_pod_name ctx) (fc_node_name ctx)) es"
        "length es = length bs + (if fin then 0 else 1)" "map pa_path bs = map ev_path (take (length bs) es)"
        "map pa_response bs = map (\<lambda>e. response_to_proto (ev_response e)) (take (length bs) es)" by blast
      with True fin1 b m(1) show ?thesis
        by (intro exI [of _ "b # bs"] exI [of _ "fi_event i # es"]) simp
    qed
  qed
qed

text \<open>
  Whoever names files in a container writes the log of the daemon. A path is copied between quotes as it is: the
  line of an access to a path that holds a quote, a newline and the beginning of another line is, byte for byte, the line of
  an access to \<open>p\<close> followed by the line of a denied access to \<open>q\<close> that never took place.
\<close>

theorem access_log_forgeable:
  fixes e pod node now tid et
  defines "forged q \<equiv> \<lparr>ev_event_type = et, ev_path = q, ev_is_dir = False, ev_pid = 0, ev_response = Deny, ev_matched_pattern = True\<rparr>"
  shows "on_event now tid (log_access_event (e\<lparr>ev_path := p @ [CHR 0x27] @ '' ('' @ pod @ '':'' @ node @ '')'' @ [CHR 0x0A] @
      glog_prefix now tid (log_access_event (forged q) pod node) @ ''<DENY> '' @ to_uppercase et @ '' file '' @ [CHR 0x27] @ q\<rparr>) pod node) =
    on_event now tid (log_access_event (e\<lparr>ev_path := p\<rparr>) pod node) @ on_event now tid (log_access_event (forged q) pod node)"
  unfolding forged_def
  by (cases "ev_response e") (simp_all add: log_access_event_def on_event_def visit_defs line_message_def glog_prefix_def)

end
