(* ===== verification/Readiness_Wait.thy ===== *)
theory Readiness_Wait
  imports Janus_Service Argus_Service
begin

section \<open>The init containers that wait for protection\<close>

text \<open>
  \<open>tools/guard-wait\<close> and \<open>tools/watcher-wait\<close>: an init container polls the daemon of its node until the
  guard (watcher) of its pod is reported ready, and blocks the start of the pod otherwise.

  What one round of the loop meets is a \<open>poll\<close>: the time elapsed since the start when the timeout is
  tested (nanoseconds), the outcome of connecting, and the answer of the server to a request. A connection
  attempt is bounded by \<open>connect_timeout\<close>; the call and the stream of states are not bounded, so an answer
  that never comes is a value of its own and makes the whole tool not return (\<^const>\<open>None\<close>).
  Both versions of the protocol have the same fields in the messages used here, so the records of the
  services serve for the messages of the tools as well.
\<close>

subsection \<open>What a round meets\<close>

datatype stream_end = StreamEnded | StreamBroken grpc_status | StreamSilent

datatype 's reply = NoReply | Refused grpc_status | States "'s list" stream_end

record state_request =
  sr_name :: string
  sr_namespace :: string

record 's poll =
  po_elapsed :: nat
  po_connect :: "string + unit"
  po_call :: "string \<Rightarrow> state_request \<Rightarrow> 's reply"

text \<open>\<open>Box<dyn std::error::Error>\<close>: a transport error or the status of the call.\<close>

datatype query_error = TransportError string | CallError grpc_status

definition from_secs :: "u64 \<Rightarrow> nat" where
  "from_secs s = unat s * 1000000000"

definition from_millis :: "u64 \<Rightarrow> nat" where
  "from_millis m = unat m * 1000000"

subsection \<open>guard-wait\<close>

record guard_wait_args =
  ga_guard_name :: string
  ga_namespace :: string
  ga_pod_name :: string
  ga_janusd_address :: string
  ga_max_wait_secs :: u64
  ga_poll_interval_ms :: u64
  ga_verbose :: bool

definition GUARD_STATE_METHOD :: string where
  "GUARD_STATE_METHOD = ''/janus.v1.JanusdService/GetGuardState''"

text \<open>The \<open>while let\<close> over the messages of the stream; \<^const>\<open>None\<close> when the next message never comes.\<close>

fun scan_states ::
  "('s \<Rightarrow> string) \<Rightarrow> ('s \<Rightarrow> bool \<times> i32) \<Rightarrow> string \<Rightarrow> 's list \<Rightarrow> stream_end
   \<Rightarrow> (query_error + (bool \<times> i32) option) option" where
  "scan_states pod ready pod_name [] fin =
     (case fin of StreamEnded \<Rightarrow> Some (Inr None) | StreamBroken e \<Rightarrow> Some (Inl (CallError e)) | StreamSilent \<Rightarrow> None)"
| "scan_states pod ready pod_name (s # ss) fin =
     (if pod s = pod_name then Some (Inr (Some (ready s))) else scan_states pod ready pod_name ss fin)"

definition query_guard_state ::
  "guard_wait_args \<Rightarrow> guard_state poll \<Rightarrow> (query_error + (bool \<times> i32) option) option" where
  "query_guard_state args p =
     (case po_connect p of
        Inl e \<Rightarrow> Some (Inl (TransportError e))
      | Inr _ \<Rightarrow>
          (case po_call p GUARD_STATE_METHOD \<lparr>sr_name = ga_guard_name args, sr_namespace = ga_namespace args\<rparr> of
             NoReply \<Rightarrow> None
           | Refused e \<Rightarrow> Some (Inl (CallError e))
           | States ss fin \<Rightarrow>
               scan_states st_pod_name (\<lambda>s. (st_marks_registered s, st_mount_count s)) (ga_pod_name args) ss fin))"

text \<open>
  The loop of both tools: test the timeout, query, return the count once the pod is ready, sleep and go
  round. The sleep shows in the time at which the next round begins.
\<close>

partial_function (option) wait_loop ::
  "nat \<Rightarrow> string \<Rightarrow> (nat \<Rightarrow> nat) \<Rightarrow> (nat \<Rightarrow> (query_error + (bool \<times> i32) option) option) \<Rightarrow> nat
   \<Rightarrow> (string + i32) option" where
  "wait_loop max_wait timeout elapsed query k =
     (if max_wait \<le> elapsed k then Some (Inl timeout)
      else (case query k of
              None \<Rightarrow> None
            | Some (Inr (Some (ready, n))) \<Rightarrow>
                if ready then Some (Inr n) else wait_loop max_wait timeout elapsed query (Suc k)
            | Some (Inr None) \<Rightarrow> wait_loop max_wait timeout elapsed query (Suc k)
            | Some (Inl e) \<Rightarrow> wait_loop max_wait timeout elapsed query (Suc k)))"

definition guard_timeout :: "guard_wait_args \<Rightarrow> string" where
  "guard_timeout args =
     ''Timeout after '' @ show_nat (unat (ga_max_wait_secs args)) @ ''s waiting for guard '' @ [CHR 0x27] @
     ga_guard_name args @ [CHR 0x27] @ '' in namespace '' @ [CHR 0x27] @ ga_namespace args @ [CHR 0x27]"

definition wait_for_guard :: "guard_wait_args \<Rightarrow> (nat \<Rightarrow> guard_state poll) \<Rightarrow> (string + i32) option" where
  "wait_for_guard args polls =
     wait_loop (from_secs (ga_max_wait_secs args)) (guard_timeout args) (po_elapsed \<circ> polls)
       (query_guard_state args \<circ> polls) 0"

text \<open>The exit code of the process, by which Kubernetes starts the pod or not.\<close>

definition guard_wait_main :: "guard_wait_args \<Rightarrow> (nat \<Rightarrow> guard_state poll) \<Rightarrow> nat option" where
  "guard_wait_main args polls =
     map_option (\<lambda>r. case r of Inr _ \<Rightarrow> 0 | Inl _ \<Rightarrow> 1) (wait_for_guard args polls)"

subsection \<open>watcher-wait\<close>

record watcher_wait_args =
  wa_watcher_name :: string
  wa_namespace :: string
  wa_pod_name :: string
  wa_argusd_address :: string
  wa_max_wait_secs :: u64
  wa_poll_interval_ms :: u64
  wa_verbose :: bool

definition WATCH_STATE_METHOD :: string where
  "WATCH_STATE_METHOD = ''/argus.v1.ArgusdService/GetWatchState''"

definition query_watch_state ::
  "watcher_wait_args \<Rightarrow> proto_watch_state poll \<Rightarrow> (query_error + (bool \<times> i32) option) option" where
  "query_watch_state args p =
     (case po_connect p of
        Inl e \<Rightarrow> Some (Inl (TransportError e))
      | Inr _ \<Rightarrow>
          (case po_call p WATCH_STATE_METHOD \<lparr>sr_name = wa_watcher_name args, sr_namespace = wa_namespace args\<rparr> of
             NoReply \<Rightarrow> None
           | Refused e \<Rightarrow> Some (Inl (CallError e))
           | States ss fin \<Rightarrow>
               scan_states pws_pod_name (\<lambda>s. (pws_watches_ready s, pws_active_watch_descriptors s))
                 (wa_pod_name args) ss fin))"

definition watcher_timeout :: "watcher_wait_args \<Rightarrow> string" where
  "watcher_timeout args =
     ''Timeout after '' @ show_nat (unat (wa_max_wait_secs args)) @ ''s waiting for watcher '' @ [CHR 0x27] @
     wa_watcher_name args @ [CHR 0x27] @ '' in namespace '' @ [CHR 0x27] @ wa_namespace args @ [CHR 0x27]"

definition wait_for_watcher :: "watcher_wait_args \<Rightarrow> (nat \<Rightarrow> proto_watch_state poll) \<Rightarrow> (string + i32) option" where
  "wait_for_watcher args polls =
     wait_loop (from_secs (wa_max_wait_secs args)) (watcher_timeout args) (po_elapsed \<circ> polls)
       (query_watch_state args \<circ> polls) 0"

definition watcher_wait_main :: "watcher_wait_args \<Rightarrow> (nat \<Rightarrow> proto_watch_state poll) \<Rightarrow> nat option" where
  "watcher_wait_main args polls =
     map_option (\<lambda>r. case r of Inr _ \<Rightarrow> 0 | Inl _ \<Rightarrow> 1) (wait_for_watcher args polls)"

subsection \<open>The loop\<close>

definition says_ready :: "(query_error + (bool \<times> i32) option) option \<Rightarrow> bool" where
  "says_ready q \<longleftrightarrow> (case q of Some (Inr (Some (ready, _))) \<Rightarrow> ready | _ \<Rightarrow> False)"

text \<open>The loop passes every round that neither times out, hangs nor finds the pod ready.\<close>

lemma wait_loop_skip:
  assumes "elapsed k < max_wait" and "query k \<noteq> None" and "\<not> says_ready (query k)"
  shows "wait_loop max_wait timeout elapsed query k = wait_loop max_wait timeout elapsed query (Suc k)"
  using assms by (subst wait_loop.simps) (auto simp: says_ready_def split: option.splits sum.splits)

lemma wait_loop_skips:
  assumes "\<And>i. k \<le> i \<Longrightarrow> i < m \<Longrightarrow> elapsed i < max_wait \<and> query i \<noteq> None \<and> \<not> says_ready (query i)" and "k \<le> m"
  shows "wait_loop max_wait timeout elapsed query k = wait_loop max_wait timeout elapsed query m"
  using assms
proof (induction "m - k" arbitrary: k)
  case (Suc d)
  then have "wait_loop max_wait timeout elapsed query k = wait_loop max_wait timeout elapsed query (Suc k)"
    by (intro wait_loop_skip) auto
  also have "\<dots> = wait_loop max_wait timeout elapsed query m"
    using Suc by (intro Suc.hyps(1)) auto
  finally show ?case .
qed simp

text \<open>
  The outcome of the loop: it ends at the first round that times out or finds the pod ready, provided no
  earlier query hangs.
\<close>

definition ends_at :: "nat \<Rightarrow> (nat \<Rightarrow> nat) \<Rightarrow> (nat \<Rightarrow> (query_error + (bool \<times> i32) option) option) \<Rightarrow> nat \<Rightarrow> bool" where
  "ends_at max_wait elapsed query m \<longleftrightarrow>
     (\<forall>i<m. elapsed i < max_wait \<and> \<not> says_ready (query i)) \<and> (max_wait \<le> elapsed m \<or> says_ready (query m))"

lemma wait_loop_outcome:
  assumes "ends_at max_wait elapsed query m" and "\<And>i. i < m \<Longrightarrow> query i \<noteq> None"
  shows "wait_loop max_wait timeout elapsed query 0 =
     Some (if max_wait \<le> elapsed m then Inl timeout
           else (case query m of Some (Inr (Some (_, n))) \<Rightarrow> Inr n | _ \<Rightarrow> Inl timeout))"
proof -
  have "wait_loop max_wait timeout elapsed query 0 = wait_loop max_wait timeout elapsed query m"
    using assms by (intro wait_loop_skips) (auto simp: ends_at_def)
  with assms(1) show ?thesis
    by (subst (asm) (2) wait_loop.simps) (auto simp: ends_at_def says_ready_def split: option.splits sum.splits)
qed

text \<open>Rounds at least one interval apart reach the timeout after \<open>max_wait div interval + 1\<close> rounds.\<close>

lemma elapsed_grows:
  fixes elapsed :: "nat \<Rightarrow> nat"
  assumes "\<And>k. elapsed k + interval \<le> elapsed (Suc k)"
  shows "k * interval \<le> elapsed k"
proof (induction k)
  case (Suc k)
  then show ?case using assms [of k] by simp
qed simp

lemma ends_at_exists:
  assumes "0 < interval" and "\<And>k. elapsed k + interval \<le> elapsed (Suc k)"
  shows "\<exists>m \<le> Suc (max_wait div interval). ends_at max_wait elapsed query m"
proof -
  let ?N = "Suc (max_wait div interval)"
  let ?P = "\<lambda>m. max_wait \<le> elapsed m \<or> says_ready (query m)"
  have "max_wait \<le> ?N * interval"
    using dividend_less_times_div [OF assms(1), of max_wait] by (simp add: algebra_simps)
  also have "\<dots> \<le> elapsed ?N" using assms(2) by (rule elapsed_grows)
  finally have "?P ?N" by simp
  define m where "m = (LEAST m. ?P m)"
  have "?P m" unfolding m_def by (rule LeastI) (fact \<open>?P ?N\<close>)
  moreover have "m \<le> ?N" unfolding m_def by (rule Least_le) (fact \<open>?P ?N\<close>)
  moreover have "\<not> ?P i" if "i < m" for i using not_less_Least [of i ?P] that by (simp add: m_def)
  ultimately show ?thesis unfolding ends_at_def by (intro exI [of _ m]) (simp add: not_le)
qed

text \<open>A pod is reported ready only by a state that names it and carries the flag.\<close>

lemma scan_states_ready:
  "says_ready (scan_states pod ready pod_name ss fin) \<longleftrightarrow>
     (\<exists>s. find (\<lambda>s. pod s = pod_name) ss = Some s \<and> fst (ready s))"
  by (induction ss) (auto simp: says_ready_def split: stream_end.splits)

lemma scan_states_found:
  "find (\<lambda>s. pod s = pod_name) ss = Some s \<Longrightarrow> scan_states pod ready pod_name ss fin = Some (Inr (Some (ready s)))"
  by (induction ss) (auto split: if_splits)

end
