(* ===== verification/Readiness_Props.thy ===== *)
theory Readiness_Props
  imports Readiness_Wait Janus_Props
begin

section \<open>What the waiting tools guarantee\<close>

text \<open>
  The tools return within a number of rounds that follows from the two durations, as long as every query
  returns; a daemon that accepts the call and stays silent holds them for ever; against the daemons of
  this repository they never succeed; and a guard that covers no container counts as ready.
\<close>

subsection \<open>Termination\<close>

text \<open>
  C30: guard-wait returns. If the poll interval is not 0, a round begins at least one interval after the one
  before (a sleep never ends early, the clock never runs back) and every query returns, the tool returns
  within \<open>max_wait div interval + 1\<close> rounds: at the first round at which the guard of the pod is ready, with
  its number of mounts, or with the timeout message at the first round that begins too late.
\<close>

theorem guard_wait_returns:
  assumes "0 < ga_poll_interval_ms args"
    and "\<And>k. po_elapsed (polls k) + from_millis (ga_poll_interval_ms args) \<le> po_elapsed (polls (Suc k))"
    and "\<And>k. query_guard_state args (polls k) \<noteq> None"
  shows "\<exists>m \<le> Suc (from_secs (ga_max_wait_secs args) div from_millis (ga_poll_interval_ms args)).
    (\<forall>i<m. po_elapsed (polls i) < from_secs (ga_max_wait_secs args) \<and> \<not> says_ready (query_guard_state args (polls i))) \<and>
    (if from_secs (ga_max_wait_secs args) \<le> po_elapsed (polls m) then wait_for_guard args polls = Some (Inl (guard_timeout args))
     else (\<exists>n. query_guard_state args (polls m) = Some (Inr (Some (True, n))) \<and> wait_for_guard args polls = Some (Inr n)))"
proof -
  let ?max = "from_secs (ga_max_wait_secs args)" and ?int = "from_millis (ga_poll_interval_ms args)"
  let ?el = "po_elapsed \<circ> polls" and ?q = "query_guard_state args \<circ> polls"
  have "0 < ?int" using assms(1) by (simp add: from_millis_def word_greater_zero_iff unat_gt_0)
  then obtain m where m: "m \<le> Suc (?max div ?int)" "ends_at ?max ?el ?q m"
    using ends_at_exists [of ?int ?el ?max ?q] assms(2) by auto
  from wait_loop_outcome [OF m(2), of "guard_timeout args"] assms(3) have
    "wait_for_guard args polls = Some (if ?max \<le> ?el m then Inl (guard_timeout args)
       else (case ?q m of Some (Inr (Some (_, n))) \<Rightarrow> Inr n | _ \<Rightarrow> Inl (guard_timeout args)))"
    by (simp add: wait_for_guard_def)
  with m show ?thesis
    by (intro exI [of _ m]) (auto simp: ends_at_def says_ready_def split: option.splits sum.splits)
qed

definition example_wait :: guard_wait_args where
  "example_wait = \<lparr>ga_guard_name = ''g'', ga_namespace = ''ns'', ga_pod_name = ''p'', ga_janusd_address = [],
     ga_max_wait_secs = 30, ga_poll_interval_ms = 500, ga_verbose = False\<rparr>"

text \<open>A daemon that no connection reaches, polled every 600 milliseconds.\<close>

definition unreachable_polls :: "nat \<Rightarrow> guard_state poll" where
  "unreachable_polls k = \<lparr>po_elapsed = k * 600000000, po_connect = Inl ''refused'', po_call = (\<lambda>_ _. NoReply)\<rparr>"

theorem guard_wait_returns_witness:
  "\<exists>m \<le> 61. po_elapsed (unreachable_polls m) \<ge> 30000000000 \<and>
     wait_for_guard example_wait unreachable_polls = Some (Inl (guard_timeout example_wait))"
proof -
  have "0 < ga_poll_interval_ms example_wait" by (simp add: example_wait_def)
  moreover have "po_elapsed (unreachable_polls k) + from_millis (ga_poll_interval_ms example_wait)
      \<le> po_elapsed (unreachable_polls (Suc k))" for k
    by (simp add: unreachable_polls_def example_wait_def from_millis_def)
  moreover have "query_guard_state example_wait (unreachable_polls k) \<noteq> None" for k
    by (simp add: unreachable_polls_def query_guard_state_def)
  ultimately obtain m where "m \<le> Suc (30000000000 div 500000000)"
    "if 30000000000 \<le> po_elapsed (unreachable_polls m)
     then wait_for_guard example_wait unreachable_polls = Some (Inl (guard_timeout example_wait))
     else \<exists>n. query_guard_state example_wait (unreachable_polls m) = Some (Inr (Some (True, n))) \<and>
       wait_for_guard example_wait unreachable_polls = Some (Inr n)"
    using guard_wait_returns [of example_wait unreachable_polls]
    by (force simp: example_wait_def from_secs_def from_millis_def)
  then show ?thesis
    by (intro exI [of _ m]) (auto simp: query_guard_state_def unreachable_polls_def split: if_splits)
qed

text \<open>The same for watcher-wait.\<close>

theorem watcher_wait_returns:
  assumes "0 < wa_poll_interval_ms args"
    and "\<And>k. po_elapsed (polls k) + from_millis (wa_poll_interval_ms args) \<le> po_elapsed (polls (Suc k))"
    and "\<And>k. query_watch_state args (polls k) \<noteq> None"
  shows "\<exists>m \<le> Suc (from_secs (wa_max_wait_secs args) div from_millis (wa_poll_interval_ms args)).
    (\<forall>i<m. \<not> says_ready (query_watch_state args (polls i))) \<and>
    (if from_secs (wa_max_wait_secs args) \<le> po_elapsed (polls m)
     then wait_for_watcher args polls = Some (Inl (watcher_timeout args))
     else (\<exists>n. query_watch_state args (polls m) = Some (Inr (Some (True, n))) \<and> wait_for_watcher args polls = Some (Inr n)))"
proof -
  let ?max = "from_secs (wa_max_wait_secs args)" and ?int = "from_millis (wa_poll_interval_ms args)"
  let ?el = "po_elapsed \<circ> polls" and ?q = "query_watch_state args \<circ> polls"
  have "0 < ?int" using assms(1) by (simp add: from_millis_def word_greater_zero_iff unat_gt_0)
  then obtain m where m: "m \<le> Suc (?max div ?int)" "ends_at ?max ?el ?q m"
    using ends_at_exists [of ?int ?el ?max ?q] assms(2) by auto
  from wait_loop_outcome [OF m(2), of "watcher_timeout args"] assms(3) have
    "wait_for_watcher args polls = Some (if ?max \<le> ?el m then Inl (watcher_timeout args)
       else (case ?q m of Some (Inr (Some (_, n))) \<Rightarrow> Inr n | _ \<Rightarrow> Inl (watcher_timeout args)))"
    by (simp add: wait_for_watcher_def)
  with m show ?thesis
    by (intro exI [of _ m]) (auto simp: ends_at_def says_ready_def split: option.splits sum.splits)
qed

text \<open>
  The timeout is only tested between queries. A daemon that accepts the call and never answers holds the
  tool for ever, whatever \<open>max_wait\<close> is.
\<close>

theorem silent_daemon_blocks_wait:
  assumes "po_connect (polls 0) = Inr ()" and "\<And>r. po_call (polls 0) GUARD_STATE_METHOD r = NoReply"
    and "po_elapsed (polls 0) < from_secs (ga_max_wait_secs args)"
  shows "wait_for_guard args polls = None"
  using assms by (simp add: wait_for_guard_def wait_loop.simps [of _ _ _ _ 0] query_guard_state_def)

subsection \<open>The daemons and the tools\<close>

definition JANUS_SERVICE_NAME :: string where
  "JANUS_SERVICE_NAME = ''janus.v2.JanusdService''"

text \<open>The router of the server: a method of a service that was not added is refused.\<close>

definition serves_only :: "string list \<Rightarrow> 's poll \<Rightarrow> bool" where
  "serves_only services p \<longleftrightarrow>
     (\<forall>m r. list_ex (\<lambda>s. starts_with m (''/'' @ s @ ''/'')) services \<or> po_call p m r = Refused (Unimplemented []))"

text \<open>
  C31: guard-wait never succeeds against janusd. The tool calls the service \<open>janus.v1\<close>; the server of the daemon
  holds the service \<open>janus.v2\<close> and the health service only, and answers every other call with
  \<open>unimplemented\<close>. Whatever guards exist, the tool ends with the timeout and exit code 1, and the pod never
  starts.
\<close>

theorem guard_wait_never_succeeds:
  assumes "0 < ga_poll_interval_ms args"
    and "\<And>k. po_elapsed (polls k) + from_millis (ga_poll_interval_ms args) \<le> po_elapsed (polls (Suc k))"
    and served: "\<And>k. serves_only [''grpc.health.v1.Health'', JANUS_SERVICE_NAME] (polls k)"
  shows "wait_for_guard args polls = Some (Inl (guard_timeout args)) \<and> guard_wait_main args polls = Some 1"
proof -
  have "\<not> list_ex (\<lambda>s. starts_with GUARD_STATE_METHOD (''/'' @ s @ ''/'')) [''grpc.health.v1.Health'', JANUS_SERVICE_NAME]"
    by (simp add: GUARD_STATE_METHOD_def JANUS_SERVICE_NAME_def starts_with_def)
  then have "po_call (polls k) GUARD_STATE_METHOD r = Refused (Unimplemented [])" for k r
    using served [of k] unfolding serves_only_def by blast
  then have q: "\<exists>e. query_guard_state args (polls k) = Some (Inl e)" for k
    by (auto simp: query_guard_state_def split: sum.splits)
  let ?max = "from_secs (ga_max_wait_secs args)" and ?int = "from_millis (ga_poll_interval_ms args)"
  let ?el = "po_elapsed \<circ> polls" and ?q = "query_guard_state args \<circ> polls"
  have "0 < ?int" using assms(1) by (simp add: from_millis_def word_greater_zero_iff unat_gt_0)
  then obtain m where m: "ends_at ?max ?el ?q m"
    using ends_at_exists [of ?int ?el ?max ?q] assms(2) by auto
  moreover have "?q i \<noteq> None" for i using q [of i] by auto
  ultimately have "wait_for_guard args polls = Some (Inl (guard_timeout args))"
    using wait_loop_outcome [OF m, of "guard_timeout args"] q [of m]
    by (auto simp: wait_for_guard_def)
  then show ?thesis by (simp add: guard_wait_main_def)
qed

text \<open>A janusd whose state holds the guard of the pod as ready, behind the router.\<close>

definition routed_polls :: "guard_state list \<Rightarrow> nat \<Rightarrow> guard_state poll" where
  "routed_polls ss k = \<lparr>po_elapsed = k * 600000000, po_connect = Inr (),
     po_call = (\<lambda>m r. if starts_with m (''/'' @ JANUS_SERVICE_NAME @ ''/'') then States ss StreamEnded
                      else Refused (Unimplemented []))\<rparr>"

theorem guard_wait_never_succeeds_witness:
  "guard_wait_main example_wait (routed_polls (get_guard_state ''g'' ''ns'' (\<lambda>_. True)
     (snd (create_guard example_env (example_request ''p'') (example_service 1))))) = Some 1"
proof -
  let ?ss = "get_guard_state ''g'' ''ns'' (\<lambda>_. True)
     (snd (create_guard example_env (example_request ''p'') (example_service 1)))"
  have "serves_only [''grpc.health.v1.Health'', JANUS_SERVICE_NAME] (routed_polls ?ss k)" for k
    by (simp add: serves_only_def routed_polls_def)
  moreover have "0 < ga_poll_interval_ms example_wait"
    "po_elapsed (routed_polls ?ss k) + from_millis (ga_poll_interval_ms example_wait) \<le> po_elapsed (routed_polls ?ss (Suc k))" for k
    by (simp_all add: routed_polls_def example_wait_def from_millis_def)
  ultimately show ?thesis using guard_wait_never_succeeds [of example_wait "routed_polls ?ss"] by simp
qed

text \<open>
  C32: A guard without a container is reported as ready. janusd accepts a request for container ids none of
  which the runtime resolves (and no pids): it answers with 0 registered marks, starts a guard without a
  single mark, and from then on \<open>get_guard_state\<close> reports for that pod that the marks are registered, with a
  mount count of 0. This is the message in which guard-wait looks for a ready guard; that the shipped tool
  calls another version of the service and never receives it is a different matter.
\<close>

theorem unresolved_guard_reported_ready:
  assumes "table_wf (j_sessions svc)" and "session_count (j_sessions svc) < j_max_guards svc"
    and "\<not> session_exists (cg_key req) (j_sessions svc)" and "\<not> cg_paused req"
    and "cg_pids req = []" and "resolve_container_pids (env_fs env) svc (cg_container_ids req) = []"
    and "guard_new (env_glob env) (env_lru env) (env_init env) (build_guard_config (cg_subjects req) (cg_enforcing req))
           (Some (guard_metrics_new (cg_guard_name req))) = Inr g"
    and "create_guard env req svc = (r, svc')"
  shows "r = Inr (create_guard_response_of req 0) \<and> j_guard_tasks svc' = j_guard_tasks svc @ [g] \<and> g_marks_active g = 0 \<and>
    (\<exists>st. st \<in> set (get_guard_state (cg_guard_name req) (cg_namespace req) (\<lambda>_. True) svc') \<and>
       st_pod_name st = cg_pod_name req \<and> st_marks_registered st \<and> st_mount_count st = 0)"
proof -
  let ?a = "length (tbl_heap (j_sessions svc))"
  let ?s = "mark_ready (build_guard_config (cg_subjects req) (cg_enforcing req)) (env_now env) 0
    (new_guard_session (env_now env) req [] (length (j_metrics_heap svc)))"
  have "create_guard_check req svc = None" using assms(2,3) by (simp add: create_guard_check_def)
  then have created: "r = Inr (create_guard_response_of req 0) \<and> j_guard_tasks svc' = j_guard_tasks svc @ [g] \<and>
      j_sessions svc' = session_modify ?a (\<lambda>_. ?s) (snd (map_insert (cg_key req) ?s (j_sessions svc)))"
    using assms(4-8)
    by (auto simp: create_guard_def create_guard_insert_parts Let_def map_insert_def create_guard_start_parts
        session_modify_def new_guard_session_def)
  then have "(cg_key req, ?a) \<in> set (tbl_map (j_sessions svc'))" "tbl_heap (j_sessions svc') ! ?a = ?s"
    by (auto simp: map_insert_def session_modify_def Let_def update_conv' intro: map_of_SomeD)
  then have "?s \<in> set (live_sessions svc')" by (force simp: live_sessions_def)
  then have "session_to_guard_state ?s \<in> set (get_guard_state (cg_guard_name req) (cg_namespace req) (\<lambda>_. True) svc')"
    by (auto simp: get_guard_state_def send_all_connected mark_ready_def new_guard_session_def)
  moreover have "g_marks_active g = 0"
    using assms(7) by (auto simp: guard_new_def split: sum.splits)
  ultimately show ?thesis
    using created
    by (auto simp: session_to_guard_state_def mark_ready_def new_guard_session_def intro!: exI [of _ "session_to_guard_state ?s"])
qed

definition unresolved_request :: create_guard_request where
  "unresolved_request = (example_request ''p'')\<lparr>cg_paused := False, cg_pids := [], cg_container_ids := [''c'']\<rparr>"

theorem unresolved_guard_reported_ready_witness:
  "\<exists>st. st \<in> set (get_guard_state ''g'' ''ns'' (\<lambda>_. True) (snd (create_guard example_env unresolved_request (example_service 1)))) \<and>
     st_pod_name st = ''p'' \<and> st_marks_registered st \<and> st_mount_count st = 0"
proof -
  obtain g where g: "guard_new (env_glob example_env) (env_lru example_env) (env_init example_env)
      (build_guard_config (cg_subjects unresolved_request) (cg_enforcing unresolved_request))
      (Some (guard_metrics_new (cg_guard_name unresolved_request))) = Inr g"
    by (simp add: guard_new_def build_guard_config_def with_config_def literal_glob_def example_env_def
        unresolved_request_def example_request_def DEFAULT_MAX_MARKS_PER_GUARD_def)
  have "resolve_container_pids (env_fs example_env) (example_service 1) (cg_container_ids unresolved_request) = []"
    "table_wf (j_sessions (example_service 1))" "session_count (j_sessions (example_service 1)) < j_max_guards (example_service 1)"
    "\<not> session_exists (cg_key unresolved_request) (j_sessions (example_service 1))"
    by (simp_all add: example_service_def janusd_new_def new_session_map_def resolve_container_pids_def table_wf_def
        session_count_def session_exists_def unresolved_request_def)
  with unresolved_guard_reported_ready [OF _ _ _ _ _ _ g surjective_pairing]
  show ?thesis by (force simp: unresolved_request_def example_request_def)
qed

end
