(* ===== verification/Spec2Isabelle.thy ===== *)
theory Spec2Isabelle
  imports Prelude Policy Dedupe Metrics Guard_Metrics Watcher_Metrics Audit_Log Guard Session Broadcast Proc
    Container_Runtime Grpc Janus_Service Janus_Props Janus_Pipeline Janus_Tasks Notify Notify_Props Argus_Service Argus_Props Argus_Pipeline Argus_Locks
    Ebpf_Types Ebpf_Kernel Ebpf_Loader Ebpf_Props Ebpf_Ring Ebpf_Process Janus_Ebpf_Service Janus_Ebpf_Props
    Argus_Ebpf_Service Argus_Ebpf_Props Environment Startup Startup_Props Glog Daemon_Logs Readiness_Wait Readiness_Props
begin

text \<open>
  \<^bold>\<open>Panoptes.\<close> Panoptes guards the files of Kubernetes pods. Two daemons run on every node: janusd
  (\<open>daemons/janusd\<close>) decides and audits accesses with fanotify, argusd (\<open>daemons/argusd\<close>) reports changes with
  inotify. Both can instead run in an eBPF mode, in which programs in the kernel filter accesses and submit
  events through a ring buffer. The common crate (\<open>daemons/common\<close>) holds what they share: sessions, streams,
  metrics, container runtimes, procfs, the eBPF loader and programs, and the checks at startup. Two small
  tools (\<open>tools/guard-wait\<close>, \<open>tools/watcher-wait\<close>) hold the start of a pod until its guard or watcher is
  ready. Operators written in Go drive the daemons through gRPC (\<open>proto\<close>).

  \<^bold>\<open>How the model reads.\<close> A struct is a record, an enum a datatype, one function of the source one definition
  with the source's name (suffixed or prefixed where two components use the same name). Mutable state is
  passed and returned; objects shared through \<open>Arc\<close> live in lists addressed by position (sessions,
  collectors, watchers). Errors are the left side of a sum, a panic is \<^const>\<open>Panicked\<close>, an await that never
  completes is \<^const>\<open>None\<close> or a waiting state. Integers that the source keeps at a width are words; \<open>usize\<close>
  counts of objects in memory are natural numbers. Both daemons are built with overflow checks: sums of
  event counters are checked additions, atomics wrap; the \<open>i32\<close> sums of the lengths of request lists, whose
  overflow a message of the default size cannot cause, are written as word additions. Strings are byte
  lists; where UTF-8 matters the byte patterns are checked.

  What is not in this repository is an argument of the definitions: the glob matcher and the LRU cache
  (Policy), the kernel's answers to fanotify, inotify, netlink and \<open>getrlimit\<close>, the file system, the clock,
  the aya library (Ebpf_Loader), the kernel memory the eBPF programs read (Ebpf_Kernel), the tokio channels
  and locks, the tonic router. What the code relies on is a named hypothesis, and the witness of each
  property instantiates it with a concrete function.

  \<^bold>\<open>The theories.\<close>
  \<^item> Prelude and Rust_Text: machine types, results, strings, paths, UTF-8, files; checked sums.
  \<^item> Policy (\<open>janusd/src/policy.rs\<close>): patterns, the decision cache, updates. The cached evaluator refines the
    ordered list of rules; deny comes first; a failed update serves stale decisions.
  \<^item> Dedupe (\<open>janusd/src/dedupe.rs\<close>): what is suppressed and why, and the bound on its size.
  \<^item> Metrics, Guard_Metrics, Watcher_Metrics (\<open>common/src/metrics.rs\<close>, \<open>janusd/src/metrics.rs\<close>,
    \<open>argusd/src/metrics.rs\<close>): counters behind the locale \<open>daemon_metrics\<close>, the aggregator.
  \<^item> Audit_Log (\<open>janusd/src/audit.rs\<close>): message text and netlink frame, read back; three loggers behind the
    locale \<open>audit_sink\<close>.
  \<^item> Guard (\<open>janusd/src/guard.rs\<close>): masks, marks, the event loop with retries. While the channel is open, every
    permission event whose response gets through is answered once, in order, as the rules say.
  \<^item> Session (\<open>common/src/session.rs\<close>): the table refines a map with a capacity; the locale \<open>session_service\<close>
    carries the limit on sessions to all four services, over requests that each meet their own answers of the kernel,
    the files and the clock.
  \<^item> Broadcast (\<open>common/src/broadcast.rs\<close>, \<open>grpc.rs\<close>): stream filters and the tasks that serve a subscriber.
  \<^item> Proc and Container_Runtime (\<open>common/src/proc.rs\<close>, \<open>container_runtime.rs\<close>, \<open>paths.rs\<close>): parsers of procfs,
    container ids to pids; the locale \<open>runtime_contract\<close> confines what both runtimes read.
  \<^item> Grpc, Janus_Service and Janus_Props (\<open>janusd/src/service.rs\<close>): all handlers, the forwarding task, the limit on
    guards, creation and destruction, and the race between two creations. Janus_Pipeline puts the guard, its deduplication, the forwarding task and
    the stream of a subscriber together: exactly the denied accesses are reported as denied. Janus_Tasks: the same handlers as tasks
    that interleave at their awaits (\<open>task_moves\<close>, \<open>daemon_step\<close>); every client that stays gets the answer of its
    call or its complete stream, the limit holds up to the number of overlapping creations, and a stream that nobody
    reads blocks the session table. What tonic and HTTP/2 buffer between a channel and its client counts as read.
  \<^item> Notify and Notify_Props (\<open>argusd/src/notify.rs\<close>): watches, recursion, move pairs, proxy watches, overflow,
    pause and resume; the locale \<open>registration_invariant\<close> carries invariants through registration.
  \<^item> Argus_Service and Argus_Props (\<open>argusd/src/service.rs\<close>): all handlers, the event loops that hold the lock of
    their watcher, and what follows for the handlers that wait for it; the forwarding task is a loop that awaits the lock of its
    session for every event. Argus_Pipeline puts the watched path, the watcher,
    the forwarding task and the stream together: every plain change is reported under its path in the
    container, whatever patterns are to be ignored. Argus_Locks: the handlers as tasks over the
    locks of the table, the sessions and the watchers (\<open>machine_step\<close>); one pause with one query locks the daemon up.
  \<^item> Ebpf_Types, Ebpf_Kernel, Ebpf_Loader (\<open>common/src/ebpf\<close>, \<open>janusd/ebpf\<close>, \<open>argusd/ebpf\<close>): the shared structures,
    path walk, filter, process cache and hooks, loading and the maps behind the locale \<open>path_map_contract\<close>.
    Ebpf_Props, Ebpf_Ring and Ebpf_Process show what the programs compute: the path, which events pass the
    filter, which deny paths deny (none of 2 to 254 bytes), that events reach the daemon unchanged, that an entry of the process
    cache is that of the last recorded exec.
  \<^item> Janus_Ebpf_Service, Argus_Ebpf_Service and their Props (\<open>service_ebpf.rs\<close> of both daemons): all handlers and the
    forwarding tasks, from the request to the kernel map and from the event to the report.
  \<^item> Environment, Startup, Startup_Props (\<open>capabilities.rs\<close>, \<open>resource_limits.rs\<close>, \<open>ebpf_support.rs\<close>, \<open>environment.rs\<close>,
    both \<open>main.rs\<close>): exactly which hosts the daemons start on and in which mode.
  \<^item> Glog (\<open>common/src/glog.rs\<close>): the line written for a log event. Daemon_Logs (both \<open>main.rs\<close> and \<open>service.rs\<close>): the
    level filter, the messages of a start and the lines of accesses and changes; the log of a start tells
    what the daemon does, the lines of a guard go with its stream, and a path can forge them.
  \<^item> Readiness_Wait, Readiness_Props (\<open>tools\<close>): the polling loop, its termination, and its composition with
    janusd.

  \<^bold>\<open>Bounds.\<close> Loops over finite data are structural recursions or have a measure. The loop of the waiting
  tools may not end: it is a partial function with an option, and Readiness_Props shows that \<open>max_wait div interval + 1\<close>
  rounds are enough when every query returns. The loops of the eBPF programs have the bounds of the source
  (20 names, 32 bytes a name, 256 bytes a path). Recursive registration in argusd carries the depth left by
  the configuration.

  \<^bold>\<open>Not modelled.\<close> The module roots and re-exports (\<open>lib.rs\<close>, \<open>mod.rs\<close>), the build scripts, command line parsing
  and the setup of the tracing subscriber (clap, tracing), the gRPC server and its health service (tonic),
  the text of log records other than the messages of a start and the lines of accesses and changes, the ring buffer and verifier of the kernel, the
  Go operators, the user interface and the deployment files. Benchmarks and integration tests only drive
  the code above.
\<close>

end
